(* ===== verification/Prelude.thy ===== *)
theory Prelude
  imports Main "HOL-Library.Word"
begin

text \<open>
  Shared vocabulary of the development: the machine types, Rust's \<open>Result\<close> as a sum with
  its sequencing, the parts of the standard library the sources use on bytes and strings
  (ASCII classification, UTF-8 validation, \<open>trim\<close>, prefix and suffix stripping, decimal and
  hexadecimal parsing and printing), and generic lemmas on lists.

  A \<open>Vec<u8>\<close> is a list of 8-bit words. A Rust \<open>String\<close> is a HOL string whose characters are
  its UTF-8 bytes, so \<open>length\<close> is \<open>String::len\<close> and a literal is written as it is in the source.
  An \<open>i64\<close> or \<open>i32\<close> is an \<open>int\<close>; unsigned integers keep their width.
\<close>

named_theorems result_simps \<open>rewriting of Result sequencing\<close>
named_theorems decode_simps \<open>evaluation of byte level decoders\<close>
named_theorems frame_laws \<open>laws of the incremental decoders\<close>

section \<open>Machine types\<close>

type_synonym byte = "8 word"
type_synonym u8 = "8 word"
type_synonym u16 = "16 word"
type_synonym u32 = "32 word"
type_synonym u64 = "64 word"
type_synonym usize = "nat"
type_synonym i32 = int
type_synonym i64 = int

text \<open>
  A UUID is what the program observes of it: its version number and its identity. The
  generator \<open>Uuid::now_v7\<close> is never called in the model: each operation that draws an
  identifier takes it as an argument.
\<close>

datatype uuid = Uuid (version_num: nat) (uuid_bits: nat)

definition saturating_add_u32 :: "u32 \<Rightarrow> u32 \<Rightarrow> u32" where
  "saturating_add_u32 a b = (if unat a + unat b < 2 ^ 32 then a + b else - 1)"

lemma saturating_add_u32_ge: "a \<le> saturating_add_u32 a b"
proof (cases "unat a + unat b < 2 ^ 32")
  case True
  then have "unat (a + b) = unat a + unat b"
    by (simp add: unat_word_ariths)
  with True show ?thesis
    by (simp add: saturating_add_u32_def word_le_nat_alt)
next
  case False
  have "a \<le> (- 1 :: u32)" by (rule word_n1_ge)
  with False show ?thesis by (simp add: saturating_add_u32_def)
qed

section \<open>Results\<close>

type_synonym ('e, 'a) result = "'e + 'a"

definition bindr :: "'e + 'a \<Rightarrow> ('a \<Rightarrow> 'e + 'b) \<Rightarrow> 'e + 'b" where
  "bindr r f = (case r of Inl e \<Rightarrow> Inl e | Inr x \<Rightarrow> f x)"

definition mapr :: "('a \<Rightarrow> 'b) \<Rightarrow> 'e + 'a \<Rightarrow> 'e + 'b" where
  "mapr f r = (case r of Inl e \<Rightarrow> Inl e | Inr x \<Rightarrow> Inr (f x))"

definition map_err :: "('e \<Rightarrow> 'f) \<Rightarrow> 'e + 'a \<Rightarrow> 'f + 'a" where
  "map_err f r = (case r of Inl e \<Rightarrow> Inl (f e) | Inr x \<Rightarrow> Inr x)"

definition ok_or :: "'a option \<Rightarrow> 'e \<Rightarrow> 'e + 'a" where
  "ok_or x e = (case x of None \<Rightarrow> Inl e | Some v \<Rightarrow> Inr v)"

definition is_ok :: "'e + 'a \<Rightarrow> bool" where
  "is_ok r = (case r of Inl _ \<Rightarrow> False | Inr _ \<Rightarrow> True)"

definition is_some :: "'a option \<Rightarrow> bool" where
  "is_some x = (case x of None \<Rightarrow> False | Some _ \<Rightarrow> True)"

definition is_some_and :: "'a option \<Rightarrow> ('a \<Rightarrow> bool) \<Rightarrow> bool" where
  "is_some_and x p = (case x of None \<Rightarrow> False | Some v \<Rightarrow> p v)"

definition or_else :: "'a option \<Rightarrow> 'a option \<Rightarrow> 'a option" where
  "or_else x y = (case x of None \<Rightarrow> y | Some v \<Rightarrow> Some v)"

definition unwrap_or :: "'a option \<Rightarrow> 'a \<Rightarrow> 'a" where
  "unwrap_or x d = (case x of None \<Rightarrow> d | Some v \<Rightarrow> v)"

lemma bindr_simps [simp, result_simps]:
  "bindr (Inl e) f = Inl e" "bindr (Inr x) f = f x"
  by (simp_all add: bindr_def)

lemma mapr_simps [simp, result_simps]:
  "mapr g (Inl e) = Inl e" "mapr g (Inr x) = Inr (g x)"
  by (simp_all add: mapr_def)

lemma map_err_simps [simp, result_simps]:
  "map_err g (Inl e) = Inl (g e)" "map_err g (Inr x) = Inr x"
  by (simp_all add: map_err_def)

lemma option_simps [simp, result_simps]:
  "ok_or None e = Inl e" "ok_or (Some v) e = Inr v"
  "is_some None = False" "is_some (Some v) = True"
  "is_some_and None p = False" "is_some_and (Some v) p = p v"
  "or_else None y = y" "or_else (Some v) y = Some v"
  "unwrap_or None v = v" "unwrap_or (Some w) v = w"
  by (simp_all add: ok_or_def is_some_def is_some_and_def or_else_def unwrap_or_def)

lemma is_ok_simps [simp, result_simps]: "is_ok (Inl e) = False" "is_ok (Inr x) = True"
  by (simp_all add: is_ok_def)

lemma is_some_iff: "is_some x \<longleftrightarrow> x \<noteq> None"
  by (cases x) simp_all

lemma is_some_ex: "is_some x \<longleftrightarrow> (\<exists>v. x = Some v)"
  by (cases x) simp_all

lemma is_some_and_iff: "is_some_and x p \<longleftrightarrow> (\<exists>v. x = Some v \<and> p v)"
  by (cases x) simp_all

lemma is_ok_iff: "is_ok r \<longleftrightarrow> (\<exists>x. r = Inr x)"
  by (cases r) simp_all

lemma bindr_eq_Inr: "bindr r f = Inr y \<longleftrightarrow> (\<exists>x. r = Inr x \<and> f x = Inr y)"
  by (cases r) simp_all

lemma mapr_eq_Inr: "mapr g r = Inr y \<longleftrightarrow> (\<exists>x. r = Inr x \<and> y = g x)"
  by (cases r) auto

lemma mapr_eq_Inl: "mapr g r = Inl e \<longleftrightarrow> r = Inl e"
  by (cases r) auto

lemma mapr_mapr: "mapr f (mapr g r) = mapr (\<lambda>x. f (g x)) r"
  by (cases r) simp_all

lemma mapr_id: "mapr (\<lambda>x. x) r = r"
  by (cases r) simp_all

lemma map_err_eq_Inr: "map_err g r = Inr x \<longleftrightarrow> r = Inr x"
  by (cases r) simp_all

lemma ok_or_eq_Inr: "ok_or x e = Inr v \<longleftrightarrow> x = Some v"
  by (cases x) simp_all

text \<open>A sequence of checks, each followed by \<open>?\<close>: the first failure is the result.\<close>

fun check_all :: "('e + unit) list \<Rightarrow> 'e + unit" where
  "check_all [] = Inr ()"
| "check_all (c # cs) = (case c of Inl e \<Rightarrow> Inl e | Inr _ \<Rightarrow> check_all cs)"

definition reject_if :: "bool \<Rightarrow> 'e \<Rightarrow> 'e + unit" where
  "reject_if b e = (if b then Inl e else Inr ())"

definition check_opt :: "'a option \<Rightarrow> ('a \<Rightarrow> 'e + unit) \<Rightarrow> 'e + unit" where
  "check_opt x f = (case x of None \<Rightarrow> Inr () | Some v \<Rightarrow> f v)"

lemma reject_if_ok [simp]: "reject_if b e = Inr u \<longleftrightarrow> \<not> b"
  by (simp add: reject_if_def)

lemma check_opt_simps [simp]: "check_opt None f = Inr ()" "check_opt (Some v) f = f v"
  by (simp_all add: check_opt_def)

lemma check_opt_ok: "check_opt x f = Inr u \<longleftrightarrow> (\<forall>v. x = Some v \<longrightarrow> f v = Inr ())"
  by (cases x) auto

lemma check_all_ok: "check_all cs = Inr u \<longleftrightarrow> (\<forall>c \<in> set cs. c = Inr ())"
  by (induction cs) (auto split: sum.splits)

lemma check_all_Cons_ok [simp]:
  "check_all (c # cs) = Inr u \<longleftrightarrow> c = Inr () \<and> check_all cs = Inr ()"
  by (auto split: sum.splits)

declare check_all.simps(2) [simp del]

lemma check_all_append:
  "check_all (cs @ ds) = (case check_all cs of Inl e \<Rightarrow> Inl e | Inr _ \<Rightarrow> check_all ds)"
  by (induction cs) (auto simp: check_all.simps(2) split: sum.splits)

text \<open>A fallible step over the elements of a list, left to right, as a \<open>for\<close> loop with \<open>?\<close>.\<close>

fun foldr_m :: "('s \<Rightarrow> 'a \<Rightarrow> 'e + 's) \<Rightarrow> 's \<Rightarrow> 'a list \<Rightarrow> 'e + 's" where
  "foldr_m f s [] = Inr s"
| "foldr_m f s (x # xs) = bindr (f s x) (\<lambda>s'. foldr_m f s' xs)"

lemma foldr_m_append: "foldr_m f s (xs @ ys) = bindr (foldr_m f s xs) (\<lambda>s'. foldr_m f s' ys)"
proof (induction xs arbitrary: s)
  case Nil
  then show ?case by simp
next
  case (Cons x xs)
  then show ?case by (cases "f s x") simp_all
qed

lemma foldr_m_invariant:
  assumes "foldr_m f s xs = Inr s'" and "P s"
    and "\<And>s x s'. P s \<Longrightarrow> x \<in> set xs \<Longrightarrow> f s x = Inr s' \<Longrightarrow> P s'"
  shows "P s'"
  using assms
proof (induction xs arbitrary: s)
  case Nil
  then show ?case by simp
next
  case (Cons x xs)
  from Cons.prems(1) obtain t where t: "f s x = Inr t" "foldr_m f t xs = Inr s'"
    by (auto simp: bindr_eq_Inr)
  have "P t" by (rule Cons.prems(3) [OF Cons.prems(2) _ t(1)]) simp
  show ?case
  proof (rule Cons.IH [OF t(2) \<open>P t\<close>])
    fix s y u
    assume "P s" "y \<in> set xs" "f s y = Inr u"
    then show "P u" by (intro Cons.prems(3) [of s y u]) simp_all
  qed
qed

fun map_m :: "('a \<Rightarrow> 'e + 'b) \<Rightarrow> 'a list \<Rightarrow> 'e + 'b list" where
  "map_m f [] = Inr []"
| "map_m f (x # xs) = bindr (f x) (\<lambda>y. mapr (\<lambda>ys. y # ys) (map_m f xs))"

lemma map_m_Inr_length: "map_m f xs = Inr ys \<Longrightarrow> length ys = length xs"
  by (induction xs arbitrary: ys) (auto simp: bindr_eq_Inr mapr_eq_Inr)

section \<open>Bytes and strings\<close>

definition str_bytes :: "string \<Rightarrow> byte list" where
  "str_bytes s = map of_char s"

definition bytes_str :: "byte list \<Rightarrow> string" where
  "bytes_str bs = map (\<lambda>b. char_of (unat b)) bs"

lemma length_str_bytes [simp]: "length (str_bytes s) = length s"
  by (simp add: str_bytes_def)

lemma length_bytes_str [simp]: "length (bytes_str bs) = length bs"
  by (simp add: bytes_str_def)

lemma str_bytes_append: "str_bytes (s @ t) = str_bytes s @ str_bytes t"
  by (simp add: str_bytes_def)

lemma bytes_str_append: "bytes_str (s @ t) = bytes_str s @ bytes_str t"
  by (simp add: bytes_str_def)

lemma unat_of_char: "unat (of_char c :: byte) = of_char c"
proof -
  have "(of_char c :: nat) < 2 ^ 8"
    using nat_of_char_less_256 [of c] by simp
  moreover have "(of_char c :: byte) = of_nat (of_char c)"
    by (metis of_nat_of_char)
  ultimately show ?thesis
    by (simp add: unat_of_nat)
qed

lemma bytes_str_str_bytes [simp]: "bytes_str (str_bytes s) = s"
  by (induction s) (simp_all add: bytes_str_def str_bytes_def unat_of_char)

text \<open>Rust's \<open>str::starts_with\<close>, \<open>strip_prefix\<close>, \<open>strip_suffix\<close>, \<open>ends_with\<close> and \<open>contains\<close>.\<close>

fun starts_with :: "'a list \<Rightarrow> 'a list \<Rightarrow> bool" where
  "starts_with xs [] = True"
| "starts_with [] (p # ps) = False"
| "starts_with (x # xs) (p # ps) = (x = p \<and> starts_with xs ps)"

definition strip_prefix :: "'a list \<Rightarrow> 'a list \<Rightarrow> 'a list option" where
  "strip_prefix xs p = (if starts_with xs p then Some (drop (length p) xs) else None)"

definition ends_with :: "'a list \<Rightarrow> 'a list \<Rightarrow> bool" where
  "ends_with xs p = starts_with (rev xs) (rev p)"

definition strip_suffix :: "'a list \<Rightarrow> 'a list \<Rightarrow> 'a list option" where
  "strip_suffix xs p = (if ends_with xs p then Some (take (length xs - length p) xs) else None)"

lemma starts_with_iff: "starts_with xs p \<longleftrightarrow> (\<exists>ys. xs = p @ ys)"
  by (induction xs p rule: starts_with.induct) auto

lemma starts_with_take: "starts_with xs p \<longleftrightarrow> take (length p) xs = p"
  by (induction xs p rule: starts_with.induct) auto

lemma starts_with_append [intro]: "starts_with xs p \<Longrightarrow> starts_with (xs @ ys) p"
  by (auto simp: starts_with_iff)

lemma strip_prefix_Some: "strip_prefix xs p = Some ys \<longleftrightarrow> xs = p @ ys"
  by (auto simp: strip_prefix_def starts_with_iff)

lemma ends_with_iff: "ends_with xs p \<longleftrightarrow> (\<exists>ys. xs = ys @ p)"
  unfolding ends_with_def starts_with_iff by (metis rev_append rev_rev_ident)

lemma strip_suffix_Some: "strip_suffix xs p = Some ys \<longleftrightarrow> xs = ys @ p"
  by (auto simp: strip_suffix_def ends_with_iff)

fun contains_sub :: "'a list \<Rightarrow> 'a list \<Rightarrow> bool" where
  "contains_sub [] p = (p = [])"
| "contains_sub (x # xs) p = (starts_with (x # xs) p \<or> contains_sub xs p)"

text \<open>\<open>windows(n).position(|w| w == p)\<close>: the first index at which \<open>p\<close> occurs.\<close>

fun find_sub :: "'a list \<Rightarrow> 'a list \<Rightarrow> nat option" where
  "find_sub p [] = (if p = [] then Some 0 else None)"
| "find_sub p (x # xs) =
     (if starts_with (x # xs) p then Some 0 else map_option Suc (find_sub p xs))"

lemma find_sub_Some:
  "find_sub p xs = Some i \<Longrightarrow> i + length p \<le> length xs \<and> take (length p) (drop i xs) = p"
proof (induction p xs arbitrary: i rule: find_sub.induct)
  case (1 p)
  then show ?case by (auto split: if_splits)
next
  case (2 p x xs)
  show ?case
  proof (cases "starts_with (x # xs) p")
    case True
    with "2.prems" have "i = 0" by simp
    moreover from True obtain ys where "x # xs = p @ ys" by (auto simp: starts_with_iff)
    then have "length (x # xs) = length p + length ys" by (metis length_append)
    ultimately show ?thesis using True by (simp add: starts_with_take)
  next
    case False
    with "2.prems" obtain j where "find_sub p xs = Some j" "i = Suc j" by auto
    with "2.IH" [OF False] show ?thesis by simp
  qed
qed

lemma find_sub_first:
  "find_sub p xs = Some i \<Longrightarrow> j < i \<Longrightarrow> \<not> starts_with (drop j xs) p"
proof (induction p xs arbitrary: i j rule: find_sub.induct)
  case (1 p)
  then show ?case by (auto split: if_splits)
next
  case (2 p x xs)
  then show ?case by (cases j) (auto split: if_splits)
qed

lemma find_sub_None: "find_sub p xs = None \<Longrightarrow> \<not> starts_with (drop j xs) p"
proof (induction p xs arbitrary: j rule: find_sub.induct)
  case (1 p)
  then show ?case by (cases p) (auto split: if_splits)
next
  case (2 p x xs)
  then show ?case by (cases j) (auto split: if_splits)
qed

lemma find_sub_append:
  assumes "find_sub p xs = Some i"
  shows "find_sub p (xs @ ys) = Some i"
  using assms
proof (induction p xs arbitrary: i rule: find_sub.induct)
  case (1 p)
  then show ?case by (cases ys) (auto split: if_splits)
next
  case (2 p x xs)
  show ?case
  proof (cases "starts_with (x # xs) p")
    case True
    then have "starts_with ((x # xs) @ ys) p" by (rule starts_with_append)
    with True "2.prems" show ?thesis by simp
  next
    case False
    with "2.prems" obtain j where j: "find_sub p xs = Some j" "i = Suc j" by auto
    have "length p \<le> length (x # xs)" using find_sub_Some [OF j(1)] by simp
    with False have "\<not> starts_with (x # xs @ ys) p"
      using starts_with_take [of "(x # xs) @ ys" p] starts_with_take [of "x # xs" p]
        take_append [of "length p" "x # xs" ys] by simp
    with "2.IH" [OF False j(1)] j(2) show ?thesis by simp
  qed
qed

end
