(* ===== verification/Rust_Text.thy ===== *)
theory Rust_Text
  imports Prelude
begin

text \<open>
  The parts of \<open>core::str\<close>, \<open>alloc::string\<close> and \<open>core::num\<close> that the sources call: UTF-8
  validation and lossy conversion, white space, ASCII case, splitting and joining, decimal and
  hexadecimal parsing, decimal printing.
\<close>

section \<open>Characters\<close>

definition code :: "char \<Rightarrow> nat" where
  "code c = of_char c"

definition is_ascii_digit :: "char \<Rightarrow> bool" where
  "is_ascii_digit c = (48 \<le> code c \<and> code c \<le> 57)"

definition is_ascii_hexdigit :: "char \<Rightarrow> bool" where
  "is_ascii_hexdigit c =
     (is_ascii_digit c \<or> (65 \<le> code c \<and> code c \<le> 70) \<or> (97 \<le> code c \<and> code c \<le> 102))"

definition is_ascii_alphanumeric :: "char \<Rightarrow> bool" where
  "is_ascii_alphanumeric c =
     (is_ascii_digit c \<or> (65 \<le> code c \<and> code c \<le> 90) \<or> (97 \<le> code c \<and> code c \<le> 122))"

definition ascii_lower :: "char \<Rightarrow> char" where
  "ascii_lower c = (if 65 \<le> code c \<and> code c \<le> 90 then char_of (code c + 32) else c)"

definition to_ascii_lowercase :: "string \<Rightarrow> string" where
  "to_ascii_lowercase s = map ascii_lower s"

definition eq_ignore_ascii_case :: "string \<Rightarrow> string \<Rightarrow> bool" where
  "eq_ignore_ascii_case s t = (to_ascii_lowercase s = to_ascii_lowercase t)"

lemma code_less: "code c < 256"
  using nat_of_char_less_256 [of c] by (simp add: code_def)

lemma code_char_of [simp]: "n < 256 \<Longrightarrow> code (char_of n) = n"
  by (simp add: code_def)

lemma ascii_lower_idem [simp]: "ascii_lower (ascii_lower c) = ascii_lower c"
  by (simp add: ascii_lower_def)

lemma to_ascii_lowercase_idem [simp]:
  "to_ascii_lowercase (to_ascii_lowercase s) = to_ascii_lowercase s"
  by (simp add: to_ascii_lowercase_def)

lemma length_to_ascii_lowercase [simp]: "length (to_ascii_lowercase s) = length s"
  by (simp add: to_ascii_lowercase_def)

section \<open>UTF-8\<close>

definition is_cont :: "byte \<Rightarrow> bool" where
  "is_cont b = (0x80 \<le> b \<and> b \<le> 0xBF)"

text \<open>
  One step of the decoder behind \<open>String::from_utf8\<close> and \<open>from_utf8_lossy\<close>: whether the input
  starts with a well-formed character, and how many bytes that character (or the maximal
  ill-formed prefix) takes.
\<close>

fun utf8_step :: "byte list \<Rightarrow> bool \<times> nat" where
  "utf8_step [] = (True, 0)"
| "utf8_step (b0 # bs) =
     (if b0 < 0x80 then (True, 1)
      else if 0xC2 \<le> b0 \<and> b0 \<le> 0xDF then
        (case bs of
           b1 # _ \<Rightarrow> if is_cont b1 then (True, 2) else (False, 1)
         | [] \<Rightarrow> (False, 1))
      else if 0xE0 \<le> b0 \<and> b0 \<le> 0xEF then
        (case bs of
           [] \<Rightarrow> (False, 1)
         | b1 # cs \<Rightarrow>
             if is_cont b1 \<and> (b0 = 0xE0 \<longrightarrow> 0xA0 \<le> b1) \<and> (b0 = 0xED \<longrightarrow> b1 \<le> 0x9F)
             then (case cs of b2 # _ \<Rightarrow> if is_cont b2 then (True, 3) else (False, 2)
                   | [] \<Rightarrow> (False, 2))
             else (False, 1))
      else if 0xF0 \<le> b0 \<and> b0 \<le> 0xF4 then
        (case bs of
           [] \<Rightarrow> (False, 1)
         | b1 # cs \<Rightarrow>
             if is_cont b1 \<and> (b0 = 0xF0 \<longrightarrow> 0x90 \<le> b1) \<and> (b0 = 0xF4 \<longrightarrow> b1 \<le> 0x8F)
             then (case cs of
                     [] \<Rightarrow> (False, 2)
                   | b2 # ds \<Rightarrow>
                       if is_cont b2
                       then (case ds of b3 # _ \<Rightarrow> if is_cont b3 then (True, 4) else (False, 3)
                             | [] \<Rightarrow> (False, 3))
                       else (False, 2))
             else (False, 1))
      else (False, 1))"

lemma utf8_step_pos: "bs \<noteq> [] \<Longrightarrow> 0 < snd (utf8_step bs)"
  by (cases bs) (auto split: list.splits)

function utf8_ok :: "byte list \<Rightarrow> bool" where
  "utf8_ok bs =
     (if bs = [] then True
      else case utf8_step bs of
        (True, n) \<Rightarrow> utf8_ok (drop n bs)
      | (False, n) \<Rightarrow> False)"
  by pat_completeness auto
termination
proof (relation "measure length", goal_cases)
  case (2 bs x n)
  then have "0 < n" using utf8_step_pos [of bs] by (metis snd_conv)
  with 2 show ?case by simp
qed simp

declare utf8_ok.simps [simp del]

definition from_utf8 :: "byte list \<Rightarrow> string option" where
  "from_utf8 bs = (if utf8_ok bs then Some (bytes_str bs) else None)"

function from_utf8_lossy :: "byte list \<Rightarrow> string" where
  "from_utf8_lossy bs =
     (if bs = [] then []
      else case utf8_step bs of
        (True, n) \<Rightarrow> bytes_str (take n bs) @ from_utf8_lossy (drop n bs)
      | (False, n) \<Rightarrow> bytes_str [0xEF, 0xBF, 0xBD] @ from_utf8_lossy (drop n bs))"
  by pat_completeness auto
termination
proof (relation "measure length", goal_cases)
  case (2 bs x n)
  then have "0 < n" using utf8_step_pos [of bs] by (metis snd_conv)
  with 2 show ?case by simp
next
  case (3 bs x n)
  then have "0 < n" using utf8_step_pos [of bs] by (metis snd_conv)
  with 3 show ?case by simp
qed simp

declare from_utf8_lossy.simps [simp del]

lemma utf8_ok_Nil [simp]: "utf8_ok []"
  by (simp add: utf8_ok.simps)

lemma utf8_ok_ascii_Cons: "b < 0x80 \<Longrightarrow> utf8_ok (b # bs) = utf8_ok bs"
  by (simp add: utf8_ok.simps [of "b # bs"])

lemma utf8_ok_ascii: "(\<And>b. b \<in> set bs \<Longrightarrow> b < 0x80) \<Longrightarrow> utf8_ok bs"
  by (induction bs) (auto simp: utf8_ok_ascii_Cons)

lemma utf8_step_valid:
  assumes "utf8_step bs = (True, n)" and "bs \<noteq> []"
  shows "n \<le> length bs" and "0 < i \<Longrightarrow> i < n \<Longrightarrow> is_cont (bs ! i)"
    and "utf8_step (take n bs @ cs) = (True, n)"
proof -
  obtain b0 r0 where b: "bs = b0 # r0" using assms(2) by (cases bs) auto
  have "n = 1 \<and> b0 < 0x80
      \<or> (\<exists>b1 t. n = 2 \<and> r0 = b1 # t \<and> is_cont b1)
      \<or> (\<exists>b1 b2 t. n = 3 \<and> r0 = b1 # b2 # t \<and> is_cont b1 \<and> is_cont b2)
      \<or> (\<exists>b1 b2 b3 t. n = 4 \<and> r0 = b1 # b2 # b3 # t \<and> is_cont b1 \<and> is_cont b2 \<and> is_cont b3)"
    using assms(1) by (auto simp: b split: if_splits list.splits)
  then show "n \<le> length bs" "0 < i \<Longrightarrow> i < n \<Longrightarrow> is_cont (bs ! i)"
    by (auto simp: b less_Suc_eq numeral_eq_Suc)
  show "utf8_step (take n bs @ cs) = (True, n)"
    using assms(1) by (auto simp: b split: if_splits list.splits)
qed

lemma utf8_ok_step: "utf8_step bs = (True, n) \<Longrightarrow> bs \<noteq> [] \<Longrightarrow> utf8_ok bs = utf8_ok (drop n bs)"
  by (simp add: utf8_ok.simps [of bs])

lemma utf8_ok_append: "utf8_ok xs \<Longrightarrow> utf8_ok ys \<Longrightarrow> utf8_ok (xs @ ys)"
proof (induction xs rule: utf8_ok.induct)
  case (1 xs)
  show ?case
  proof (cases "xs = []")
    case False
    with "1.prems"(1) obtain n where s: "utf8_step xs = (True, n)"
      by (auto simp: utf8_ok.simps [of xs] split: prod.splits bool.splits)
    with "1.prems" False have "utf8_ok (drop n xs @ ys)"
      using "1.IH" [OF False s [symmetric] refl] by (simp add: utf8_ok_step)
    moreover have "utf8_step (xs @ ys) = (True, n)" "n \<le> length xs"
      using utf8_step_valid(3) [OF s False, of "drop n xs @ ys"] utf8_step_valid(1) [OF s False]
      by (simp_all flip: append_assoc)
    ultimately show ?thesis using False by (simp add: utf8_ok_step)
  qed (use "1.prems" in simp)
qed

lemma utf8_ok_take:
  "utf8_ok bs \<Longrightarrow> i = 0 \<or> i = length bs \<or> i < length bs \<and> \<not> is_cont (bs ! i) \<Longrightarrow> utf8_ok (take i bs)"
proof (induction bs arbitrary: i rule: utf8_ok.induct)
  case (1 bs)
  show ?case
  proof (cases "i = 0 \<or> i = length bs")
    case False
    with "1.prems"(2) have i: "0 < i" "i < length bs" "\<not> is_cont (bs ! i)" by auto
    then have ne: "bs \<noteq> []" by auto
    with "1.prems"(1) obtain n where s: "utf8_step bs = (True, n)"
      by (auto simp: utf8_ok.simps [of bs] split: prod.splits bool.splits)
    have n: "n \<le> i" using utf8_step_valid(2) [OF s ne i(1)] i(3) by (meson not_le)
    have "i - n < length bs - n" using n i(2) by linarith
    then have "utf8_ok (take (i - n) (drop n bs))"
      using "1.IH" [OF ne s [symmetric] refl, of "i - n"] "1.prems"(1) s ne i n
      by (auto simp: utf8_ok_step)
    moreover have "utf8_step (take i bs) = (True, n)"
    proof -
      have "take i bs = take n bs @ take (i - n) (drop n bs)"
        using n take_add [of n "i - n" bs] by simp
      then show ?thesis using utf8_step_valid(3) [OF s ne] by simp
    qed
    ultimately show ?thesis using i ne by (simp add: utf8_ok_step drop_take)
  qed (use "1.prems" in auto)
qed

lemma from_utf8_Nil [simp]: "from_utf8 [] = Some []"
  by (simp add: from_utf8_def bytes_str_def)

lemma from_utf8_lossy_Nil [simp]: "from_utf8_lossy [] = []"
  by (simp add: from_utf8_lossy.simps)

lemma from_utf8_lossy_valid: "utf8_ok bs \<Longrightarrow> from_utf8_lossy bs = bytes_str bs"
proof (induction bs rule: utf8_ok.induct)
  case (1 bs)
  show ?case
  proof (cases "bs = []")
    case True
    then show ?thesis by (simp add: bytes_str_def)
  next
    case False
    obtain ok n where s: "utf8_step bs = (ok, n)" by (cases "utf8_step bs")
    with "1.prems" False have ok: ok by (simp add: utf8_ok.simps [of bs] split: bool.splits)
    with "1.prems" False s have "utf8_ok (drop n bs)" by (simp add: utf8_ok.simps [of bs])
    with "1.IH" [OF False, of True n] s ok
    have "from_utf8_lossy (drop n bs) = bytes_str (drop n bs)" by simp
    then show ?thesis
      using s ok False bytes_str_append [of "take n bs" "drop n bs"]
      by (simp add: from_utf8_lossy.simps [of bs])
  qed
qed

section \<open>White space and trimming\<close>

text \<open>
  \<open>char::is_whitespace\<close> on the UTF-8 encoding: the length of the white-space character the
  string starts with, 0 when it starts with another character.
\<close>

fun ws_prefix :: "nat list \<Rightarrow> nat" where
  "ws_prefix [] = 0"
| "ws_prefix (a # as) =
     (if (9 \<le> a \<and> a \<le> 13) \<or> a = 32 then 1
      else case as of
        [] \<Rightarrow> 0
      | b # bs \<Rightarrow>
          if a = 0xC2 \<and> (b = 0x85 \<or> b = 0xA0) then 2
          else case bs of
            [] \<Rightarrow> 0
          | c # _ \<Rightarrow>
              if (a = 0xE1 \<and> b = 0x9A \<and> c = 0x80)
               \<or> (a = 0xE2 \<and> b = 0x80 \<and> ((0x80 \<le> c \<and> c \<le> 0x8A) \<or> c = 0xA8 \<or> c = 0xA9 \<or> c = 0xAF))
               \<or> (a = 0xE2 \<and> b = 0x81 \<and> c = 0x9F)
               \<or> (a = 0xE3 \<and> b = 0x80 \<and> c = 0x80)
              then 3 else 0)"

fun ws_suffix_rev :: "nat list \<Rightarrow> nat" where
  "ws_suffix_rev [] = 0"
| "ws_suffix_rev (a # as) =
     (if ws_prefix [a] = 1 then 1
      else case as of
        [] \<Rightarrow> 0
      | b # bs \<Rightarrow>
          if ws_prefix [b, a] = 2 then 2
          else case bs of
            [] \<Rightarrow> 0
          | c # _ \<Rightarrow> if ws_prefix [c, b, a] = 3 then 3 else 0)"

function trim_start :: "string \<Rightarrow> string" where
  "trim_start s =
     (if ws_prefix (map code s) = 0 then s else trim_start (drop (ws_prefix (map code s)) s))"
  by pat_completeness auto
termination
proof (relation "measure length", goal_cases)
  case (2 s)
  then have "s \<noteq> []" by auto
  with 2 show ?case by simp
qed simp

function trim_end_rev :: "string \<Rightarrow> string" where
  "trim_end_rev s =
     (if ws_suffix_rev (map code s) = 0 then s
      else trim_end_rev (drop (ws_suffix_rev (map code s)) s))"
  by pat_completeness auto
termination
proof (relation "measure length", goal_cases)
  case (2 s)
  then have "s \<noteq> []" by auto
  with 2 show ?case by simp
qed simp

declare trim_start.simps [simp del] trim_end_rev.simps [simp del]

definition trim_end :: "string \<Rightarrow> string" where
  "trim_end s = rev (trim_end_rev (rev s))"

definition trim :: "string \<Rightarrow> string" where
  "trim s = trim_end (trim_start s)"

lemma length_trim_start: "length (trim_start s) \<le> length s"
proof (induction s rule: trim_start.induct)
  case (1 s)
  then show ?case by (subst trim_start.simps) (auto simp del: trim_start.simps)
qed

lemma length_trim_end_rev: "length (trim_end_rev s) \<le> length s"
proof (induction s rule: trim_end_rev.induct)
  case (1 s)
  then show ?case by (subst trim_end_rev.simps) (auto simp del: trim_end_rev.simps)
qed

lemma length_trim: "length (trim s) \<le> length s"
  using length_trim_start [of s] length_trim_end_rev [of "rev (trim_start s)"]
  by (simp add: trim_def trim_end_def)

lemma trim_start_Nil [simp]: "trim_start [] = []"
  by (simp add: trim_start.simps)

lemma trim_Nil [simp]: "trim [] = []"
  by (simp add: trim_def trim_end_def trim_end_rev.simps)

lemma trim_nonempty: "trim s \<noteq> [] \<Longrightarrow> s \<noteq> []"
  by auto

definition is_graphic :: "char \<Rightarrow> bool" where
  "is_graphic c = (33 \<le> code c \<and> code c \<le> 126)"

lemma ws_suffix_rev_graphic:
  assumes "is_graphic c"
  shows "ws_suffix_rev (as @ [code c]) \<le> length as"
  using assms by (cases as rule: ws_suffix_rev.cases; cases "tl as"; cases "tl (tl as)")
   (auto simp: is_graphic_def split: list.splits)

lemma trim_end_rev_graphic: "is_graphic c \<Longrightarrow> trim_end_rev (xs @ [c]) \<noteq> []"
proof (induction "length xs" arbitrary: xs rule: less_induct)
  case less
  let ?n = "ws_suffix_rev (map code (xs @ [c]))"
  have n: "?n \<le> length xs" using ws_suffix_rev_graphic [OF less.prems, of "map code xs"] by simp
  show ?case
  proof (cases "?n = 0")
    case True
    then show ?thesis by (subst trim_end_rev.simps) simp
  next
    case False
    with n have "length (drop ?n xs) < length xs" by auto
    from less.hyps [OF this less.prems] False n show ?thesis
      by (subst trim_end_rev.simps) simp
  qed
qed

lemma trim_graphic:
  assumes "is_graphic c"
  shows "trim (c # s) \<noteq> []"
proof -
  have "ws_prefix (map code (c # s)) = 0"
    using assms by (auto simp: is_graphic_def split: list.splits)
  then have "trim_start (c # s) = c # s" by (subst trim_start.simps) simp
  with trim_end_rev_graphic [OF assms, of "rev s"] show ?thesis
    by (simp add: trim_def trim_end_def)
qed

lemma trim_graphic_eq: "is_graphic c \<Longrightarrow> trim (c # s) = [] \<longleftrightarrow> False"
  using trim_graphic [of c s] by simp

lemma ws_graphic_mid:
  assumes "is_graphic c"
  shows "ws_prefix (as @ code c # bs) \<le> length as" and "ws_suffix_rev (as @ code c # bs) \<le> length as"
  using assms
  by (cases as rule: ws_prefix.cases; cases "tl as"; cases "tl (tl as)"; cases bs; cases "tl bs";
      force simp: is_graphic_def split: list.splits)+

lemma trim_start_graphic_mid:
  "is_graphic c \<Longrightarrow> \<exists>zs. trim_start (xs @ c # ys) = zs @ c # ys"
proof (induction "length xs" arbitrary: xs rule: less_induct)
  case less
  let ?n = "ws_prefix (map code (xs @ c # ys))"
  have n: "?n \<le> length xs" using ws_graphic_mid(1) [OF less.prems, of "map code xs"] by simp
  show ?case
  proof (cases "?n = 0")
    case True
    then show ?thesis by (subst trim_start.simps) simp
  next
    case False
    with n have "length (drop ?n xs) < length xs" by auto
    from less.hyps [OF this less.prems] False n show ?thesis
      by (subst trim_start.simps) simp
  qed
qed

lemma trim_end_rev_graphic_mid: "is_graphic c \<Longrightarrow> trim_end_rev (xs @ c # ys) \<noteq> []"
proof (induction "length xs" arbitrary: xs rule: less_induct)
  case less
  let ?n = "ws_suffix_rev (map code (xs @ c # ys))"
  have n: "?n \<le> length xs" using ws_graphic_mid(2) [OF less.prems, of "map code xs"] by simp
  show ?case
  proof (cases "?n = 0")
    case True
    then show ?thesis by (subst trim_end_rev.simps) simp
  next
    case False
    with n have "length (drop ?n xs) < length xs" by auto
    from less.hyps [OF this less.prems] False n show ?thesis
      by (subst trim_end_rev.simps) simp
  qed
qed

lemma trim_graphic_mid: "is_graphic c \<Longrightarrow> trim (xs @ c # ys) \<noteq> []"
proof -
  assume c: "is_graphic c"
  obtain zs where "trim_start (xs @ c # ys) = zs @ c # ys"
    using trim_start_graphic_mid [OF c] by blast
  with trim_end_rev_graphic_mid [OF c, of "rev ys" "rev zs"] show ?thesis
    by (simp add: trim_def trim_end_def)
qed

text \<open>Text that trimming does not alter: printable ASCII that does not start or end in a blank.\<close>

definition plain :: "string \<Rightarrow> bool" where
  "plain s \<longleftrightarrow> list_all (\<lambda>c. 32 \<le> code c \<and> code c \<le> 126) s
     \<and> (s = [] \<or> is_graphic (hd s) \<and> is_graphic (last s))"

lemma code_blank [simp]: "code CHR '' '' = 32"
  by (simp add: code_def)

lemma trim_start_blank: "trim_start (CHR '' '' # s) = trim_start s"
  by (subst trim_start.simps) simp

lemma trim_start_plain: "plain s \<Longrightarrow> trim_start s = s"
proof (cases s)
  case (Cons a l)
  assume "plain s"
  with Cons have "ws_prefix (map code s) = 0"
    by (auto simp: plain_def is_graphic_def split: list.splits)
  then show ?thesis by (subst trim_start.simps) simp
qed simp

lemma trim_plain: "plain s \<Longrightarrow> trim s = s"
proof (cases "rev s")
  case (Cons c cs)
  assume plain: "plain s"
  from Cons have s: "s = rev cs @ [c]" by simp
  with plain have "is_graphic c" by (auto simp: plain_def)
  then have "ws_suffix_rev (map code (rev s)) = 0"
    using Cons by (auto simp: is_graphic_def split: list.splits)
  then have "trim_end_rev (rev s) = rev s" by (subst trim_end_rev.simps) simp
  with plain show ?thesis by (simp add: trim_def trim_end_def trim_start_plain)
qed (simp add: trim_def trim_end_def trim_end_rev.simps)

lemma str_bytes_ascii:
  assumes "list_all (\<lambda>c. 32 \<le> code c \<and> code c \<le> 126) s"
  shows "from_utf8 (str_bytes s) = Some s" and "10 \<notin> set (str_bytes s)" and "13 \<notin> set (str_bytes s)"
proof -
  have "b < 0x80 \<and> b \<noteq> 10 \<and> b \<noteq> 13" if "b \<in> set (str_bytes s)" for b
  proof -
    from that obtain c where c: "c \<in> set s" "b = of_char c" by (auto simp: str_bytes_def)
    then have "32 \<le> unat b \<and> unat b \<le> 126"
      using assms by (auto simp: list_all_iff code_def unat_of_char)
    then show ?thesis by (auto simp: word_less_nat_alt)
  qed
  then show "from_utf8 (str_bytes s) = Some s" "10 \<notin> set (str_bytes s)" "13 \<notin> set (str_bytes s)"
    using utf8_ok_ascii [of "str_bytes s"] by (auto simp: from_utf8_def)
qed

lemma plain_prefix: "plain s \<Longrightarrow> list_all (\<lambda>c. 32 \<le> code c \<and> code c \<le> 126) s"
  by (simp add: plain_def)

section \<open>Splitting and joining\<close>

text \<open>\<open>split\<close> on a one-byte separator: always at least one part.\<close>

fun split_on :: "'a \<Rightarrow> 'a list \<Rightarrow> 'a list list" where
  "split_on c [] = [[]]"
| "split_on c (x # xs) =
     (if x = c then [] # split_on c xs
      else case split_on c xs of
        [] \<Rightarrow> [[x]]
      | w # ws \<Rightarrow> (x # w) # ws)"

fun join :: "'a list \<Rightarrow> 'a list list \<Rightarrow> 'a list" where
  "join sep [] = []"
| "join sep [x] = x"
| "join sep (x # y # ys) = x @ sep @ join sep (y # ys)"

lemma split_on_nonempty: "split_on c xs \<noteq> []"
  by (cases xs) (auto split: list.splits)

lemma join_split_on: "join [c] (split_on c xs) = xs"
proof (induction xs)
  case Nil
  then show ?case by simp
next
  case (Cons x xs)
  obtain w ws where "split_on c xs = w # ws"
    using split_on_nonempty [of c xs] by (cases "split_on c xs") auto
  with Cons show ?case by (cases ws) auto
qed

section \<open>Numbers\<close>

definition digit_val :: "nat \<Rightarrow> char \<Rightarrow> nat option" where
  "digit_val radix c =
     (let n = code c;
          v = (if 48 \<le> n \<and> n \<le> 57 then Some (n - 48)
               else if 97 \<le> n \<and> n \<le> 122 then Some (n - 87)
               else if 65 \<le> n \<and> n \<le> 90 then Some (n - 55)
               else None)
      in case v of Some d \<Rightarrow> if d < radix then Some d else None | None \<Rightarrow> None)"

fun digits_val :: "nat \<Rightarrow> nat \<Rightarrow> nat \<Rightarrow> string \<Rightarrow> nat option" where
  "digits_val radix bound acc [] = Some acc"
| "digits_val radix bound acc (c # cs) =
     (case digit_val radix c of
        None \<Rightarrow> None
      | Some d \<Rightarrow>
          if acc * radix + d < bound then digits_val radix bound (acc * radix + d) cs else None)"

text \<open>
  \<open>from_str_radix\<close> for an unsigned type with \<open>bound\<close> values: an optional plus sign, at least one
  digit, and an error on a foreign character or on overflow.
\<close>

definition parse_unsigned :: "nat \<Rightarrow> nat \<Rightarrow> string \<Rightarrow> nat option" where
  "parse_unsigned radix bound s =
     (case s of
        [] \<Rightarrow> None
      | c # cs \<Rightarrow>
          if c = CHR ''+'' then (if cs = [] then None else digits_val radix bound 0 cs)
          else digits_val radix bound 0 s)"

definition parse_usize :: "string \<Rightarrow> nat option" where
  "parse_usize = parse_unsigned 10 (2 ^ 64)"

definition parse_usize_hex :: "string \<Rightarrow> nat option" where
  "parse_usize_hex = parse_unsigned 16 (2 ^ 64)"

lemma digits_val_bound:
  "digits_val radix bound acc cs = Some n \<Longrightarrow> acc < bound \<Longrightarrow> n < bound"
  by (induction cs arbitrary: acc) (auto split: option.splits if_splits)

lemma parse_unsigned_bound:
  assumes "parse_unsigned radix bound s = Some n" and "0 < bound"
  shows "n < bound"
proof -
  from assms(1) obtain t where "digits_val radix bound 0 t = Some n"
    by (auto simp: parse_unsigned_def simp del: digits_val.simps split: list.splits if_splits)
  then show ?thesis using assms(2) by (rule digits_val_bound)
qed

definition digit_char :: "nat \<Rightarrow> char" where
  "digit_char d = char_of (48 + d)"

fun show_nat :: "nat \<Rightarrow> string" where
  "show_nat n = (if n < 10 then [digit_char n] else show_nat (n div 10) @ [digit_char (n mod 10)])"

declare show_nat.simps [simp del]

definition show_int :: "int \<Rightarrow> string" where
  "show_int i = (if i < 0 then CHR ''-'' # show_nat (nat (- i)) else show_nat (nat i))"

lemma show_nat_nonempty: "show_nat n \<noteq> []"
  by (simp add: show_nat.simps [of n])

lemma digit_val_digit_char: "d < 10 \<Longrightarrow> digit_val 10 (digit_char d) = Some d"
  by (simp add: digit_val_def digit_char_def)

lemma digits_val_append:
  "digits_val r b acc (xs @ ys) =
     (case digits_val r b acc xs of None \<Rightarrow> None | Some m \<Rightarrow> digits_val r b m ys)"
  by (induction xs arbitrary: acc) (auto split: option.splits)

lemma digits_val_show_nat: "n < b \<Longrightarrow> digits_val 10 b 0 (show_nat n) = Some n"
proof (induction n rule: show_nat.induct)
  case (1 n)
  show ?case
  proof (cases "n < 10")
    case True
    with "1.prems" show ?thesis
      by (simp add: show_nat.simps [of n] digit_val_digit_char)
  next
    case False
    with "1.prems" have "digits_val 10 b 0 (show_nat (n div 10)) = Some (n div 10)"
      by (intro "1.IH") auto
    with False "1.prems" show ?thesis
      by (simp add: show_nat.simps [of n] digits_val_append digit_val_digit_char)
  qed
qed

lemma show_nat_digits: "c \<in> set (show_nat n) \<Longrightarrow> is_ascii_digit c"
proof (induction n rule: show_nat.induct)
  case (1 n)
  have d: "is_ascii_digit (digit_char d)" if "d < 10" for d
    using that by (simp add: is_ascii_digit_def digit_char_def)
  show ?case
  proof (cases "n < 10")
    case True
    with 1 d show ?thesis by (simp add: show_nat.simps [of n])
  next
    case False
    with 1 d show ?thesis by (auto simp: show_nat.simps [of n])
  qed
qed

lemma parse_usize_show_nat: "n < 2 ^ 64 \<Longrightarrow> parse_usize (show_nat n) = Some n"
proof -
  assume n: "n < 2 ^ 64"
  obtain c cs where s: "show_nat n = c # cs"
    using show_nat_nonempty [of n] by (cases "show_nat n") auto
  then have "is_ascii_digit c" using show_nat_digits [of c n] by simp
  then have "c \<noteq> CHR ''+''" by (auto simp: is_ascii_digit_def code_def)
  with s digits_val_show_nat [OF n] show ?thesis
    by (simp add: parse_usize_def parse_unsigned_def)
qed

lemma show_nat_inj: "show_nat m = show_nat n \<Longrightarrow> m = n"
proof -
  assume eq: "show_nat m = show_nat n"
  have "digits_val 10 (Suc (m + n)) 0 (show_nat m) = Some m"
    by (rule digits_val_show_nat) simp
  moreover have "digits_val 10 (Suc (m + n)) 0 (show_nat n) = Some n"
    by (rule digits_val_show_nat) simp
  ultimately show "m = n" using eq by (metis option.inject)
qed

text \<open>\<open>{:x}\<close>.\<close>

definition hex_char :: "nat \<Rightarrow> char" where
  "hex_char d = (if d < 10 then char_of (48 + d) else char_of (87 + d))"

fun show_hex :: "nat \<Rightarrow> string" where
  "show_hex n = (if n < 16 then [hex_char n] else show_hex (n div 16) @ [hex_char (n mod 16)])"

declare show_hex.simps [simp del]

end
