(* ===== verification/Protocol_Types.thy ===== *)
theory Protocol_Types
  imports Rust_Text
begin

text \<open>
  The wire contract of \<open>crates/protocol/src/types.rs\<close>: one record per struct, one datatype per
  enum, in the order of the source. A field keeps its name behind a short prefix of its struct.
\<close>

definition PROTOCOL_VERSION :: u16 where
  "PROTOCOL_VERSION = 1"

definition MAX_ERROR_MESSAGE_BYTES :: nat where
  "MAX_ERROR_MESSAGE_BYTES = 32 * 1024"

definition MAX_CONTENT_CHUNK_BYTES :: nat where
  "MAX_CONTENT_CHUNK_BYTES = 1024 * 1024"

type_synonym timestamp_ms = i64

record client_instance =
  ci_client_id :: string
  ci_instance_id :: uuid
  ci_hostname :: string
  ci_platform :: string
  ci_codex_version :: string
  ci_started_at_ms :: timestamp_ms

section \<open>Enumerations\<close>

datatype task_phase = Running | AwaitingTool | Retrying | Terminal

datatype terminal_outcome = Completed | Failed | Aborted | Terminated | Lost

datatype integrity_state = Complete | Degraded | Lost | UnsupportedBuild

datatype attempt_status =
  Running | Completed | Failed | Incomplete | Cancelled | TransportLost

datatype error_source =
    ResponseFailed | ResponseIncomplete | ResponseCancelled | SseError | HttpStatus
  | TurnComplete | TurnAborted | ProcessExit | CaptureGap | UnsupportedCodexBuild
  | ContentExpired

datatype flow_direction = ClientToServer | ServerToClient

datatype task_event_kind =
    TaskObserved | AttemptStarted | AttemptCompleted | AttemptFailed | AttemptIncomplete
  | AttemptCancelled | AttemptLost | AwaitingTool | Retrying
  | TerminalCompleted | TerminalFailed | TerminalAborted | TerminalTerminated | TerminalLost
  | CaptureGap | UnsupportedBuild | ProcessExit

datatype content_part = Request | Response | ToolInput | ToolOutput | ModelText

datatype content_upload_status = Stored | ContentExpired | Rejected

section \<open>Records\<close>

record heartbeat =
  hb_heartbeat_id :: uuid
  hb_client_id :: string
  hb_instance_id :: uuid
  hb_observed_at_ms :: timestamp_ms
  hb_queue_depth :: u32
  hb_active_task_count :: u32
  hb_capture_health :: integrity_state
  hb_note :: "string option"

record task_identity =
  id_provider :: string
  id_session_id :: string
  id_thread_id :: string
  id_turn_id :: string

definition identity_task_ref :: "task_identity \<Rightarrow> string" where
  "identity_task_ref i = id_session_id i @ '':'' @ id_thread_id i @ '':'' @ id_turn_id i"

record codex_task_metadata =
  cm_request_kind :: string
  cm_parent_turn_id :: "string option"
  cm_root_turn_id :: "string option"

record usage_summary =
  us_input_tokens :: u64
  us_output_tokens :: u64
  us_reasoning_tokens :: u64
  us_total_tokens :: u64

definition usage_default :: usage_summary where
  "usage_default =
     \<lparr>us_input_tokens = 0, us_output_tokens = 0, us_reasoning_tokens = 0, us_total_tokens = 0\<rparr>"

record error_record =
  er_error_id :: uuid
  er_task_ref :: string
  er_attempt_id :: "uuid option"
  er_occurred_at_ms :: timestamp_ms
  er_source :: error_source
  er_wire_type :: "string option"
  er_code :: "string option"
  er_message :: string
  er_param :: "string option"
  er_reason :: "string option"
  er_http_status :: "u16 option"
  er_exit_code :: "i32 option"
  er_signal :: "i32 option"

record capture_gap_record =
  gap_gap_id :: uuid
  gap_task_ref :: "string option"
  gap_flow_id :: string
  gap_direction :: flow_direction
  gap_occurred_at_ms :: timestamp_ms
  gap_start_seq :: u64
  gap_end_seq :: u64
  gap_reason :: string

record task_snapshot =
  sn_task_ref :: string
  sn_identity :: task_identity
  sn_codex :: codex_task_metadata
  sn_conversation_title :: "string option"
  sn_sequence :: u64
  sn_phase :: task_phase
  sn_terminal :: "terminal_outcome option"
  sn_integrity :: integrity_state
  sn_model :: "string option"
  sn_attempt_count :: u32
  sn_tool_names :: "string list"
  sn_response_ids :: "string list"
  sn_usage :: usage_summary
  sn_started_at_ms :: timestamp_ms
  sn_updated_at_ms :: timestamp_ms
  sn_completed_at_ms :: "timestamp_ms option"
  sn_last_error :: "error_record option"

record attempt_record =
  at_attempt_id :: uuid
  at_task_ref :: string
  at_ordinal :: u32
  at_response_id :: "string option"
  at_transport :: string
  at_status :: attempt_status
  at_http_status :: "u16 option"
  at_model :: "string option"
  at_tool_names :: "string list"
  at_usage :: usage_summary
  at_error :: "error_record option"
  at_request_object_sha256 :: "string option"
  at_response_object_sha256 :: "string option"
  at_started_at_ms :: timestamp_ms
  at_ended_at_ms :: "timestamp_ms option"
  at_awaiting_tool :: bool

record task_event =
  ev_event_id :: uuid
  ev_task_ref :: string
  ev_sequence :: u64
  ev_occurred_at_ms :: timestamp_ms
  ev_kind :: task_event_kind
  ev_phase :: task_phase
  ev_terminal :: "terminal_outcome option"
  ev_attempt_id :: "uuid option"
  ev_response_id :: "string option"
  ev_model :: "string option"
  ev_tool_names :: "string list"
  ev_usage :: usage_summary
  ev_error :: "error_record option"
  ev_http_status :: "u16 option"
  ev_exit_code :: "i32 option"
  ev_signal :: "i32 option"
  ev_note :: "string option"

record task_upload =
  up_snapshot :: task_snapshot
  up_attempts :: "attempt_record list"
  up_events :: "task_event list"
  up_errors :: "error_record list"
  up_gaps :: "capture_gap_record list"

record ingest_batch =
  ib_version :: u16
  ib_batch_id :: uuid
  ib_generated_at_ms :: timestamp_ms
  ib_client :: client_instance
  ib_tasks :: "task_upload list"
  ib_heartbeats :: "heartbeat list"

record content_request =
  cr_request_id :: uuid
  cr_client_id :: string
  cr_task_ref :: string
  cr_session_id :: string
  cr_thread_id :: string
  cr_created_at_ms :: timestamp_ms
  cr_expires_at_ms :: "timestamp_ms option"
  cr_parts :: "content_part list"

record content_request_command =
  cc_command_id :: uuid
  cc_request :: content_request

datatype client_command = RequestContent content_request_command

record content_upload_chunk =
  ch_request_id :: uuid
  ch_chunk_index :: u32
  ch_chunk_count :: u32
  ch_object_sha256 :: string
  ch_payload_sha256 :: string
  ch_payload_zstd :: "byte list"
  ch_is_last :: bool

record content_object_manifest =
  mf_request_id :: uuid
  mf_task_ref :: string
  mf_session_id :: string
  mf_thread_id :: string
  mf_part :: content_part
  mf_object_sha256 :: string
  mf_media_type :: string
  mf_uncompressed_bytes :: u64
  mf_compressed_bytes :: u64
  mf_chunk_count :: u32
  mf_created_at_ms :: timestamp_ms

record content_upload_result =
  cu_request_id :: uuid
  cu_status :: content_upload_status
  cu_note :: "string option"

record task_detail =
  td_snapshot :: task_snapshot
  td_attempts :: "attempt_record list"
  td_events :: "task_event list"
  td_errors :: "error_record list"
  td_gaps :: "capture_gap_record list"

record command_poll_response =
  cp_server_time_ms :: timestamp_ms
  cp_commands :: "client_command list"

record ingest_ack =
  ack_batch_id :: uuid
  ack_payload_sha256 :: string
  ack_accepted_tasks :: u32
  ack_accepted_heartbeats :: u32
  ack_duplicate :: bool

record task_list_query =
  tq_client_id :: "string option"
  tq_provider :: "string option"
  tq_session_id :: "string option"
  tq_phase :: "task_phase option"
  tq_terminal :: "terminal_outcome option"
  tq_cursor :: "string option"
  tq_limit :: "u32 option"

record task_list_response =
  tl_tasks :: "task_snapshot list"
  tl_next_cursor :: "string option"

record session_detail =
  sd_client_id :: string
  sd_provider :: string
  sd_session_id :: string
  sd_thread_id :: string
  sd_conversation_title :: "string option"
  sd_tasks :: "task_snapshot list"

record capture_health_response =
  hr_client_id :: string
  hr_instance_id :: uuid
  hr_observed_at_ms :: timestamp_ms
  hr_integrity :: integrity_state

section \<open>Hints of an event kind\<close>

fun phase_hint :: "task_event_kind \<Rightarrow> task_phase" where
  "phase_hint task_event_kind.AwaitingTool = task_phase.AwaitingTool"
| "phase_hint task_event_kind.AttemptFailed = task_phase.Retrying"
| "phase_hint task_event_kind.AttemptIncomplete = task_phase.Retrying"
| "phase_hint task_event_kind.AttemptCancelled = task_phase.Retrying"
| "phase_hint task_event_kind.AttemptLost = task_phase.Retrying"
| "phase_hint task_event_kind.Retrying = task_phase.Retrying"
| "phase_hint task_event_kind.TerminalCompleted = task_phase.Terminal"
| "phase_hint task_event_kind.TerminalFailed = task_phase.Terminal"
| "phase_hint task_event_kind.TerminalAborted = task_phase.Terminal"
| "phase_hint task_event_kind.TerminalTerminated = task_phase.Terminal"
| "phase_hint task_event_kind.TerminalLost = task_phase.Terminal"
| "phase_hint task_event_kind.ProcessExit = task_phase.Terminal"
| "phase_hint _ = task_phase.Running"

fun terminal_hint :: "task_event_kind \<Rightarrow> terminal_outcome option" where
  "terminal_hint task_event_kind.TerminalCompleted = Some terminal_outcome.Completed"
| "terminal_hint task_event_kind.TerminalFailed = Some terminal_outcome.Failed"
| "terminal_hint task_event_kind.TerminalAborted = Some terminal_outcome.Aborted"
| "terminal_hint task_event_kind.TerminalTerminated = Some terminal_outcome.Terminated"
| "terminal_hint task_event_kind.ProcessExit = Some terminal_outcome.Terminated"
| "terminal_hint task_event_kind.TerminalLost = Some terminal_outcome.Lost"
| "terminal_hint _ = None"

lemma phase_hint_Terminal: "phase_hint k = task_phase.Terminal \<longleftrightarrow> terminal_hint k \<noteq> None"
  by (cases k) simp_all

end
