(* ===== verification/Protocol_Validation.thy ===== *)
theory Protocol_Validation
  imports Protocol_Types
begin

text \<open>
  The semantic checks of \<open>crates/protocol/src/validation.rs\<close>: each \<open>validate\<close> is the sequence of
  its field checks in the order of the source, the first failure being the error. The loops of an
  upload and of a batch thread the sets and flags the code threads. \<open>sha\<close> stands for \<open>sha256_hex\<close>,
  which is a third-party digest.
\<close>

definition MAX_ID_BYTES :: nat where "MAX_ID_BYTES = 512"
definition MAX_SHORT_TEXT_BYTES :: nat where "MAX_SHORT_TEXT_BYTES = 4096"
definition MAX_BATCH_TASKS :: nat where "MAX_BATCH_TASKS = 1024"
definition MAX_BATCH_HEARTBEATS :: nat where "MAX_BATCH_HEARTBEATS = 1024"

record validation_error =
  ve_path :: string
  ve_message :: string

type_synonym validation = "validation_error + unit"

definition verr :: "string \<Rightarrow> string \<Rightarrow> validation_error" where
  "verr path message = \<lparr>ve_path = path, ve_message = message\<rparr>"

definition under :: "validation_error \<Rightarrow> string \<Rightarrow> validation_error" where
  "under e prefix = verr (prefix @ ''.'' @ ve_path e) (ve_message e)"

definition under_r :: "string \<Rightarrow> validation \<Rightarrow> validation" where
  "under_r prefix r = map_err (\<lambda>e. under e prefix) r"

definition indexed :: "string \<Rightarrow> nat \<Rightarrow> string" where
  "indexed name i = name @ ''['' @ show_nat i @ '']''"

lemma under_r_ok [simp]: "under_r p r = Inr u \<longleftrightarrow> r = Inr u"
  by (simp add: under_r_def map_err_eq_Inr)

section \<open>Field checks\<close>

definition is_uuid_v7 :: "uuid \<Rightarrow> bool" where
  "is_uuid_v7 v = (version_num v = 7)"

definition validate_uuid_v7 :: "string \<Rightarrow> uuid \<Rightarrow> validation" where
  "validate_uuid_v7 path v =
     (if is_uuid_v7 v then Inr () else Inl (verr path ''must be a UUIDv7''))"

definition validate_text :: "string \<Rightarrow> string \<Rightarrow> nat \<Rightarrow> validation" where
  "validate_text path v limit =
     (if trim v = [] then Inl (verr path ''must not be empty'')
      else if length v > limit
      then Inl (verr path (''must not exceed '' @ show_nat limit @ '' bytes''))
      else Inr ())"

definition is_hex64 :: "string \<Rightarrow> bool" where
  "is_hex64 v = (length v = 64 \<and> list_all is_ascii_hexdigit v)"

definition validate_sha256 :: "string \<Rightarrow> string \<Rightarrow> validation" where
  "validate_sha256 path v =
     (if is_hex64 v then Inr ()
      else Inl (verr path ''must contain exactly 64 hexadecimal characters''))"

lemma validate_uuid_v7_ok [simp]: "validate_uuid_v7 p v = Inr u \<longleftrightarrow> is_uuid_v7 v"
  by (simp add: validate_uuid_v7_def)

lemma validate_text_ok [simp]:
  "validate_text p v m = Inr u \<longleftrightarrow> trim v \<noteq> [] \<and> length v \<le> m"
  by (auto simp: validate_text_def)

lemma validate_sha256_ok [simp]: "validate_sha256 p v = Inr u \<longleftrightarrow> is_hex64 v"
  by (simp add: validate_sha256_def)

section \<open>Error records\<close>

fun source_fields_valid :: "error_record \<Rightarrow> error_source \<Rightarrow> bool" where
  "source_fields_valid e error_source.ResponseFailed = is_some (er_wire_type e)"
| "source_fields_valid e error_source.ResponseCancelled = is_some (er_wire_type e)"
| "source_fields_valid e error_source.SseError = is_some (er_wire_type e)"
| "source_fields_valid e error_source.ResponseIncomplete = is_some (er_reason e)"
| "source_fields_valid e error_source.HttpStatus = is_some (er_http_status e)"
| "source_fields_valid e error_source.TurnComplete = (\<not> is_some (er_http_status e))"
| "source_fields_valid e error_source.TurnAborted = is_some (er_reason e)"
| "source_fields_valid e error_source.CaptureGap = is_some (er_reason e)"
| "source_fields_valid e error_source.ContentExpired = is_some (er_reason e)"
| "source_fields_valid e error_source.ProcessExit =
     (is_some (er_exit_code e) \<or> is_some (er_signal e))"
| "source_fields_valid e error_source.UnsupportedCodexBuild =
     is_some_and (er_code e) is_hex64"

definition validate_error_record :: "error_record \<Rightarrow> validation" where
  "validate_error_record e =
     check_all [
       validate_uuid_v7 ''error_id'' (er_error_id e),
       validate_text ''task_ref'' (er_task_ref e) MAX_ID_BYTES,
       validate_text ''message'' (er_message e) MAX_ERROR_MESSAGE_BYTES,
       check_opt (er_wire_type e) (\<lambda>v. validate_text ''wire_type'' v MAX_SHORT_TEXT_BYTES),
       check_opt (er_code e) (\<lambda>v. validate_text ''code'' v MAX_SHORT_TEXT_BYTES),
       check_opt (er_param e) (\<lambda>v. validate_text ''param'' v MAX_SHORT_TEXT_BYTES),
       check_opt (er_reason e) (\<lambda>v. validate_text ''reason'' v MAX_ERROR_MESSAGE_BYTES),
       check_opt (er_http_status e) (\<lambda>s.
         reject_if (\<not> (100 \<le> s \<and> s \<le> 599))
           (verr ''http_status'' ''must be between 100 and 599'')),
       reject_if (\<not> source_fields_valid e (er_source e))
         (verr ''source'' ''required structured fields are missing for this error source'')]"

section \<open>Task snapshots\<close>

definition validate_snapshot :: "task_snapshot \<Rightarrow> validation" where
  "validate_snapshot s =
     check_all [
       validate_text ''task_ref'' (sn_task_ref s) MAX_ID_BYTES,
       validate_text ''identity.provider'' (id_provider (sn_identity s)) 64,
       validate_text ''identity.session_id'' (id_session_id (sn_identity s)) MAX_ID_BYTES,
       validate_text ''identity.thread_id'' (id_thread_id (sn_identity s)) MAX_ID_BYTES,
       validate_text ''identity.turn_id'' (id_turn_id (sn_identity s)) MAX_ID_BYTES,
       reject_if (identity_task_ref (sn_identity s) \<noteq> sn_task_ref s)
         (verr ''task_ref'' ''must match session_id:thread_id:turn_id''),
       reject_if (cm_request_kind (sn_codex s) \<noteq> ''turn'')
         (verr ''codex.request_kind'' ''only request_kind=turn may create a task''),
       check_opt (sn_conversation_title s) (\<lambda>t. validate_text ''conversation_title'' t 512),
       reject_if (sn_updated_at_ms s < sn_started_at_ms s)
         (verr ''updated_at_ms'' ''must not predate started_at_ms''),
       (case sn_phase s of
          task_phase.Terminal \<Rightarrow>
            reject_if (\<not> is_some (sn_terminal s) \<or> \<not> is_some (sn_completed_at_ms s))
              (verr ''terminal'' ''terminal phase requires outcome and completed_at_ms'')
        | _ \<Rightarrow>
            reject_if (is_some (sn_terminal s) \<or> is_some (sn_completed_at_ms s))
              (verr ''terminal'' ''non-terminal phase forbids outcome and completed_at_ms'')),
       check_opt (sn_last_error s) (\<lambda>e. under_r ''last_error'' (validate_error_record e))]"

section \<open>Attempts\<close>

fun valid_terminal_fields :: "attempt_record \<Rightarrow> attempt_status \<Rightarrow> bool" where
  "valid_terminal_fields a attempt_status.Running =
     (\<not> is_some (at_ended_at_ms a) \<and> \<not> is_some (at_error a))"
| "valid_terminal_fields a attempt_status.Completed =
     (is_some (at_ended_at_ms a) \<and> \<not> is_some (at_error a))"
| "valid_terminal_fields a attempt_status.Failed =
     (is_some (at_ended_at_ms a) \<and> is_some_and (at_error a) (\<lambda>e. er_source e \<in>
        {error_source.ResponseFailed, error_source.SseError, error_source.HttpStatus}))"
| "valid_terminal_fields a attempt_status.Incomplete =
     (is_some (at_ended_at_ms a) \<and>
      is_some_and (at_error a) (\<lambda>e. er_source e = error_source.ResponseIncomplete))"
| "valid_terminal_fields a attempt_status.Cancelled =
     (is_some (at_ended_at_ms a) \<and>
      is_some_and (at_error a) (\<lambda>e. er_source e = error_source.ResponseCancelled))"
| "valid_terminal_fields a attempt_status.TransportLost =
     (is_some (at_ended_at_ms a) \<and>
      is_some_and (at_error a) (\<lambda>e. er_source e = error_source.CaptureGap))"

definition validate_attempt :: "attempt_record \<Rightarrow> validation" where
  "validate_attempt a =
     check_all [
       validate_uuid_v7 ''attempt_id'' (at_attempt_id a),
       validate_text ''task_ref'' (at_task_ref a) MAX_ID_BYTES,
       validate_text ''transport'' (at_transport a) 64,
       reject_if (at_ordinal a = 0) (verr ''ordinal'' ''must be greater than zero''),
       reject_if (is_some_and (at_ended_at_ms a) (\<lambda>ended. ended < at_started_at_ms a))
         (verr ''ended_at_ms'' ''must not predate started_at_ms''),
       check_opt (at_request_object_sha256 a) (validate_sha256 ''request_object_sha256''),
       check_opt (at_response_object_sha256 a) (validate_sha256 ''response_object_sha256''),
       check_opt (at_error a) (\<lambda>e. under_r ''error'' (validate_error_record e)),
       reject_if (\<not> valid_terminal_fields a (at_status a))
         (verr ''status''
           ''attempt status, terminal time, and error evidence are inconsistent'')]"

section \<open>Task events\<close>

fun expected_terminal :: "task_event_kind \<Rightarrow> terminal_outcome option" where
  "expected_terminal task_event_kind.TerminalCompleted = Some terminal_outcome.Completed"
| "expected_terminal task_event_kind.TerminalFailed = Some terminal_outcome.Failed"
| "expected_terminal task_event_kind.TerminalAborted = Some terminal_outcome.Aborted"
| "expected_terminal task_event_kind.TerminalTerminated = Some terminal_outcome.Terminated"
| "expected_terminal task_event_kind.ProcessExit = Some terminal_outcome.Terminated"
| "expected_terminal task_event_kind.TerminalLost = Some terminal_outcome.Lost"
| "expected_terminal _ = None"

fun phase_valid :: "task_event_kind \<Rightarrow> task_phase \<Rightarrow> bool" where
  "phase_valid task_event_kind.TaskObserved p = (p = task_phase.Running)"
| "phase_valid task_event_kind.AttemptStarted p = (p = task_phase.Running)"
| "phase_valid task_event_kind.AttemptCompleted p =
     (p = task_phase.Running \<or> p = task_phase.AwaitingTool)"
| "phase_valid task_event_kind.AttemptFailed p = (p = task_phase.Retrying)"
| "phase_valid task_event_kind.AttemptIncomplete p = (p = task_phase.Retrying)"
| "phase_valid task_event_kind.AttemptCancelled p = (p = task_phase.Retrying)"
| "phase_valid task_event_kind.AttemptLost p = (p = task_phase.Retrying)"
| "phase_valid task_event_kind.Retrying p = (p = task_phase.Retrying)"
| "phase_valid task_event_kind.AwaitingTool p = (p = task_phase.AwaitingTool)"
| "phase_valid task_event_kind.CaptureGap p = (p \<noteq> task_phase.Terminal)"
| "phase_valid task_event_kind.UnsupportedBuild p = (p \<noteq> task_phase.Terminal)"
| "phase_valid task_event_kind.TerminalCompleted p = (p = task_phase.Terminal)"
| "phase_valid task_event_kind.TerminalFailed p = (p = task_phase.Terminal)"
| "phase_valid task_event_kind.TerminalAborted p = (p = task_phase.Terminal)"
| "phase_valid task_event_kind.TerminalTerminated p = (p = task_phase.Terminal)"
| "phase_valid task_event_kind.TerminalLost p = (p = task_phase.Terminal)"
| "phase_valid task_event_kind.ProcessExit p = (p = task_phase.Terminal)"

definition validate_event_projection :: "task_event \<Rightarrow> validation" where
  "validate_event_projection e =
     check_all [
       reject_if (ev_terminal e \<noteq> expected_terminal (ev_kind e)
           \<or> is_some (expected_terminal (ev_kind e)) \<noteq> (ev_phase e = task_phase.Terminal))
         (verr ''terminal'' ''phase and outcome must match the event kind''),
       reject_if (\<not> phase_valid (ev_kind e) (ev_phase e))
         (verr ''phase'' ''is not valid for the event kind'')]"

definition error_source_is :: "task_event \<Rightarrow> error_source set \<Rightarrow> bool" where
  "error_source_is e sources = is_some_and (ev_error e) (\<lambda>r. er_source r \<in> sources)"

fun evidence_valid :: "task_event \<Rightarrow> task_event_kind \<Rightarrow> bool" where
  "evidence_valid e task_event_kind.TerminalCompleted = (\<not> is_some (ev_error e))"
| "evidence_valid e task_event_kind.TerminalFailed =
     error_source_is e {error_source.TurnComplete}"
| "evidence_valid e task_event_kind.TerminalAborted =
     error_source_is e {error_source.TurnAborted}"
| "evidence_valid e task_event_kind.TerminalTerminated =
     error_source_is e {error_source.ProcessExit}"
| "evidence_valid e task_event_kind.ProcessExit =
     error_source_is e {error_source.ProcessExit}"
| "evidence_valid e task_event_kind.TerminalLost =
     error_source_is e {error_source.CaptureGap}"
| "evidence_valid e task_event_kind.AttemptFailed =
     error_source_is e
       {error_source.ResponseFailed, error_source.SseError, error_source.HttpStatus}"
| "evidence_valid e task_event_kind.AttemptIncomplete =
     error_source_is e {error_source.ResponseIncomplete}"
| "evidence_valid e task_event_kind.AttemptCancelled =
     error_source_is e {error_source.ResponseCancelled}"
| "evidence_valid e task_event_kind.AttemptLost =
     error_source_is e {error_source.CaptureGap}"
| "evidence_valid e task_event_kind.UnsupportedBuild =
     error_source_is e {error_source.UnsupportedCodexBuild}"
| "evidence_valid e _ = True"

definition validate_event_evidence :: "task_event \<Rightarrow> validation" where
  "validate_event_evidence e =
     reject_if (\<not> evidence_valid e (ev_kind e))
       (verr ''error'' ''structured evidence does not match the event kind'')"

definition validate_event :: "task_event \<Rightarrow> validation" where
  "validate_event e =
     check_all [
       validate_uuid_v7 ''event_id'' (ev_event_id e),
       validate_text ''task_ref'' (ev_task_ref e) MAX_ID_BYTES,
       reject_if (ev_sequence e = 0) (verr ''sequence'' ''must be greater than zero''),
       check_opt (ev_error e) (\<lambda>r. check_all [
         under_r ''error'' (validate_error_record r),
         reject_if (er_task_ref r \<noteq> ev_task_ref e)
           (verr ''error.task_ref'' ''must match event task_ref'')]),
       validate_event_projection e,
       validate_event_evidence e]"

section \<open>Capture gaps and uploads\<close>

definition validate_gap :: "capture_gap_record \<Rightarrow> validation" where
  "validate_gap g =
     check_all [
       validate_uuid_v7 ''gap_id'' (gap_gap_id g),
       validate_text ''flow_id'' (gap_flow_id g) MAX_ID_BYTES,
       validate_text ''reason'' (gap_reason g) MAX_ERROR_MESSAGE_BYTES,
       reject_if (gap_end_seq g < gap_start_seq g)
         (verr ''end_seq'' ''must not be smaller than start_seq'')]"

text \<open>The four loops of \<open>TaskUpload::validate\<close>, with the loop index and the sets it fills.\<close>

fun upload_attempts_loop ::
  "string \<Rightarrow> nat \<Rightarrow> uuid set \<Rightarrow> u32 set \<Rightarrow> attempt_record list \<Rightarrow> validation" where
  "upload_attempts_loop task_ref i ids ordinals [] = Inr ()"
| "upload_attempts_loop task_ref i ids ordinals (a # as) =
     check_all [
       under_r (indexed ''attempts'' i) (validate_attempt a),
       reject_if (at_task_ref a \<noteq> task_ref)
         (verr (indexed ''attempts'' i @ ''.task_ref'') ''must match snapshot task_ref''),
       reject_if (at_attempt_id a \<in> ids \<or> at_ordinal a \<in> ordinals)
         (verr (indexed ''attempts'' i) ''attempt_id and ordinal must be unique''),
       upload_attempts_loop task_ref (Suc i) (insert (at_attempt_id a) ids)
         (insert (at_ordinal a) ordinals) as]"

fun upload_events_loop ::
  "string \<Rightarrow> nat \<Rightarrow> u64 option \<Rightarrow> bool \<Rightarrow> task_event list \<Rightarrow> validation_error + u64 option" where
  "upload_events_loop task_ref i previous terminal_seen [] = Inr previous"
| "upload_events_loop task_ref i previous terminal_seen (e # es) =
     bindr (check_all [
         under_r (indexed ''events'' i) (validate_event e),
         reject_if (ev_task_ref e \<noteq> task_ref)
           (verr (indexed ''events'' i @ ''.task_ref'') ''must match snapshot task_ref''),
         reject_if terminal_seen
           (verr (indexed ''events'' i) ''no event may follow a terminal task event''),
         reject_if (is_some_and previous (\<lambda>p. ev_sequence e \<le> p))
           (verr (indexed ''events'' i @ ''.sequence'')
             ''events must be in strictly increasing sequence order'')])
       (\<lambda>_. upload_events_loop task_ref (Suc i) (Some (ev_sequence e))
              (is_some (ev_terminal e)) es)"

fun upload_errors_loop :: "string \<Rightarrow> nat \<Rightarrow> uuid set \<Rightarrow> error_record list \<Rightarrow> validation" where
  "upload_errors_loop task_ref i ids [] = Inr ()"
| "upload_errors_loop task_ref i ids (e # es) =
     check_all [
       under_r (indexed ''errors'' i) (validate_error_record e),
       reject_if (er_task_ref e \<noteq> task_ref \<or> er_error_id e \<in> ids)
         (verr (indexed ''errors'' i) ''task_ref must match and error_id must be unique''),
       upload_errors_loop task_ref (Suc i) (insert (er_error_id e) ids) es]"

fun upload_gaps_loop :: "string \<Rightarrow> nat \<Rightarrow> capture_gap_record list \<Rightarrow> validation" where
  "upload_gaps_loop task_ref i [] = Inr ()"
| "upload_gaps_loop task_ref i (g # gs) =
     check_all [
       under_r (indexed ''gaps'' i) (validate_gap g),
       reject_if (is_some_and (gap_task_ref g) (\<lambda>v. v \<noteq> task_ref))
         (verr (indexed ''gaps'' i @ ''.task_ref'') ''must match snapshot task_ref''),
       upload_gaps_loop task_ref (Suc i) gs]"

definition validate_upload :: "task_upload \<Rightarrow> validation" where
  "validate_upload u =
     (let task_ref = sn_task_ref (up_snapshot u) in
      bindr (check_all [
          under_r ''snapshot'' (validate_snapshot (up_snapshot u)),
          upload_attempts_loop task_ref 0 {} {} (up_attempts u)])
        (\<lambda>_. bindr (upload_events_loop task_ref 0 None False (up_events u))
        (\<lambda>previous. check_all [
          reject_if (is_some_and previous (\<lambda>q. q > sn_sequence (up_snapshot u)))
            (verr ''snapshot.sequence'' ''must not predate an uploaded event sequence''),
          upload_errors_loop task_ref 0 {} (up_errors u),
          upload_gaps_loop task_ref 0 (up_gaps u)])))"

section \<open>Heartbeats and batches\<close>

definition validate_heartbeat :: "heartbeat \<Rightarrow> validation" where
  "validate_heartbeat h =
     check_all [
       validate_uuid_v7 ''heartbeat_id'' (hb_heartbeat_id h),
       validate_uuid_v7 ''instance_id'' (hb_instance_id h),
       validate_text ''client_id'' (hb_client_id h) MAX_ID_BYTES,
       check_opt (hb_note h) (\<lambda>n. validate_text ''note'' n MAX_ERROR_MESSAGE_BYTES)]"

fun batch_tasks_loop :: "nat \<Rightarrow> string set \<Rightarrow> task_upload list \<Rightarrow> validation" where
  "batch_tasks_loop i refs [] = Inr ()"
| "batch_tasks_loop i refs (t # ts) =
     check_all [
       under_r (indexed ''tasks'' i) (validate_upload t),
       reject_if (sn_task_ref (up_snapshot t) \<in> refs)
         (verr (indexed ''tasks'' i @ ''.snapshot.task_ref'') ''must be unique within a batch''),
       batch_tasks_loop (Suc i) (insert (sn_task_ref (up_snapshot t)) refs) ts]"

fun batch_heartbeats_loop :: "client_instance \<Rightarrow> nat \<Rightarrow> heartbeat list \<Rightarrow> validation" where
  "batch_heartbeats_loop c i [] = Inr ()"
| "batch_heartbeats_loop c i (h # hs) =
     check_all [
       under_r (indexed ''heartbeats'' i) (validate_heartbeat h),
       reject_if (hb_client_id h \<noteq> ci_client_id c \<or> hb_instance_id h \<noteq> ci_instance_id c)
         (verr (indexed ''heartbeats'' i) ''client identity must match the batch envelope''),
       batch_heartbeats_loop c (Suc i) hs]"

definition validate_batch :: "ingest_batch \<Rightarrow> validation" where
  "validate_batch b =
     check_all [
       reject_if (ib_version b \<noteq> PROTOCOL_VERSION)
         (verr ''version'' (''must equal '' @ show_nat (unat PROTOCOL_VERSION))),
       validate_uuid_v7 ''batch_id'' (ib_batch_id b),
       validate_uuid_v7 ''client.instance_id'' (ci_instance_id (ib_client b)),
       validate_text ''client.client_id'' (ci_client_id (ib_client b)) MAX_ID_BYTES,
       validate_text ''client.hostname'' (ci_hostname (ib_client b)) MAX_SHORT_TEXT_BYTES,
       validate_text ''client.platform'' (ci_platform (ib_client b)) MAX_SHORT_TEXT_BYTES,
       validate_text ''client.codex_version'' (ci_codex_version (ib_client b))
         MAX_SHORT_TEXT_BYTES,
       reject_if (length (ib_tasks b) > MAX_BATCH_TASKS
           \<or> length (ib_heartbeats b) > MAX_BATCH_HEARTBEATS)
         (verr ''tasks'' ''batch contains too many tasks or heartbeats''),
       batch_tasks_loop 0 {} (ib_tasks b),
       batch_heartbeats_loop (ib_client b) 0 (ib_heartbeats b)]"

section \<open>Content requests, commands, manifests and chunks\<close>

definition validate_content_request :: "content_request \<Rightarrow> validation" where
  "validate_content_request r =
     check_all [
       validate_uuid_v7 ''request_id'' (cr_request_id r),
       validate_text ''client_id'' (cr_client_id r) MAX_ID_BYTES,
       validate_text ''task_ref'' (cr_task_ref r) MAX_ID_BYTES,
       validate_text ''session_id'' (cr_session_id r) MAX_ID_BYTES,
       validate_text ''thread_id'' (cr_thread_id r) MAX_ID_BYTES,
       reject_if (cr_parts r = []) (verr ''parts'' ''must not be empty''),
       reject_if (is_some_and (cr_expires_at_ms r) (\<lambda>x. x \<le> cr_created_at_ms r))
         (verr ''expires_at_ms'' ''must be later than created_at_ms'')]"

fun validate_command :: "client_command \<Rightarrow> validation" where
  "validate_command (RequestContent c) =
     check_all [
       validate_uuid_v7 ''command_id'' (cc_command_id c),
       validate_content_request (cc_request c)]"

fun commands_loop :: "nat \<Rightarrow> client_command list \<Rightarrow> validation" where
  "commands_loop i [] = Inr ()"
| "commands_loop i (c # cs) =
     check_all [under_r (indexed ''commands'' i) (validate_command c), commands_loop (Suc i) cs]"

definition validate_poll_response :: "command_poll_response \<Rightarrow> validation" where
  "validate_poll_response r = commands_loop 0 (cp_commands r)"

definition validate_manifest :: "content_object_manifest \<Rightarrow> validation" where
  "validate_manifest m =
     check_all [
       validate_uuid_v7 ''request_id'' (mf_request_id m),
       validate_text ''task_ref'' (mf_task_ref m) MAX_ID_BYTES,
       validate_text ''session_id'' (mf_session_id m) MAX_ID_BYTES,
       validate_text ''thread_id'' (mf_thread_id m) MAX_ID_BYTES,
       validate_sha256 ''object_sha256'' (mf_object_sha256 m),
       validate_text ''media_type'' (mf_media_type m) MAX_SHORT_TEXT_BYTES,
       reject_if (mf_chunk_count m = 0) (verr ''chunk_count'' ''must be greater than zero'')]"

definition validate_chunk :: "(byte list \<Rightarrow> string) \<Rightarrow> content_upload_chunk \<Rightarrow> validation" where
  "validate_chunk sha c =
     check_all [
       validate_uuid_v7 ''request_id'' (ch_request_id c),
       validate_sha256 ''object_sha256'' (ch_object_sha256 c),
       validate_sha256 ''payload_sha256'' (ch_payload_sha256 c),
       reject_if (ch_chunk_count c = 0 \<or> ch_chunk_index c \<ge> ch_chunk_count c)
         (verr ''chunk_index'' ''must be smaller than a non-zero chunk_count''),
       reject_if (ch_is_last c \<noteq> (ch_chunk_index c + 1 = ch_chunk_count c))
         (verr ''is_last'' ''must identify exactly the final chunk''),
       reject_if (length (ch_payload_zstd c) > MAX_CONTENT_CHUNK_BYTES)
         (verr ''payload_zstd''
           (''must not exceed '' @ show_nat MAX_CONTENT_CHUNK_BYTES @ '' bytes'')),
       reject_if (sha (ch_payload_zstd c) \<noteq> to_ascii_lowercase (ch_payload_sha256 c))
         (verr ''payload_sha256'' ''must match payload_zstd'')]"

section \<open>What acceptance means\<close>

lemmas accept_simps =
  validate_error_record_def validate_snapshot_def validate_attempt_def validate_event_def
  validate_event_projection_def validate_event_evidence_def

lemma expected_terminal_hint: "expected_terminal k = terminal_hint k"
  by (cases k) simp_all

lemma phase_valid_Terminal: "phase_valid k task_phase.Terminal \<longleftrightarrow> terminal_hint k \<noteq> None"
  by (cases k) simp_all

lemma phase_valid_not_Terminal:
  "phase_valid k p \<Longrightarrow> terminal_hint k = None \<Longrightarrow> p \<noteq> task_phase.Terminal"
  by (cases k) auto

lemma upload_attempts_loop_ok:
  "upload_attempts_loop t i ids ords as = Inr () \<longleftrightarrow>
     (\<forall>a \<in> set as. validate_attempt a = Inr () \<and> at_task_ref a = t)
     \<and> at_attempt_id ` set as \<inter> ids = {} \<and> at_ordinal ` set as \<inter> ords = {}
     \<and> distinct (map at_attempt_id as) \<and> distinct (map at_ordinal as)"
  by (induction as arbitrary: i ids ords) auto

lemma upload_errors_loop_ok:
  "upload_errors_loop t i ids es = Inr () \<longleftrightarrow>
     (\<forall>e \<in> set es. validate_error_record e = Inr () \<and> er_task_ref e = t)
     \<and> er_error_id ` set es \<inter> ids = {} \<and> distinct (map er_error_id es)"
  by (induction es arbitrary: i ids) auto

lemma upload_gaps_loop_ok:
  "upload_gaps_loop t i gs = Inr () \<longleftrightarrow>
     (\<forall>g \<in> set gs. validate_gap g = Inr () \<and> (\<forall>r. gap_task_ref g = Some r \<longrightarrow> r = t))"
  by (induction gs arbitrary: i) (auto simp: is_some_and_iff)

definition prior_seq :: "u64 option \<Rightarrow> u64 list" where
  "prior_seq prev = (case prev of None \<Rightarrow> [] | Some q \<Rightarrow> [q])"

lemma sorted_prior:
  "sorted_wrt (<) (prior_seq prev @ q # qs) \<longleftrightarrow>
     \<not> is_some_and prev (\<lambda>p. q \<le> p) \<and> sorted_wrt (<) (prior_seq (Some q) @ qs)"
  by (cases prev) (auto simp: prior_seq_def not_le sorted_wrt2)

lemma terminal_order:
  "(\<forall>f \<in> set (butlast (e # es)). ev_terminal f = None) \<longleftrightarrow>
     (\<forall>f \<in> set (butlast es). ev_terminal f = None) \<and> (is_some (ev_terminal e) \<longrightarrow> es = [])"
  by (cases es) (auto simp: is_some_iff)

lemma upload_events_loop_ok:
  "upload_events_loop t i prev seen es = Inr r \<longleftrightarrow>
     (\<forall>e \<in> set es. validate_event e = Inr () \<and> ev_task_ref e = t)
     \<and> sorted_wrt (<) (prior_seq prev @ map ev_sequence es)
     \<and> (\<forall>e \<in> set (butlast es). ev_terminal e = None)
     \<and> (seen \<longrightarrow> es = [])
     \<and> r = (if es = [] then prev else Some (ev_sequence (last es)))"
proof (induction es arbitrary: i prev seen)
  case Nil
  then show ?case by (cases prev) (auto simp: prior_seq_def)
next
  case (Cons e es)
  show ?case
    unfolding upload_events_loop.simps bindr_eq_Inr Cons.IH terminal_order list.map sorted_prior
    by (simp del: butlast.simps) blast
qed

lemma batch_tasks_loop_ok:
  "batch_tasks_loop i refs ts = Inr () \<longleftrightarrow>
     (\<forall>t \<in> set ts. validate_upload t = Inr ())
     \<and> (\<lambda>t. sn_task_ref (up_snapshot t)) ` set ts \<inter> refs = {}
     \<and> distinct (map (\<lambda>t. sn_task_ref (up_snapshot t)) ts)"
  by (induction ts arbitrary: i refs) auto

lemma batch_heartbeats_loop_ok:
  "batch_heartbeats_loop c i hs = Inr () \<longleftrightarrow>
     (\<forall>h \<in> set hs. validate_heartbeat h = Inr ()
        \<and> hb_client_id h = ci_client_id c \<and> hb_instance_id h = ci_instance_id c)"
  by (induction hs arbitrary: i) auto

text \<open>
  The contract of an upload, stated without the loops: every part validates and belongs to the
  snapshot's task, identifiers and ordinals are unique, the events are strictly ordered and end
  at the first terminal one, and none is newer than the snapshot.
\<close>

definition upload_contract :: "task_upload \<Rightarrow> bool" where
  "upload_contract u \<longleftrightarrow>
     (let s = up_snapshot u; t = sn_task_ref s in
        validate_snapshot s = Inr ()
      \<and> (\<forall>a \<in> set (up_attempts u). validate_attempt a = Inr () \<and> at_task_ref a = t)
      \<and> distinct (map at_attempt_id (up_attempts u))
      \<and> distinct (map at_ordinal (up_attempts u))
      \<and> (\<forall>e \<in> set (up_events u). validate_event e = Inr () \<and> ev_task_ref e = t
           \<and> ev_sequence e \<le> sn_sequence s)
      \<and> sorted_wrt (<) (map ev_sequence (up_events u))
      \<and> (\<forall>e \<in> set (butlast (up_events u)). ev_terminal e = None)
      \<and> (\<forall>e \<in> set (up_errors u). validate_error_record e = Inr () \<and> er_task_ref e = t)
      \<and> distinct (map er_error_id (up_errors u))
      \<and> (\<forall>g \<in> set (up_gaps u). validate_gap g = Inr ()
           \<and> (\<forall>r. gap_task_ref g = Some r \<longrightarrow> r = t)))"

lemma sorted_last_le:
  "sorted_wrt (<) qs \<Longrightarrow> qs \<noteq> [] \<Longrightarrow> (last qs \<le> n) = (\<forall>q \<in> set qs. q \<le> (n :: u64))"
proof (induction qs)
  case Nil
  then show ?case by simp
next
  case (Cons q qs)
  show ?case
  proof (cases "qs = []")
    case False
    with Cons have "q < last qs" by simp
    then have "last qs \<le> n \<Longrightarrow> q \<le> n" by simp
    with Cons False show ?thesis by auto
  qed simp
qed

lemma events_bound:
  assumes "sorted_wrt (<) (map ev_sequence es)"
  shows "\<not> is_some_and (if es = [] then None else Some (ev_sequence (last es))) (\<lambda>q. q > n)
     \<longleftrightarrow> (\<forall>e \<in> set es. ev_sequence e \<le> n)"
  using sorted_last_le [OF assms, of n] by (cases "es = []") (auto simp: not_less last_map)

lemma validate_upload_contract: "validate_upload u = Inr () \<longleftrightarrow> upload_contract u"
proof -
  let ?t = "sn_task_ref (up_snapshot u)"
  let ?es = "up_events u"
  let ?last = "if ?es = [] then None else Some (ev_sequence (last ?es))"
  have "validate_upload u = Inr () \<longleftrightarrow>
      validate_snapshot (up_snapshot u) = Inr ()
    \<and> upload_attempts_loop ?t 0 {} {} (up_attempts u) = Inr ()
    \<and> upload_events_loop ?t 0 None False ?es = Inr ?last
    \<and> \<not> is_some_and ?last (\<lambda>q. q > sn_sequence (up_snapshot u))
    \<and> upload_errors_loop ?t 0 {} (up_errors u) = Inr ()
    \<and> upload_gaps_loop ?t 0 (up_gaps u) = Inr ()"
    by (auto simp: validate_upload_def Let_def bindr_eq_Inr upload_events_loop_ok)
  also have "\<dots> \<longleftrightarrow> upload_contract u"
    unfolding upload_attempts_loop_ok upload_errors_loop_ok upload_gaps_loop_ok
      upload_events_loop_ok upload_contract_def Let_def prior_seq_def
    using events_bound [of ?es "sn_sequence (up_snapshot u)"] by auto
  finally show ?thesis .
qed

lemma event_terminal:
  assumes "validate_event e = Inr ()"
  shows "ev_terminal e = terminal_hint (ev_kind e)"
    and "ev_phase e = task_phase.Terminal \<longleftrightarrow> terminal_hint (ev_kind e) \<noteq> None"
  using assms by (auto simp: accept_simps expected_terminal_hint is_some_iff)

lemma event_facts:
  assumes "validate_event e = Inr ()"
  shows "trim (ev_task_ref e) \<noteq> []" "length (ev_task_ref e) \<le> MAX_ID_BYTES" "0 < ev_sequence e"
    "ev_error e = Some r \<Longrightarrow> validate_error_record r = Inr ()"
  using assms by (auto simp: validate_event_def word_neq_0_conv)

section \<open>A sample batch\<close>

text \<open>Concrete records on which the witnesses evaluate the checks.\<close>

definition sample_identity :: task_identity where
  "sample_identity = \<lparr>id_provider = ''openai'', id_session_id = ''s'', id_thread_id = ''t'',
     id_turn_id = ''u''\<rparr>"

definition sample_snapshot :: task_snapshot where
  "sample_snapshot = \<lparr>sn_task_ref = ''s:t:u'', sn_identity = sample_identity,
     sn_codex = \<lparr>cm_request_kind = ''turn'', cm_parent_turn_id = None, cm_root_turn_id = None\<rparr>,
     sn_conversation_title = None, sn_sequence = 0, sn_phase = task_phase.Running,
     sn_terminal = None, sn_integrity = integrity_state.Complete, sn_model = None,
     sn_attempt_count = 0, sn_tool_names = [], sn_response_ids = [], sn_usage = usage_default,
     sn_started_at_ms = 10, sn_updated_at_ms = 10, sn_completed_at_ms = None,
     sn_last_error = None\<rparr>"

definition sample_event :: "u64 \<Rightarrow> task_event_kind \<Rightarrow> task_event" where
  "sample_event n k = \<lparr>ev_event_id = Uuid 7 1, ev_task_ref = ''s:t:u'', ev_sequence = n,
     ev_occurred_at_ms = 11, ev_kind = k, ev_phase = phase_hint k, ev_terminal = terminal_hint k,
     ev_attempt_id = None, ev_response_id = None, ev_model = None, ev_tool_names = [''shell''],
     ev_usage = usage_default, ev_error = None, ev_http_status = None, ev_exit_code = None,
     ev_signal = None, ev_note = None\<rparr>"

definition sample_client :: client_instance where
  "sample_client = \<lparr>ci_client_id = ''c'', ci_instance_id = Uuid 7 2, ci_hostname = ''h'',
     ci_platform = ''p'', ci_codex_version = ''v'', ci_started_at_ms = 1\<rparr>"

definition sample_upload :: task_upload where
  "sample_upload = \<lparr>up_snapshot = sample_snapshot\<lparr>sn_sequence := 1\<rparr>, up_attempts = [],
     up_events = [sample_event 1 task_event_kind.TaskObserved], up_errors = [], up_gaps = []\<rparr>"

definition sample_batch :: ingest_batch where
  "sample_batch = \<lparr>ib_version = 1, ib_batch_id = Uuid 7 3, ib_generated_at_ms = 12,
     ib_client = sample_client, ib_tasks = [sample_upload], ib_heartbeats = []\<rparr>"

lemmas sample_defs = sample_identity_def sample_snapshot_def sample_event_def sample_client_def
  sample_upload_def sample_batch_def

lemmas limit_defs = MAX_ID_BYTES_def MAX_SHORT_TEXT_BYTES_def MAX_ERROR_MESSAGE_BYTES_def
  PROTOCOL_VERSION_def MAX_BATCH_TASKS_def MAX_BATCH_HEARTBEATS_def

lemmas text_eval = trim_graphic_eq is_graphic_def code_def

lemma sample_snapshot_valid: "validate_snapshot (sample_snapshot\<lparr>sn_sequence := n\<rparr>) = Inr ()"
  by (simp add: validate_snapshot_def sample_snapshot_def sample_identity_def
      identity_task_ref_def text_eval limit_defs)

lemma sample_valid:
  "validate_snapshot sample_snapshot = Inr ()" "validate_batch sample_batch = Inr ()"
proof -
  show "validate_snapshot sample_snapshot = Inr ()"
    using sample_snapshot_valid [of 0] by (simp add: sample_snapshot_def)
  have "upload_contract sample_upload"
    using sample_snapshot_valid [of 1]
    by (simp add: upload_contract_def sample_upload_def sample_event_def validate_event_def
        accept_simps text_eval limit_defs is_uuid_v7_def) (simp add: sample_snapshot_def)
  then show "validate_batch sample_batch = Inr ()"
    by (simp add: validate_batch_def validate_upload_contract sample_batch_def sample_client_def
        text_eval limit_defs is_uuid_v7_def)
qed

section \<open>Properties\<close>

text \<open>
  C4. An upload is accepted exactly when it meets its contract: every record validates and belongs
  to the snapshot's task, attempt identifiers, ordinals and error identifiers are unique, event
  sequences strictly increase and none exceeds the snapshot's, and only the last event may be
  terminal.
\<close>

theorem upload_accepted_iff: "validate_upload u = Inr () \<longleftrightarrow> upload_contract u"
  by (rule validate_upload_contract)

text \<open>
  C5. A batch that is accepted carries protocol version 1, at most 1024 tasks and 1024 heartbeats,
  tasks with pairwise distinct references that all meet the upload contract, and heartbeats of the
  client that sent it.
\<close>

theorem accepted_batch_contract:
  assumes "validate_batch b = Inr ()"
  shows "ib_version b = 1 \<and> length (ib_tasks b) \<le> 1024 \<and> length (ib_heartbeats b) \<le> 1024
    \<and> distinct (map (\<lambda>t. sn_task_ref (up_snapshot t)) (ib_tasks b))
    \<and> list_all upload_contract (ib_tasks b)
    \<and> list_all (\<lambda>h. validate_heartbeat h = Inr () \<and> hb_client_id h = ci_client_id (ib_client b)
         \<and> hb_instance_id h = ci_instance_id (ib_client b)) (ib_heartbeats b)"
  using assms
  by (auto simp: validate_batch_def batch_tasks_loop_ok batch_heartbeats_loop_ok list_all_iff
      validate_upload_contract PROTOCOL_VERSION_def MAX_BATCH_TASKS_def MAX_BATCH_HEARTBEATS_def)

theorem accepted_batch_contract_witness:
  "ib_version sample_batch = 1 \<and> length (ib_tasks sample_batch) \<le> 1024
    \<and> length (ib_heartbeats sample_batch) \<le> 1024
    \<and> distinct (map (\<lambda>t. sn_task_ref (up_snapshot t)) (ib_tasks sample_batch))
    \<and> list_all upload_contract (ib_tasks sample_batch)
    \<and> list_all (\<lambda>h. validate_heartbeat h = Inr ()
         \<and> hb_client_id h = ci_client_id (ib_client sample_batch)
         \<and> hb_instance_id h = ci_instance_id (ib_client sample_batch)) (ib_heartbeats sample_batch)"
  by (rule accepted_batch_contract [OF sample_valid(2)])

end
