(* ===== verification/Protocol_State.thy ===== *)
theory Protocol_State
  imports Protocol_Validation
begin

text \<open>
  The task state machine of \<open>crates/protocol/src/state.rs\<close>. \<open>reducer_apply\<close> is
  \<open>TaskReducer::apply\<close>: it returns the reducer's state after the call beside the call's result, so
  that what an error leaves behind is visible. The second half states the abstract machine a task
  promises (\<open>spec_step\<close>) and that the reducer refines it.
\<close>

section \<open>The reducer\<close>

type_synonym task_reducer = task_snapshot

record reduce_outcome =
  ro_snapshot :: task_snapshot
  ro_changed :: bool

datatype reduce_error =
    InvalidEvent validation_error
  | TaskRefMismatch (event_task_ref: string) (reducer_task_ref: string)
  | NonMonotonicSequence (event_sequence: u64) (current_sequence: u64)
  | SequenceGap (event_sequence: u64) (expected_sequence: u64)
  | TimestampRegression (event_timestamp: i64) (snapshot_timestamp: i64)
  | AlreadyTerminal (existing: terminal_outcome) (incoming: "terminal_outcome option")
  | InvalidPhaseTransition (from_phase: task_phase) (to_phase: task_phase)

fun valid_phase_transition :: "task_phase \<Rightarrow> task_phase \<Rightarrow> bool" where
  "valid_phase_transition task_phase.Running to =
     (to \<in> {task_phase.Running, task_phase.AwaitingTool, task_phase.Retrying,
             task_phase.Terminal})"
| "valid_phase_transition task_phase.AwaitingTool to =
     (to \<in> {task_phase.AwaitingTool, task_phase.Running, task_phase.Retrying,
             task_phase.Terminal})"
| "valid_phase_transition task_phase.Retrying to =
     (to \<in> {task_phase.Retrying, task_phase.Running, task_phase.AwaitingTool,
             task_phase.Terminal})"
| "valid_phase_transition task_phase.Terminal to = False"

definition reducer_guard :: "task_reducer \<Rightarrow> task_event \<Rightarrow> reduce_error + unit" where
  "reducer_guard s e =
     check_all [
       map_err InvalidEvent (validate_event e),
       reject_if (ev_task_ref e \<noteq> sn_task_ref s) (TaskRefMismatch (ev_task_ref e) (sn_task_ref s)),
       reject_if (ev_sequence e \<le> sn_sequence s)
         (NonMonotonicSequence (ev_sequence e) (sn_sequence s)),
       reject_if (ev_sequence e \<noteq> sn_sequence s + 1)
         (SequenceGap (ev_sequence e) (sn_sequence s + 1)),
       reject_if (ev_occurred_at_ms e < sn_updated_at_ms s)
         (TimestampRegression (ev_occurred_at_ms e) (sn_updated_at_ms s)),
       (case sn_terminal s of
          Some x \<Rightarrow> Inl (AlreadyTerminal x (ev_terminal e))
        | None \<Rightarrow> Inr ()),
       reject_if (\<not> valid_phase_transition (sn_phase s) (ev_phase e))
         (InvalidPhaseTransition (sn_phase s) (ev_phase e))]"

definition push_new :: "'a \<Rightarrow> 'a list \<Rightarrow> 'a list" where
  "push_new x xs = (if x \<in> set xs then xs else xs @ [x])"

definition push_all_new :: "'a list \<Rightarrow> 'a list \<Rightarrow> 'a list" where
  "push_all_new ys xs = fold push_new ys xs"

definition reducer_project :: "task_reducer \<Rightarrow> task_event \<Rightarrow> task_reducer" where
  "reducer_project s e =
     s\<lparr>sn_sequence := ev_sequence e,
       sn_updated_at_ms := ev_occurred_at_ms e,
       sn_phase := ev_phase e,
       sn_terminal := ev_terminal e,
       sn_model := or_else (ev_model e) (sn_model s),
       sn_response_ids := (case ev_response_id e of
           Some r \<Rightarrow> push_new r (sn_response_ids s)
         | None \<Rightarrow> sn_response_ids s),
       sn_tool_names := push_all_new (ev_tool_names e) (sn_tool_names s),
       sn_usage := ev_usage e,
       sn_last_error := or_else (ev_error e) (sn_last_error s)\<rparr>"

fun reducer_finish :: "task_event_kind \<Rightarrow> i64 \<Rightarrow> task_reducer \<Rightarrow> task_reducer" where
  "reducer_finish task_event_kind.AttemptStarted at s =
     s\<lparr>sn_attempt_count := saturating_add_u32 (sn_attempt_count s) 1\<rparr>"
| "reducer_finish task_event_kind.CaptureGap at s = s\<lparr>sn_integrity := integrity_state.Degraded\<rparr>"
| "reducer_finish task_event_kind.UnsupportedBuild at s =
     s\<lparr>sn_integrity := integrity_state.UnsupportedBuild\<rparr>"
| "reducer_finish task_event_kind.TerminalLost at s =
     s\<lparr>sn_integrity := integrity_state.Lost, sn_completed_at_ms := Some at\<rparr>"
| "reducer_finish k at s =
     (if is_some (terminal_hint k) then s\<lparr>sn_completed_at_ms := Some at\<rparr> else s)"

definition reducer_apply ::
  "task_reducer \<Rightarrow> task_event \<Rightarrow> task_reducer \<times> (reduce_error + reduce_outcome)" where
  "reducer_apply s e =
     (case reducer_guard s e of
        Inl err \<Rightarrow> (s, Inl err)
      | Inr _ \<Rightarrow>
          (let s' = reducer_finish (ev_kind e) (ev_occurred_at_ms e) (reducer_project s e)
           in (s', Inr \<lparr>ro_snapshot = s', ro_changed = True\<rparr>)))"

text \<open>A reducer fed with a list of events: it keeps its state over the rejected ones.\<close>

definition reducer_run :: "task_reducer \<Rightarrow> task_event list \<Rightarrow> task_reducer" where
  "reducer_run s es = fold (\<lambda>e s. fst (reducer_apply s e)) es s"

section \<open>Guards and frame\<close>

lemma push_new_simps [simp]:
  "set (push_new x xs) = insert x (set xs)"
  "distinct xs \<Longrightarrow> distinct (push_new x xs)"
  by (auto simp: push_new_def)

lemma push_all_new_set: "set (push_all_new ys xs) = set xs \<union> set ys"
  unfolding push_all_new_def by (induction ys arbitrary: xs) auto

lemma push_all_new_distinct: "distinct xs \<Longrightarrow> distinct (push_all_new ys xs)"
  unfolding push_all_new_def by (induction ys arbitrary: xs) auto

lemma next_seq_no_wrap:
  assumes "(q :: u64) < p" and "p = q + 1"
  shows "unat p = unat q + 1"
proof -
  have "unat q < unat (q + 1)" using assms by (simp add: word_less_nat_alt)
  moreover have "unat (q + 1) = (unat q + 1) mod 2 ^ 64" by (simp add: unat_word_ariths)
  moreover have "unat q < 2 ^ 64" using unsigned_less [of q] by simp
  ultimately show ?thesis using assms(2)
    by (cases "unat q + 1 = 2 ^ 64") auto
qed

lemma next_seq_iff:
  "(q :: u64) < p \<and> p = q + 1 \<longleftrightarrow> unat p = unat q + 1"
proof
  assume "unat p = unat q + 1"
  moreover have "unat p < 2 ^ 64" using unsigned_less [of p] by simp
  ultimately show "q < p \<and> p = q + 1"
    by (simp add: word_less_nat_alt word_unat_eq_iff unat_word_ariths)
qed (use next_seq_no_wrap in blast)

lemma reducer_guard_ok:
  "reducer_guard s e = Inr () \<longleftrightarrow>
     validate_event e = Inr () \<and> ev_task_ref e = sn_task_ref s
   \<and> sn_sequence s < ev_sequence e \<and> ev_sequence e = sn_sequence s + 1
   \<and> sn_updated_at_ms s \<le> ev_occurred_at_ms e
   \<and> sn_terminal s = None \<and> sn_phase s \<noteq> task_phase.Terminal"
proof -
  have "valid_phase_transition p q \<longleftrightarrow> p \<noteq> task_phase.Terminal" for p q
    by (cases p; cases q) auto
  then show ?thesis
    by (auto simp: reducer_guard_def map_err_eq_Inr not_le not_less split: option.splits)
qed

lemma reducer_apply_Inr:
  "reducer_apply s e = (s', Inr r) \<longleftrightarrow>
     reducer_guard s e = Inr ()
   \<and> s' = reducer_finish (ev_kind e) (ev_occurred_at_ms e) (reducer_project s e)
   \<and> r = \<lparr>ro_snapshot = s', ro_changed = True\<rparr>"
  by (auto simp: reducer_apply_def Let_def split: sum.splits)

lemma reducer_finish_frame [simp]:
  "sn_task_ref (reducer_finish k at s) = sn_task_ref s"
  "sn_identity (reducer_finish k at s) = sn_identity s"
  "sn_codex (reducer_finish k at s) = sn_codex s"
  "sn_conversation_title (reducer_finish k at s) = sn_conversation_title s"
  "sn_sequence (reducer_finish k at s) = sn_sequence s"
  "sn_phase (reducer_finish k at s) = sn_phase s"
  "sn_terminal (reducer_finish k at s) = sn_terminal s"
  "sn_started_at_ms (reducer_finish k at s) = sn_started_at_ms s"
  "sn_updated_at_ms (reducer_finish k at s) = sn_updated_at_ms s"
  "sn_last_error (reducer_finish k at s) = sn_last_error s"
  "sn_tool_names (reducer_finish k at s) = sn_tool_names s"
  "sn_response_ids (reducer_finish k at s) = sn_response_ids s"
  by (cases k; simp)+

lemma reducer_finish_completed:
  "sn_completed_at_ms (reducer_finish k at s) =
     (if terminal_hint k \<noteq> None then Some at else sn_completed_at_ms s)"
  by (cases k) simp_all

section \<open>Invariants\<close>

lemma validate_snapshot_ok:
  "validate_snapshot s = Inr () \<longleftrightarrow>
     trim (sn_task_ref s) \<noteq> [] \<and> length (sn_task_ref s) \<le> MAX_ID_BYTES
   \<and> trim (id_provider (sn_identity s)) \<noteq> [] \<and> length (id_provider (sn_identity s)) \<le> 64
   \<and> trim (id_session_id (sn_identity s)) \<noteq> []
   \<and> length (id_session_id (sn_identity s)) \<le> MAX_ID_BYTES
   \<and> trim (id_thread_id (sn_identity s)) \<noteq> []
   \<and> length (id_thread_id (sn_identity s)) \<le> MAX_ID_BYTES
   \<and> trim (id_turn_id (sn_identity s)) \<noteq> []
   \<and> length (id_turn_id (sn_identity s)) \<le> MAX_ID_BYTES
   \<and> identity_task_ref (sn_identity s) = sn_task_ref s
   \<and> cm_request_kind (sn_codex s) = ''turn''
   \<and> (\<forall>t. sn_conversation_title s = Some t \<longrightarrow> trim t \<noteq> [] \<and> length t \<le> 512)
   \<and> sn_started_at_ms s \<le> sn_updated_at_ms s
   \<and> (sn_phase s = task_phase.Terminal \<longleftrightarrow> sn_terminal s \<noteq> None)
   \<and> (sn_phase s = task_phase.Terminal \<longleftrightarrow> sn_completed_at_ms s \<noteq> None)
   \<and> (\<forall>e. sn_last_error s = Some e \<longrightarrow> validate_error_record e = Inr ())"
proof -
  have terminal: "(case sn_phase s of
          task_phase.Terminal \<Rightarrow>
            reject_if (\<not> is_some (sn_terminal s) \<or> \<not> is_some (sn_completed_at_ms s))
              (verr ''terminal'' ''terminal phase requires outcome and completed_at_ms'')
        | _ \<Rightarrow>
            reject_if (is_some (sn_terminal s) \<or> is_some (sn_completed_at_ms s))
              (verr ''terminal'' ''non-terminal phase forbids outcome and completed_at_ms''))
      = Inr () \<longleftrightarrow>
     (sn_phase s = task_phase.Terminal \<longleftrightarrow> sn_terminal s \<noteq> None)
   \<and> (sn_phase s = task_phase.Terminal \<longleftrightarrow> sn_completed_at_ms s \<noteq> None)"
    by (cases "sn_phase s"; cases "sn_terminal s"; cases "sn_completed_at_ms s") simp_all
  show ?thesis
    unfolding validate_snapshot_def check_all_Cons_ok terminal
    by (auto simp: check_opt_ok not_less)
qed

lemma reducer_apply_valid:
  assumes "validate_snapshot s = Inr ()" and "reducer_guard s e = Inr ()"
  shows "validate_snapshot
    (reducer_finish (ev_kind e) (ev_occurred_at_ms e) (reducer_project s e)) = Inr ()"
proof -
  from assms(2) have ev: "validate_event e = Inr ()" "sn_updated_at_ms s \<le> ev_occurred_at_ms e"
      "sn_terminal s = None"
    by (simp_all add: reducer_guard_ok)
  note hint = event_terminal [OF ev(1)] and err = event_facts(4) [OF ev(1)]
  from assms(1) ev(3) have "sn_completed_at_ms s = None" by (auto simp: validate_snapshot_ok)
  then show ?thesis
    using assms(1) ev hint err
    by (cases "ev_error e")
      (auto simp: validate_snapshot_ok reducer_finish_completed reducer_project_def)
qed

lemma reducer_apply_cases:
  obtains (rejected) err where "reducer_apply s e = (s, Inl err)" "reducer_guard s e = Inl err"
  | (applied) s' where "reducer_apply s e = (s', Inr \<lparr>ro_snapshot = s', ro_changed = True\<rparr>)"
      "reducer_guard s e = Inr ()"
      "s' = reducer_finish (ev_kind e) (ev_occurred_at_ms e) (reducer_project s e)"
  by (cases "reducer_guard s e") (auto simp: reducer_apply_def Let_def)

lemma reducer_run_induct:
  assumes "P s" and "\<And>s e. P s \<Longrightarrow> P (fst (reducer_apply s e))"
  shows "P (reducer_run s es)"
  using assms(1) unfolding reducer_run_def
  by (induction es arbitrary: s) (auto intro: assms(2))

lemma reducer_run_append: "reducer_run s (es @ fs) = reducer_run (reducer_run s es) fs"
  by (simp add: reducer_run_def)

text \<open>The invariant of a reducer's snapshot: valid for upload, and its two lists without repeats.\<close>

definition reducer_inv :: "task_reducer \<Rightarrow> bool" where
  "reducer_inv s \<longleftrightarrow>
     validate_snapshot s = Inr () \<and> distinct (sn_tool_names s) \<and> distinct (sn_response_ids s)"

lemma reducer_apply_inv: "reducer_inv s \<Longrightarrow> reducer_inv (fst (reducer_apply s e))"
proof (rule reducer_apply_cases [of s e])
  fix s'
  assume inv: "reducer_inv s" and step: "reducer_apply s e =
      (s', Inr \<lparr>ro_snapshot = s', ro_changed = True\<rparr>)" "reducer_guard s e = Inr ()"
    and s': "s' = reducer_finish (ev_kind e) (ev_occurred_at_ms e) (reducer_project s e)"
  have "distinct (sn_tool_names s')" "distinct (sn_response_ids s')"
    using inv by (auto simp: s' reducer_inv_def reducer_project_def push_all_new_distinct
        split: option.splits)
  with inv step reducer_apply_valid [of s e] show ?thesis by (simp add: reducer_inv_def s')
qed simp

section \<open>The abstract task machine\<close>

text \<open>
  What a task promises to its observers: it is active in a phase or ended with an outcome, each
  accepted event carries the next sequence number, and an ended task accepts nothing.
\<close>

datatype task_status = Active task_phase | Ended terminal_outcome

inductive spec_step :: "task_status \<times> nat \<Rightarrow> task_event_kind \<Rightarrow> task_status \<times> nat \<Rightarrow> bool" where
  progress: "terminal_hint k = None \<Longrightarrow> phase_valid k q \<Longrightarrow>
     spec_step (Active p, n) k (Active q, Suc n)"
| finish: "terminal_hint k = Some x \<Longrightarrow> spec_step (Active p, n) k (Ended x, Suc n)"

inductive_cases spec_step_EndedE [elim!]: "spec_step (Ended x, n) k t"

inductive spec_run :: "task_status \<times> nat \<Rightarrow> task_event_kind list \<Rightarrow> task_status \<times> nat \<Rightarrow> bool" where
  stop: "spec_run a [] a"
| step: "spec_step a k b \<Longrightarrow> spec_run b ks c \<Longrightarrow> spec_run a (k # ks) c"

inductive_cases spec_run_NilE [elim!]: "spec_run a [] b"
inductive_cases spec_run_ConsE: "spec_run a (k # ks) b"

definition abs_task :: "task_snapshot \<Rightarrow> task_status \<times> nat" where
  "abs_task s =
     ((case sn_terminal s of Some x \<Rightarrow> Ended x | None \<Rightarrow> Active (sn_phase s)),
      unat (sn_sequence s))"

text \<open>The kinds of the events a reducer accepts out of a list.\<close>

fun accepted_kinds :: "task_reducer \<Rightarrow> task_event list \<Rightarrow> task_event_kind list" where
  "accepted_kinds s [] = []"
| "accepted_kinds s (e # es) =
     (if is_ok (snd (reducer_apply s e)) then [ev_kind e] else [])
       @ accepted_kinds (fst (reducer_apply s e)) es"

lemma reducer_step_refines:
  assumes "reducer_guard s e = Inr ()"
  shows "spec_step (abs_task s) (ev_kind e)
    (abs_task (reducer_finish (ev_kind e) (ev_occurred_at_ms e) (reducer_project s e)))"
proof -
  from assms have ev: "validate_event e = Inr ()" "sn_terminal s = None"
      and seq: "unat (ev_sequence e) = Suc (unat (sn_sequence s))"
    using next_seq_no_wrap by (auto simp: reducer_guard_ok)
  from ev(1) have pv: "phase_valid (ev_kind e) (ev_phase e)"
    by (simp add: accept_simps)
  note hint = event_terminal(1) [OF ev(1)]
  show ?thesis
  proof (cases "terminal_hint (ev_kind e)")
    case None
    then show ?thesis using ev seq pv hint
      by (auto simp: abs_task_def reducer_project_def intro: spec_step.intros)
  next
    case (Some x)
    then show ?thesis using ev seq hint
      by (auto simp: abs_task_def reducer_project_def intro: spec_step.intros)
  qed
qed

lemma spec_step_sequence: "spec_step a k b \<Longrightarrow> snd b = Suc (snd a)"
  by (auto elim: spec_step.cases)

lemma spec_run_sequence: "spec_run a ks b \<Longrightarrow> snd b = snd a + length ks"
  by (induction rule: spec_run.induct) (auto dest: spec_step_sequence)

lemma spec_run_refines: "spec_run (abs_task s) (accepted_kinds s es) (abs_task (reducer_run s es))"
proof (induction es arbitrary: s)
  case Nil
  then show ?case by (simp add: reducer_run_def spec_run.intros)
next
  case (Cons e es)
  have run: "reducer_run s (e # es) = reducer_run (fst (reducer_apply s e)) es"
    by (simp add: reducer_run_def)
  show ?case
  proof (rule reducer_apply_cases [of s e])
    fix err
    assume "reducer_apply s e = (s, Inl err)"
    with Cons [of s] run show ?thesis by simp
  next
    fix s'
    assume "reducer_apply s e = (s', Inr \<lparr>ro_snapshot = s', ro_changed = True\<rparr>)"
      and "reducer_guard s e = Inr ()"
      and "s' = reducer_finish (ev_kind e) (ev_occurred_at_ms e) (reducer_project s e)"
    with Cons [of s'] run reducer_step_refines [of s e] show ?thesis
      by (auto intro: spec_run.step)
  qed
qed

lemma spec_run_terminal_last:
  "spec_run a ks b \<Longrightarrow> \<forall>k \<in> set (butlast ks). terminal_hint k = None"
proof (induction rule: spec_run.induct)
  case (step a k b ks c)
  from step.hyps(1) show ?case
  proof cases
    case (finish x p n)
    with step.hyps(2) have "ks = []" by (cases ks) (auto elim: spec_run_ConsE)
    then show ?thesis by simp
  next
    case progress
    with step.IH show ?thesis by simp
  qed
qed simp

lemma reducer_inv_sample: "reducer_inv sample_snapshot"
  using sample_valid(1) by (simp add: reducer_inv_def sample_snapshot_def)

section \<open>Properties\<close>

text \<open>
  C1. The reducer refines the abstract task machine: the events it accepts out of any list, whatever
  else the list holds, are a run of the machine from the abstraction of the first snapshot to the
  abstraction of the last.
\<close>

theorem reducer_refines_task_machine:
  "spec_run (abs_task s) (accepted_kinds s es) (abs_task (reducer_run s es))"
  by (rule spec_run_refines)

text \<open>
  C2. The snapshot invariant is kept by every list of events, accepted or not: a valid snapshot
  with no repeated tool name or response id stays one.
\<close>

theorem reducer_run_keeps_invariant:
  assumes "reducer_inv s"
  shows "reducer_inv (reducer_run s es)"
  using assms reducer_apply_inv by (rule reducer_run_induct)

theorem reducer_run_keeps_invariant_witness:
  "reducer_inv (reducer_run sample_snapshot
     [sample_event 1 task_event_kind.TaskObserved, sample_event 9 task_event_kind.AwaitingTool])"
  by (rule reducer_run_keeps_invariant [OF reducer_inv_sample])

text \<open>
  A call of the reducer succeeds exactly when the event validates, belongs to the task, carries
  the next sequence number (without wrapping), is not older than the snapshot and the task is not
  terminal; a call that fails changes nothing.
\<close>

theorem reducer_apply_accepts_iff:
  "(is_ok (snd (reducer_apply s e)) \<longleftrightarrow>
      validate_event e = Inr () \<and> ev_task_ref e = sn_task_ref s
    \<and> unat (ev_sequence e) = unat (sn_sequence s) + 1
    \<and> sn_updated_at_ms s \<le> ev_occurred_at_ms e
    \<and> sn_terminal s = None \<and> sn_phase s \<noteq> task_phase.Terminal)
   \<and> fst (reducer_apply s e) =
      (if is_ok (snd (reducer_apply s e))
       then reducer_finish (ev_kind e) (ev_occurred_at_ms e) (reducer_project s e) else s)"
proof -
  have seq: "sn_sequence s < ev_sequence e \<and> ev_sequence e = sn_sequence s + 1
      \<longleftrightarrow> unat (ev_sequence e) = unat (sn_sequence s) + 1"
    by (rule next_seq_iff)
  have "is_ok (snd (reducer_apply s e)) \<longleftrightarrow> reducer_guard s e = Inr ()"
    by (rule reducer_apply_cases [of s e]) simp_all
  then show ?thesis
    unfolding reducer_guard_ok using seq
    by (auto intro: reducer_apply_cases [of s e])
qed

text \<open>
  C3. A terminal task is final: no list of events changes its snapshot in any field.
\<close>

theorem terminal_is_final:
  assumes "sn_terminal s = Some x"
  shows "reducer_run s es = s"
proof -
  have "reducer_guard s e \<noteq> Inr ()" for e using assms by (simp add: reducer_guard_ok)
  then have "fst (reducer_apply s e) = s" for e
    by (cases rule: reducer_apply_cases [of s e]) simp_all
  then show ?thesis unfolding reducer_run_def by (induction es) simp_all
qed

theorem terminal_is_final_witness:
  "reducer_run (sample_snapshot\<lparr>sn_phase := task_phase.Terminal,
      sn_terminal := Some terminal_outcome.Failed\<rparr>)
     [sample_event 1 task_event_kind.TerminalCompleted] =
   sample_snapshot\<lparr>sn_phase := task_phase.Terminal, sn_terminal := Some terminal_outcome.Failed\<rparr>"
  by (rule terminal_is_final [where x = "terminal_outcome.Failed"]) simp

text \<open>
  A task ends at most once, and its sequence number counts its events: of the events a reducer
  accepts only the last may be a terminal one, and the final sequence number is the initial one
  plus the number of accepted events, with no wrap-around.
\<close>

theorem at_most_one_terminal_event:
  "list_all (\<lambda>k. terminal_hint k = None) (butlast (accepted_kinds s es))
   \<and> unat (sn_sequence (reducer_run s es)) = unat (sn_sequence s) + length (accepted_kinds s es)"
proof -
  note run = spec_run_refines [of s es]
  show ?thesis
    using spec_run_terminal_last [OF run] spec_run_sequence [OF run]
    by (simp add: list_all_iff abs_task_def)
qed

end
