(* ===== verification/Protocol_Codec.thy ===== *)
theory Protocol_Codec
  imports Protocol_State
begin

text \<open>
  The batch codec of \<open>crates/protocol/src/codec.rs\<close>. CBOR, zstd and SHA-256 are third-party
  packages: they are the fields of \<open>wire_lib\<close>, an argument of every definition. A zstd stream
  decoder is opened on the input and read up to a limit, as \<open>take(limit).read_to_end\<close> does.
\<close>

definition MAX_DECOMPRESSED_BATCH_BYTES :: nat where
  "MAX_DECOMPRESSED_BATCH_BYTES = 2 * 1024 * 1024"

record 'l wire_lib =
  wl_into_writer :: "ingest_batch \<Rightarrow> 'l + byte list"
  wl_from_reader :: "byte list \<Rightarrow> 'l + ingest_batch \<times> nat"
  wl_encode_all :: "byte list \<Rightarrow> nat \<Rightarrow> 'l + byte list"
  wl_decoder_new :: "byte list \<Rightarrow> 'l + unit"
  wl_read_limited :: "byte list \<Rightarrow> nat \<Rightarrow> 'l + byte list"
  wl_sha256 :: "byte list \<Rightarrow> byte list"

record encoded_batch =
  eb_batch_id :: uuid
  eb_payload_sha256 :: string
  eb_uncompressed_len :: nat
  eb_bytes :: "byte list"

record decoded_batch =
  db_batch :: ingest_batch
  db_payload_sha256 :: string
  db_payload :: "byte list"

datatype 'l codec_error =
    InvalidBatch validation_error | Encode 'l | Decode 'l | Compress 'l | Decompress 'l
  | PayloadTooLarge | TrailingData

text \<open>\<open>hex::encode\<close> of the digest.\<close>

definition hex_digit :: "nat \<Rightarrow> char" where
  "hex_digit n = (if n < 10 then char_of (48 + n) else char_of (87 + n))"

definition hex_encode :: "byte list \<Rightarrow> string" where
  "hex_encode bs = concat (map (\<lambda>b. [hex_digit (unat b div 16), hex_digit (unat b mod 16)]) bs)"

definition sha256_hex :: "'l wire_lib \<Rightarrow> byte list \<Rightarrow> string" where
  "sha256_hex W bs = hex_encode (wl_sha256 W bs)"

definition encode_batch :: "'l wire_lib \<Rightarrow> ingest_batch \<Rightarrow> 'l codec_error + encoded_batch" where
  "encode_batch W b =
     bindr (map_err InvalidBatch (validate_batch b)) (\<lambda>_.
     bindr (map_err Encode (wl_into_writer W b)) (\<lambda>payload.
       if length payload > MAX_DECOMPRESSED_BATCH_BYTES then Inl PayloadTooLarge
       else
         bindr (map_err Compress (wl_encode_all W payload 9)) (\<lambda>bytes.
           Inr \<lparr>eb_batch_id = ib_batch_id b, eb_payload_sha256 = sha256_hex W payload,
                eb_uncompressed_len = length payload, eb_bytes = bytes\<rparr>)))"

definition decode_batch_with_payload ::
  "'l wire_lib \<Rightarrow> byte list \<Rightarrow> 'l codec_error + decoded_batch" where
  "decode_batch_with_payload W bytes =
     bindr (map_err Decompress (wl_decoder_new W bytes)) (\<lambda>_.
     bindr (map_err Decompress (wl_read_limited W bytes (MAX_DECOMPRESSED_BATCH_BYTES + 1)))
       (\<lambda>payload.
       if length payload > MAX_DECOMPRESSED_BATCH_BYTES then Inl PayloadTooLarge
       else
         bindr (map_err Decode (wl_from_reader W payload)) (\<lambda>(batch, position).
           if position \<noteq> length payload then Inl TrailingData
           else
             bindr (map_err InvalidBatch (validate_batch batch)) (\<lambda>_.
               Inr \<lparr>db_batch = batch, db_payload_sha256 = sha256_hex W payload,
                    db_payload = payload\<rparr>))))"

definition decode_batch :: "'l wire_lib \<Rightarrow> byte list \<Rightarrow> 'l codec_error + ingest_batch" where
  "decode_batch W bytes = mapr db_batch (decode_batch_with_payload W bytes)"

section \<open>Facts\<close>

lemma length_hex_encode [simp]: "length (hex_encode bs) = 2 * length bs"
  unfolding hex_encode_def by (induction bs) simp_all

lemma hex_digit_ok: "n < 16 \<Longrightarrow> is_ascii_hexdigit (hex_digit n)"
  by (auto simp: hex_digit_def is_ascii_hexdigit_def is_ascii_digit_def)

lemma hex_digit_lower: "n < 16 \<Longrightarrow> ascii_lower (hex_digit n) = hex_digit n"
  by (auto simp: hex_digit_def ascii_lower_def)

lemma hex_encode_digits: "list_all is_ascii_hexdigit (hex_encode bs)"
proof (induction bs)
  case (Cons b bs)
  have "unat b < 256" using unsigned_less [of b] by simp
  then have "unat b div 16 < 16" "unat b mod 16 < 16" by auto
  with Cons show ?case by (simp add: hex_encode_def hex_digit_ok)
qed (simp add: hex_encode_def)

lemma hex_encode_lower: "to_ascii_lowercase (hex_encode bs) = hex_encode bs"
proof (induction bs)
  case (Cons b bs)
  have "unat b < 256" using unsigned_less [of b] by simp
  then have "unat b div 16 < 16" "unat b mod 16 < 16" by auto
  with Cons show ?case by (simp add: hex_encode_def to_ascii_lowercase_def hex_digit_lower)
qed (simp add: hex_encode_def to_ascii_lowercase_def)

lemma sha256_hex_valid: "length (wl_sha256 W bs) = 32 \<Longrightarrow> is_hex64 (sha256_hex W bs)"
  by (simp add: is_hex64_def sha256_hex_def hex_encode_digits)

lemma encode_batch_ok:
  "encode_batch W b = Inr r \<longleftrightarrow>
     (\<exists>payload bytes. validate_batch b = Inr () \<and> wl_into_writer W b = Inr payload
       \<and> length payload \<le> MAX_DECOMPRESSED_BATCH_BYTES
       \<and> wl_encode_all W payload 9 = Inr bytes
       \<and> r = \<lparr>eb_batch_id = ib_batch_id b, eb_payload_sha256 = sha256_hex W payload,
              eb_uncompressed_len = length payload, eb_bytes = bytes\<rparr>)"
  by (auto simp: encode_batch_def bindr_eq_Inr map_err_eq_Inr not_less split: if_splits)

lemma decode_batch_ok:
  "decode_batch_with_payload W bytes = Inr d \<longleftrightarrow>
     wl_decoder_new W bytes = Inr ()
   \<and> wl_read_limited W bytes (MAX_DECOMPRESSED_BATCH_BYTES + 1) = Inr (db_payload d)
   \<and> length (db_payload d) \<le> MAX_DECOMPRESSED_BATCH_BYTES
   \<and> wl_from_reader W (db_payload d) = Inr (db_batch d, length (db_payload d))
   \<and> validate_batch (db_batch d) = Inr ()
   \<and> db_payload_sha256 d = sha256_hex W (db_payload d)"
  by (cases d) (auto simp: decode_batch_with_payload_def bindr_eq_Inr map_err_eq_Inr not_less
      split: if_splits)

text \<open>
  What the codec relies on: the CBOR reader gives back what the writer wrote and stops at its end,
  and reading at most \<open>n\<close> bytes of a compressed payload gives its first \<open>n\<close> bytes.
\<close>

definition wire_lib_ok :: "'l wire_lib \<Rightarrow> bool" where
  "wire_lib_ok W \<longleftrightarrow>
     (\<forall>b p. wl_into_writer W b = Inr p \<longrightarrow> wl_from_reader W p = Inr (b, length p))
   \<and> (\<forall>p l z. wl_encode_all W p l = Inr z \<longrightarrow>
        wl_decoder_new W z = Inr () \<and> (\<forall>n. wl_read_limited W z n = Inr (take n p)))"

lemma decode_encode:
  assumes "wire_lib_ok W" and "encode_batch W b = Inr r"
  shows "\<exists>p. wl_into_writer W b = Inr p \<and> decode_batch_with_payload W (eb_bytes r) =
    Inr \<lparr>db_batch = b, db_payload_sha256 = eb_payload_sha256 r, db_payload = p\<rparr>"
proof -
  from assms(2) obtain p z where p: "validate_batch b = Inr ()" "wl_into_writer W b = Inr p"
      "length p \<le> MAX_DECOMPRESSED_BATCH_BYTES" "wl_encode_all W p 9 = Inr z"
      and r: "eb_bytes r = z" "eb_payload_sha256 r = sha256_hex W p"
    by (auto simp: encode_batch_ok)
  from assms(1) p(2) have "wl_from_reader W p = Inr (b, length p)"
    by (simp add: wire_lib_ok_def)
  moreover from assms(1) p(4) have "wl_decoder_new W z = Inr ()"
      "wl_read_limited W z (MAX_DECOMPRESSED_BATCH_BYTES + 1) = Inr p"
    using p(3) unfolding wire_lib_ok_def by (metis take_all le_SucI Suc_eq_plus1)+
  ultimately show ?thesis using p r by (auto simp: decode_batch_ok)
qed

section \<open>Properties\<close>

text \<open>
  C6. Encoding then decoding a batch returns the batch, the digest the encoder announced and the
  very CBOR payload, when CBOR and zstd undo themselves.
\<close>

theorem codec_round_trip:
  assumes "wire_lib_ok W" and "encode_batch W b = Inr r"
  shows "\<exists>p. wl_into_writer W b = Inr p \<and> decode_batch_with_payload W (eb_bytes r) =
    Inr \<lparr>db_batch = b, db_payload_sha256 = eb_payload_sha256 r, db_payload = p\<rparr>"
  by (rule decode_encode [OF assms])

definition sample_lib :: "unit wire_lib" where
  "sample_lib = \<lparr>
     wl_into_writer = (\<lambda>b. if b = sample_batch then Inr [1, 2, 3] else Inl ()),
     wl_from_reader = (\<lambda>p. if p = [1, 2, 3] then Inr (sample_batch, 3) else Inl ()),
     wl_encode_all = (\<lambda>p l. Inr (0x28 # p)),
     wl_decoder_new = (\<lambda>z. if z \<noteq> [] \<and> hd z = 0x28 then Inr () else Inl ()),
     wl_read_limited = (\<lambda>z n. Inr (take n (tl z))),
     wl_sha256 = (\<lambda>p. replicate 32 0)\<rparr>"

theorem codec_round_trip_witness:
  "\<exists>r p. encode_batch sample_lib sample_batch = Inr r
     \<and> wl_into_writer sample_lib sample_batch = Inr p
     \<and> decode_batch_with_payload sample_lib (eb_bytes r) =
       Inr \<lparr>db_batch = sample_batch, db_payload_sha256 = eb_payload_sha256 r, db_payload = p\<rparr>"
proof -
  have lib: "wire_lib_ok sample_lib"
    by (auto simp: wire_lib_ok_def sample_lib_def split: if_splits)
  have "\<exists>r. encode_batch sample_lib sample_batch = Inr r"
    using sample_valid(2)
    by (simp add: encode_batch_ok sample_lib_def MAX_DECOMPRESSED_BATCH_BYTES_def)
  then obtain r where r: "encode_batch sample_lib sample_batch = Inr r" ..
  with codec_round_trip [OF lib r] show ?thesis by blast
qed

text \<open>
  The decoder never accepts more than 2 MiB: an accepted payload is the whole of what the
  decoder read under its limit, was consumed to its last byte by the CBOR reader, carries a batch
  that validates, and is the payload whose digest is returned.
\<close>

theorem decoded_batch_bounded:
  assumes "decode_batch_with_payload W bytes = Inr d"
  shows "length (db_payload d) \<le> 2097152
    \<and> wl_read_limited W bytes 2097153 = Inr (db_payload d)
    \<and> wl_from_reader W (db_payload d) = Inr (db_batch d, length (db_payload d))
    \<and> validate_batch (db_batch d) = Inr ()
    \<and> db_payload_sha256 d = sha256_hex W (db_payload d)"
  using assms by (simp add: decode_batch_ok MAX_DECOMPRESSED_BATCH_BYTES_def)

theorem decoded_batch_bounded_witness:
  "\<exists>d. decode_batch_with_payload sample_lib [0x28, 1, 2, 3] = Inr d
     \<and> length (db_payload d) \<le> 2097152
     \<and> wl_read_limited sample_lib [0x28, 1, 2, 3] 2097153 = Inr (db_payload d)
     \<and> wl_from_reader sample_lib (db_payload d) = Inr (db_batch d, length (db_payload d))
     \<and> validate_batch (db_batch d) = Inr ()
     \<and> db_payload_sha256 d = sha256_hex sample_lib (db_payload d)"
proof -
  have "\<exists>d. decode_batch_with_payload sample_lib [0x28, 1, 2, 3] = Inr d"
    using sample_valid(2)
    by (intro exI [of _ "\<lparr>db_batch = sample_batch,
        db_payload_sha256 = sha256_hex sample_lib [1, 2, 3], db_payload = [1, 2, 3]\<rparr>"])
      (simp add: decode_batch_ok sample_lib_def MAX_DECOMPRESSED_BATCH_BYTES_def)
  then obtain d where d: "decode_batch_with_payload sample_lib [0x28, 1, 2, 3] = Inr d" ..
  with decoded_batch_bounded [OF d] show ?thesis by blast
qed

end
