(* ===== verification/Collections.thy ===== *)
theory Collections
  imports Prelude
begin

text \<open>
  Checked slicing and keyed maps, the two container idioms the capture, client and server crates
  share.
\<close>

section \<open>Indexing and keyed maps\<close>

text \<open>\<open>&xs[a..b]\<close>, which panics out of range: \<open>None\<close> is the panic.\<close>

definition slice :: "'a list \<Rightarrow> nat \<Rightarrow> nat \<Rightarrow> 'a list option" where
  "slice xs a b = (if a \<le> b \<and> b \<le> length xs then Some (take (b - a) (drop a xs)) else None)"

lemma slice_Some: "slice xs a b = Some ys \<longleftrightarrow> a \<le> b \<and> b \<le> length xs \<and> ys = take (b - a) (drop a xs)"
  by (auto simp: slice_def)

text \<open>
  A map whose iteration order the program does not depend on, as an association list with one
  entry for each key: \<open>get\<close>, \<open>insert\<close>, \<open>remove\<close>.
\<close>

fun map_get :: "('k \<times> 'v) list \<Rightarrow> 'k \<Rightarrow> 'v option" where
  "map_get [] k = None"
| "map_get ((q, v) # m) k = (if q = k then Some v else map_get m k)"

fun map_put :: "('k \<times> 'v) list \<Rightarrow> 'k \<Rightarrow> 'v \<Rightarrow> ('k \<times> 'v) list" where
  "map_put [] k v = [(k, v)]"
| "map_put ((q, w) # m) k v = (if q = k then (k, v) # m else (q, w) # map_put m k v)"

definition map_del :: "('k \<times> 'v) list \<Rightarrow> 'k \<Rightarrow> ('k \<times> 'v) list" where
  "map_del m k = [p \<leftarrow> m. fst p \<noteq> k]"

lemma map_get_put [simp]: "map_get (map_put m k v) q = (if q = k then Some v else map_get m q)"
  by (induction m k v rule: map_put.induct) auto

lemma map_get_del [simp]: "map_get (map_del m k) q = (if q = k then None else map_get m q)"
  by (induction m) (auto simp: map_del_def)

lemma map_get_in: "map_get m k = Some v \<Longrightarrow> (k, v) \<in> set m"
  by (induction m k rule: map_get.induct) (auto split: if_splits)

lemma map_get_None: "map_get m k = None \<longleftrightarrow> k \<notin> fst ` set m"
  by (induction m k rule: map_get.induct) auto

lemma map_del_length_le: "length (map_del m k) \<le> length m"
  by (simp add: map_del_def)

lemma map_del_length: "map_get m k = Some v \<Longrightarrow> length (map_del m k) < length m"
proof (induction m k rule: map_get.induct)
  case (2 q w m k)
  then show ?case using map_del_length_le [of m k]
    by (cases "q = k") (auto simp: map_del_def le_imp_less_Suc)
qed simp

lemma set_map_del: "set (map_del m k) \<subseteq> set m"
  by (auto simp: map_del_def)

lemma set_map_put: "set (map_put m k v) \<subseteq> insert (k, v) (set m)"
  by (induction m k v rule: map_put.induct) auto

lemma map_put_keys: "fst ` set (map_put m k v) = insert k (fst ` set m)"
  by (induction m k v rule: map_put.induct) auto

lemma map_put_distinct: "distinct (map fst m) \<Longrightarrow> distinct (map fst (map_put m k v))"
  by (induction m k v rule: map_put.induct) (auto simp: map_put_keys image_iff
      dest: set_map_put [THEN subsetD])

lemma map_del_distinct: "distinct (map fst m) \<Longrightarrow> distinct (map fst (map_del m k))"
  by (induction m) (auto simp: map_del_def)

end
