(* ===== verification/Capture_Tcp.thy ===== *)
theory Capture_Tcp
  imports Collections
begin

text \<open>
  The TCP reassembler of \<open>crates/capture/src/tcp.rs\<close>. Sequence numbers are 32-bit words and compared
  as the code compares them, without regard to wrap-around. A slice out of range is a panic: the
  operations that slice return an option, \<open>None\<close> being the panic.
\<close>

section \<open>State\<close>

record assembled_chunk =
  ac_bytes :: "byte list"
  ac_fin :: bool
  ac_rst :: bool

datatype assembler_result =
  Pending | Advanced assembled_chunk | GapDetected | ConflictDetected

record pending_fragment =
  pf_payload :: "byte list"
  pf_fin :: bool
  pf_rst :: bool

record delivered_segment =
  ds_seq :: u32
  ds_bytes :: "byte list"

record tcp_assembler =
  ta_next_seq :: "u32 option"
  ta_pending :: "(u32 \<times> pending_fragment) list"
  ta_delivered :: "delivered_segment list"
  ta_delivered_bytes :: nat
  ta_history_limit :: nat
  ta_max_gap :: nat
  ta_degraded :: bool

definition tcp_new :: tcp_assembler where
  "tcp_new = \<lparr>ta_next_seq = None, ta_pending = [], ta_delivered = [], ta_delivered_bytes = 0,
     ta_history_limit = 1024 * 1024, ta_max_gap = 256 * 1024, ta_degraded = False\<rparr>"

section \<open>Operations\<close>

definition seq_add :: "u32 \<Rightarrow> byte list \<Rightarrow> u32" where
  "seq_add q payload = q + word_of_nat (length payload)"

fun trim_history :: "nat \<Rightarrow> delivered_segment list \<Rightarrow> nat \<Rightarrow> delivered_segment list \<times> nat" where
  "trim_history limit [] held = ([], held)"
| "trim_history limit (d # ds) held =
     (if held > limit then trim_history limit ds (held - length (ds_bytes d))
      else (d # ds, held))"

definition tcp_record :: "tcp_assembler \<Rightarrow> u32 \<Rightarrow> byte list \<Rightarrow> tcp_assembler" where
  "tcp_record a q payload =
     (let (ds, held) = trim_history (ta_history_limit a)
            (ta_delivered a @ [\<lparr>ds_seq = q, ds_bytes = payload\<rparr>])
            (ta_delivered_bytes a + length payload)
      in a\<lparr>ta_delivered := ds, ta_delivered_bytes := held\<rparr>)"

definition is_exact_retransmit :: "tcp_assembler \<Rightarrow> u32 \<Rightarrow> byte list \<Rightarrow> bool" where
  "is_exact_retransmit a q payload =
     list_ex (\<lambda>d. ds_seq d = q \<and> ds_bytes d = payload) (ta_delivered a)"

fun match_overlap_loop ::
  "u32 \<Rightarrow> u32 \<Rightarrow> byte list \<Rightarrow> nat \<Rightarrow> delivered_segment list \<Rightarrow> bool option" where
  "match_overlap_loop q overlap_end payload matched [] = Some (matched = length payload)"
| "match_overlap_loop q overlap_end payload matched (d # ds) =
     (let seg_end = seq_add (ds_seq d) (ds_bytes d) in
      if overlap_end \<le> ds_seq d \<or> q \<ge> seg_end
      then match_overlap_loop q overlap_end payload matched ds
      else
        let start = max q (ds_seq d);
            stop = min overlap_end seg_end;
            seg_offset = unat (start - ds_seq d);
            payload_offset = unat (start - q);
            len = unat (stop - start)
        in case (slice (ds_bytes d) seg_offset (seg_offset + len),
                 slice payload payload_offset (payload_offset + len)) of
             (Some x, Some y) \<Rightarrow>
               if x \<noteq> y then Some False
               else match_overlap_loop q overlap_end payload (matched + len) ds
           | _ \<Rightarrow> None)"

definition match_overlap :: "tcp_assembler \<Rightarrow> u32 \<Rightarrow> byte list \<Rightarrow> bool option" where
  "match_overlap a q payload =
     match_overlap_loop q (seq_add q payload) payload 0 (ta_delivered a)"

definition degrade :: "tcp_assembler \<Rightarrow> tcp_assembler" where
  "degrade a = a\<lparr>ta_degraded := True\<rparr>"

text \<open>
  \<open>accept_fragment\<close>; \<open>next\<close> is \<open>self.next_seq.expect(..)\<close>, which the callers have set. The recursive
  call runs at the expected sequence number itself.
\<close>

function accept_fragment ::
  "tcp_assembler \<Rightarrow> u32 \<Rightarrow> u32 \<Rightarrow> byte list \<Rightarrow> bool \<Rightarrow> bool
     \<Rightarrow> (tcp_assembler \<times> assembler_result) option" where
  "accept_fragment a nxt q payload fin rst =
     (if q < nxt then
        let overlap = unat (nxt - q) in
        if overlap \<ge> length payload then
          (case match_overlap a q payload of
             None \<Rightarrow> None
           | Some True \<Rightarrow> Some (a, Pending)
           | Some False \<Rightarrow> Some (degrade a, ConflictDetected))
        else
          (case match_overlap a q (take overlap payload) of
             None \<Rightarrow> None
           | Some False \<Rightarrow> Some (degrade a, ConflictDetected)
           | Some True \<Rightarrow> accept_fragment a nxt nxt (drop overlap payload) fin rst)
      else
        Some (tcp_record (a\<lparr>ta_next_seq := Some (seq_add q payload)\<rparr>) q payload,
              Advanced \<lparr>ac_bytes = payload, ac_fin = fin, ac_rst = rst\<rparr>))"
  by pat_completeness auto
termination
  by (relation "measure (\<lambda>(a, nxt, q, _). if q < nxt then 1 else 0)") auto

declare accept_fragment.simps [simp del]

lemma tcp_record_frame [simp]:
  "ta_next_seq (tcp_record a q p) = ta_next_seq a"
  "ta_pending (tcp_record a q p) = ta_pending a"
  "ta_degraded (tcp_record a q p) = ta_degraded a"
  "ta_max_gap (tcp_record a q p) = ta_max_gap a"
  "ta_history_limit (tcp_record a q p) = ta_history_limit a"
  by (simp_all add: tcp_record_def split: prod.split)

lemma accept_at_next:
  "accept_fragment a nxt nxt payload fin rst =
     Some (tcp_record (a\<lparr>ta_next_seq := Some (seq_add nxt payload)\<rparr>) nxt payload,
           Advanced \<lparr>ac_bytes = payload, ac_fin = fin, ac_rst = rst\<rparr>)"
  by (simp add: accept_fragment.simps)

function flush_pending ::
  "tcp_assembler \<Rightarrow> assembled_chunk \<Rightarrow> (tcp_assembler \<times> assembler_result) option" where
  "flush_pending a current =
     (case ta_next_seq a of
        None \<Rightarrow> Some (a, Advanced current)
      | Some nxt \<Rightarrow>
          (case map_get (ta_pending a) nxt of
             None \<Rightarrow> Some (a, Advanced current)
           | Some f \<Rightarrow>
               (case accept_fragment (a\<lparr>ta_pending := map_del (ta_pending a) nxt\<rparr>) nxt nxt
                       (pf_payload f) (pf_fin f) (pf_rst f) of
                  None \<Rightarrow> None
                | Some (b, Advanced n) \<Rightarrow>
                    flush_pending b
                      \<lparr>ac_bytes = ac_bytes current @ ac_bytes n,
                       ac_fin = (ac_fin current \<or> ac_fin n),
                       ac_rst = (ac_rst current \<or> ac_rst n)\<rparr>
                | Some (b, other) \<Rightarrow> Some (b, other))))"
  by pat_completeness auto
termination
  by (relation "measure (\<lambda>(a, _). length (ta_pending a))")
    (auto simp: accept_at_next map_del_length)

declare flush_pending.simps [simp del]

definition tcp_push_segment ::
  "tcp_assembler \<Rightarrow> u32 \<Rightarrow> byte list \<Rightarrow> bool \<Rightarrow> bool
     \<Rightarrow> (tcp_assembler \<times> assembler_result) option" where
  "tcp_push_segment a q payload fin rst =
     (if ta_degraded a then Some (a, ConflictDetected)
      else case ta_next_seq a of
        None \<Rightarrow>
          Some (tcp_record (a\<lparr>ta_next_seq := Some (seq_add q payload)\<rparr>) q payload,
                Advanced \<lparr>ac_bytes = payload, ac_fin = fin, ac_rst = rst\<rparr>)
      | Some nxt \<Rightarrow>
          if payload = [] then
            (if fin \<or> rst then Some (a, Advanced \<lparr>ac_bytes = [], ac_fin = fin, ac_rst = rst\<rparr>)
             else Some (a, Pending))
          else if q > nxt then
            (if unat (q - nxt) > ta_max_gap a then Some (degrade a, GapDetected)
             else
               Some (if map_get (ta_pending a) q = None
                     then a\<lparr>ta_pending := map_put (ta_pending a) q
                              \<lparr>pf_payload = payload, pf_fin = fin, pf_rst = rst\<rparr>\<rparr>
                     else a, Pending))
          else if is_exact_retransmit a q payload \<and> \<not> fin \<and> \<not> rst then Some (a, Pending)
          else case accept_fragment a nxt q payload fin rst of
                 None \<Rightarrow> None
               | Some (b, Advanced chunk) \<Rightarrow> flush_pending b chunk
               | Some (b, other) \<Rightarrow> Some (b, other))"

definition tcp_push :: "tcp_assembler \<Rightarrow> u32 \<Rightarrow> byte list \<Rightarrow> (tcp_assembler \<times> assembler_result) option"
  where "tcp_push a q payload = tcp_push_segment a q payload False False"

definition tcp_finish :: "tcp_assembler \<Rightarrow> tcp_assembler \<times> assembler_result" where
  "tcp_finish a =
     (if ta_degraded a \<or> ta_pending a \<noteq> [] then (degrade a, GapDetected) else (a, Pending))"

section \<open>Running on a list of segments\<close>

record tcp_segment =
  seg_seq :: u32
  seg_payload :: "byte list"
  seg_fin :: bool
  seg_rst :: bool

definition result_bytes :: "assembler_result \<Rightarrow> byte list" where
  "result_bytes r = (case r of Advanced c \<Rightarrow> ac_bytes c | _ \<Rightarrow> [])"

fun tcp_run ::
  "tcp_assembler \<Rightarrow> tcp_segment list \<Rightarrow> (tcp_assembler \<times> assembler_result list) option" where
  "tcp_run a [] = Some (a, [])"
| "tcp_run a (x # xs) =
     (case tcp_push_segment a (seg_seq x) (seg_payload x) (seg_fin x) (seg_rst x) of
        None \<Rightarrow> None
      | Some (b, r) \<Rightarrow>
          (case tcp_run b xs of None \<Rightarrow> None | Some (c, rs) \<Rightarrow> Some (c, r # rs)))"

section \<open>Delivered bytes are the stream\<close>

text \<open>
  \<open>within S s0 q p\<close>: the segment \<open>p\<close> at sequence number \<open>q\<close> is a window of the stream \<open>S\<close> that starts at
  sequence number \<open>s0\<close>.
\<close>

definition within :: "byte list \<Rightarrow> nat \<Rightarrow> u32 \<Rightarrow> byte list \<Rightarrow> bool" where
  "within S s0 q p \<longleftrightarrow> s0 \<le> unat q \<and> unat q - s0 + length p \<le> length S
     \<and> take (length p) (drop (unat q - s0) S) = p"

definition tcp_inv :: "byte list \<Rightarrow> nat \<Rightarrow> tcp_assembler \<Rightarrow> nat \<Rightarrow> bool" where
  "tcp_inv S s0 a k \<longleftrightarrow> s0 + length S < 2 ^ 32 \<and> k \<le> length S
     \<and> (\<exists>n. ta_next_seq a = Some n \<and> unat n = s0 + k)
     \<and> (\<forall>(q, f) \<in> set (ta_pending a). within S s0 q (pf_payload f))"

lemma starts_with_drop_append:
  "starts_with (drop j S) x \<Longrightarrow> starts_with (drop (j + length x) S) y \<Longrightarrow>
     starts_with (drop j S) (x @ y)"
  by (auto simp: starts_with_iff) (metis append_assoc append_eq_conv_conj drop_drop add.commute)

lemma within_starts: "within S s0 q p \<Longrightarrow> unat q = s0 + k \<Longrightarrow> starts_with (drop k S) p"
  by (simp add: within_def starts_with_take)

lemma within_unat_seq_add:
  assumes "within S s0 q p" and "s0 + length S < 2 ^ 32"
  shows "unat (seq_add q p) = unat q + length p"
proof -
  from assms have "unat q + length p < 2 ^ 32" by (auto simp: within_def)
  then show ?thesis by (simp add: seq_add_def unat_word_ariths unat_of_nat)
qed

lemma within_drop:
  assumes "within S s0 q p" and "q < n" and "unat (n - q) < length p"
  shows "within S s0 n (drop (unat (n - q)) p)"
proof -
  have sub: "unat (n - q) = unat n - unat q" and qn: "unat q < unat n"
    using assms(2) by (simp_all add: unat_sub_if' word_less_nat_alt)
  let ?d = "unat n - unat q"
  from assms(1) have s0: "s0 \<le> unat q" by (simp add: within_def)
  have "drop ?d p = drop ?d (take (length p) (drop (unat q - s0) S))"
    using assms(1) by (simp add: within_def)
  also have "\<dots> = take (length (drop ?d p)) (drop (unat n - s0) S)"
    using qn s0 by (simp add: drop_take add.commute)
  finally have "take (length (drop ?d p)) (drop (unat n - s0) S) = drop ?d p" by (rule sym)
  moreover have "unat n - s0 + length (drop ?d p) \<le> length S"
    using assms qn s0 by (auto simp: within_def sub)
  ultimately show ?thesis
    using qn s0 unfolding within_def sub by (auto simp del: length_drop)
qed

lemma accept_fragment_stream:
  assumes inv: "tcp_inv S s0 a k" and "ta_next_seq a = Some n" and w: "within S s0 q p" and "q \<le> n"
    and acc: "accept_fragment a n q p fin rst = Some (b, r)"
  shows "tcp_inv S s0 b (k + length (result_bytes r))
     \<and> starts_with (drop k S) (result_bytes r)"
proof -
  have at_next: "tcp_inv S s0 c (k + length (result_bytes t))
     \<and> starts_with (drop k S) (result_bytes t)"
    if "within S s0 n x" and "accept_fragment a n n x fin rst = Some (c, t)" for x c t
    using that inv assms(2) within_unat_seq_add [OF that(1)]
      within_starts [OF that(1)]
    by (auto simp: accept_at_next tcp_inv_def result_bytes_def within_def)
  show ?thesis
  proof (cases "q < n")
    case False
    with \<open>q \<le> n\<close> have "q = n" by simp
    with at_next w acc show ?thesis by blast
  next
    case True
    from acc True show ?thesis
      unfolding accept_fragment.simps [of a n q p]
      using inv at_next [OF within_drop [OF w True]]
      by (auto simp: Let_def result_bytes_def degrade_def tcp_inv_def
          split: option.splits bool.splits if_splits)
  qed
qed

lemma flush_pending_stream:
  assumes "tcp_inv S s0 a k" and "flush_pending a cur = Some (b, r)"
    and "starts_with (drop j S) (ac_bytes cur)" and "j + length (ac_bytes cur) = k"
  shows "tcp_inv S s0 b (j + length (result_bytes r))
     \<and> starts_with (drop j S) (result_bytes r)"
  using assms
proof (induction a cur arbitrary: k rule: flush_pending.induct)
  case (1 a cur)
  from "1.prems"(1) obtain n where n: "ta_next_seq a = Some n" by (auto simp: tcp_inv_def)
  show ?case
  proof (cases "map_get (ta_pending a) n")
    case None
    with n "1.prems" show ?thesis by (auto simp: flush_pending.simps [of a] result_bytes_def)
  next
    case (Some f)
    let ?a = "a\<lparr>ta_pending := map_del (ta_pending a) n\<rparr>"
    obtain c m where acc: "accept_fragment ?a n n (pf_payload f) (pf_fin f) (pf_rst f) =
        Some (c, Advanced m)" and m: "ac_bytes m = pf_payload f"
      by (simp add: accept_at_next)
    have w: "within S s0 n (pf_payload f)"
      using "1.prems"(1) map_get_in [OF Some] by (auto simp: tcp_inv_def)
    have inv: "tcp_inv S s0 ?a k"
      using "1.prems"(1) set_map_del [of "ta_pending a" n] by (auto simp: tcp_inv_def)
    have step: "tcp_inv S s0 c (k + length (ac_bytes m))
        \<and> starts_with (drop k S) (ac_bytes m)"
      using accept_fragment_stream [OF inv _ w _ acc] n by (simp add: result_bytes_def)
    let ?cur = "\<lparr>ac_bytes = ac_bytes cur @ ac_bytes m, ac_fin = (ac_fin cur \<or> ac_fin m),
       ac_rst = (ac_rst cur \<or> ac_rst m)\<rparr>"
    have "flush_pending c ?cur = Some (b, r)"
      using "1.prems"(2) n Some acc by (simp add: flush_pending.simps [of a])
    moreover have "starts_with (drop j S) (ac_bytes ?cur)"
      using "1.prems"(3,4) step by (auto intro: starts_with_drop_append)
    ultimately show ?thesis
      using "1.IH" [OF n Some acc refl refl, of "k + length (ac_bytes m)"] step "1.prems"(4)
      by (simp add: add.assoc)
  qed
qed

lemma push_stream:
  assumes "tcp_inv S s0 a k" and "within S s0 q p" and "tcp_push_segment a q p fin rst = Some (b, r)"
  shows "tcp_inv S s0 b (k + length (result_bytes r))
     \<and> starts_with (drop k S) (result_bytes r)"
proof -
  from assms(1) obtain n where n: "ta_next_seq a = Some n" by (auto simp: tcp_inv_def)
  note push = assms(3) [unfolded tcp_push_segment_def n option.case]
  show ?thesis
  proof (cases "ta_degraded a \<or> p = [] \<or> q > n \<or> (is_exact_retransmit a q p \<and> \<not> fin \<and> \<not> rst)")
    case True
    with push assms(1,2) show ?thesis
      by (auto simp: result_bytes_def degrade_def tcp_inv_def split: if_splits
          dest!: set_map_put [THEN subsetD])
  next
    case False
    then obtain c t where acc: "accept_fragment a n q p fin rst = Some (c, t)"
      using push by (auto split: option.splits)
    have "q \<le> n" using False by (simp add: not_less)
    note step = accept_fragment_stream [OF assms(1) n assms(2) this acc]
    show ?thesis
    proof (cases t)
      case (Advanced m)
      with False push acc have "flush_pending c m = Some (b, r)"
        by (auto split: if_splits)
      from flush_pending_stream [OF _ this, of S s0 "k + length (ac_bytes m)" k] step Advanced
      show ?thesis by (simp add: result_bytes_def)
    qed (use False push acc step in auto)
  qed
qed

lemma run_stream:
  assumes "tcp_inv S s0 a k" and "\<forall>x \<in> set xs. within S s0 (seg_seq x) (seg_payload x)"
    and "tcp_run a xs = Some (b, rs)"
  shows "tcp_inv S s0 b (k + length (concat (map result_bytes rs)))
     \<and> starts_with (drop k S) (concat (map result_bytes rs))"
  using assms
proof (induction xs arbitrary: a k rs)
  case Nil
  then show ?case by simp
next
  case (Cons x xs)
  from Cons.prems(3) obtain c r ts where
    p: "tcp_push_segment a (seg_seq x) (seg_payload x) (seg_fin x) (seg_rst x) = Some (c, r)"
    and t: "tcp_run c xs = Some (b, ts)" and rs: "rs = r # ts"
    by (auto split: option.splits)
  have step: "tcp_inv S s0 c (k + length (result_bytes r))
     \<and> starts_with (drop k S) (result_bytes r)"
    using push_stream [OF Cons.prems(1) _ p] Cons.prems(2) by simp
  from Cons.IH [OF _ _ t, of "k + length (result_bytes r)"] step Cons.prems(2) show ?case
    by (auto simp: rs add.assoc intro: starts_with_drop_append)
qed

section \<open>No panic\<close>

definition small_segments :: "tcp_assembler \<Rightarrow> bool" where
  "small_segments a \<longleftrightarrow> (\<forall>d \<in> set (ta_delivered a). length (ds_bytes d) < 2 ^ 31)
     \<and> (\<forall>(q, f) \<in> set (ta_pending a). length (pf_payload f) < 2 ^ 31)"

lemma unat_seq_add:
  assumes "length p < 2 ^ 31"
  shows "unat (seq_add q p) =
    (if unat q + length p < 2 ^ 32 then unat q + length p else unat q + length p - 2 ^ 32)"
proof -
  have "unat q < 2 ^ 32" using unsigned_less [of q] by simp
  with assms show ?thesis
    by (simp add: seq_add_def unat_word_ariths unat_of_nat mod_if)
qed

lemma overlap_slices:
  assumes "length p < 2 ^ 31" "length d < 2 ^ 31"
    and "\<not> seq_add q p \<le> s" "\<not> q \<ge> seq_add s d"
  shows "unat (max q s - s) + unat (min (seq_add q p) (seq_add s d) - max q s) \<le> length d"
    and "unat (max q s - q) + unat (min (seq_add q p) (seq_add s d) - max q s) \<le> length p"
proof -
  let ?e = "seq_add q p" and ?f = "seq_add s d"
  have lt: "unat s < unat ?e" "unat q < unat ?f"
    using assms(3,4) by (simp_all add: word_le_nat_alt)
  note e = unat_seq_add [OF assms(1), of q] and f = unat_seq_add [OF assms(2), of s]
  have bounds: "unat s < 2 ^ 32" "unat q < 2 ^ 32"
    using unsigned_less [of s] unsigned_less [of q] by simp_all
  have nowrap: "unat ?e = unat q + length p" "unat ?f = unat s + length d"
    using lt e f bounds assms(1,2) by (auto split: if_splits)
  have le: "s \<le> max q s" "q \<le> max q s" "max q s \<le> min ?e ?f"
    using lt e f nowrap by (auto simp: word_le_nat_alt max_def min_def)
  have sub: "unat (max q s - s) = unat (max q s) - unat s"
    "unat (max q s - q) = unat (max q s) - unat q"
    "unat (min ?e ?f - max q s) = unat (min ?e ?f) - unat (max q s)"
    using le by (simp_all add: unat_sub_if' word_le_nat_alt)
  have "unat (min ?e ?f) \<le> unat s + length d" "unat (min ?e ?f) \<le> unat q + length p"
    using nowrap by (auto simp: min_def word_le_nat_alt)
  moreover have "unat s \<le> unat (max q s)" "unat q \<le> unat (max q s)"
      "unat (max q s) \<le> unat (min ?e ?f)"
    using le by (simp_all add: word_le_nat_alt)
  ultimately show "unat (max q s - s) + unat (min ?e ?f - max q s) \<le> length d"
    and "unat (max q s - q) + unat (min ?e ?f - max q s) \<le> length p"
    unfolding sub by auto
qed

lemma match_overlap_total:
  assumes "length p < 2 ^ 31" and "\<forall>d \<in> set ds. length (ds_bytes d) < 2 ^ 31"
  shows "match_overlap_loop q (seq_add q p) p m ds \<noteq> None"
  using assms(2)
proof (induction ds arbitrary: m)
  case Nil
  then show ?case by simp
next
  case (Cons d ds)
  show ?case
  proof (cases "seq_add q p \<le> ds_seq d \<or> q \<ge> seq_add (ds_seq d) (ds_bytes d)")
    case True
    with Cons show ?thesis by (simp add: Let_def)
  next
    case False
    with overlap_slices [OF assms(1), of "ds_bytes d" q "ds_seq d"] Cons show ?thesis
      by (auto simp: Let_def slice_def)
  qed
qed

lemma trim_history_subset: "set (fst (trim_history n ds t)) \<subseteq> set ds"
  by (induction n ds t rule: trim_history.induct) auto

lemma record_small:
  assumes "small_segments a" and "length p < 2 ^ 31"
  shows "small_segments (tcp_record a q p)"
  using assms trim_history_subset [of "ta_history_limit a"
      "ta_delivered a @ [\<lparr>ds_seq = q, ds_bytes = p\<rparr>]" "ta_delivered_bytes a + length p"]
  by (auto simp: small_segments_def tcp_record_def split: prod.splits)

lemma accept_fragment_total:
  assumes "small_segments a" and "length p < 2 ^ 31"
  shows "\<exists>b r. accept_fragment a n q p fin rst = Some (b, r) \<and> small_segments b"
proof -
  have at_next: "\<exists>b r. accept_fragment a n n x fin rst = Some (b, r) \<and> small_segments b"
    if "length x < 2 ^ 31" for x
    using that assms(1) record_small [of "a\<lparr>ta_next_seq := Some (seq_add n x)\<rparr>" x n]
    by (simp add: accept_at_next small_segments_def)
  have total: "match_overlap a q x \<noteq> None" if "length x < 2 ^ 31" for x
    unfolding match_overlap_def
    by (rule match_overlap_total) (use that assms(1) in \<open>auto simp: small_segments_def\<close>)
  have deg: "small_segments (degrade a)" using assms(1) by (simp add: small_segments_def degrade_def)
  have rec: "small_segments (tcp_record (a\<lparr>ta_next_seq := Some (seq_add q p)\<rparr>) q p)"
    by (rule record_small) (use assms in \<open>auto simp: small_segments_def\<close>)
  show ?thesis
    using total [OF assms(2)] total [of "take (unat (n - q)) p"] assms deg rec
      at_next [of "drop (unat (n - q)) p"]
    by (subst accept_fragment.simps) (auto simp: Let_def split: option.splits bool.splits)
qed

lemma flush_pending_total:
  assumes "small_segments a"
  shows "\<exists>b r. flush_pending a cur = Some (b, r) \<and> small_segments b"
  using assms
proof (induction a cur rule: flush_pending.induct)
  case (1 a cur)
  show ?case
  proof (cases "ta_next_seq a")
    case None
    with "1.prems" show ?thesis by (simp add: flush_pending.simps [of a])
  next
    case (Some n)
    show ?thesis
    proof (cases "map_get (ta_pending a) n")
      case None
      with Some "1.prems" show ?thesis by (simp add: flush_pending.simps [of a])
    next
      case f: (Some f)
      let ?a = "a\<lparr>ta_pending := map_del (ta_pending a) n\<rparr>"
      have "length (pf_payload f) < 2 ^ 31" "small_segments ?a"
        using "1.prems" map_get_in [OF f] set_map_del [of "ta_pending a" n]
        by (auto simp: small_segments_def)
      with accept_fragment_total obtain c r where
        acc: "accept_fragment ?a n n (pf_payload f) (pf_fin f) (pf_rst f) = Some (c, r)"
        and c: "small_segments c" by blast
      then obtain m where "r = Advanced m" by (auto simp: accept_at_next)
      with "1.IH" [OF Some f acc refl, of m] c acc Some f show ?thesis
        by (simp add: flush_pending.simps [of a])
    qed
  qed
qed

lemma push_total:
  assumes "small_segments a" and "length p < 2 ^ 31"
  shows "\<exists>b r. tcp_push_segment a q p fin rst = Some (b, r) \<and> small_segments b"
proof (cases "ta_next_seq a")
  case None
  have "small_segments (tcp_record (a\<lparr>ta_next_seq := Some (seq_add q p)\<rparr>) q p)"
    by (rule record_small) (use assms in \<open>auto simp: small_segments_def\<close>)
  with None assms show ?thesis by (auto simp: tcp_push_segment_def)
next
  case (Some n)
  obtain b r where acc: "accept_fragment a n q p fin rst = Some (b, r)" "small_segments b"
    using accept_fragment_total [OF assms] by blast
  have put: "small_segments (a\<lparr>ta_pending := map_put (ta_pending a) q f\<rparr>)"
    if "length (pf_payload f) < 2 ^ 31" for f
    using assms(1) that by (auto simp: small_segments_def dest!: set_map_put [THEN subsetD])
  have deg: "small_segments (degrade a)" using assms(1) by (simp add: small_segments_def degrade_def)
  have flush: "\<exists>c t. flush_pending b m = Some (c, t) \<and> small_segments c" for m
    by (rule flush_pending_total [OF acc(2)])
  show ?thesis
  proof (cases r)
    case (Advanced m)
    with flush [of m] Some acc assms put deg show ?thesis
      by (auto simp: tcp_push_segment_def)
  qed (use Some acc assms put deg in \<open>auto simp: tcp_push_segment_def\<close>)
qed

lemma run_total:
  assumes "small_segments a" and "list_all (\<lambda>x. length (seg_payload x) < 2 ^ 31) xs"
  shows "tcp_run a xs \<noteq> None"
  using assms
proof (induction xs arbitrary: a)
  case (Cons x xs)
  then obtain b r where "tcp_push_segment a (seg_seq x) (seg_payload x) (seg_fin x) (seg_rst x) =
      Some (b, r)" "small_segments b"
    using push_total [of a "seg_payload x" "seg_seq x" "seg_fin x" "seg_rst x"] by auto
  with Cons show ?case by (auto split: option.splits)
qed simp

section \<open>Nothing deliverable is held back, and the history is bounded\<close>

definition flushed :: "tcp_assembler \<Rightarrow> bool" where
  "flushed a \<longleftrightarrow> (case ta_next_seq a of None \<Rightarrow> ta_pending a = []
     | Some n \<Rightarrow> map_get (ta_pending a) n = None)"

definition history_ok :: "tcp_assembler \<Rightarrow> bool" where
  "history_ok a \<longleftrightarrow> ta_delivered_bytes a = sum_list (map (\<lambda>d. length (ds_bytes d)) (ta_delivered a))
     \<and> ta_delivered_bytes a \<le> ta_history_limit a"

lemma trim_history_sum:
  "t = sum_list (map (\<lambda>d. length (ds_bytes d)) ds) \<Longrightarrow>
     snd (trim_history n ds t) = sum_list (map (\<lambda>d. length (ds_bytes d)) (fst (trim_history n ds t)))
   \<and> snd (trim_history n ds t) \<le> n"
  by (induction n ds t rule: trim_history.induct) auto

lemma record_history_ok: "history_ok a \<Longrightarrow> history_ok (tcp_record (a\<lparr>ta_next_seq := n\<rparr>) q p)"
  using trim_history_sum [of "ta_delivered_bytes a + length p"
      "ta_delivered a @ [\<lparr>ds_seq = q, ds_bytes = p\<rparr>]" "ta_history_limit a"]
  by (auto simp: history_ok_def tcp_record_def split: prod.splits)

lemma accept_fragment_history_ok:
  "accept_fragment a n q p fin rst = Some (b, r) \<Longrightarrow> history_ok a \<Longrightarrow>
     history_ok b \<and> ta_pending b = ta_pending a \<and> ta_history_limit b = ta_history_limit a
   \<and> ((\<exists>m. r = Advanced m) \<or> ta_next_seq b = ta_next_seq a)"
proof (induction a n q p fin rst rule: accept_fragment.induct)
  case (1 a n q p fin rst)
  have deg: "history_ok (degrade a)" using "1.prems"(2) by (simp add: history_ok_def degrade_def)
  show ?case
    using "1.prems"(1) "1.IH" [OF _ refl] deg "1.prems"(2)
      record_history_ok [of a "Some (seq_add q p)" q p]
    unfolding accept_fragment.simps [of a n q p]
    by (auto simp: Let_def degrade_def split: if_splits option.splits bool.splits)
qed

lemma accept_fragment_next:
  "accept_fragment a n q p fin rst = Some (b, r) \<Longrightarrow> ta_next_seq a = Some n \<Longrightarrow> ta_next_seq b \<noteq> None"
proof (induction a n q p fin rst rule: accept_fragment.induct)
  case (1 a n q p fin rst)
  show ?case
    using "1.prems" "1.IH" [OF _ refl] unfolding accept_fragment.simps [of a n q p]
    by (auto simp: Let_def degrade_def split: if_splits option.splits bool.splits)
qed

lemma flush_pending_flushed:
  "flush_pending a cur = Some (b, r) \<Longrightarrow> history_ok a \<Longrightarrow> ta_next_seq a \<noteq> None \<Longrightarrow>
     history_ok b \<and> flushed b \<and> ta_history_limit b = ta_history_limit a"
proof (induction a cur rule: flush_pending.induct)
  case (1 a cur)
  from "1.prems"(3) obtain n where n: "ta_next_seq a = Some n" by auto
  show ?case
  proof (cases "map_get (ta_pending a) n")
    case None
    with n "1.prems" show ?thesis by (auto simp: flush_pending.simps [of a] flushed_def)
  next
    case (Some f)
    let ?a = "a\<lparr>ta_pending := map_del (ta_pending a) n\<rparr>"
    obtain c m where acc: "accept_fragment ?a n n (pf_payload f) (pf_fin f) (pf_rst f) =
        Some (c, Advanced m)"
      by (simp add: accept_at_next)
    have "history_ok ?a" using "1.prems"(2) by (simp add: history_ok_def)
    with accept_fragment_history_ok [OF acc]
    have "history_ok c" "ta_history_limit c = ta_history_limit a" by simp_all
    moreover have "ta_next_seq c \<noteq> None" using acc by (auto simp: accept_at_next)
    ultimately show ?thesis
      using "1.IH" [OF n Some acc refl refl] "1.prems"(1) n Some acc
      by (simp add: flush_pending.simps [of a])
  qed
qed

lemma push_flushed:
  assumes "history_ok a" and "flushed a" and "tcp_push_segment a q p fin rst = Some (b, r)"
  shows "history_ok b \<and> flushed b \<and> ta_history_limit b = ta_history_limit a"
proof (cases "ta_next_seq a")
  case None
  with assms record_history_ok [OF assms(1), of "Some (seq_add q p)" q p] show ?thesis
    by (auto simp: tcp_push_segment_def flushed_def split: if_splits)
next
  case (Some n)
  note push = assms(3) [unfolded tcp_push_segment_def Some option.case]
  show ?thesis
  proof (cases "ta_degraded a \<or> p = [] \<or> q > n \<or> (is_exact_retransmit a q p \<and> \<not> fin \<and> \<not> rst)")
    case True
    with push assms(1,2) Some show ?thesis
      by (auto simp: degrade_def history_ok_def flushed_def split: if_splits)
  next
    case False
    then obtain c t where acc: "accept_fragment a n q p fin rst = Some (c, t)"
      using push by (auto split: option.splits)
    note step = accept_fragment_history_ok [OF acc assms(1)]
    have c: "ta_next_seq c \<noteq> None"
      using accept_fragment_next [OF acc Some] .
    show ?thesis
    proof (cases t)
      case (Advanced m)
      with False push acc have "flush_pending c m = Some (b, r)"
        by (auto split: if_splits)
      from flush_pending_flushed [OF this _ c] step show ?thesis by simp
    qed (use False push acc step assms(2) in \<open>auto simp: flushed_def split: if_splits option.splits\<close>)
  qed
qed

lemma run_flushed:
  assumes "history_ok a" and "flushed a" and "tcp_run a xs = Some (b, rs)"
  shows "history_ok b \<and> flushed b \<and> ta_history_limit b = ta_history_limit a"
  using assms
proof (induction xs arbitrary: a rs)
  case (Cons x xs)
  from Cons.prems(3) obtain c r ts where
    p: "tcp_push_segment a (seg_seq x) (seg_payload x) (seg_fin x) (seg_rst x) = Some (c, r)"
    and t: "tcp_run c xs = Some (b, ts)"
    by (auto split: option.splits)
  with push_flushed [OF Cons.prems(1,2) p] Cons.IH [OF _ _ t] show ?case by simp
qed simp

section \<open>Properties\<close>

text \<open>
  C29. The reassembler delivers exactly the stream: when every segment is a window of one stream
  that starts with the first segment and does not wrap the sequence space, the bytes delivered, in
  whatever order, overlap and repetition the segments come, are a prefix of that stream with no
  byte missing, repeated or moved.
\<close>

theorem tcp_delivers_stream_prefix:
  assumes "unat (seg_seq x) + length S < 2 ^ 32"
    and "list_all (\<lambda>y. within S (unat (seg_seq x)) (seg_seq y) (seg_payload y)) (x # xs)"
    and "tcp_run tcp_new (x # xs) = Some (a, rs)"
  shows "\<exists>rest. S = concat (map result_bytes rs) @ rest"
proof -
  let ?s0 = "unat (seg_seq x)"
  let ?a = "tcp_record (tcp_new\<lparr>ta_next_seq := Some (seq_add (seg_seq x) (seg_payload x))\<rparr>)
    (seg_seq x) (seg_payload x)"
  from assms(3) obtain ts where t: "tcp_run ?a xs = Some (a, ts)"
      and rs: "concat (map result_bytes rs) = seg_payload x @ concat (map result_bytes ts)"
    by (auto simp: tcp_push_segment_def tcp_new_def result_bytes_def split: option.splits)
  have w: "within S ?s0 (seg_seq x) (seg_payload x)" using assms(2) by simp
  then have "tcp_inv S ?s0 ?a (length (seg_payload x))"
    using within_unat_seq_add [OF w assms(1)] assms(1)
    by (auto simp: tcp_inv_def within_def tcp_new_def)
  from run_stream [OF this _ t] assms(2)
  have "starts_with (drop (0 + length (seg_payload x)) S) (concat (map result_bytes ts))"
    by (simp add: list_all_iff)
  from starts_with_drop_append [OF _ this] within_starts [OF w, of 0]
  show ?thesis by (simp add: rs starts_with_iff)
qed

lemmas tcp_eval = tcp_push_segment_def tcp_new_def tcp_record_def seq_add_def
  accept_fragment.simps flush_pending.simps match_overlap_def is_exact_retransmit_def slice_def
  Let_def degrade_def map_del_def result_bytes_def tcp_finish_def

definition sample_segments :: "tcp_segment list" where
  "sample_segments = map (\<lambda>(q, p). \<lparr>seg_seq = q, seg_payload = p, seg_fin = False, seg_rst = False\<rparr>)
     [(100, [1, 2]), (104, [5, 6]), (101, [2, 3, 4]), (100, [1, 2])]"

theorem tcp_delivers_stream_prefix_witness:
  "\<exists>a rs. tcp_run tcp_new sample_segments = Some (a, rs)
     \<and> concat (map result_bytes rs) = [1, 2, 3, 4, 5, 6]
     \<and> (\<exists>rest. [1, 2, 3, 4, 5, 6, 7] = concat (map result_bytes rs) @ rest)"
proof -
  let ?S = "[1, 2, 3, 4, 5, 6, 7] :: byte list"
  have "\<exists>a rs. tcp_run tcp_new sample_segments = Some (a, rs)
      \<and> concat (map result_bytes rs) = [1, 2, 3, 4, 5, 6]"
    by (simp add: sample_segments_def tcp_eval)
  then obtain a rs where run: "tcp_run tcp_new sample_segments = Some (a, rs)"
      "concat (map result_bytes rs) = [1, 2, 3, 4, 5, 6]" by blast
  have "unat (seg_seq (hd sample_segments)) + length ?S < 2 ^ 32"
    "list_all (\<lambda>y. within ?S (unat (seg_seq (hd sample_segments))) (seg_seq y) (seg_payload y))
       (hd sample_segments # tl sample_segments)"
    "hd sample_segments # tl sample_segments = sample_segments"
    by (simp_all add: sample_segments_def within_def)
  with tcp_delivers_stream_prefix [of "hd sample_segments" ?S "tl sample_segments" a rs] run
  show ?thesis by auto
qed

text \<open>
  No input makes the reassembler panic: with payloads below 2 GiB every slice it takes is in
  range, over any list of segments, wrapping sequence numbers included.
\<close>

theorem tcp_never_panics:
  assumes "list_all (\<lambda>x. length (seg_payload x) < 2 ^ 31) xs"
  shows "tcp_run tcp_new xs \<noteq> None"
  by (rule run_total [OF _ assms]) (simp add: small_segments_def tcp_new_def)

theorem tcp_never_panics_witness: "tcp_run tcp_new sample_segments \<noteq> None"
  by (rule tcp_never_panics) (simp add: sample_segments_def)

text \<open>
  C30. After any segments the reassembler holds no fragment at the sequence number it waits for, and
  its retransmission history is at most the limit of 1 MiB and counted exactly.
\<close>

theorem tcp_flushed_and_bounded:
  assumes "tcp_run tcp_new xs = Some (a, rs)"
  shows "flushed a \<and> sum_list (map (\<lambda>d. length (ds_bytes d)) (ta_delivered a)) \<le> 1048576
    \<and> ta_delivered_bytes a = sum_list (map (\<lambda>d. length (ds_bytes d)) (ta_delivered a))"
proof -
  have "history_ok tcp_new" "flushed tcp_new"
    by (simp_all add: history_ok_def flushed_def tcp_new_def)
  from run_flushed [OF this assms] show ?thesis by (simp add: history_ok_def tcp_new_def)
qed

theorem tcp_flushed_and_bounded_witness:
  "\<exists>a rs. tcp_run tcp_new sample_segments = Some (a, rs) \<and> flushed a
    \<and> sum_list (map (\<lambda>d. length (ds_bytes d)) (ta_delivered a)) \<le> 1048576
    \<and> ta_delivered_bytes a = sum_list (map (\<lambda>d. length (ds_bytes d)) (ta_delivered a))"
proof -
  have "tcp_run tcp_new sample_segments \<noteq> None"
    by (simp add: sample_segments_def tcp_eval)
  then obtain a rs where run: "tcp_run tcp_new sample_segments = Some (a, rs)" by auto
  with tcp_flushed_and_bounded [OF run] show ?thesis by blast
qed

section \<open>Two limits of the code\<close>

text \<open>
  Sequence numbers are compared without regard to wrap-around: a segment that is ahead of the
  expected one across the wrap is taken for an old one that conflicts.
\<close>

lemma wraparound_is_a_conflict:
  "map_option snd (tcp_run tcp_new
     [\<lparr>seg_seq = 0xFFFFFFF0, seg_payload = [1, 2, 3, 4], seg_fin = False, seg_rst = False\<rparr>,
      \<lparr>seg_seq = 2, seg_payload = [9], seg_fin = False, seg_rst = False\<rparr>])
   = Some [Advanced \<lparr>ac_bytes = [1, 2, 3, 4], ac_fin = False, ac_rst = False\<rparr>, ConflictDetected]"
  by (simp add: tcp_eval)

text \<open>
  A pending fragment whose start is passed by an overlapping delivery is never delivered: every
  byte of the stream has arrived, and \<open>finish\<close> still reports a gap.
\<close>

lemma overlapped_pending_is_lost:
  "map_option (\<lambda>(a, rs). (concat (map result_bytes rs), snd (tcp_finish a))) (tcp_run tcp_new
     [\<lparr>seg_seq = 100, seg_payload = [0, 1, 2, 3, 4], seg_fin = False, seg_rst = False\<rparr>,
      \<lparr>seg_seq = 107, seg_payload = [7, 8], seg_fin = False, seg_rst = False\<rparr>,
      \<lparr>seg_seq = 105, seg_payload = [5, 6, 7], seg_fin = False, seg_rst = False\<rparr>])
   = Some ([0, 1, 2, 3, 4, 5, 6, 7], GapDetected)"
  by (simp add: tcp_eval)

end
