(* ===== verification/Capture_Stream.thy ===== *)
theory Capture_Stream
  imports Collections
begin

text \<open>
  What the incremental decoders of the capture crate share. A decoder keeps the bytes it has not
  used in a buffer; a \<open>push\<close> appends the new bytes and runs \<open>while let Some(..) = next()?\<close> until
  the buffer holds no complete unit. \<open>drain\<close> is that loop, \<open>frame_source\<close> the contract of one step,
  and the lemmas of the locale are what follows for every decoder that meets it: how the stream is
  cut into chunks has no effect on the events.
\<close>

type_synonym ('s, 'e, 'v) stepper = "'s \<Rightarrow> 's \<times> ('e + 'v list option)"

definition prepend :: "'v list \<Rightarrow> 's \<times> ('e + 'v list) \<Rightarrow> 's \<times> ('e + 'v list)" where
  "prepend es p = (fst p, mapr (\<lambda>fs. es @ fs) (snd p))"

lemma prepend_simps [simp]:
  "prepend es (s, Inl e) = (s, Inl e)" "prepend es (s, Inr fs) = (s, Inr (es @ fs))"
  "prepend [] p = p" "prepend es (prepend fs p) = prepend (es @ fs) p"
  by (cases p, auto simp: prepend_def mapr_id mapr_mapr)+

text \<open>
  The loop. A step that yields events has taken bytes from the buffer, which is why the loop ends;
  \<open>size\<close> is the length of the buffer, and a step that would not shrink it ends the loop (the
  \<open>progress\<close> law says there is none).
\<close>

function drain ::
  "('s, 'e, 'v) stepper \<Rightarrow> ('s \<Rightarrow> nat) \<Rightarrow> 's \<Rightarrow> 's \<times> ('e + 'v list)" where
  "drain nxt sz s =
     (case nxt s of
        (t, Inl e) \<Rightarrow> (t, Inl e)
      | (t, Inr None) \<Rightarrow> (t, Inr [])
      | (t, Inr (Some es)) \<Rightarrow>
          if sz t < sz s then prepend es (drain nxt sz t) else (t, Inr es))"
  by pat_completeness auto
termination
  by (relation "measure (\<lambda>(nxt, sz, s). sz s)") auto

declare drain.simps [simp del]

definition push_with ::
  "('s, 'e, 'v) stepper \<Rightarrow> ('s \<Rightarrow> nat) \<Rightarrow> ('s \<Rightarrow> byte list \<Rightarrow> 's) \<Rightarrow> 's \<Rightarrow> byte list
     \<Rightarrow> 's \<times> ('e + 'v list)" where
  "push_with nxt sz fd s bs = drain nxt sz (fd s bs)"

fun push_chunks ::
  "('s \<Rightarrow> byte list \<Rightarrow> 's \<times> ('e + 'v list)) \<Rightarrow> 's \<Rightarrow> byte list list \<Rightarrow> 's \<times> ('e + 'v list)" where
  "push_chunks push s [] = (s, Inr [])"
| "push_chunks push s (c # cs) =
     (case push s c of
        (t, Inl e) \<Rightarrow> (t, Inl e)
      | (t, Inr es) \<Rightarrow> prepend es (push_chunks push t cs))"

text \<open>
  A push that treats the stream as one: pushing \<open>a\<close> then \<open>b\<close> is pushing \<open>a @ b\<close>, an error in \<open>a\<close>
  being an error of the whole. \<open>ready\<close> holds between pushes.
\<close>

locale chunked_push =
  fixes push :: "'s \<Rightarrow> byte list \<Rightarrow> 's \<times> ('e + 'v list)"
    and ready :: "'s \<Rightarrow> bool"
  assumes push_ok: "ready s \<Longrightarrow> push s a = (t, Inr es) \<Longrightarrow> push s (a @ b) = prepend es (push t b)"
    and push_err: "ready s \<Longrightarrow> push s a = (t, Inl e) \<Longrightarrow> snd (push s (a @ b)) = Inl e"
    and push_ready: "ready s \<Longrightarrow> push s a = (t, Inr es) \<Longrightarrow> ready t"
    and push_nil: "ready s \<Longrightarrow> push s [] = (s, Inr [])"
begin

lemma chunks_concat:
  assumes "ready s"
  shows "snd (push_chunks push s cs) = snd (push s (concat cs))"
  using assms
proof (induction cs arbitrary: s)
  case Nil
  then show ?case by (simp add: push_nil)
next
  case (Cons c cs)
  obtain t r where p: "push s c = (t, r)" by (cases "push s c")
  show ?case
  proof (cases r)
    case (Inl e)
    with p push_err [OF Cons.prems, of c t e] show ?thesis by simp
  next
    case (Inr es)
    have "ready t" using push_ready [OF Cons.prems] p Inr by blast
    from Cons.IH [OF this] have "snd (prepend es (push_chunks push t cs)) = snd (prepend es (push t (concat cs)))"
      by (simp add: prepend_def)
    moreover have "push s (c @ concat cs) = prepend es (push t (concat cs))"
      using push_ok [OF Cons.prems] p Inr by blast
    ultimately show ?thesis
      using p Inr by simp
  qed
qed

text \<open>Where the whole is accepted, the chunks leave the same state too.\<close>

lemma chunks_accepted:
  assumes "ready s" and "push s (concat cs) = (t, Inr es)"
  shows "push_chunks push s cs = (t, Inr es)"
  using assms
proof (induction cs arbitrary: s es)
  case Nil
  then show ?case by (simp add: push_nil)
next
  case (Cons c cs)
  obtain u r where p: "push s c = (u, r)" by (cases "push s c")
  show ?case
  proof (cases r)
    case (Inl e)
    with p Cons.prems push_err [of s c u e "concat cs"] show ?thesis by simp
  next
    case (Inr fs)
    with p Cons.prems push_ok [of s c u fs "concat cs"]
    have w: "prepend fs (push u (concat cs)) = (t, Inr es)" by simp
    obtain v q where q: "push u (concat cs) = (v, q)" by (cases "push u (concat cs)")
    with w obtain gs where gs: "push u (concat cs) = (t, Inr gs)" "es = fs @ gs"
      by (cases q) simp_all
    from push_ready [OF Cons.prems(1)] p Inr have "ready u" by blast
    from Cons.IH [OF this gs(1)] p Inr gs(2) show ?thesis by simp
  qed
qed

text \<open>Two ways of cutting the same bytes into chunks give the same result.\<close>

lemma chunking_irrelevant:
  assumes "ready s" and "concat cs = concat ds"
  shows "snd (push_chunks push s cs) = snd (push_chunks push s ds)"
  using assms by (simp add: chunks_concat)

end

locale frame_source =
  fixes nxt :: "('s, 'e, 'v) stepper"
    and sz :: "'s \<Rightarrow> nat"
    and fd :: "'s \<Rightarrow> byte list \<Rightarrow> 's"
  assumes progress: "nxt s = (t, Inr (Some es)) \<Longrightarrow> sz t < sz s"
    and idle: "nxt s = (t, Inr None) \<Longrightarrow> t = s"
    and stable_some: "nxt s = (t, Inr (Some es)) \<Longrightarrow> nxt (fd s b) = (fd t b, Inr (Some es))"
    and stable_err: "nxt s = (t, Inl e) \<Longrightarrow> nxt (fd s b) = (fd t b, Inl e)"
    and feed_feed: "fd (fd s a) b = fd s (a @ b)"
    and feed_nil: "fd s [] = s"
begin

lemma drain_step: "nxt s = (t, Inr (Some es)) \<Longrightarrow> drain nxt sz s = prepend es (drain nxt sz t)"
  by (simp add: drain.simps [of nxt sz s] progress)

lemma drain_idle: "nxt s = (t, Inr None) \<Longrightarrow> drain nxt sz s = (s, Inr [])"
  using idle [of s t] by (simp add: drain.simps [of nxt sz s])

lemma drain_err: "nxt s = (t, Inl e) \<Longrightarrow> drain nxt sz s = (t, Inl e)"
  by (simp add: drain.simps [of nxt sz s])

lemma step_cases:
  obtains (err) t e where "nxt s = (t, Inl e)" | (wait) "nxt s = (s, Inr None)"
  | (some) t es where "nxt s = (t, Inr (Some es))" "sz t < sz s"
proof -
  obtain t r where n: "nxt s = (t, r)" by (cases "nxt s")
  show ?thesis
  proof (cases r)
    case (Inl e)
    with n err show ?thesis by blast
  next
    case (Inr o')
    show ?thesis
    proof (cases o')
      case None
      with n Inr have "nxt s = (t, Inr None)" by simp
      with idle [OF this] that(2) show ?thesis by simp
    next
      case (Some es)
      with n Inr have "nxt s = (t, Inr (Some es))" by simp
      with progress [OF this] that(3) show ?thesis by blast
    qed
  qed
qed

lemma drain_ok_idle: "drain nxt sz s = (t, Inr es) \<Longrightarrow> nxt t = (t, Inr None)"
proof (induction "sz s" arbitrary: s es rule: less_induct)
  case less
  show ?case
  proof (cases rule: step_cases [of s])
    case (some u fs)
    with less.prems obtain gs where "drain nxt sz u = (t, Inr gs)"
      by (cases "drain nxt sz u"; cases "snd (drain nxt sz u)") (auto simp: drain_step)
    with less.hyps some show ?thesis by blast
  qed (use less.prems in \<open>auto simp: drain_err drain_idle\<close>)
qed

lemma drain_feed:
  "drain nxt sz (fd s b) =
     (case drain nxt sz s of
        (t, Inl e) \<Rightarrow> (fd t b, Inl e)
      | (t, Inr es) \<Rightarrow> prepend es (drain nxt sz (fd t b)))"
proof (induction "sz s" arbitrary: s rule: less_induct)
  case less
  show ?case
  proof (cases rule: step_cases [of s])
    case (err t e)
    then show ?thesis using stable_err [OF err] by (simp add: drain_err)
  next
    case wait
    then show ?thesis by (simp add: drain_idle)
  next
    case (some t es)
    have "drain nxt sz (fd s b) = prepend es (drain nxt sz (fd t b))"
      using stable_some [OF some(1)] by (rule drain_step)
    also have "\<dots> = (case drain nxt sz s of
        (t, Inl e) \<Rightarrow> (fd t b, Inl e) | (t, Inr es) \<Rightarrow> prepend es (drain nxt sz (fd t b)))"
      using less.hyps [OF some(2)] some(1)
      by (cases "drain nxt sz t"; cases "snd (drain nxt sz t)") (simp_all add: drain_step)
    finally show ?thesis .
  qed
qed

lemma push_append:
  "push_with nxt sz fd s (a @ b) =
     (case push_with nxt sz fd s a of
        (t, Inl e) \<Rightarrow> (fd t b, Inl e)
      | (t, Inr es) \<Rightarrow> prepend es (push_with nxt sz fd t b))"
  unfolding push_with_def feed_feed [symmetric] drain_feed [of "fd s a" b] ..

end

sublocale frame_source \<subseteq> chunked_push "push_with nxt sz fd" "\<lambda>s. nxt s = (s, Inr None)"
proof unfold_locales
  fix s t a b and es :: "'v list"
  assume idle: "nxt s = (s, Inr None)" and p: "push_with nxt sz fd s a = (t, Inr es)"
  from p show "push_with nxt sz fd s (a @ b) = prepend es (push_with nxt sz fd t b)"
    by (simp add: push_append)
  from p show "nxt t = (t, Inr None)"
    unfolding push_with_def by (rule drain_ok_idle)
next
  fix s t a b and e :: 'e
  assume "push_with nxt sz fd s a = (t, Inl e)"
  then show "snd (push_with nxt sz fd s (a @ b)) = Inl e" by (simp add: push_append)
next
  fix s
  assume "nxt s = (s, Inr None)"
  then show "push_with nxt sz fd s [] = (s, Inr [])"
    by (simp add: push_with_def feed_nil drain_idle)
qed

section \<open>Big-endian integers\<close>

text \<open>\<open>from_be_bytes\<close>.\<close>

definition be_nat :: "byte list \<Rightarrow> nat" where
  "be_nat bs = foldl (\<lambda>n b. n * 256 + unat b) 0 bs"

fun nat_be :: "nat \<Rightarrow> nat \<Rightarrow> byte list" where
  "nat_be 0 n = []"
| "nat_be (Suc k) n = nat_be k (n div 256) @ [word_of_nat (n mod 256)]"

lemma be_nat_snoc [simp]: "be_nat (bs @ [b]) = be_nat bs * 256 + unat b"
  by (simp add: be_nat_def)

lemma be_nat_less: "be_nat bs < 256 ^ length bs"
proof (induction bs rule: rev_induct)
  case (snoc b bs)
  have "unat b < 256" using unsigned_less [of b] by simp
  with snoc show ?case by simp
qed (simp add: be_nat_def)

lemma length_nat_be [simp]: "length (nat_be k n) = k"
  by (induction k arbitrary: n) simp_all

lemma be_nat_nat_be: "n < 256 ^ k \<Longrightarrow> be_nat (nat_be k n) = n"
proof (induction k arbitrary: n)
  case (Suc k)
  then have "n div 256 < 256 ^ k" by (simp add: less_mult_imp_div_less mult.commute)
  with Suc.IH have "be_nat (nat_be k (n div 256)) = n div 256" .
  then show ?case by (simp add: unat_of_nat)
qed (simp add: be_nat_def)

end
