(* ===== verification/Capture_WebSocket.thy ===== *)
theory Capture_WebSocket
  imports Capture_Stream
begin

text \<open>
  The WebSocket decoders of \<open>crates/capture/src/websocket.rs\<close>: the incremental one, which joins
  fragmented messages, and the one-shot \<open>decode_websocket_frames\<close>. A 64-bit length whose sum with
  the header length does not fit a \<open>usize\<close> makes the incremental decoder panic (by the overflow
  check, or by the slice the wrapped sum gives); the panic is a value here, \<open>WsPanic\<close>.
\<close>

unbundle bit_operations_syntax

section \<open>State and operations\<close>

record ws_frame =
  wf_opcode :: u8
  wf_payload :: "byte list"
  wf_fin :: bool

record ws_decoder =
  wd_buffer :: "byte list"
  wd_continuation_opcode :: "u8 option"
  wd_continuation_payload :: "byte list"

datatype ws_error = Truncated | InvalidContinuation

datatype ws_failure = WsError ws_error | WsPanic

definition ws_new :: ws_decoder where
  "ws_new = \<lparr>wd_buffer = [], wd_continuation_opcode = None, wd_continuation_payload = []\<rparr>"

text \<open>The length field and the masking key, \<open>None\<close> when the buffer does not hold them yet.\<close>

definition ws_length :: "byte list \<Rightarrow> nat \<Rightarrow> (nat \<times> nat) option" where
  "ws_length buf len =
     (if len = 126 then
        (if length buf < 4 then None else Some (be_nat (take 2 (drop 2 buf)), 4))
      else if len = 127 then
        (if length buf < 10 then None else Some (be_nat (take 8 (drop 2 buf)), 10))
      else Some (len, 2))"

definition ws_mask :: "byte list \<Rightarrow> bool \<Rightarrow> nat \<Rightarrow> (byte list option \<times> nat) option" where
  "ws_mask buf masked cursor =
     (if masked then
        (if length buf < cursor + 4 then None
         else Some (Some (take 4 (drop cursor buf)), cursor + 4))
      else Some (None, cursor))"

definition xor_mask :: "byte list option \<Rightarrow> byte list \<Rightarrow> byte list" where
  "xor_mask m payload =
     (case m of
        None \<Rightarrow> payload
      | Some key \<Rightarrow> map (\<lambda>i. payload ! i XOR key ! (i mod 4)) [0..<length payload])"

definition ws_try_decode_next :: "ws_decoder \<Rightarrow> ws_decoder \<times> (ws_failure + ws_frame option)" where
  "ws_try_decode_next d =
     (let buf = wd_buffer d in
      if length buf < 2 then (d, Inr None)
      else
        let b0 = buf ! 0; b1 = buf ! 1 in
        case ws_length buf (unat (b1 AND 0x7F)) of
          None \<Rightarrow> (d, Inr None)
        | Some (len, cursor) \<Rightarrow>
            (case ws_mask buf (b1 AND 0x80 \<noteq> 0) cursor of
               None \<Rightarrow> (d, Inr None)
             | Some (key, cursor) \<Rightarrow>
                 if cursor + len \<ge> 2 ^ 64 then (d, Inl WsPanic)
                 else if length buf < cursor + len then (d, Inr None)
                 else
                   (d\<lparr>wd_buffer := drop (cursor + len) buf\<rparr>,
                    Inr (Some \<lparr>wf_opcode = b0 AND 0x0F,
                               wf_payload = xor_mask key (take len (drop cursor buf)),
                               wf_fin = (b0 AND 0x80 \<noteq> 0)\<rparr>))))"

text \<open>One turn of the loop of \<open>push\<close>.\<close>

definition ws_next :: "ws_decoder \<Rightarrow> ws_decoder \<times> (ws_failure + ws_frame list option)" where
  "ws_next s =
     (case ws_try_decode_next s of
        (d, Inl e) \<Rightarrow> (d, Inl e)
      | (d, Inr None) \<Rightarrow> (d, Inr None)
      | (d, Inr (Some f)) \<Rightarrow>
          if wf_opcode f = 0 then
            (case wd_continuation_opcode d of
               None \<Rightarrow> (d, Inl (WsError InvalidContinuation))
             | Some opcode \<Rightarrow>
                 (let payload = wd_continuation_payload d @ wf_payload f in
                  if wf_fin f then
                    (d\<lparr>wd_continuation_payload := [], wd_continuation_opcode := None\<rparr>,
                     Inr (Some [\<lparr>wf_opcode = opcode, wf_payload = payload, wf_fin = True\<rparr>]))
                  else (d\<lparr>wd_continuation_payload := payload\<rparr>, Inr (Some []))))
          else if \<not> wf_fin f then
            (d\<lparr>wd_continuation_opcode := Some (wf_opcode f),
               wd_continuation_payload := wf_payload f\<rparr>, Inr (Some []))
          else (d, Inr (Some [f])))"

definition ws_feed :: "ws_decoder \<Rightarrow> byte list \<Rightarrow> ws_decoder" where
  "ws_feed d bs = d\<lparr>wd_buffer := wd_buffer d @ bs\<rparr>"

definition ws_push :: "ws_decoder \<Rightarrow> byte list \<Rightarrow> ws_decoder \<times> (ws_failure + ws_frame list)" where
  "ws_push d bs = push_with ws_next (\<lambda>d. length (wd_buffer d)) ws_feed d bs"

lemma ws_cursor_pos:
  "ws_length buf n = Some (len, c) \<Longrightarrow> 2 \<le> c" "ws_mask buf m c = Some (k, c') \<Longrightarrow> c \<le> c'"
  by (auto simp: ws_length_def ws_mask_def split: if_splits)

text \<open>
  The one-shot decoder: every frame as it stands, an error where the input ends inside one. The end
  of the payload is computed on a \<open>usize\<close>; where it wraps, \<open>get\<close> finds no such range.
\<close>

function decode_websocket_frames :: "byte list \<Rightarrow> ws_error + ws_frame list" where
  "decode_websocket_frames bs =
     (if bs = [] then Inr []
      else if length bs < 2 then Inl Truncated
      else
        let b0 = bs ! 0; b1 = bs ! 1 in
        case ws_length bs (unat (b1 AND 0x7F)) of
          None \<Rightarrow> Inl Truncated
        | Some (len, cursor) \<Rightarrow>
            (case ws_mask bs (b1 AND 0x80 \<noteq> 0) cursor of
               None \<Rightarrow> Inl Truncated
             | Some (key, cursor) \<Rightarrow>
                 if length bs < cursor + len then Inl Truncated
                 else
                   mapr (\<lambda>fs. \<lparr>wf_opcode = b0 AND 0x0F,
                                wf_payload = xor_mask key (take len (drop cursor bs)),
                                wf_fin = (b0 AND 0x80 \<noteq> 0)\<rparr> # fs)
                     (decode_websocket_frames (drop (cursor + len) bs))))"
  by pat_completeness auto
termination
  by (relation "measure length") (auto dest!: ws_cursor_pos)

declare decode_websocket_frames.simps [simp del]

section \<open>The decoder is a frame source\<close>

lemma ws_length_append: "ws_length buf n = Some p \<Longrightarrow> ws_length (buf @ b) n = Some p"
  by (auto simp: ws_length_def split: if_splits)

lemma ws_mask_append: "ws_mask buf m n = Some p \<Longrightarrow> ws_mask (buf @ b) m n = Some p"
  by (auto simp: ws_mask_def split: if_splits)

lemma try_decode_None: "ws_try_decode_next d = (t, Inr None) \<Longrightarrow> t = d"
  by (auto simp: ws_try_decode_next_def Let_def split: if_splits option.splits prod.splits)

lemma try_decode_progress:
  "ws_try_decode_next d = (t, Inr (Some f)) \<Longrightarrow> length (wd_buffer t) < length (wd_buffer d)"
  by (auto simp: ws_try_decode_next_def Let_def dest!: ws_cursor_pos
      split: if_splits option.splits prod.splits)

lemma ws_feed_buffer [simp]:
  "wd_buffer (ws_feed d b) = wd_buffer d @ b"
  "wd_continuation_opcode (ws_feed d b) = wd_continuation_opcode d"
  "wd_continuation_payload (ws_feed d b) = wd_continuation_payload d"
  by (simp_all add: ws_feed_def)

lemma try_decode_stable:
  assumes "ws_try_decode_next d = (t, r)" and "r \<noteq> Inr None"
  shows "ws_try_decode_next (ws_feed d b) = (ws_feed t b, r)"
proof -
  let ?buf = "wd_buffer d"
  have two: "\<not> length ?buf < 2"
    using assms by (auto simp: ws_try_decode_next_def Let_def)
  then have heads: "(?buf @ b) ! 0 = ?buf ! 0" "(?buf @ b) ! 1 = ?buf ! 1"
    by (auto simp: nth_append)
  obtain len c where l: "ws_length ?buf (unat (?buf ! 1 AND 0x7F)) = Some (len, c)"
    using assms two by (auto simp: ws_try_decode_next_def Let_def split: option.splits)
  obtain m c' where k: "ws_mask ?buf (?buf ! 1 AND 0x80 \<noteq> 0) c = Some (m, c')"
    using assms two l by (auto simp: ws_try_decode_next_def Let_def split: option.splits)
  show ?thesis
    using assms two heads ws_length_append [OF l, of b] ws_mask_append [OF k, of b] l k
    by (auto simp: ws_try_decode_next_def Let_def ws_feed_def split: if_splits)
qed

interpretation ws: frame_source ws_next "\<lambda>d. length (wd_buffer d)" ws_feed
proof unfold_locales
  fix s t es
  assume "ws_next s = (t, Inr (Some es))"
  then show "length (wd_buffer t) < length (wd_buffer s)"
    by (auto simp: ws_next_def Let_def dest!: try_decode_progress
        split: prod.splits sum.splits option.splits if_splits)
next
  fix s t
  assume "ws_next s = (t, Inr None)"
  then show "t = s"
    by (auto simp: ws_next_def Let_def dest!: try_decode_None
        split: prod.splits sum.splits option.splits if_splits)
next
  fix s t es b
  assume n: "ws_next s = (t, Inr (Some es))"
  then obtain d f where d: "ws_try_decode_next s = (d, Inr (Some f))"
    by (auto simp: ws_next_def split: prod.splits sum.splits option.splits)
  from try_decode_stable [OF d, of b] n d show "ws_next (ws_feed s b) = (ws_feed t b, Inr (Some es))"
    by (auto simp: ws_next_def Let_def ws_feed_def split: option.splits if_splits)
next
  fix s t e b
  assume n: "ws_next s = (t, Inl e)"
  then obtain d r where d: "ws_try_decode_next s = (d, r)" "r \<noteq> Inr None"
    by (auto simp: ws_next_def split: prod.splits sum.splits option.splits)
  from try_decode_stable [OF d, of b] n d(1) show "ws_next (ws_feed s b) = (ws_feed t b, Inl e)"
    by (auto simp: ws_next_def Let_def split: sum.splits option.splits if_splits)
qed (simp_all add: ws_feed_def)

lemma ws_push_eq: "ws_push = push_with ws_next (\<lambda>d. length (wd_buffer d)) ws_feed"
  by (intro ext) (simp add: ws_push_def)

lemma ws_new_idle: "ws_next ws_new = (ws_new, Inr None)"
  by (simp add: ws_next_def ws_new_def ws_try_decode_next_def)

section \<open>The wire format\<close>

text \<open>
  A frame as RFC 6455 puts it on the wire: the length in the shortest of its three forms, an
  optional masking key, the payload under the key.
\<close>

record wire_frame =
  wr_fin :: bool
  wr_opcode :: nat
  wr_key :: "byte list option"
  wr_payload :: "byte list"

definition wire_ok :: "wire_frame \<Rightarrow> bool" where
  "wire_ok f \<longleftrightarrow> wr_opcode f < 16 \<and> length (wr_payload f) < 2 ^ 63
     \<and> (case wr_key f of None \<Rightarrow> True | Some k \<Rightarrow> length k = 4)"

definition wire_length :: "nat \<Rightarrow> nat \<times> byte list" where
  "wire_length n =
     (if n < 126 then (n, [])
      else if n < 2 ^ 16 then (126, nat_be 2 n)
      else (127, nat_be 8 n))"

definition ws_encode :: "wire_frame \<Rightarrow> byte list" where
  "ws_encode f =
     (let (n, ext) = wire_length (length (wr_payload f)) in
      [word_of_nat ((if wr_fin f then 128 else 0) + wr_opcode f),
       word_of_nat ((case wr_key f of None \<Rightarrow> 0 | Some _ \<Rightarrow> 128) + n)] @ ext
      @ (case wr_key f of None \<Rightarrow> [] | Some k \<Rightarrow> k) @ xor_mask (wr_key f) (wr_payload f))"

definition wire_frame_of :: "wire_frame \<Rightarrow> ws_frame" where
  "wire_frame_of f = \<lparr>wf_opcode = word_of_nat (wr_opcode f), wf_payload = wr_payload f,
     wf_fin = wr_fin f\<rparr>"

lemma length_xor_mask [simp]: "length (xor_mask k p) = length p"
  by (simp add: xor_mask_def split: option.split)

lemma xor_mask_xor_mask [simp]: "xor_mask k (xor_mask k p) = p"
  by (auto simp: xor_mask_def xor.assoc intro!: nth_equalityI split: option.split)

lemma byte_low4:
  assumes "h = 0 \<or> h = 128" and "n < 16"
  shows "(word_of_nat (h + n) AND (0x0F :: byte)) = word_of_nat n"
proof -
  have "(n + 128) mod 16 = n" using mod_mult_self2 [of n 16 8] assms(2) by simp
  then have "take_bit 4 (h + n) = n"
    using assms by (auto simp: take_bit_eq_mod add.commute)
  then have "take_bit 4 (word_of_nat (h + n) :: byte) = word_of_nat n" by (metis take_bit_of_nat)
  then show ?thesis by (simp add: take_bit_eq_mask mask_eq_exp_minus_1)
qed

lemma byte_low7:
  assumes "h = 0 \<or> h = 128" and "n < 128"
  shows "unat (word_of_nat (h + n) AND (0x7F :: byte)) = n"
proof -
  have "take_bit 7 (h + n) = n"
    using assms by (auto simp: take_bit_eq_mod)
  then have "take_bit 7 (word_of_nat (h + n) :: byte) = word_of_nat n" by (metis take_bit_of_nat)
  then have "(word_of_nat (h + n) AND (0x7F :: byte)) = word_of_nat n"
    by (simp add: take_bit_eq_mask mask_eq_exp_minus_1)
  with assms(2) show ?thesis by (simp add: unat_of_nat)
qed

lemma byte_high:
  fixes h n :: nat
  assumes "h = 0 \<or> h = 128" and "n < 128"
  shows "(word_of_nat (h + n) AND (0x80 :: byte) \<noteq> 0) \<longleftrightarrow> h = 128"
proof -
  have "(0x80 :: byte) = 2 ^ 7" by simp
  then have "(word_of_nat (h + n) AND (0x80 :: byte) \<noteq> 0) \<longleftrightarrow> bit (word_of_nat (h + n) :: byte) 7"
    by (simp only: and_exp_eq_0_iff_not_bit not_not)
  also have "\<dots> \<longleftrightarrow> bit (h + n) 7" by (simp add: bit_of_nat_iff del: of_nat_add)
  also have "\<dots> \<longleftrightarrow> h = 128"
  proof -
    have "(128 + n) div 128 = 1" "n div 128 = 0" using assms(2) by simp_all
    with assms(1) show ?thesis by (auto simp: bit_iff_odd)
  qed
  finally show ?thesis .
qed

lemma wire_length_read:
  assumes "wire_length n = (m, ext)" and "n < 2 ^ 63"
  shows "m < 128" and "ws_length (b0 # b1 # ext @ rest) m = Some (n, 2 + length ext)"
  using assms(1) [symmetric] assms(2) be_nat_nat_be [of n 2] be_nat_nat_be [of n 8]
  by (auto simp: wire_length_def ws_length_def split: if_splits)

lemma decode_encoded:
  assumes "wire_ok f" and "wd_buffer d = ws_encode f @ rest"
  shows "ws_try_decode_next d = (d\<lparr>wd_buffer := rest\<rparr>, Inr (Some (wire_frame_of f)))"
proof -
  obtain n ext where w: "wire_length (length (wr_payload f)) = (n, ext)" by fastforce
  let ?h = "case wr_key f of None \<Rightarrow> (0 :: nat) | Some _ \<Rightarrow> 128"
  let ?k = "case wr_key f of None \<Rightarrow> [] | Some k \<Rightarrow> k"
  let ?b0 = "word_of_nat ((if wr_fin f then 128 else 0) + wr_opcode f) :: byte"
  let ?b1 = "word_of_nat (?h + n) :: byte"
  let ?x = "xor_mask (wr_key f) (wr_payload f)"
  from assms(1) have len: "length (wr_payload f) < 2 ^ 63" and op: "wr_opcode f < 16"
    by (auto simp: wire_ok_def)
  note read = wire_length_read [OF w len]
  have buf: "wd_buffer d = ?b0 # ?b1 # ext @ ?k @ ?x @ rest"
    using assms(2) w by (simp add: ws_encode_def)
  have h: "?h = 0 \<or> ?h = 128" "?h = 128 \<longleftrightarrow> wr_key f \<noteq> None"
    by (simp_all split: option.split)
  note b1 = byte_low7 [OF h(1) read(1)] byte_high [OF h(1) read(1), unfolded h(2)]
  have g: "(if wr_fin f then 128 else 0) = (0 :: nat) \<or> (if wr_fin f then 128 else 0) = (128 :: nat)"
    "(if wr_fin f then 128 else 0) = (128 :: nat) \<longleftrightarrow> wr_fin f" "wr_opcode f < 128"
    using op by simp_all
  note b0 = byte_low4 [OF g(1) op] byte_high [OF g(1) g(3), unfolded g(2)]
  have mask: "ws_mask (wd_buffer d) (wr_key f \<noteq> None) (2 + length ext) =
      Some (wr_key f, 2 + length ext + length ?k)"
    using assms(1) buf by (auto simp: ws_mask_def wire_ok_def split: option.splits)
  have key4: "length ?k \<le> 4" and ext8: "length ext \<le> 8"
    using assms(1) w by (auto simp: wire_ok_def wire_length_def split: option.splits if_splits)
  have rest: "drop (2 + length ext + length ?k + length (wr_payload f)) (wd_buffer d) = rest"
    "take (length (wr_payload f)) (drop (2 + length ext + length ?k) (wd_buffer d)) = ?x"
    by (simp_all add: buf)
  have "ws_length (wd_buffer d) n = Some (length (wr_payload f), 2 + length ext)"
    unfolding buf by (rule read(2))
  moreover have "\<not> length (wd_buffer d) < 2" "wd_buffer d ! 0 = ?b0" "wd_buffer d ! 1 = ?b1"
    "\<not> length (wd_buffer d) < 2 + length ext + length ?k + length (wr_payload f)"
    by (simp_all add: buf)
  ultimately show ?thesis
    using b0 b1 mask rest len key4 ext8
    by (simp add: ws_try_decode_next_def Let_def wire_frame_of_def)
qed

section \<open>Messages\<close>

text \<open>A message of one or more fragments, each with a masking key of its own.\<close>

record ws_message =
  wm_opcode :: nat
  wm_first :: "byte list option \<times> byte list"
  wm_rest :: "(byte list option \<times> byte list) list"

fun continuation_frames :: "(byte list option \<times> byte list) list \<Rightarrow> wire_frame list" where
  "continuation_frames [] = []"
| "continuation_frames ((k, p) # fs) =
     \<lparr>wr_fin = (fs = []), wr_opcode = 0, wr_key = k, wr_payload = p\<rparr> # continuation_frames fs"

definition message_frames :: "ws_message \<Rightarrow> wire_frame list" where
  "message_frames m =
     \<lparr>wr_fin = (wm_rest m = []), wr_opcode = wm_opcode m, wr_key = fst (wm_first m),
      wr_payload = snd (wm_first m)\<rparr> # continuation_frames (wm_rest m)"

definition message_ok :: "ws_message \<Rightarrow> bool" where
  "message_ok m \<longleftrightarrow> 0 < wm_opcode m \<and> list_all wire_ok (message_frames m)"

definition message_bytes :: "ws_message \<Rightarrow> byte list" where
  "message_bytes m = concat (map ws_encode (message_frames m))"

definition message_frame :: "ws_message \<Rightarrow> ws_frame" where
  "message_frame m = \<lparr>wf_opcode = word_of_nat (wm_opcode m),
     wf_payload = snd (wm_first m) @ concat (map snd (wm_rest m)), wf_fin = True\<rparr>"

definition ws_decoding ::
  "byte list \<Rightarrow> u8 option \<Rightarrow> byte list \<Rightarrow> ws_decoder \<times> (ws_failure + ws_frame list)" where
  "ws_decoding bs opcode payload =
     drain ws_next (\<lambda>d. length (wd_buffer d))
       \<lparr>wd_buffer = bs, wd_continuation_opcode = opcode, wd_continuation_payload = payload\<rparr>"

lemma word_opcode_zero: "n < 16 \<Longrightarrow> (word_of_nat n :: u8) = 0 \<longleftrightarrow> n = 0"
  by (simp add: word_unat_eq_iff unat_of_nat)

lemma decoding_continuation:
  assumes "fs \<noteq> []" and "list_all wire_ok (continuation_frames fs)"
  shows "ws_decoding (concat (map ws_encode (continuation_frames fs)) @ rest) (Some opcode) acc =
    prepend [\<lparr>wf_opcode = opcode, wf_payload = acc @ concat (map snd fs), wf_fin = True\<rparr>]
      (ws_decoding rest None [])"
  using assms
proof (induction fs arbitrary: acc rule: continuation_frames.induct)
  case (2 k p fs)
  let ?f = "\<lparr>wr_fin = (fs = []), wr_opcode = 0, wr_key = k, wr_payload = p\<rparr>"
  let ?rest = "concat (map ws_encode (continuation_frames fs)) @ rest"
  let ?d = "\<lparr>wd_buffer = ws_encode ?f @ ?rest, wd_continuation_opcode = Some opcode,
    wd_continuation_payload = acc\<rparr>"
  have "wire_ok ?f" using "2.prems" by simp
  note step = decode_encoded [OF this, of ?d ?rest]
  show ?case
  proof (cases "fs = []")
    case True
    with step have "ws_next ?d = (\<lparr>wd_buffer = rest, wd_continuation_opcode = None,
        wd_continuation_payload = []\<rparr>,
        Inr (Some [\<lparr>wf_opcode = opcode, wf_payload = acc @ p, wf_fin = True\<rparr>]))"
      by (simp add: ws_next_def wire_frame_of_def)
    from ws.drain_step [OF this] True show ?thesis by (simp add: ws_decoding_def)
  next
    case False
    with step have "ws_next ?d = (\<lparr>wd_buffer = ?rest, wd_continuation_opcode = Some opcode,
        wd_continuation_payload = acc @ p\<rparr>, Inr (Some []))"
      by (simp add: ws_next_def wire_frame_of_def)
    from ws.drain_step [OF this] "2.IH" [OF False] "2.prems" show ?thesis
      by (simp add: ws_decoding_def)
  qed
qed simp

lemma decoding_message:
  assumes "message_ok m"
  shows "ws_decoding (message_bytes m @ rest) None [] =
    prepend [message_frame m] (ws_decoding rest None [])"
proof -
  let ?f = "hd (message_frames m)"
  let ?rest = "concat (map ws_encode (continuation_frames (wm_rest m))) @ rest"
  let ?d = "\<lparr>wd_buffer = ws_encode ?f @ ?rest, wd_continuation_opcode = None,
    wd_continuation_payload = []\<rparr>"
  from assms have ok: "wire_ok ?f" "0 < wm_opcode m" "wm_opcode m < 16"
      "list_all wire_ok (continuation_frames (wm_rest m))"
    by (auto simp: message_ok_def message_frames_def wire_ok_def)
  note step = decode_encoded [OF ok(1), of ?d ?rest]
  have bytes: "message_bytes m @ rest = ws_encode ?f @ ?rest"
    by (simp add: message_bytes_def message_frames_def)
  show ?thesis
  proof (cases "wm_rest m = []")
    case True
    with step ok(2,3) have "ws_next ?d = (\<lparr>wd_buffer = rest, wd_continuation_opcode = None,
        wd_continuation_payload = []\<rparr>, Inr (Some [message_frame m]))"
      by (simp add: ws_next_def wire_frame_of_def message_frames_def message_frame_def
          word_opcode_zero)
    from ws.drain_step [OF this] show ?thesis by (simp add: ws_decoding_def bytes)
  next
    case False
    with step ok(2,3) have "ws_next ?d = (\<lparr>wd_buffer = ?rest,
        wd_continuation_opcode = Some (word_of_nat (wm_opcode m)),
        wd_continuation_payload = snd (wm_first m)\<rparr>, Inr (Some []))"
      by (simp add: ws_next_def wire_frame_of_def message_frames_def word_opcode_zero)
    from ws.drain_step [OF this] decoding_continuation [OF False ok(4)] show ?thesis
      by (simp add: ws_decoding_def bytes message_frame_def)
  qed
qed

lemma decoding_messages:
  assumes "list_all message_ok ms"
  shows "ws_decoding (concat (map message_bytes ms)) None [] = (ws_new, Inr (map message_frame ms))"
  using assms
proof (induction ms)
  case Nil
  then show ?case using ws.drain_idle [OF ws_new_idle] by (simp add: ws_decoding_def ws_new_def)
next
  case (Cons m ms)
  then show ?case using decoding_message [of m "concat (map message_bytes ms)"] by simp
qed

lemma one_shot_frames:
  assumes "list_all wire_ok fs"
  shows "decode_websocket_frames (concat (map ws_encode fs)) = Inr (map wire_frame_of fs)"
  using assms
proof (induction fs)
  case Nil
  then show ?case by (simp add: decode_websocket_frames.simps)
next
  case (Cons f fs)
  let ?bs = "ws_encode f @ concat (map ws_encode fs)"
  have ok: "wire_ok f" using Cons.prems by simp
  have step: "ws_try_decode_next (ws_new\<lparr>wd_buffer := ?bs\<rparr>) =
      (ws_new\<lparr>wd_buffer := concat (map ws_encode fs)\<rparr>, Inr (Some (wire_frame_of f)))"
    using decode_encoded [OF ok, of "ws_new\<lparr>wd_buffer := ?bs\<rparr>"] by simp
  have "ws_encode f \<noteq> []" by (simp add: ws_encode_def split: prod.split)
  with step have "decode_websocket_frames ?bs = mapr (\<lambda>gs. wire_frame_of f # gs)
      (decode_websocket_frames (concat (map ws_encode fs)))"
    by (subst decode_websocket_frames.simps)
      (auto simp: ws_try_decode_next_def Let_def ws_new_def split: if_splits option.splits)
  with Cons show ?case by simp
qed

section \<open>Properties\<close>

text \<open>
  How the network cuts a WebSocket stream into chunks does not matter: any two ways of splitting
  the same bytes give the same messages, or the same failure.
\<close>

theorem ws_chunking_irrelevant:
  assumes "concat cs = concat ds"
  shows "snd (push_chunks ws_push ws_new cs) = snd (push_chunks ws_push ws_new ds)"
  unfolding ws_push_eq by (rule ws.chunking_irrelevant [OF ws_new_idle assms])

theorem ws_chunking_irrelevant_witness:
  "snd (push_chunks ws_push ws_new [[0x81], [0x02, 104], [105, 0x81, 0]]) =
   snd (push_chunks ws_push ws_new [[0x81, 0x02, 104, 105, 0x81, 0]])"
  by (rule ws_chunking_irrelevant) simp

text \<open>
  C32. Decoding the RFC 6455 encoding of any list of messages gives back the messages: whatever the
  number of fragments, the form of the length (7, 16 or 64 bits) and the masking keys, each
  message comes out once, whole, with its opcode, and nothing is left in the decoder.
\<close>

theorem ws_message_round_trip:
  assumes "list_all message_ok ms"
  shows "ws_push ws_new (concat (map message_bytes ms)) = (ws_new, Inr (map message_frame ms))"
  using decoding_messages [OF assms]
  by (simp add: ws_push_def push_with_def ws_feed_def ws_new_def ws_decoding_def)

definition sample_messages :: "ws_message list" where
  "sample_messages =
     [\<lparr>wm_opcode = 1, wm_first = (Some [1, 2, 3, 4], [104]), wm_rest = [(None, [105])]\<rparr>,
      \<lparr>wm_opcode = 2, wm_first = (None, replicate 300 7), wm_rest = []\<rparr>]"

theorem ws_message_round_trip_witness:
  "ws_push ws_new (concat (map message_bytes sample_messages)) =
     (ws_new, Inr [\<lparr>wf_opcode = 1, wf_payload = [104, 105], wf_fin = True\<rparr>,
                   \<lparr>wf_opcode = 2, wf_payload = replicate 300 7, wf_fin = True\<rparr>])"
proof -
  have "list_all message_ok sample_messages"
    by (simp add: sample_messages_def message_ok_def message_frames_def wire_ok_def)
  from ws_message_round_trip [OF this] show ?thesis
    by (simp add: sample_messages_def message_frame_def)
qed

text \<open>
  The one-shot decoder gives back every frame of an encoded list, fragments as they stand.
\<close>

theorem ws_one_shot_round_trip:
  assumes "list_all wire_ok fs"
  shows "decode_websocket_frames (concat (map ws_encode fs)) = Inr (map wire_frame_of fs)"
  by (rule one_shot_frames [OF assms])

theorem ws_one_shot_round_trip_witness:
  "decode_websocket_frames (concat (map ws_encode
     [\<lparr>wr_fin = False, wr_opcode = 1, wr_key = Some [9, 9, 9, 9], wr_payload = [5, 6]\<rparr>])) =
   Inr [\<lparr>wf_opcode = 1, wf_payload = [5, 6], wf_fin = False\<rparr>]"
proof -
  have "list_all wire_ok
      [\<lparr>wr_fin = False, wr_opcode = 1, wr_key = Some [9, 9, 9, 9], wr_payload = [5, 6]\<rparr>]"
    by (simp add: wire_ok_def)
  from ws_one_shot_round_trip [OF this] show ?thesis by (simp add: wire_frame_of_def)
qed

section \<open>A limit of the code\<close>

text \<open>A ten-byte header with a length close to the word size makes the decoder panic.\<close>

lemma ws_length_overflow_panics:
  "snd (ws_push ws_new [0x82, 0x7F, 255, 255, 255, 255, 255, 255, 255, 255]) = Inl WsPanic"
  by (simp add: ws_push_def push_with_def drain.simps ws_next_def ws_try_decode_next_def ws_feed_def
      ws_new_def ws_length_def ws_mask_def be_nat_def)

end
