(* ===== verification/Capture_H2.thy ===== *)
theory Capture_H2
  imports Capture_Stream Rust_Text
begin

text \<open>
  The HTTP/2 frame decoder of \<open>crates/capture/src/h2.rs\<close>, one direction at a time. HPACK is a
  third-party package: its decoder's state is a type variable and its \<open>decode\<close> an argument
  \<open>hp\<close>, which returns the new state beside the headers or the printed error.
\<close>

unbundle bit_operations_syntax

section \<open>Data\<close>

record h2_priority =
  hp_stream_id :: u32
  hp_dependency_stream_id :: u32
  hp_exclusive :: bool
  hp_weight :: u8

record h2_header_block =
  hh_stream_id :: u32
  hh_headers :: "(string \<times> string) list"
  hh_end_stream :: bool
  hh_priority :: "h2_priority option"

datatype h2_event =
    Headers h2_header_block
  | Data (data_stream: u32) (data_payload: "byte list") (data_end: bool)
  | Priority h2_priority
  | RstStream (rst_stream: u32) (rst_code: u32)
  | GoAway (goaway_last: u32) (goaway_code: u32) (goaway_debug: "byte list")

datatype h2_decode_error =
    InvalidPreface | InvalidFrame | InvalidPadding | UnexpectedContinuation
  | ContinuationStreamMismatch | HeaderDecode string

record pending_headers =
  ph_stream_id :: u32
  ph_end_stream :: bool
  ph_priority :: "h2_priority option"
  ph_block :: "byte list"

record 'h direction_state =
  dr_buffer :: "byte list"
  dr_hpack :: 'h
  dr_pending_headers :: "pending_headers option"
  dr_preface_complete :: bool

type_synonym 'h hpack_decode =
  "'h \<Rightarrow> byte list \<Rightarrow> 'h \<times> (string + (byte list \<times> byte list) list)"

definition CLIENT_PREFACE :: "byte list" where
  "CLIENT_PREFACE = str_bytes ''PRI * HTTP/2.0'' @ [13, 10, 13, 10] @ str_bytes ''SM'' @ [13, 10, 13, 10]"

definition direction_new :: "'h \<Rightarrow> 'h direction_state" where
  "direction_new h = \<lparr>dr_buffer = [], dr_hpack = h, dr_pending_headers = None,
     dr_preface_complete = False\<rparr>"

section \<open>Frames\<close>

definition u32_be :: "byte list \<Rightarrow> u32" where
  "u32_be bs = word_of_nat (be_nat bs)"

definition flag_set :: "u8 \<Rightarrow> u8 \<Rightarrow> bool" where
  "flag_set flags f = (flags AND f \<noteq> 0)"

definition strip_padding :: "byte list \<Rightarrow> bool \<Rightarrow> h2_decode_error + byte list" where
  "strip_padding payload padded =
     (if \<not> padded then Inr payload
      else case payload of
        [] \<Rightarrow> Inl InvalidPadding
      | pad # rest \<Rightarrow>
          if length rest < unat pad then Inl InvalidPadding
          else Inr (take (length rest - unat pad) rest))"

definition parse_data_frame :: "u32 \<Rightarrow> u8 \<Rightarrow> byte list \<Rightarrow> h2_decode_error + h2_event" where
  "parse_data_frame stream_id flags payload =
     (if stream_id = 0 then Inl InvalidFrame
      else mapr (\<lambda>p. Data stream_id p (flag_set flags 1)) (strip_padding payload (flag_set flags 8)))"

definition priority_of :: "u32 \<Rightarrow> byte list \<Rightarrow> h2_priority" where
  "priority_of stream_id bs =
     \<lparr>hp_stream_id = stream_id, hp_dependency_stream_id = u32_be (take 4 bs) AND 0x7FFFFFFF,
      hp_exclusive = (u32_be (take 4 bs) AND 0x80000000 \<noteq> 0), hp_weight = bs ! 4\<rparr>"

definition parse_priority_payload :: "u32 \<Rightarrow> byte list \<Rightarrow> h2_decode_error + h2_priority" where
  "parse_priority_payload stream_id payload =
     (if stream_id = 0 \<or> length payload \<noteq> 5 then Inl InvalidFrame
      else Inr (priority_of stream_id payload))"

definition decode_headers ::
  "'h hpack_decode \<Rightarrow> 'h \<Rightarrow> byte list \<Rightarrow> 'h \<times> (h2_decode_error + (string \<times> string) list)" where
  "decode_headers hp h block =
     (case hp h block of
        (g, r) \<Rightarrow>
          (g, map_err HeaderDecode
                (mapr (map (\<lambda>(n, v). (from_utf8_lossy n, from_utf8_lossy v))) r)))"

definition emit_headers ::
  "'h hpack_decode \<Rightarrow> 'h direction_state \<Rightarrow> u32 \<Rightarrow> byte list \<Rightarrow> bool \<Rightarrow> h2_priority option
     \<Rightarrow> 'h direction_state \<times> (h2_decode_error + h2_event list)" where
  "emit_headers hp s stream_id block end_stream priority =
     (case decode_headers hp (dr_hpack s) block of
        (h, r) \<Rightarrow>
          (s\<lparr>dr_hpack := h\<rparr>,
           mapr (\<lambda>hs. [Headers \<lparr>hh_stream_id = stream_id, hh_headers = hs,
                         hh_end_stream = end_stream, hh_priority = priority\<rparr>]) r))"

text \<open>
  The block fragment of a HEADERS frame: padding, then the priority fields. The cursor counts from
  the start of the payload, the padding is cut from its end.
\<close>

definition headers_fragment ::
  "u32 \<Rightarrow> u8 \<Rightarrow> byte list \<Rightarrow> h2_decode_error + h2_priority option \<times> byte list" where
  "headers_fragment stream_id flags payload =
     bindr
       (if flag_set flags 8 then
          (case payload of
             [] \<Rightarrow> Inl InvalidPadding
           | pad # _ \<Rightarrow>
               if length payload < 1 + unat pad then Inl InvalidPadding
               else Inr (1, take (length payload - unat pad) payload))
        else Inr (0, payload))
       (\<lambda>(cursor, body).
          bindr
            (if flag_set flags 0x20 then
               (if length body < cursor + 5 then Inl InvalidFrame
                else Inr (Some (priority_of stream_id (drop cursor body)), cursor + 5))
             else Inr (None, cursor))
            (\<lambda>(priority, cursor).
               if length body < cursor then Inl InvalidFrame
               else Inr (priority, drop cursor body)))"

definition parse_headers_frame ::
  "'h hpack_decode \<Rightarrow> 'h direction_state \<Rightarrow> u32 \<Rightarrow> u8 \<Rightarrow> byte list
     \<Rightarrow> 'h direction_state \<times> (h2_decode_error + h2_event list)" where
  "parse_headers_frame hp s stream_id flags payload =
     (if stream_id = 0 then (s, Inl InvalidFrame)
      else case headers_fragment stream_id flags payload of
        Inl e \<Rightarrow> (s, Inl e)
      | Inr (priority, block) \<Rightarrow>
          if flag_set flags 4 then emit_headers hp s stream_id block (flag_set flags 1) priority
          else
            (s\<lparr>dr_pending_headers := Some \<lparr>ph_stream_id = stream_id,
                 ph_end_stream = flag_set flags 1, ph_priority = priority, ph_block = block\<rparr>\<rparr>,
             Inr []))"

definition parse_continuation_frame ::
  "'h hpack_decode \<Rightarrow> 'h direction_state \<Rightarrow> u32 \<Rightarrow> u8 \<Rightarrow> byte list
     \<Rightarrow> 'h direction_state \<times> (h2_decode_error + h2_event list)" where
  "parse_continuation_frame hp s stream_id flags payload =
     (case dr_pending_headers s of
        None \<Rightarrow> (s, Inl UnexpectedContinuation)
      | Some p \<Rightarrow>
          (let t = s\<lparr>dr_pending_headers := None\<rparr>; block = ph_block p @ payload in
           if ph_stream_id p \<noteq> stream_id then (t, Inl ContinuationStreamMismatch)
           else if flag_set flags 4 then
             emit_headers hp t (ph_stream_id p) block (ph_end_stream p) (ph_priority p)
           else (s\<lparr>dr_pending_headers := Some (p\<lparr>ph_block := block\<rparr>)\<rparr>, Inr [])))"

definition h2_frame ::
  "'h hpack_decode \<Rightarrow> 'h direction_state \<Rightarrow> u8 \<Rightarrow> u8 \<Rightarrow> u32 \<Rightarrow> byte list
     \<Rightarrow> 'h direction_state \<times> (h2_decode_error + h2_event list)" where
  "h2_frame hp s frame_type flags stream_id payload =
     (if frame_type = 0 then (s, mapr (\<lambda>e. [e]) (parse_data_frame stream_id flags payload))
      else if frame_type = 1 then parse_headers_frame hp s stream_id flags payload
      else if frame_type = 2 then
        (s, mapr (\<lambda>p. [Priority p]) (parse_priority_payload stream_id payload))
      else if frame_type = 3 then
        (s, if length payload \<noteq> 4 \<or> stream_id = 0 then Inl InvalidFrame
            else Inr [RstStream stream_id (u32_be payload)])
      else if frame_type = 7 then
        (s, if length payload < 8 \<or> stream_id \<noteq> 0 then Inl InvalidFrame
            else Inr [GoAway (u32_be (take 4 payload) AND 0x7FFFFFFF)
                        (u32_be (take 4 (drop 4 payload))) (drop 8 payload)])
      else if frame_type = 9 then parse_continuation_frame hp s stream_id flags payload
      else (s, Inr []))"

text \<open>One turn of the loop of \<open>parse_complete_frames\<close>.\<close>

definition h2_next ::
  "'h hpack_decode \<Rightarrow> 'h direction_state \<Rightarrow>
     'h direction_state \<times> (h2_decode_error + h2_event list option)" where
  "h2_next hp s =
     (let buf = dr_buffer s in
      if length buf < 9 then (s, Inr None)
      else
        let len = be_nat (take 3 buf) in
        if length buf < 9 + len then (s, Inr None)
        else
          let t = s\<lparr>dr_buffer := drop (9 + len) buf\<rparr>;
              (u, r) = h2_frame hp t (buf ! 3) (buf ! 4)
                (u32_be (take 4 (drop 5 buf)) AND 0x7FFFFFFF) (take len (drop 9 buf))
          in (u, mapr Some r))"

definition h2_feed :: "'h direction_state \<Rightarrow> byte list \<Rightarrow> 'h direction_state" where
  "h2_feed s bs = s\<lparr>dr_buffer := dr_buffer s @ bs\<rparr>"

definition parse_complete_frames ::
  "'h hpack_decode \<Rightarrow> 'h direction_state \<Rightarrow> 'h direction_state \<times> (h2_decode_error + h2_event list)"
  where "parse_complete_frames hp s = drain (h2_next hp) (\<lambda>s. length (dr_buffer s)) s"

definition consume_client_preface ::
  "'h direction_state \<Rightarrow> 'h direction_state \<times> (h2_decode_error + unit)" where
  "consume_client_preface s =
     (let buf = dr_buffer s; n = min (length buf) (length CLIENT_PREFACE) in
      if dr_preface_complete s then (s, Inr ())
      else if take n buf \<noteq> take n CLIENT_PREFACE then (s, Inl InvalidPreface)
      else if length buf < length CLIENT_PREFACE then (s, Inr ())
      else (s\<lparr>dr_buffer := drop (length CLIENT_PREFACE) buf, dr_preface_complete := True\<rparr>, Inr ()))"

definition h2_push ::
  "'h hpack_decode \<Rightarrow> bool \<Rightarrow> 'h direction_state \<Rightarrow> byte list
     \<Rightarrow> 'h direction_state \<times> (h2_decode_error + h2_event list)" where
  "h2_push hp client_side s bs =
     (let t = h2_feed s bs in
      if client_side then
        (case consume_client_preface t of
           (u, Inl e) \<Rightarrow> (u, Inl e)
         | (u, Inr _) \<Rightarrow> parse_complete_frames hp u)
      else parse_complete_frames hp t)"

section \<open>The decoder is a frame source\<close>

lemma h2_feed_simps [simp]:
  "dr_buffer (h2_feed s b) = dr_buffer s @ b" "dr_hpack (h2_feed s b) = dr_hpack s"
  "dr_pending_headers (h2_feed s b) = dr_pending_headers s"
  "dr_preface_complete (h2_feed s b) = dr_preface_complete s"
  by (simp_all add: h2_feed_def)

lemma h2_frame_feed:
  "h2_frame hp (h2_feed s b) ty fl sid p =
     (h2_feed (fst (h2_frame hp s ty fl sid p)) b, snd (h2_frame hp s ty fl sid p))"
  by (auto simp: h2_frame_def parse_headers_frame_def parse_continuation_frame_def
      emit_headers_def Let_def h2_feed_def split: sum.splits prod.splits option.splits)

lemma h2_frame_buffer [simp]: "dr_buffer (fst (h2_frame hp s ty fl sid p)) = dr_buffer s"
  by (auto simp: h2_frame_def parse_headers_frame_def parse_continuation_frame_def
      emit_headers_def Let_def split: sum.splits prod.splits option.splits)

lemma h2_next_stable:
  assumes "h2_next hp s = (t, r)" and "r \<noteq> Inr None"
  shows "h2_next hp (h2_feed s b) = (h2_feed t b, r)"
proof -
  let ?buf = "dr_buffer s" and ?n = "be_nat (take 3 (dr_buffer s))"
  have nine: "\<not> length ?buf < 9" and len: "\<not> length ?buf < 9 + ?n"
    using assms by (auto simp: h2_next_def Let_def split: if_splits)
  have heads: "(?buf @ b) ! 3 = ?buf ! 3" "(?buf @ b) ! 4 = ?buf ! 4"
    "take 3 (?buf @ b) = take 3 ?buf" "take 4 (drop 5 (?buf @ b)) = take 4 (drop 5 ?buf)"
    "take ?n (drop 9 (?buf @ b)) = take ?n (drop 9 ?buf)"
    "drop (9 + ?n) (?buf @ b) = drop (9 + ?n) ?buf @ b"
    using nine len by (auto simp: nth_append)
  let ?t = "s\<lparr>dr_buffer := drop (9 + ?n) ?buf\<rparr>"
  have feed: "(h2_feed s b)\<lparr>dr_buffer := drop (9 + ?n) ?buf @ b\<rparr> = h2_feed ?t b"
    by (simp add: h2_feed_def)
  show ?thesis
    using assms nine len unfolding h2_next_def Let_def h2_feed_simps heads feed h2_frame_feed
    by (auto split: prod.splits)
qed

interpretation h2: frame_source "h2_next hp" "\<lambda>s. length (dr_buffer s)" h2_feed for hp
proof unfold_locales
  fix s t es
  assume n: "h2_next hp s = (t, Inr (Some es))"
  then have "\<not> length (dr_buffer s) < 9" "dr_buffer t = drop (9 + be_nat (take 3 (dr_buffer s))) (dr_buffer s)"
    using h2_frame_buffer by (auto simp: h2_next_def Let_def split: if_splits prod.splits
        dest!: arg_cong [where f = "\<lambda>x. dr_buffer (fst x)"])
  then show "length (dr_buffer t) < length (dr_buffer s)" by simp
next
  fix s t
  assume "h2_next hp s = (t, Inr None)"
  then show "t = s"
    by (auto simp: h2_next_def Let_def mapr_eq_Inr split: if_splits prod.splits)
next
  fix s t es b
  assume "h2_next hp s = (t, Inr (Some es))"
  then show "h2_next hp (h2_feed s b) = (h2_feed t b, Inr (Some es))"
    by (rule h2_next_stable) simp
next
  fix s t e b
  assume "h2_next hp s = (t, Inl e)"
  then show "h2_next hp (h2_feed s b) = (h2_feed t b, Inl e)"
    by (rule h2_next_stable) simp
qed (simp_all add: h2_feed_def)

section \<open>Both directions as one stream\<close>

lemma push_server_eq: "h2_push hp False = push_with (h2_next hp) (\<lambda>s. length (dr_buffer s)) h2_feed"
  by (intro ext) (simp add: h2_push_def push_with_def parse_complete_frames_def)

lemma direction_new_idle: "h2_next hp (direction_new h) = (direction_new h, Inr None)"
  by (simp add: h2_next_def direction_new_def)

text \<open>
  Between pushes a client direction either waits for the rest of the preface, or for the rest of a
  frame. The first three bytes of the preface announce a frame far longer than the preface, so the
  frame loop finds nothing in an incomplete one.
\<close>

definition client_ready :: "'h hpack_decode \<Rightarrow> 'h direction_state \<Rightarrow> bool" where
  "client_ready hp s \<longleftrightarrow>
     (if dr_preface_complete s then h2_next hp s = (s, Inr None)
      else length (dr_buffer s) < 24 \<and> take (length (dr_buffer s)) CLIENT_PREFACE = dr_buffer s)"

lemma length_preface [simp]: "length CLIENT_PREFACE = 24"
  by (simp add: CLIENT_PREFACE_def)

lemma preface_length: "be_nat (take 3 CLIENT_PREFACE) = 0x505249"
  by (simp add: CLIENT_PREFACE_def str_bytes_def be_nat_def)

lemma partial_preface_idle:
  assumes "length (dr_buffer s) < 24" and "take (length (dr_buffer s)) CLIENT_PREFACE = dr_buffer s"
  shows "h2_next hp s = (s, Inr None)"
proof (cases "length (dr_buffer s) < 9")
  case False
  have "take 3 (dr_buffer s) = take 3 (take (length (dr_buffer s)) CLIENT_PREFACE)"
    using assms(2) by simp
  also have "\<dots> = take 3 CLIENT_PREFACE" using False by (simp add: min_def)
  finally show ?thesis
    using assms(1) preface_length by (simp add: h2_next_def Let_def)
qed (simp add: h2_next_def)

lemma client_push_cases:
  assumes "\<not> dr_preface_complete s"
  shows "h2_push hp True s a =
    (let buf = dr_buffer s @ a in
     if take (min (length buf) 24) buf \<noteq> take (min (length buf) 24) CLIENT_PREFACE
     then (h2_feed s a, Inl InvalidPreface)
     else if length buf < 24 then parse_complete_frames hp (h2_feed s a)
     else parse_complete_frames hp
            (s\<lparr>dr_buffer := drop 24 buf, dr_preface_complete := True\<rparr>))"
  using assms by (auto simp: h2_push_def consume_client_preface_def Let_def h2_feed_def)

lemma client_push_full:
  assumes "\<not> dr_preface_complete s" and "x = dr_buffer s @ a" and "24 \<le> length x"
    and "take 24 x = CLIENT_PREFACE"
  shows "h2_push hp True s (a @ b) = parse_complete_frames hp
    (h2_feed (s\<lparr>dr_buffer := drop 24 x, dr_preface_complete := True\<rparr>) b)"
proof -
  have buf: "dr_buffer s @ a @ b = x @ b" using assms(2) by simp
  have m: "min (length (x @ b)) 24 = 24" "take 24 (x @ b) = CLIENT_PREFACE"
    "drop 24 (x @ b) = drop 24 x @ b" "\<not> length (x @ b) < 24"
    using assms(3,4) by simp_all
  have eq: "s\<lparr>dr_buffer := drop 24 x @ b, dr_preface_complete := True\<rparr> =
      h2_feed (s\<lparr>dr_buffer := drop 24 x, dr_preface_complete := True\<rparr>) b"
    by (cases s) (simp add: h2_feed_def)
  show ?thesis
    unfolding client_push_cases [OF assms(1)] buf Let_def m eq using assms(3) by simp
qed

lemma client_push_complete:
  "dr_preface_complete s \<Longrightarrow> h2_push hp True s a = h2_push hp False s a"
  by (simp add: h2_push_def consume_client_preface_def)

lemma preface_mismatch_append:
  assumes "take (min (length x) 24) x \<noteq> take (min (length x) 24) CLIENT_PREFACE"
  shows "take (min (length (x @ b)) 24) (x @ b) \<noteq> take (min (length (x @ b)) 24) CLIENT_PREFACE"
proof
  let ?m = "min (length x) 24" and ?n = "min (length (x @ b)) 24"
  assume eq: "take ?n (x @ b) = take ?n CLIENT_PREFACE"
  have "take ?m (take ?n (x @ b)) = take ?m x" by (simp add: min_def)
  moreover have "take ?m (take ?n CLIENT_PREFACE) = take ?m CLIENT_PREFACE" by (simp add: min_def)
  ultimately show False using eq assms by metis
qed

lemma drain_frames_flag:
  "dr_preface_complete (fst (parse_complete_frames hp s)) = dr_preface_complete s"
proof -
  have frame: "dr_preface_complete (fst (h2_frame hp s ty fl sid p)) = dr_preface_complete s"
    for s :: "'a direction_state" and ty fl sid p
    by (auto simp: h2_frame_def parse_headers_frame_def parse_continuation_frame_def
        emit_headers_def Let_def split: sum.splits prod.splits option.splits)
  have step: "h2_next hp s = (t, r) \<Longrightarrow> dr_preface_complete t = dr_preface_complete s" for s t r
    using frame by (auto simp: h2_next_def Let_def split: if_splits prod.splits
        dest!: arg_cong [where f = "\<lambda>x. dr_preface_complete (fst x)"])
  show ?thesis
    unfolding parse_complete_frames_def
  proof (induction "length (dr_buffer s)" arbitrary: s rule: less_induct)
    case less
    show ?case
    proof (cases rule: h2.step_cases [of hp s])
      case (err t e)
      from h2.drain_err [OF err] step [OF err] show ?thesis by simp
    next
      case wait
      from h2.drain_idle [OF wait] show ?thesis by simp
    next
      case (some t es)
      from less.hyps [OF some(2)] step [OF some(1)] show ?thesis
        by (simp add: h2.drain_step [OF some(1)] prepend_def)
    qed
  qed
qed

interpretation client: chunked_push "h2_push hp True" "client_ready hp" for hp
proof unfold_locales
  fix s :: "'a direction_state" and t a b es
  assume ready: "client_ready hp s" and p: "h2_push hp True s a = (t, Inr es)"
  let ?buf = "dr_buffer s @ a"
  have "h2_push hp True s (a @ b) = prepend es (h2_push hp True t b) \<and> client_ready hp t"
  proof (cases "dr_preface_complete s")
    case True
    have idle: "h2_next hp s = (s, Inr None)" using ready True by (simp add: client_ready_def)
    have q: "h2_push hp False s a = (t, Inr es)" using p True by (simp add: client_push_complete)
    have "dr_preface_complete t"
      using q drain_frames_flag [of hp "h2_feed s a"] True by (simp add: h2_push_def)
    then show ?thesis
      using h2.push_ok [OF idle q [unfolded push_server_eq]]
        h2.push_ready [OF idle q [unfolded push_server_eq]] True
      by (simp add: client_push_complete push_server_eq client_ready_def)
  next
    case False
    note cases = client_push_cases [OF False, of hp]
    have match: "take (min (length ?buf) 24) ?buf = take (min (length ?buf) 24) CLIENT_PREFACE"
      using p by (auto simp: cases Let_def split: if_splits)
    show ?thesis
    proof (cases "length ?buf < 24")
      case True
      then have pre: "take (length ?buf) CLIENT_PREFACE = ?buf" using match by (simp add: min_def)
      have idle: "h2_next hp (h2_feed s a) = (h2_feed s a, Inr None)"
        by (rule partial_preface_idle) (use True pre in simp_all)
      then have t: "t = h2_feed s a" "es = []"
        using p True match h2.drain_idle [OF idle]
        by (simp_all add: cases Let_def parse_complete_frames_def)
      have "h2_push hp True s (a @ b) = h2_push hp True (h2_feed s a) b"
        by (simp add: h2_push_def h2_feed_def)
      then show ?thesis using t True pre False by (simp add: client_ready_def)
    next
      case full: False
      let ?u = "s\<lparr>dr_buffer := drop 24 ?buf, dr_preface_complete := True\<rparr>"
      have d: "parse_complete_frames hp ?u = (t, Inr es)"
        using p match full by (simp add: cases Let_def)
      have flag: "dr_preface_complete t" using drain_frames_flag [of hp ?u] d by simp
      have m: "min (length ?buf) 24 = 24" using full by simp
      have pre: "take 24 ?buf = CLIENT_PREFACE" using match unfolding m by (simp del: take_append)
      have "h2_push hp True s (a @ b) = parse_complete_frames hp (h2_feed ?u b)"
        by (rule client_push_full [OF False refl _ pre]) (use full in simp)
      also have "\<dots> = prepend es (parse_complete_frames hp (h2_feed t b))"
        using h2.drain_feed [of hp ?u b] d by (simp add: parse_complete_frames_def)
      finally show ?thesis
        using flag h2.drain_ok_idle [OF d [unfolded parse_complete_frames_def]]
        by (simp add: h2_push_def consume_client_preface_def client_ready_def)
    qed
  qed
  then show "h2_push hp True s (a @ b) = prepend es (h2_push hp True t b)" "client_ready hp t"
    by simp_all
next
  fix s :: "'a direction_state" and t a b e
  assume ready: "client_ready hp s" and p: "h2_push hp True s a = (t, Inl e)"
  let ?buf = "dr_buffer s @ a"
  show "snd (h2_push hp True s (a @ b)) = Inl e"
  proof (cases "dr_preface_complete s")
    case True
    have idle: "h2_next hp s = (s, Inr None)" using ready True by (simp add: client_ready_def)
    have q: "h2_push hp False s a = (t, Inl e)" using p True by (simp add: client_push_complete)
    show ?thesis
      using h2.push_err [OF idle q [unfolded push_server_eq]] True
      by (simp add: client_push_complete push_server_eq)
  next
    case False
    note cases = client_push_cases [OF False, of hp]
    show ?thesis
    proof (cases "take (min (length ?buf) 24) ?buf = take (min (length ?buf) 24) CLIENT_PREFACE")
      case False
      with p have "e = InvalidPreface" by (simp add: cases Let_def)
      with preface_mismatch_append [OF False, of b] show ?thesis by (simp add: cases Let_def)
    next
      case match: True
      have full: "\<not> length ?buf < 24"
      proof
        assume lt: "length ?buf < 24"
        then have "take (length ?buf) CLIENT_PREFACE = ?buf" using match by (simp add: min_def)
        then have "h2_next hp (h2_feed s a) = (h2_feed s a, Inr None)"
          by (intro partial_preface_idle) (use lt in simp_all)
        from h2.drain_idle [OF this] p lt match show False
          by (simp add: cases Let_def parse_complete_frames_def)
      qed
      let ?u = "s\<lparr>dr_buffer := drop 24 ?buf, dr_preface_complete := True\<rparr>"
      have d: "parse_complete_frames hp ?u = (t, Inl e)"
        using p match full by (simp add: cases Let_def)
      have m: "min (length ?buf) 24 = 24" using full by simp
      have pre: "take 24 ?buf = CLIENT_PREFACE" using match unfolding m by (simp del: take_append)
      have "h2_push hp True s (a @ b) = parse_complete_frames hp (h2_feed ?u b)"
        by (rule client_push_full [OF False refl _ pre]) (use full in simp)
      then show ?thesis
        using h2.drain_feed [of hp ?u b] d by (simp add: parse_complete_frames_def)
    qed
  qed
next
  fix s :: "'a direction_state"
  assume ready: "client_ready hp s"
  show "h2_push hp True s [] = (s, Inr [])"
  proof (cases "dr_preface_complete s")
    case True
    with ready h2.push_nil [of hp s] show ?thesis
      by (simp add: client_push_complete push_server_eq client_ready_def)
  next
    case False
    with ready have lt: "length (dr_buffer s) < 24"
      "take (length (dr_buffer s)) CLIENT_PREFACE = dr_buffer s"
      by (simp_all add: client_ready_def)
    then show ?thesis
      using h2.drain_idle [OF partial_preface_idle [OF lt]] client_push_cases [OF False, of hp "[]"]
      by (simp add: parse_complete_frames_def h2.feed_nil min_def)
  qed
qed

section \<open>Fragmented header blocks\<close>

text \<open>A frame on the wire, and a header block cut into a HEADERS and CONTINUATION frames.\<close>

definition h2_wire :: "u8 \<Rightarrow> u8 \<Rightarrow> u32 \<Rightarrow> byte list \<Rightarrow> byte list" where
  "h2_wire ty flags sid payload =
     nat_be 3 (length payload) @ [ty, flags] @ nat_be 4 (unat sid) @ payload"

fun continuations :: "u32 \<Rightarrow> byte list list \<Rightarrow> byte list" where
  "continuations sid [] = []"
| "continuations sid (f # fs) =
     h2_wire 9 (if fs = [] then 4 else 0) sid f @ continuations sid fs"

definition end_stream_flag :: "bool \<Rightarrow> u8" where
  "end_stream_flag e = (if e then 1 else 0)"

lemma stream_id_read:
  assumes "sid < 0x80000000"
  shows "u32_be (nat_be 4 (unat sid)) AND 0x7FFFFFFF = sid"
proof -
  have "unat sid < 2 ^ 31" using assms by (simp add: word_less_nat_alt)
  then have "take_bit 31 sid = sid" 
    by (simp add: word_unat_eq_iff unsigned_take_bit_eq take_bit_nat_eq_self)
  moreover have "be_nat (nat_be 4 (unat sid)) = unat sid"
    using \<open>unat sid < 2 ^ 31\<close> by (intro be_nat_nat_be) simp
  ultimately show ?thesis
    by (simp add: u32_be_def take_bit_eq_mask mask_eq_exp_minus_1)
qed

lemma next_wire:
  assumes "length payload < 2 ^ 24" and "sid < 0x80000000"
    and "dr_buffer s = h2_wire ty flags sid payload @ rest"
  shows "h2_next hp s =
    (case h2_frame hp (s\<lparr>dr_buffer := rest\<rparr>) ty flags sid payload of (u, r) \<Rightarrow> (u, mapr Some r))"
proof -
  let ?b3 = "nat_be 3 (length payload)" and ?b4 = "nat_be 4 (unat sid)"
  have buf: "dr_buffer s = ?b3 @ ty # flags # ?b4 @ payload @ rest"
    using assms(3) by (simp add: h2_wire_def)
  have l3: "length ?b3 = 3" and l4: "length ?b4 = 4" by simp_all
  have n: "be_nat (take 3 (dr_buffer s)) = length payload"
    unfolding buf using assms(1) by (simp add: be_nat_nat_be)
  have parts: "dr_buffer s ! 3 = ty" "dr_buffer s ! 4 = flags" "take 4 (drop 5 (dr_buffer s)) = ?b4"
    "take (length payload) (drop 9 (dr_buffer s)) = payload"
    "\<not> length (dr_buffer s) < 9 + length payload"
    unfolding buf by (simp_all add: nth_append del: nat_be.simps)
  have "drop 9 (dr_buffer s) = payload @ rest"
    unfolding buf by (simp del: nat_be.simps)
  then have "drop (9 + length payload) (dr_buffer s) = rest"
    by (metis add.commute append_eq_conv_conj drop_drop)
  note parts = parts this
  moreover have "\<not> length (dr_buffer s) < 9" using parts(5) by linarith
  ultimately show ?thesis
    unfolding h2_next_def Let_def n by (simp add: stream_id_read [OF assms(2)])
qed

definition frames_from ::
  "'h hpack_decode \<Rightarrow> 'h direction_state \<Rightarrow> byte list \<Rightarrow> 'h direction_state \<times> (h2_decode_error + h2_event list)"
  where "frames_from hp s bs = parse_complete_frames hp (s\<lparr>dr_buffer := bs\<rparr>)"

lemma frames_from_step:
  assumes "length payload < 2 ^ 24" and "sid < 0x80000000"
    and "h2_frame hp (s\<lparr>dr_buffer := rest\<rparr>) ty flags sid payload = (t\<lparr>dr_buffer := rest\<rparr>, r)"
  shows "frames_from hp s (h2_wire ty flags sid payload @ rest) =
    (case r of Inl e \<Rightarrow> (t\<lparr>dr_buffer := rest\<rparr>, Inl e) | Inr es \<Rightarrow> prepend es (frames_from hp t rest))"
proof -
  have n: "h2_next hp (s\<lparr>dr_buffer := h2_wire ty flags sid payload @ rest\<rparr>) =
      (t\<lparr>dr_buffer := rest\<rparr>, mapr Some r)"
  proof -
    let ?s = "s\<lparr>dr_buffer := h2_wire ty flags sid payload @ rest\<rparr>"
    have "?s\<lparr>dr_buffer := rest\<rparr> = s\<lparr>dr_buffer := rest\<rparr>" by simp
    with next_wire [OF assms(1,2), of ?s ty flags rest hp] assms(3) show ?thesis by simp
  qed
  show ?thesis
  proof (cases r)
    case (Inl e)
    with n h2.drain_err show ?thesis by (simp add: frames_from_def parse_complete_frames_def)
  next
    case (Inr es)
    with n have "h2_next hp (s\<lparr>dr_buffer := h2_wire ty flags sid payload @ rest\<rparr>) =
      (t\<lparr>dr_buffer := rest\<rparr>, Inr (Some es))" by simp
    from h2.drain_step [OF this] Inr show ?thesis
      by (simp add: frames_from_def parse_complete_frames_def)
  qed
qed

lemma frames_from_nil: "frames_from hp s [] = (s\<lparr>dr_buffer := []\<rparr>, Inr [])"
proof -
  have "h2_next hp (s\<lparr>dr_buffer := []\<rparr>) = (s\<lparr>dr_buffer := []\<rparr>, Inr None)"
    by (simp add: h2_next_def)
  from h2.drain_idle [OF this] show ?thesis
    by (simp add: frames_from_def parse_complete_frames_def)
qed

lemma flag_values [simp]:
  "flag_set 0 f = False" "flag_set 1 8 = False" "flag_set 1 0x20 = False" "flag_set 1 4 = False"
  "flag_set 1 1 = True" "flag_set 4 4 = True" "flag_set 4 8 = False" "flag_set 4 0x20 = False"
  "flag_set 4 1 = False" "flag_set 5 1 = True" "flag_set 5 4 = True" "flag_set 5 8 = False"
  "flag_set 5 0x20 = False"
  by (simp_all add: flag_set_def)

lemma emit_headers_buffer:
  "emit_headers hp (s\<lparr>dr_buffer := b\<rparr>) sid block e p =
     (case emit_headers hp s sid block e p of (t, r) \<Rightarrow> (t\<lparr>dr_buffer := b\<rparr>, r))"
  by (auto simp: emit_headers_def split: prod.splits)

lemma continuation_run:
  assumes "fs \<noteq> []" and "sid < 0x80000000" and "list_all (\<lambda>f. length f < 2 ^ 24) fs"
    and "dr_pending_headers s = Some \<lparr>ph_stream_id = sid, ph_end_stream = e, ph_priority = None,
      ph_block = block\<rparr>"
  shows "frames_from hp s (continuations sid fs) =
    (case emit_headers hp (s\<lparr>dr_pending_headers := None, dr_buffer := []\<rparr>) sid (block @ concat fs) e None
      of (t, r) \<Rightarrow> (t, r))"
  using assms
proof (induction fs arbitrary: s block rule: continuations.induct)
  case (2 sid f fs)
  show ?case
  proof (cases "fs = []")
    case True
    obtain t r where em: "emit_headers hp (s\<lparr>dr_pending_headers := None\<rparr>) sid (block @ f) e None = (t, r)"
      by fastforce
    have "h2_frame hp (s\<lparr>dr_buffer := []\<rparr>) 9 4 sid f = (t\<lparr>dr_buffer := []\<rparr>, r)"
      using "2.prems"(4) em emit_headers_buffer [of hp "[]" "s\<lparr>dr_pending_headers := None\<rparr>"]
      by (cases s) (simp add: h2_frame_def parse_continuation_frame_def Let_def)
    from frames_from_step [OF _ _ this] "2.prems"(2,3) True em
      emit_headers_buffer [of hp "[]" "s\<lparr>dr_pending_headers := None\<rparr>"]
    show ?thesis by (cases s) (auto simp: frames_from_nil split: sum.splits)
  next
    case False
    let ?t = "s\<lparr>dr_pending_headers := Some \<lparr>ph_stream_id = sid, ph_end_stream = e,
      ph_priority = None, ph_block = block @ f\<rparr>\<rparr>"
    have "h2_frame hp (s\<lparr>dr_buffer := continuations sid fs\<rparr>) 9 0 sid f =
        (?t\<lparr>dr_buffer := continuations sid fs\<rparr>, Inr [])"
      using "2.prems"(4) by (cases s) (simp add: h2_frame_def parse_continuation_frame_def Let_def)
    from frames_from_step [OF _ _ this] "2.prems" False "2.IH" [OF False, of ?t "block @ f"]
    show ?thesis by (cases s) simp
  qed
qed simp

lemma fragmented_headers:
  assumes "fs \<noteq> []" and "sid \<noteq> 0" and "sid < 0x80000000"
    and "length (f @ concat fs) < 2 ^ 24" and "dr_pending_headers s = None"
  shows "frames_from hp s (h2_wire 1 (end_stream_flag e) sid f @ continuations sid fs) =
    frames_from hp s (h2_wire 1 (end_stream_flag e + 4) sid (f @ concat fs))"
proof -
  let ?t = "s\<lparr>dr_pending_headers := Some \<lparr>ph_stream_id = sid, ph_end_stream = e,
      ph_priority = None, ph_block = f\<rparr>\<rparr>"
  have small: "list_all (\<lambda>g. length g < 2 ^ 24) fs"
  proof -
    have "length g \<le> length (concat fs)" if "g \<in> set fs" for g
      using that by (auto simp: in_set_conv_decomp)
    with assms(4) show ?thesis by (fastforce simp: list_all_iff)
  qed
  have "h2_frame hp (s\<lparr>dr_buffer := continuations sid fs\<rparr>) 1 (end_stream_flag e) sid f =
      (?t\<lparr>dr_buffer := continuations sid fs\<rparr>, Inr [])"
    using assms(2) by (cases s; cases e) (simp_all add: h2_frame_def parse_headers_frame_def
        headers_fragment_def end_stream_flag_def)
  from frames_from_step [OF _ assms(3) this] assms(4)
  have left: "frames_from hp s (h2_wire 1 (end_stream_flag e) sid f @ continuations sid fs) =
      emit_headers hp (s\<lparr>dr_pending_headers := None, dr_buffer := []\<rparr>) sid (f @ concat fs) e None"
    using continuation_run [OF assms(1,3) small, of ?t e f hp] by (cases s) simp
  obtain t r where em: "emit_headers hp s sid (f @ concat fs) e None = (t, r)" by fastforce
  have "h2_frame hp (s\<lparr>dr_buffer := []\<rparr>) 1 (end_stream_flag e + 4) sid (f @ concat fs) =
      (t\<lparr>dr_buffer := []\<rparr>, r)"
    using assms(2) em emit_headers_buffer [of hp "[]" s]
    by (cases e) (simp_all add: h2_frame_def parse_headers_frame_def headers_fragment_def
        end_stream_flag_def)
  from frames_from_step [OF assms(4,3) this]
  have "frames_from hp s (h2_wire 1 (end_stream_flag e + 4) sid (f @ concat fs)) =
      (t\<lparr>dr_buffer := []\<rparr>, r)"
    by (auto simp: frames_from_nil split: sum.splits)
  moreover have "s\<lparr>dr_pending_headers := None, dr_buffer := []\<rparr> = s\<lparr>dr_buffer := []\<rparr>"
    using assms(5) by (cases s) simp
  ultimately show ?thesis
    using left em emit_headers_buffer [of hp "[]" s] by simp
qed

section \<open>Properties\<close>

text \<open>
  C33. How the network cuts an HTTP/2 direction into chunks does not matter, on the server side and on
  the client side, where the connection preface may itself be cut anywhere: any two ways of
  splitting the same bytes give the same events, or the same error, for every HPACK decoder.
\<close>

theorem h2_chunking_irrelevant:
  assumes "concat cs = concat ds"
  shows "snd (push_chunks (h2_push hp side) (direction_new h) cs) =
    snd (push_chunks (h2_push hp side) (direction_new h) ds)"
proof (cases side)
  case True
  have "client_ready hp (direction_new h)" by (simp add: client_ready_def direction_new_def)
  from client.chunking_irrelevant [OF this assms] True show ?thesis by simp
next
  case False
  from h2.chunking_irrelevant [OF direction_new_idle assms] False show ?thesis
    by (simp add: push_server_eq)
qed

definition sample_hpack :: "nat hpack_decode" where
  "sample_hpack h block = (h + 1, if block = [] then Inl ''empty'' else Inr [(block, [])])"

theorem h2_chunking_irrelevant_witness:
  "snd (push_chunks (h2_push sample_hpack True) (direction_new 0)
      [take 5 CLIENT_PREFACE, drop 5 CLIENT_PREFACE @ [0, 0], [1, 0, 0, 0, 0, 0, 5, 7]]) =
   snd (push_chunks (h2_push sample_hpack True) (direction_new 0)
      [CLIENT_PREFACE @ [0, 0, 1, 0, 0, 0, 0, 0, 5, 7]])"
proof (rule h2_chunking_irrelevant)
  have "take 5 CLIENT_PREFACE @ drop 5 CLIENT_PREFACE = CLIENT_PREFACE" by (rule append_take_drop_id)
  then show "concat [take 5 CLIENT_PREFACE, drop 5 CLIENT_PREFACE @ [0, 0], [1, 0, 0, 0, 0, 0, 5, 7]] =
      concat [CLIENT_PREFACE @ [0, 0, 1, 0, 0, 0, 0, 0, 5, 7]]"
    by (simp del: append_take_drop_id)
qed

text \<open>
  A header block means the same however it is cut: a HEADERS frame followed by any number of
  CONTINUATION frames gives the state and the result of one HEADERS frame with the whole block.
\<close>

theorem h2_fragmented_headers:
  assumes "fs \<noteq> []" and "sid \<noteq> 0" and "sid < 0x80000000"
    and "length (f @ concat fs) < 2 ^ 24" and "dr_pending_headers s = None" and "dr_buffer s = []"
  shows "h2_push hp False s (h2_wire 1 (end_stream_flag e) sid f @ continuations sid fs) =
    h2_push hp False s (h2_wire 1 (end_stream_flag e + 4) sid (f @ concat fs))"
  using fragmented_headers [OF assms(1-5), of hp e] assms(6)
  by (simp add: h2_push_def h2_feed_def frames_from_def)

theorem h2_fragmented_headers_witness:
  "h2_push sample_hpack False (direction_new 0)
     (h2_wire 1 (end_stream_flag True) 5 [65] @ continuations 5 [[66], [], [67]]) =
   h2_push sample_hpack False (direction_new 0)
     (h2_wire 1 (end_stream_flag True + 4) 5 [65, 66, 67])"
  using h2_fragmented_headers [of "[[66], [], [67]]" 5 "[65]" "direction_new 0" sample_hpack True]
  by (simp add: direction_new_def)

end
