(* ===== verification/Client_Model.thy ===== *)
theory Client_Model
  imports Protocol_Types
begin

text \<open>
  The client's own records, \<open>crates/client/src/model.rs\<close>: what the capture lane projects and the
  store persists before it is mapped to the wire contract. An \<open>OffsetDateTime\<close> is the number of
  nanoseconds since the epoch; \<open>ts\<close> and \<open>from_ms\<close> are the client's conversions to and from the
  milliseconds of the wire.
\<close>

type_synonym datetime = int

definition ts :: "datetime \<Rightarrow> i64" where
  "ts v = (v div 1000000000) * 1000"

definition from_ms :: "i64 \<Rightarrow> datetime" where
  "from_ms v = v * 1000000"

record task_key =
  tk_client_id :: string
  tk_provider :: string
  tk_session_id :: string
  tk_thread_id :: string
  tk_turn_id :: string

definition key_task_ref :: "task_key \<Rightarrow> string" where
  "key_task_ref k = tk_session_id k @ '':'' @ tk_thread_id k @ '':'' @ tk_turn_id k"

record session_summary =
  ss_task :: task_key
  ss_parent_turn_id :: "string option"
  ss_root_turn_id :: "string option"
  ss_first_seen_at :: datetime

datatype client_phase = Running | AwaitingTool | Retrying | Terminal

datatype task_outcome = Completed | Failed | Aborted | Terminated | Lost

datatype completeness = Complete | Degraded | Unknown

datatype client_attempt_status =
  Running | Completed | Failed | Incomplete | Cancelled | TransportLost

datatype transition_cause =
    CaptureStarted | AttemptStarted | AttemptCompleted | ResponseEndTurn | ToolCallObserved
  | RetryScheduled | CodexTurnComplete | CodexTurnAborted | ProcessExited | CaptureLost
  | ClientRecovered

record provider_error =
  pe_wire_type :: string
  pe_code :: "string option"
  pe_message :: string
  pe_param :: "string option"

record http_error =
  he_status :: u16
  he_provider_error :: "provider_error option"

record codex_terminal_error =
  ct_code :: "string option"
  ct_message :: string

record process_termination =
  pt_exit_code :: "i32 option"
  pt_signal :: "i32 option"

record capture_loss =
  cl_reason :: string
  cl_lost_bytes :: "u64 option"

record unsupported_codex_build =
  ub_executable_sha256 :: string
  ub_architecture :: string
  ub_codex_version :: "string option"

text \<open>\<open>IncompleteResponse\<close> and \<open>TurnAbort\<close> are structs of one reason each.\<close>

datatype structured_error =
    Provider provider_error | Http http_error | Incomplete string
  | CodexTerminal codex_terminal_error | TurnAborted string
  | ProcessTerminated process_termination | CaptureLost capture_loss
  | UnsupportedCodexBuild unsupported_codex_build

record token_usage =
  tu_input_tokens :: "u64 option"
  tu_output_tokens :: "u64 option"
  tu_cached_input_tokens :: "u64 option"
  tu_reasoning_tokens :: "u64 option"
  tu_total_tokens :: "u64 option"

definition token_usage_default :: token_usage where
  "token_usage_default = \<lparr>tu_input_tokens = None, tu_output_tokens = None,
     tu_cached_input_tokens = None, tu_reasoning_tokens = None, tu_total_tokens = None\<rparr>"

record task_transition =
  tt_event_id :: uuid
  tt_task :: task_key
  tt_sequence :: u64
  tt_observed_at :: datetime
  tt_phase :: client_phase
  tt_outcome :: "task_outcome option"
  tt_cause :: transition_cause
  tt_completeness :: completeness
  tt_error :: "structured_error option"

record task_summary =
  ts_task :: task_key
  ts_conversation_title :: "string option"
  ts_phase :: client_phase
  ts_outcome :: "task_outcome option"
  ts_sequence :: u64
  ts_last_event_id :: uuid
  ts_started_at :: datetime
  ts_updated_at :: datetime
  ts_terminal_at :: "datetime option"
  ts_attempt_count :: u32
  ts_model :: "string option"
  ts_tool_names :: "string list"
  ts_response_ids :: "string list"
  ts_usage :: token_usage
  ts_completeness :: completeness
  ts_last_error :: "structured_error option"

record attempt_summary =
  as_attempt_id :: uuid
  as_task :: task_key
  as_ordinal :: u32
  as_status :: client_attempt_status
  as_started_at :: datetime
  as_finished_at :: "datetime option"
  as_response_id :: "string option"
  as_model :: "string option"
  as_tool_names :: "string list"
  as_usage :: token_usage
  as_completeness :: completeness
  as_error :: "structured_error option"

record http_exchange_summary =
  hx_exchange_id :: uuid
  hx_task :: task_key
  hx_attempt_id :: uuid
  hx_observed_at :: datetime
  hx_method :: string
  hx_path :: string
  hx_status :: "u16 option"
  hx_request_bytes :: nat
  hx_response_bytes :: nat
  hx_request_sha256 :: "string option"
  hx_response_sha256 :: "string option"
  hx_completeness :: completeness

record capture_gap_summary =
  gs_gap_id :: uuid
  gs_client_instance_id :: uuid
  gs_task :: "task_key option"
  gs_observed_at :: datetime
  gs_reason :: string
  gs_lost_bytes :: "u64 option"
  gs_flow_id :: "uuid option"

record process_summary =
  ps_process_instance_id :: uuid
  ps_client_instance_id :: uuid
  ps_pid :: u32
  ps_executable_sha256 :: string
  ps_codex_version :: "string option"
  ps_started_at :: datetime
  ps_exited_at :: "datetime option"
  ps_exit_code :: "i32 option"
  ps_signal :: "i32 option"

record capture_health =
  ch_af_packet_active :: bool
  ch_uprobe_active :: bool
  ch_profile_supported :: bool
  ch_ring_buffer_drops :: u64
  ch_active_flows :: u32
  ch_outbox_bytes :: u64
  ch_last_error :: "structured_error option"

record heartbeat_summary =
  hs_client_instance_id :: uuid
  hs_observed_at :: datetime
  hs_client_version :: string
  hs_health :: capture_health

datatype summary_record =
    Session session_summary | Task task_summary | TaskTransition task_transition
  | Attempt attempt_summary | HttpExchange http_exchange_summary
  | CaptureGap capture_gap_summary | Process process_summary | Heartbeat heartbeat_summary

lemma ts_mono: "a \<le> b \<Longrightarrow> ts a \<le> ts b"
  by (simp add: ts_def zdiv_mono1)

end
