(* ===== verification/Capture_Json.thy ===== *)
theory Capture_Json
  imports Collections Rust_Text
begin

text \<open>
  The value type of serde_json and the accessors the sources call on it. The parser and the printer
  of that package are the fields of \<open>json_lib\<close>.
\<close>

datatype json_number = PosInt u64 | NegInt int | Float string

datatype json =
    JNull | JBool bool | JNumber json_number | JString string | JArray "json list"
  | JObject "(string \<times> json) list"

record json_lib =
  jl_from_str :: "string \<Rightarrow> string + json"
  jl_from_slice :: "byte list \<Rightarrow> string + json"
  jl_to_string :: "json \<Rightarrow> string"

fun json_get :: "json \<Rightarrow> string \<Rightarrow> json option" where
  "json_get (JObject kvs) k = map_get kvs k"
| "json_get _ k = None"

fun as_str :: "json \<Rightarrow> string option" where
  "as_str (JString s) = Some s"
| "as_str _ = None"

fun as_bool :: "json \<Rightarrow> bool option" where
  "as_bool (JBool b) = Some b"
| "as_bool _ = None"

fun as_u64 :: "json \<Rightarrow> u64 option" where
  "as_u64 (JNumber (PosInt n)) = Some n"
| "as_u64 _ = None"

text \<open>\<open>value.get(k).and_then(Value::as_str)\<close> and its like.\<close>

definition get_str :: "json \<Rightarrow> string \<Rightarrow> string option" where
  "get_str j k = Option.bind (json_get j k) as_str"

definition opt_get :: "json option \<Rightarrow> string \<Rightarrow> json option" where
  "opt_get j k = Option.bind j (\<lambda>v. json_get v k)"

definition opt_get_str :: "json option \<Rightarrow> string \<Rightarrow> string option" where
  "opt_get_str j k = Option.bind (opt_get j k) as_str"

end
