(* ===== verification/Capture_Http1.thy ===== *)
theory Capture_Http1
  imports Capture_Stream Rust_Text
begin

text \<open>
  The HTTP/1 message parser of \<open>crates/capture/src/http1.rs\<close>. The head is parsed by httparse and by
  the types of the http crate, the content codings by flate2, brotli and zstd: they are the
  fields of \<open>http_lib\<close>. The body framing (chunked coding, content length) is the module's own
  code and is modelled in full. A \<open>HeaderMap\<close> is the list of its entries in insertion order.
\<close>

section \<open>Data\<close>

datatype http_version = HTTP_10 | HTTP_11

type_synonym header_map = "(string \<times> byte list) list"

record http_body =
  bd_raw :: "byte list"
  bd_decoded :: "byte list"
  bd_complete :: bool

record http_message =
  ms_version :: http_version
  ms_method :: "string option"
  ms_uri :: "string option"
  ms_status :: "u16 option"
  ms_headers :: header_map
  ms_body :: http_body

datatype http_parse_error =
    IncompleteHead | InvalidVersion | InvalidMethod string | InvalidUri string | InvalidStatus u16
  | InvalidHeaderName string | InvalidHeaderValue string | InvalidContentLength string
  | InvalidChunkedBody | BodyDecode string

text \<open>What httparse reports of a complete head.\<close>

record parsed_head =
  hd_length :: nat
  hd_version :: "u8 option"
  hd_method :: "string option"
  hd_path :: "string option"
  hd_code :: "u16 option"
  hd_headers :: "(string \<times> byte list) list"

record http_lib =
  hl_parse_request :: "byte list \<Rightarrow> parsed_head option"
  hl_parse_response :: "byte list \<Rightarrow> parsed_head option"
  hl_method :: "string \<Rightarrow> string option"
  hl_uri :: "string \<Rightarrow> string option"
  hl_status :: "u16 \<Rightarrow> u16 option"
  hl_header_name :: "string \<Rightarrow> string option"
  hl_header_value :: "byte list \<Rightarrow> byte list option"
  hl_to_str :: "byte list \<Rightarrow> string option"
  hl_gzip :: "byte list \<Rightarrow> string + byte list"
  hl_brotli :: "byte list \<Rightarrow> string + byte list"
  hl_zstd :: "byte list \<Rightarrow> string + byte list"

section \<open>Body framing\<close>

definition find_crlf :: "byte list \<Rightarrow> nat \<Rightarrow> nat option" where
  "find_crlf bs start = map_option ((+) start) (find_sub [13, 10] (drop start bs))"

lemma find_crlf_progress: "find_crlf bs c = Some i \<Longrightarrow> c \<le> i \<and> i + 2 \<le> length bs"
  by (cases "c \<le> length bs") (auto simp: find_crlf_def dest!: find_sub_Some)

function trailer_loop :: "byte list \<Rightarrow> nat \<Rightarrow> bool" where
  "trailer_loop bs cursor =
     (case find_crlf bs cursor of
        None \<Rightarrow> False
      | Some i \<Rightarrow> if i = cursor then True else trailer_loop bs (i + 2))"
  by pat_completeness auto
termination
  by (relation "measure (\<lambda>(bs, c). length bs - c)") (auto dest!: find_crlf_progress)

declare trailer_loop.simps [simp del]

definition chunk_size_of :: "byte list \<Rightarrow> nat option" where
  "chunk_size_of line =
     (case from_utf8 line of
        None \<Rightarrow> None
      | Some s \<Rightarrow> parse_usize_hex (trim (hd (split_on CHR '';'' s))))"

function chunked_loop ::
  "byte list \<Rightarrow> nat \<Rightarrow> byte list \<Rightarrow> http_parse_error + byte list \<times> bool" where
  "chunked_loop bs cursor decoded =
     (case find_crlf bs cursor of
        None \<Rightarrow> Inr (decoded, False)
      | Some line_end \<Rightarrow>
          (case chunk_size_of (take (line_end - cursor) (drop cursor bs)) of
             None \<Rightarrow> Inl InvalidChunkedBody
           | Some chunk_size \<Rightarrow>
               let c = line_end + 2; stop = c + chunk_size in
               if chunk_size = 0 then Inr (decoded, trailer_loop bs c)
               else if stop \<ge> 2 ^ 64 then Inl InvalidChunkedBody
               else case slice bs c stop of
                 None \<Rightarrow> Inr (decoded, False)
               | Some chunk \<Rightarrow>
                   (case slice bs stop (stop + 2) of
                      None \<Rightarrow> Inr (decoded @ chunk, False)
                    | Some crlf \<Rightarrow>
                        if crlf \<noteq> [13, 10] then Inl InvalidChunkedBody
                        else chunked_loop bs (stop + 2) (decoded @ chunk))))"
  by pat_completeness auto
termination
  by (relation "measure (\<lambda>(bs, c, _). length bs - c)")
    (auto dest!: find_crlf_progress simp: slice_Some)

declare chunked_loop.simps [simp del]

definition decode_chunked :: "byte list \<Rightarrow> http_parse_error + byte list \<times> bool" where
  "decode_chunked bs = chunked_loop bs 0 []"

definition header_get :: "header_map \<Rightarrow> string \<Rightarrow> byte list option" where
  "header_get h name = map_of h name"

definition header_str :: "http_lib \<Rightarrow> header_map \<Rightarrow> string \<Rightarrow> string option" where
  "header_str L h name = Option.bind (header_get h name) (hl_to_str L)"

definition is_chunked :: "http_lib \<Rightarrow> header_map \<Rightarrow> bool" where
  "is_chunked L h =
     is_some_and (header_str L h ''transfer-encoding'')
       (\<lambda>v. list_ex (\<lambda>part. eq_ignore_ascii_case (trim part) ''chunked'') (split_on CHR '','' v))"

definition decode_content_encoding :: "http_lib \<Rightarrow> header_map \<Rightarrow> byte list \<Rightarrow> http_parse_error + byte list"
  where
  "decode_content_encoding L h raw =
     (let encoding = to_ascii_lowercase
            (unwrap_or (map_option trim (header_str L h ''content-encoding'')) []) in
      if encoding = [] then Inr raw
      else if encoding = ''gzip'' then map_err BodyDecode (hl_gzip L raw)
      else if encoding = ''br'' then map_err BodyDecode (hl_brotli L raw)
      else if encoding = ''zstd'' then map_err BodyDecode (hl_zstd L raw)
      else Inr raw)"

definition frame_body :: "http_lib \<Rightarrow> header_map \<Rightarrow> byte list \<Rightarrow> http_parse_error + byte list \<times> bool"
  where
  "frame_body L h body =
     (if is_chunked L h then decode_chunked body
      else case header_get h ''content-length'' of
        Some v \<Rightarrow>
          bindr (ok_or (hl_to_str L v) (InvalidContentLength ''<non-utf8>'')) (\<lambda>s.
          bindr (ok_or (parse_usize s) (InvalidContentLength s)) (\<lambda>expected.
            Inr (take (min (length body) expected) body, expected \<le> length body)))
      | None \<Rightarrow> Inr (body, True))"

definition decode_body :: "http_lib \<Rightarrow> header_map \<Rightarrow> byte list \<Rightarrow> http_parse_error + http_body" where
  "decode_body L h body =
     bindr (frame_body L h body) (\<lambda>(raw, complete).
       mapr (\<lambda>decoded. \<lparr>bd_raw = raw, bd_decoded = decoded, bd_complete = complete\<rparr>)
         (decode_content_encoding L h raw))"

section \<open>Messages\<close>

definition parse_version :: "u8 option \<Rightarrow> http_parse_error + http_version" where
  "parse_version v =
     (if v = Some 1 then Inr HTTP_11 else if v = Some 0 then Inr HTTP_10 else Inl InvalidVersion)"

definition to_header_map ::
  "http_lib \<Rightarrow> (string \<times> byte list) list \<Rightarrow> http_parse_error + header_map" where
  "to_header_map L hs =
     map_m (\<lambda>(n, v).
       bindr (ok_or (hl_header_name L n) (InvalidHeaderName n)) (\<lambda>name.
         mapr (\<lambda>value. (name, value)) (ok_or (hl_header_value L v) (InvalidHeaderValue n)))) hs"

definition parse_http_request :: "http_lib \<Rightarrow> byte list \<Rightarrow> http_parse_error + http_message" where
  "parse_http_request L bs =
     bindr (ok_or (hl_parse_request L bs) IncompleteHead) (\<lambda>p.
     bindr (parse_version (hd_version p)) (\<lambda>version.
     bindr (ok_or (hd_method p) IncompleteHead) (\<lambda>m.
     bindr (ok_or (hl_method L m) (InvalidMethod m)) (\<lambda>method.
     bindr (ok_or (hd_path p) IncompleteHead) (\<lambda>path.
     bindr (ok_or (hl_uri L path) (InvalidUri path)) (\<lambda>uri.
     bindr (to_header_map L (hd_headers p)) (\<lambda>headers.
     mapr (\<lambda>body. \<lparr>ms_version = version, ms_method = Some method, ms_uri = Some uri,
                   ms_status = None, ms_headers = headers, ms_body = body\<rparr>)
       (decode_body L headers (drop (hd_length p) bs)))))))))"

definition parse_http_response :: "http_lib \<Rightarrow> byte list \<Rightarrow> http_parse_error + http_message" where
  "parse_http_response L bs =
     bindr (ok_or (hl_parse_response L bs) IncompleteHead) (\<lambda>p.
     bindr (parse_version (hd_version p)) (\<lambda>version.
     bindr (ok_or (hd_code p) IncompleteHead) (\<lambda>code.
     bindr (ok_or (hl_status L code) (InvalidStatus code)) (\<lambda>status.
     bindr (to_header_map L (hd_headers p)) (\<lambda>headers.
     mapr (\<lambda>body. \<lparr>ms_version = version, ms_method = None, ms_uri = None,
                   ms_status = Some status, ms_headers = headers, ms_body = body\<rparr>)
       (decode_body L headers (drop (hd_length p) bs)))))))"

definition headers_to_map :: "http_lib \<Rightarrow> header_map \<Rightarrow> (string \<times> string) list" where
  "headers_to_map L h =
     fold (\<lambda>(n, v) m. case hl_to_str L v of None \<Rightarrow> m | Some s \<Rightarrow> map_put m n s) h []"

section \<open>The chunked coding\<close>

text \<open>The coding of RFC 9112: hexadecimal sizes, an extension after each size, trailers at the end.\<close>

definition size_line :: "nat \<Rightarrow> string \<Rightarrow> byte list" where
  "size_line n ext = str_bytes (show_hex n @ (if ext = [] then [] else CHR '';'' # ext)) @ [13, 10]"

definition encode_chunk :: "string \<times> byte list \<Rightarrow> byte list" where
  "encode_chunk c = size_line (length (snd c)) (fst c) @ snd c @ [13, 10]"

definition encode_trailers :: "byte list list \<Rightarrow> byte list" where
  "encode_trailers ts = concat (map (\<lambda>t. t @ [13, 10]) ts) @ [13, 10]"

definition encode_chunked :: "(string \<times> byte list) list \<Rightarrow> byte list list \<Rightarrow> byte list" where
  "encode_chunked cs ts = concat (map encode_chunk cs) @ size_line 0 [] @ encode_trailers ts"

definition printable :: "string \<Rightarrow> bool" where
  "printable s = list_all (\<lambda>c. 32 \<le> code c \<and> code c \<le> 126) s"

definition chunk_ok :: "string \<times> byte list \<Rightarrow> bool" where
  "chunk_ok c \<longleftrightarrow> printable (fst c) \<and> snd c \<noteq> []"

definition trailer_ok :: "byte list \<Rightarrow> bool" where
  "trailer_ok t \<longleftrightarrow> t \<noteq> [] \<and> 13 \<notin> set t"

lemma hex_char_facts:
  assumes "d < 16"
  shows "digit_val 16 (hex_char d) = Some d" and "is_graphic (hex_char d)" and "hex_char d \<noteq> CHR '';''"
    and "hex_char d \<noteq> CHR ''+''"
proof -
  have "code (hex_char d) = (if d < 10 then 48 + d else 87 + d)"
    using assms by (simp add: hex_char_def)
  then show "digit_val 16 (hex_char d) = Some d" "is_graphic (hex_char d)"
    using assms by (auto simp: digit_val_def is_graphic_def)
  show "hex_char d \<noteq> CHR '';''" "hex_char d \<noteq> CHR ''+''"
    using \<open>code (hex_char d) = _\<close> assms by (auto simp: code_def split: if_splits)
qed

lemma show_hex_chars: "c \<in> set (show_hex n) \<Longrightarrow> \<exists>d < 16. c = hex_char d"
proof (induction n rule: show_hex.induct)
  case (1 n)
  then show ?case
    by (cases "n < 16") (auto simp: show_hex.simps [of n] intro: exI [of _ "n mod 16"])
qed

lemma show_hex_nonempty: "show_hex n \<noteq> []"
  by (simp add: show_hex.simps [of n])

lemma digits_val_show_hex: "n < b \<Longrightarrow> digits_val 16 b 0 (show_hex n) = Some n"
proof (induction n rule: show_hex.induct)
  case (1 n)
  show ?case
  proof (cases "n < 16")
    case True
    with "1.prems" show ?thesis by (simp add: show_hex.simps [of n] hex_char_facts)
  next
    case False
    with "1.prems" have "digits_val 16 b 0 (show_hex (n div 16)) = Some (n div 16)"
      by (intro "1.IH") auto
    with False "1.prems" show ?thesis
      by (simp add: show_hex.simps [of n] digits_val_append hex_char_facts)
  qed
qed

lemma show_hex_plain: "plain (show_hex n)"
proof -
  have g: "is_graphic c" if "c \<in> set (show_hex n)" for c
    using show_hex_chars [OF that] hex_char_facts(2) by blast
  then have "list_all (\<lambda>c. 32 \<le> code c \<and> code c \<le> 126) (show_hex n)"
    by (fastforce simp: list_all_iff is_graphic_def)
  with g show ?thesis using show_hex_nonempty [of n] by (simp add: plain_def)
qed

lemma parse_show_hex: "n < 2 ^ 64 \<Longrightarrow> parse_usize_hex (show_hex n) = Some n"
proof -
  assume n: "n < 2 ^ 64"
  obtain c cs where s: "show_hex n = c # cs"
    using show_hex_nonempty [of n] by (cases "show_hex n") auto
  then obtain d where "d < 16" "c = hex_char d" using show_hex_chars [of c n] by auto
  then have "c \<noteq> CHR ''+''" by (simp add: hex_char_facts(4))
  then show ?thesis
    using digits_val_show_hex [OF n, unfolded s]
    unfolding parse_usize_hex_def parse_unsigned_def s by (simp del: digits_val.simps)
qed

lemma hd_split_on:
  "c \<notin> set xs \<Longrightarrow> hd (split_on c (xs @ c # ys)) = xs" "c \<notin> set xs \<Longrightarrow> hd (split_on c xs) = xs"
  by (induction xs) (auto split: list.splits simp: split_on_nonempty)

lemma size_line_read:
  assumes "n < 2 ^ 64" and "printable ext"
  shows "\<exists>l. size_line n ext = l @ [13, 10] \<and> 13 \<notin> set l \<and> chunk_size_of l = Some n"
proof -
  let ?s = "show_hex n @ (if ext = [] then [] else CHR '';'' # ext)"
  have ascii: "list_all (\<lambda>c. 32 \<le> code c \<and> code c \<le> 126) ?s"
    using show_hex_plain [of n] assms(2) by (simp add: plain_def printable_def code_def)
  have "CHR '';'' \<notin> set (show_hex n)" using show_hex_chars hex_char_facts(3) by metis
  then have "hd (split_on CHR '';'' ?s) = show_hex n" by (simp add: hd_split_on)
  then have "chunk_size_of (str_bytes ?s) = Some n"
    using str_bytes_ascii(1) [OF ascii] trim_plain [OF show_hex_plain] parse_show_hex [OF assms(1)]
    by (simp add: chunk_size_of_def)
  then show ?thesis using str_bytes_ascii(3) [OF ascii] by (auto simp: size_line_def)
qed

lemma find_sub_crlf: "13 \<notin> set l \<Longrightarrow> find_sub [13, 10] (l @ 13 # 10 # r) = Some (length l)"
  by (induction l) auto

lemma find_crlf_at:
  "13 \<notin> set l \<Longrightarrow> find_crlf (pre @ l @ 13 # 10 # r) (length pre) = Some (length pre + length l)"
  by (simp add: find_crlf_def find_sub_crlf)

lemma trailer_loop_step:
  "find_crlf bs c = Some i \<Longrightarrow> trailer_loop bs c \<longleftrightarrow> i = c \<or> trailer_loop bs (i + 2)"
  "find_crlf bs c = None \<Longrightarrow> \<not> trailer_loop bs c"
  by (subst trailer_loop.simps, simp)+

lemma trailer_loop_done:
  "list_all trailer_ok ts \<Longrightarrow> trailer_loop (pre @ encode_trailers ts @ r) (length pre)"
proof (induction ts arbitrary: pre)
  case Nil
  have "find_crlf (pre @ [13, 10] @ r) (length pre) = Some (length pre)"
    using find_crlf_at [of "[]" pre r] by simp
  from trailer_loop_step(1) [OF this] show ?case by (simp add: encode_trailers_def)
next
  case (Cons t ts)
  let ?r = "encode_trailers ts @ r"
  have "find_crlf (pre @ t @ 13 # 10 # ?r) (length pre) = Some (length pre + length t)"
    using Cons.prems by (intro find_crlf_at) (simp add: trailer_ok_def)
  from trailer_loop_step(1) [OF this] Cons.IH [of "pre @ t @ [13, 10]"] Cons.prems
  show ?case by (simp add: encode_trailers_def)
qed

lemma chunked_loop_done:
  assumes "list_all chunk_ok cs" and "list_all trailer_ok ts"
    and "length (pre @ encode_chunked cs ts @ r) < 2 ^ 64"
  shows "chunked_loop (pre @ encode_chunked cs ts @ r) (length pre) acc =
    Inr (acc @ concat (map snd cs), True)"
  using assms(1,3)
proof (induction cs arbitrary: pre acc)
  case Nil
  obtain l where l: "size_line 0 [] = l @ [13, 10]" "13 \<notin> set l" "chunk_size_of l = Some 0"
    using size_line_read [of 0 "[]"] by (auto simp: printable_def)
  let ?bs = "pre @ l @ 13 # 10 # encode_trailers ts @ r"
  have "trailer_loop ((pre @ l @ [13, 10]) @ encode_trailers ts @ r) (length (pre @ l @ [13, 10]))"
    by (rule trailer_loop_done [OF assms(2)])
  then have "trailer_loop ?bs (Suc (Suc (length pre + length l)))" by simp
  with find_crlf_at [OF l(2), of pre] l show ?case
    by (subst chunked_loop.simps) (simp add: encode_chunked_def Let_def)
next
  case (Cons c cs)
  obtain ext d where c: "c = (ext, d)" by (cases c)
  let ?tail = "encode_chunked cs ts @ r"
  have d: "d \<noteq> []" "printable ext" using Cons.prems(1) by (simp_all add: c chunk_ok_def)
  have full: "encode_chunked (c # cs) ts @ r = size_line (length d) ext @ d @ 13 # 10 # ?tail"
    by (simp add: encode_chunked_def encode_chunk_def c)
  have small: "length pre + length (size_line (length d) ext) + length d < 2 ^ 64"
    using Cons.prems(2) unfolding full by simp
  obtain l where l: "size_line (length d) ext = l @ [13, 10]" "13 \<notin> set l"
      "chunk_size_of l = Some (length d)"
    using size_line_read [OF _ d(2), of "length d"] small by auto
  let ?bs = "pre @ l @ 13 # 10 # d @ 13 # 10 # ?tail"
  let ?c = "length pre + length l + 2"
  have slices: "slice ?bs ?c (?c + length d) = Some d"
    "slice ?bs (?c + length d) (?c + length d + 2) = Some [13, 10]"
    by (simp_all add: slice_def)
  have "chunked_loop ?bs (length pre) acc = chunked_loop ?bs (?c + length d + 2) (acc @ d)"
    using find_crlf_at [OF l(2), of pre] l slices small d(1)
    by (subst chunked_loop.simps) (simp add: Let_def)
  also have "\<dots> = chunked_loop ((pre @ l @ [13, 10] @ d @ [13, 10]) @ ?tail)
      (length (pre @ l @ [13, 10] @ d @ [13, 10])) (acc @ d)"
    by (simp add: add.commute add.left_commute)
  also have "\<dots> = Inr ((acc @ d) @ concat (map snd cs), True)"
    by (rule Cons.IH) (use Cons.prems full l in simp_all)
  finally show ?case using full l by (simp add: c)
qed

section \<open>Partial messages\<close>

lemma find_crlf_append: "find_crlf bs c = Some i \<Longrightarrow> find_crlf (bs @ x) c = Some i"
  by (cases "c \<le> length bs") (auto simp: find_crlf_def dest: find_sub_append find_sub_Some)

lemma slice_append: "slice bs a b = Some y \<Longrightarrow> slice (bs @ x) a b = Some y"
  by (auto simp: slice_def split: if_splits)

lemma trailer_loop_append: "trailer_loop bs c \<Longrightarrow> trailer_loop (bs @ x) c"
proof (induction bs c rule: trailer_loop.induct)
  case (1 bs c)
  show ?case
  proof (cases "find_crlf bs c")
    case (Some i)
    with "1.prems" have "i = c \<or> trailer_loop bs (i + 2)" by (simp add: trailer_loop_step)
    with "1.IH" [OF Some] trailer_loop_step(1) [OF find_crlf_append [OF Some]] show ?thesis by auto
  qed (use "1.prems" trailer_loop_step(2) in blast)
qed

lemma chunked_loop_extends:
  "chunked_loop bs c acc = Inr (d, k) \<Longrightarrow> \<exists>e. d = acc @ e"
proof (induction bs c acc rule: chunked_loop.induct)
  case (1 bs c acc)
  then show ?case
    by (subst (asm) (2) chunked_loop.simps)
      (fastforce simp: Let_def split: option.splits if_splits)
qed

lemma take_find_crlf:
  "find_crlf bs c = Some i \<Longrightarrow> take (i - c) (drop c (bs @ x)) = take (i - c) (drop c bs)"
  by (auto dest: find_crlf_progress)

lemma chunked_loop_unfold:
  assumes "find_crlf bs c = Some i" and "chunk_size_of (take (i - c) (drop c bs)) = Some n"
  shows "chunked_loop bs c acc =
    (if n = 0 then Inr (acc, trailer_loop bs (i + 2))
     else if i + 2 + n \<ge> 2 ^ 64 then Inl InvalidChunkedBody
     else case slice bs (i + 2) (i + 2 + n) of
       None \<Rightarrow> Inr (acc, False)
     | Some chunk \<Rightarrow>
         (case slice bs (i + 2 + n) (i + 2 + n + 2) of
            None \<Rightarrow> Inr (acc @ chunk, False)
          | Some crlf \<Rightarrow>
              if crlf \<noteq> [13, 10] then Inl InvalidChunkedBody
              else chunked_loop bs (i + 2 + n + 2) (acc @ chunk)))"
  by (subst chunked_loop.simps) (simp only: assms option.case Let_def)

lemma chunked_loop_append:
  assumes "chunked_loop bs c acc = Inr (d, k)"
  shows "(if k then chunked_loop (bs @ x) c acc = Inr (d, True)
     else \<forall>d' k'. chunked_loop (bs @ x) c acc = Inr (d', k') \<longrightarrow> (\<exists>e. d' = d @ e))"
  using assms
proof (induction bs c acc rule: chunked_loop.induct)
  case (1 bs c acc)
  show ?case
  proof (cases "find_crlf bs c")
    case None
    with "1.prems" have "d = acc" "\<not> k" by (subst (asm) chunked_loop.simps, simp)+
    then show ?thesis using chunked_loop_extends by auto
  next
    case (Some i)
    have n: "\<exists>n. chunk_size_of (take (i - c) (drop c bs)) = Some n"
      using "1.prems" Some by (subst (asm) chunked_loop.simps) (auto split: option.splits)
    then obtain n where n: "chunk_size_of (take (i - c) (drop c bs)) = Some n" by blast
    note now = chunked_loop_unfold [OF Some n, of acc]
    note later = chunked_loop_unfold [OF find_crlf_append [OF Some], of x n acc, unfolded
        take_find_crlf [OF Some], OF n]
    show ?thesis
    proof (cases "n = 0")
      case True
      with "1.prems" now later show ?thesis by (auto dest: trailer_loop_append)
    next
      case False
      then have fits: "\<not> i + 2 + n \<ge> 2 ^ 64" using "1.prems" now by (auto split: if_splits)
      show ?thesis
      proof (cases "slice bs (i + 2) (i + 2 + n)")
        case None
        with False fits "1.prems" now have "d = acc" "\<not> k" by simp_all
        then show ?thesis using chunked_loop_extends by auto
      next
        case chunk: (Some chunk)
        note chunk' = slice_append [OF chunk, of x]
        show ?thesis
        proof (cases "slice bs (i + 2 + n) (i + 2 + n + 2)")
          case None
          with False fits chunk "1.prems" now have "d = acc @ chunk" "\<not> k" by simp_all
          with False fits chunk' later show ?thesis
            by (auto split: option.splits if_splits dest!: chunked_loop_extends)
        next
          case crlf: (Some crlf)
          with False fits chunk "1.prems" now have c: "crlf = [13, 10]"
            "chunked_loop bs (i + 2 + n + 2) (acc @ chunk) = Inr (d, k)"
            by (auto split: if_splits)
          have eq: "chunked_loop (bs @ x) c acc =
              chunked_loop (bs @ x) (i + 2 + n + 2) (acc @ chunk)"
            using False fits chunk' slice_append [OF crlf, of x] c(1) unfolding later by simp
          show ?thesis
            unfolding eq using "1.IH" [OF Some n refl refl False fits chunk crlf _ c(2)] c(1) by simp
        qed
      qed
    qed
  qed
qed

section \<open>Properties\<close>

text \<open>
  The chunked decoder undoes the chunked coding: for every list of chunks with their extensions
  and every list of trailers it returns the data and reports the body complete, whatever follows
  the message on the connection.
\<close>

theorem chunked_round_trip:
  assumes "list_all chunk_ok cs" and "list_all trailer_ok ts"
    and "length (encode_chunked cs ts @ rest) < 2 ^ 64"
  shows "decode_chunked (encode_chunked cs ts @ rest) = Inr (concat (map snd cs), True)"
  using chunked_loop_done [OF assms(1,2), of "[]" rest "[]"] assms(3)
  by (simp add: decode_chunked_def)

theorem chunked_round_trip_witness:
  "decode_chunked (encode_chunked [(''x=1'', [1, 2, 3]), ([], [13, 10])] [[65]] @ [72]) =
     Inr ([1, 2, 3, 13, 10], True)"
proof -
  have "decode_chunked (encode_chunked [(''x=1'', [1, 2, 3]), ([], [13, 10])] [[65]] @ [72]) =
      Inr (concat (map snd [(''x=1'', [1, 2, 3]), ([], [13, 10])]), True)"
    by (rule chunked_round_trip)
      (simp_all add: chunk_ok_def trailer_ok_def printable_def code_def encode_chunked_def
        encode_chunk_def size_line_def show_hex.simps encode_trailers_def)
  then show ?thesis by simp
qed

text \<open>
  A chunked body seen in part is decoded to a part of it: once complete the result is final,
  and before that what more input yields only extends the bytes already decoded.
\<close>

theorem chunked_partial_is_prefix:
  assumes "decode_chunked a = Inr (d, complete)" and "decode_chunked (a @ b) = Inr (d', complete')"
  shows "(\<exists>e. d' = d @ e) \<and> (complete \<longrightarrow> d' = d \<and> complete')"
  using chunked_loop_append [OF assms(1) [unfolded decode_chunked_def], of b] assms(2)
  by (auto simp: decode_chunked_def split: if_splits)

theorem chunked_partial_is_prefix_witness:
  "\<exists>d d'. decode_chunked (str_bytes ''2'' @ [13, 10, 65, 66]) = Inr (d, False)
    \<and> decode_chunked ((str_bytes ''2'' @ [13, 10, 65, 66]) @ [13, 10] @ str_bytes ''0'' @ [13, 10, 13, 10])
      = Inr (d', True) \<and> (\<exists>e. d' = d @ e)"
proof -
  have one: "chunk_size_of [0x32] = Some 2" "chunk_size_of [0x30] = Some 0"
  proof -
    have "from_utf8 [0x32] = Some ''2''" "from_utf8 [0x30] = Some ''0''"
      using str_bytes_ascii(1) [of "''2''"] str_bytes_ascii(1) [of "''0''"]
      by (simp_all add: str_bytes_def code_def)
    then show "chunk_size_of [0x32] = Some 2" "chunk_size_of [0x30] = Some 0"
      by (simp_all add: chunk_size_of_def trim_plain plain_def is_graphic_def code_def
          parse_usize_hex_def parse_unsigned_def digit_val_def)
  qed
  have d: "decode_chunked (str_bytes ''2'' @ [13, 10, 65, 66]) = Inr ([65, 66], False)"
    "decode_chunked ((str_bytes ''2'' @ [13, 10, 65, 66]) @ [13, 10] @ str_bytes ''0'' @ [13, 10, 13, 10])
      = Inr ([65, 66], True)"
    by (simp_all add: decode_chunked_def chunked_loop.simps trailer_loop.simps find_crlf_def
        str_bytes_def slice_def one)
  from chunked_partial_is_prefix [OF d] d show ?thesis by blast
qed

end
