(* ===== verification/Capture_Sse.thy ===== *)
theory Capture_Sse
  imports Capture_Stream Rust_Text
begin

text \<open>
  The server-sent events decoder of \<open>crates/capture/src/sse.rs\<close>. \<open>sse_next\<close> is one turn of the loop
  of \<open>push\<close>: it takes one line, if the buffer holds one, and yields the event it ends, if any.
\<close>

section \<open>State and operations\<close>

record sse_event =
  se_event :: "string option"
  se_data :: string

datatype sse_error = InvalidUtf8

record event_builder =
  eb_event :: "string option"
  eb_data_lines :: "string list"

record sse_decoder =
  sd_buffer :: "byte list"
  sd_current :: event_builder

definition builder_default :: event_builder where
  "builder_default = \<lparr>eb_event = None, eb_data_lines = []\<rparr>"

definition sse_new :: sse_decoder where
  "sse_new = \<lparr>sd_buffer = [], sd_current = builder_default\<rparr>"

definition builder_finish :: "event_builder \<Rightarrow> event_builder \<times> sse_event option" where
  "builder_finish b =
     (if eb_event b = None \<and> eb_data_lines b = [] then (b, None)
      else (builder_default,
            Some \<lparr>se_event = eb_event b, se_data = join [char_of (10 :: nat)] (eb_data_lines b)\<rparr>))"

definition builder_field :: "event_builder \<Rightarrow> string \<Rightarrow> event_builder" where
  "builder_field b line =
     (case strip_prefix line ''event:'' of
        Some rest \<Rightarrow> b\<lparr>eb_event := Some (trim rest)\<rparr>
      | None \<Rightarrow>
          (case strip_prefix line ''data:'' of
             Some rest \<Rightarrow> b\<lparr>eb_data_lines := eb_data_lines b @ [trim_start rest]\<rparr>
           | None \<Rightarrow> b))"

definition strip_line_end :: "byte list \<Rightarrow> byte list" where
  "strip_line_end line =
     (let l = (if line \<noteq> [] \<and> last line = 10 then butlast line else line)
      in if l \<noteq> [] \<and> last l = 13 then butlast l else l)"

definition sse_line :: "event_builder \<Rightarrow> string \<Rightarrow> event_builder \<times> sse_event list" where
  "sse_line b line =
     (if line = [] then
        (case builder_finish b of (c, None) \<Rightarrow> (c, []) | (c, Some e) \<Rightarrow> (c, [e]))
      else if starts_with line '':'' then (b, [])
      else (builder_field b line, []))"

fun find_newline :: "byte list \<Rightarrow> nat option" where
  "find_newline [] = None"
| "find_newline (b # bs) = (if b = 10 then Some 0 else map_option Suc (find_newline bs))"

definition sse_next :: "sse_decoder \<Rightarrow> sse_decoder \<times> (sse_error + sse_event list option)" where
  "sse_next d =
     (case find_newline (sd_buffer d) of
        None \<Rightarrow> (d, Inr None)
      | Some i \<Rightarrow>
          (let line = take (Suc i) (sd_buffer d);
               d' = d\<lparr>sd_buffer := drop (Suc i) (sd_buffer d)\<rparr>
           in case from_utf8 (strip_line_end line) of
                None \<Rightarrow> (d', Inl InvalidUtf8)
              | Some s \<Rightarrow>
                  (let (c, es) = sse_line (sd_current d) s
                   in (d'\<lparr>sd_current := c\<rparr>, Inr (Some es)))))"

definition sse_feed :: "sse_decoder \<Rightarrow> byte list \<Rightarrow> sse_decoder" where
  "sse_feed d bs = d\<lparr>sd_buffer := sd_buffer d @ bs\<rparr>"

definition sse_push :: "sse_decoder \<Rightarrow> byte list \<Rightarrow> sse_decoder \<times> (sse_error + sse_event list)" where
  "sse_push d bs = push_with sse_next (\<lambda>d. length (sd_buffer d)) sse_feed d bs"

definition sse_finish :: "sse_decoder \<Rightarrow> sse_decoder \<times> (sse_error + sse_event list)" where
  "sse_finish d =
     (let finish = (\<lambda>d.
            case builder_finish (sd_current d) of
              (c, e) \<Rightarrow> (d\<lparr>sd_current := c\<rparr>, Inr (case e of None \<Rightarrow> [] | Some v \<Rightarrow> [v])))
      in if sd_buffer d = [] then finish d
         else case from_utf8 (sd_buffer d) of
                None \<Rightarrow> (d\<lparr>sd_buffer := []\<rparr>, Inl InvalidUtf8)
              | Some line \<Rightarrow>
                  finish (d\<lparr>sd_buffer := [],
                            sd_current := builder_field (sd_current d) line\<rparr>))"

definition parse_sse_events :: "byte list \<Rightarrow> sse_error + sse_event list" where
  "parse_sse_events bs =
     (case sse_push sse_new bs of
        (_, Inl e) \<Rightarrow> Inl e
      | (d, Inr es) \<Rightarrow> mapr (\<lambda>fs. es @ fs) (snd (sse_finish d)))"

section \<open>The decoder is a frame source\<close>

lemma find_newline_Some: "find_newline bs = Some i \<Longrightarrow> i < length bs \<and> bs ! i = 10 \<and> 10 \<notin> set (take i bs)"
  by (induction bs arbitrary: i) (auto split: if_splits)

lemma find_newline_append: "find_newline xs = Some i \<Longrightarrow> find_newline (xs @ ys) = Some i"
  by (induction xs arbitrary: i) (auto split: if_splits)

lemma find_newline_None: "find_newline bs = None \<longleftrightarrow> 10 \<notin> set bs"
  by (induction bs) auto

interpretation sse: frame_source sse_next "\<lambda>d. length (sd_buffer d)" sse_feed
proof unfold_locales
  fix s t es
  assume "sse_next s = (t, Inr (Some es))"
  then show "length (sd_buffer t) < length (sd_buffer s)"
    by (auto simp: sse_next_def Let_def dest!: find_newline_Some
        split: option.splits prod.splits)
next
  fix s t
  assume "sse_next s = (t, Inr None)"
  then show "t = s"
    by (auto simp: sse_next_def Let_def split: option.splits prod.splits)
next
  fix s t es b
  assume "sse_next s = (t, Inr (Some es))"
  then show "sse_next (sse_feed s b) = (sse_feed t b, Inr (Some es))"
    by (auto simp: sse_next_def sse_feed_def Let_def find_newline_append dest!: find_newline_Some
        split: option.splits prod.splits)
next
  fix s t e b
  assume "sse_next s = (t, Inl e)"
  then show "sse_next (sse_feed s b) = (sse_feed t b, Inl e)"
    by (auto simp: sse_next_def sse_feed_def Let_def find_newline_append dest!: find_newline_Some
        split: option.splits prod.splits)
qed (simp_all add: sse_feed_def)

lemma sse_push_eq: "sse_push = push_with sse_next (\<lambda>d. length (sd_buffer d)) sse_feed"
  by (intro ext) (simp add: sse_push_def)

lemma sse_new_idle: "sse_next sse_new = (sse_new, Inr None)"
  by (simp add: sse_next_def sse_new_def)

section \<open>Rendering events\<close>

record sse_source =
  ss_event :: "string option"
  ss_lines :: "string list"

definition render_line :: "string \<Rightarrow> byte list" where
  "render_line l = str_bytes l @ [10]"

definition render_event :: "sse_source \<Rightarrow> byte list" where
  "render_event e =
     (case ss_event e of None \<Rightarrow> [] | Some n \<Rightarrow> render_line (''event: '' @ n))
     @ concat (map (\<lambda>l. render_line (''data: '' @ l)) (ss_lines e)) @ render_line []"

definition source_ok :: "sse_source \<Rightarrow> bool" where
  "source_ok e \<longleftrightarrow> ss_lines e \<noteq> [] \<and> list_all plain (ss_lines e)
     \<and> (case ss_event e of None \<Rightarrow> True | Some n \<Rightarrow> plain n)"

definition source_event :: "sse_source \<Rightarrow> sse_event" where
  "source_event e = \<lparr>se_event = ss_event e, se_data = join [char_of (10 :: nat)] (ss_lines e)\<rparr>"

definition decoding :: "byte list \<Rightarrow> event_builder \<Rightarrow> sse_decoder \<times> (sse_error + sse_event list)" where
  "decoding bs b =
     drain sse_next (\<lambda>d. length (sd_buffer d)) \<lparr>sd_buffer = bs, sd_current = b\<rparr>"

lemma decoding_text:
  assumes "utf8_ok (str_bytes l)" and "10 \<notin> set (str_bytes l)" and "l = [] \<or> last (str_bytes l) \<noteq> 13"
    and "sse_line b l = (c, es)"
  shows "decoding (render_line l @ rest) b = prepend es (decoding rest c)"
proof -
  have find: "find_newline (str_bytes l @ 10 # rest) = Some (length l)"
    using assms(2) by (induction l) (auto simp: str_bytes_def)
  have "strip_line_end (str_bytes l @ [10]) = str_bytes l"
    using assms(3) by (auto simp: strip_line_end_def Let_def str_bytes_def)
  then have "sse_next \<lparr>sd_buffer = str_bytes l @ 10 # rest, sd_current = b\<rparr> =
      (\<lparr>sd_buffer = rest, sd_current = c\<rparr>, Inr (Some es))"
    using assms(1,4) find by (simp add: sse_next_def Let_def from_utf8_def)
  from sse.drain_step [OF this] show ?thesis by (simp add: decoding_def render_line_def)
qed

lemma decoding_line:
  assumes "list_all (\<lambda>c. 32 \<le> code c \<and> code c \<le> 126) l" and "sse_line b l = (c, es)"
  shows "decoding (render_line l @ rest) b = prepend es (decoding rest c)"
proof (rule decoding_text)
  note ascii = str_bytes_ascii [OF assms(1)]
  show "utf8_ok (str_bytes l)" "10 \<notin> set (str_bytes l)"
    using ascii by (simp_all add: from_utf8_def split: if_splits)
  have "str_bytes l \<noteq> []" if "l \<noteq> []" using that by (simp add: str_bytes_def)
  then show "l = [] \<or> last (str_bytes l) \<noteq> 13"
    using ascii(3) by (metis last_in_set)
qed (rule assms(2))

lemma decoding_data:
  assumes "list_all plain ls"
  shows "decoding (concat (map (\<lambda>l. render_line (''data: '' @ l)) ls) @ rest) b =
    decoding rest (b\<lparr>eb_data_lines := eb_data_lines b @ ls\<rparr>)"
  using assms
proof (induction ls arbitrary: b)
  case (Cons l ls)
  have "sse_line b (''data: '' @ l) = (b\<lparr>eb_data_lines := eb_data_lines b @ [l]\<rparr>, [])"
    using Cons.prems
    by (simp add: sse_line_def builder_field_def strip_prefix_def trim_start_blank trim_start_plain)
  then have "decoding (render_line (''data: '' @ l) @ x) b =
      decoding x (b\<lparr>eb_data_lines := eb_data_lines b @ [l]\<rparr>)" for x
    using Cons.prems plain_prefix [of l] decoding_line [of "''data: '' @ l"]
    by (simp add: code_def)
  with Cons show ?case by simp
qed simp

lemma decoding_event:
  assumes "source_ok e"
  shows "decoding (render_event e @ rest) builder_default =
    prepend [source_event e] (decoding rest builder_default)"
proof -
  have stop: "decoding (render_line [] @ rest) b = prepend [se] (decoding rest builder_default)"
    if "builder_finish b = (builder_default, Some se)" for b se
    by (rule decoding_line) (use that in \<open>simp_all add: sse_line_def\<close>)
  have name: "decoding (render_line (''event: '' @ n) @ x) builder_default =
      decoding x (builder_default\<lparr>eb_event := Some n\<rparr>)" if "plain n" for n x
    using that plain_prefix [OF that] decoding_line [of "''event: '' @ n" builder_default _ "[]" x]
    by (simp add: sse_line_def builder_field_def strip_prefix_def trim_def trim_start_blank code_def
        trim_plain [unfolded trim_def])
  show ?thesis
    using assms decoding_data [of "ss_lines e"] name stop
    by (auto simp: render_event_def source_ok_def source_event_def builder_default_def
        builder_finish_def split: option.splits)
qed

lemma decoding_events:
  assumes "list_all source_ok es"
  shows "decoding (concat (map render_event es)) builder_default =
    (sse_new, Inr (map source_event es))"
  using assms
proof (induction es)
  case Nil
  then show ?case using sse.drain_idle [OF sse_new_idle] by (simp add: decoding_def sse_new_def)
next
  case (Cons e es)
  then show ?case using decoding_event [of e "concat (map render_event es)"] by simp
qed

section \<open>Properties\<close>

text \<open>
  How the network cuts an event stream into chunks does not matter: any two ways of splitting
  the same bytes give the same events, or the same error.
\<close>

theorem sse_chunking_irrelevant:
  assumes "concat cs = concat ds"
  shows "snd (push_chunks sse_push sse_new cs) = snd (push_chunks sse_push sse_new ds)"
  unfolding sse_push_eq by (rule sse.chunking_irrelevant [OF sse_new_idle assms])

theorem sse_chunking_irrelevant_witness:
  "snd (push_chunks sse_push sse_new [[100, 97], [116, 97, 58, 120, 13], [10, 10]]) =
   snd (push_chunks sse_push sse_new [[100, 97, 116, 97, 58, 120, 13, 10, 10]])"
  by (rule sse_chunking_irrelevant) simp

text \<open>
  C31. Parsing the rendering of any list of events in printable text gives back those events, in
  order, with the event names and the data lines joined by newlines.
\<close>

theorem sse_round_trip:
  assumes "list_all source_ok es"
  shows "parse_sse_events (concat (map render_event es)) = Inr (map source_event es)"
proof -
  have "sse_push sse_new (concat (map render_event es)) = (sse_new, Inr (map source_event es))"
    using decoding_events [OF assms]
    by (simp add: sse_push_def push_with_def sse_feed_def sse_new_def decoding_def)
  then show ?thesis
    by (simp add: parse_sse_events_def sse_finish_def sse_new_def builder_finish_def
        builder_default_def)
qed

theorem sse_round_trip_witness:
  "parse_sse_events (concat (map render_event
     [\<lparr>ss_event = Some ''delta'', ss_lines = [''a'', ''b'']\<rparr>, \<lparr>ss_event = None, ss_lines = [''c'']\<rparr>])) =
   Inr [\<lparr>se_event = Some ''delta'', se_data = ''a'' @ [char_of (10 :: nat)] @ ''b''\<rparr>,
        \<lparr>se_event = None, se_data = ''c''\<rparr>]"
proof -
  let ?es = "[\<lparr>ss_event = Some ''delta'', ss_lines = [''a'', ''b'']\<rparr>,
     \<lparr>ss_event = None, ss_lines = [''c'']\<rparr>]"
  have "list_all source_ok ?es"
    by (simp add: source_ok_def plain_def is_graphic_def code_def)
  from sse_round_trip [OF this] show ?thesis by (simp add: source_event_def)
qed

end
