(* ===== verification/Capture_Responses.thy ===== *)
theory Capture_Responses
  imports Capture_Json Capture_Http1 Capture_Sse Protocol_Types
begin

text \<open>
  Turn metadata and the Responses API events: \<open>crates/capture/src/metadata.rs\<close> and
  \<open>crates/capture/src/responses.rs\<close>. The attempt identifier that \<open>Uuid::now_v7\<close> draws is an argument.
\<close>

section \<open>Turn metadata\<close>

datatype metadata_error = Missing | InvalidJson string | MissingField string

record decoded_turn_metadata =
  tm_session_id :: string
  tm_thread_id :: string
  tm_turn_id :: string
  tm_request_kind :: string
  tm_parent_turn_id :: "string option"
  tm_root_turn_id :: "string option"

definition metadata_task_ref :: "decoded_turn_metadata \<Rightarrow> string" where
  "metadata_task_ref m = tm_session_id m @ '':'' @ tm_thread_id m @ '':'' @ tm_turn_id m"

definition require_string :: "json \<Rightarrow> string \<Rightarrow> metadata_error + string" where
  "require_string j field = ok_or (get_str j field) (MissingField field)"

definition metadata_payload ::
  "http_lib \<Rightarrow> json_lib \<Rightarrow> header_map \<Rightarrow> json \<Rightarrow> string option" where
  "metadata_payload L J headers request =
     or_else (header_str L headers ''x-codex-turn-metadata'')
       (Option.bind (opt_get (json_get request ''client_metadata'') ''x-codex-turn-metadata'')
         (\<lambda>v. case v of JString text \<Rightarrow> Some text | JObject _ \<Rightarrow> Some (jl_to_string J v) | _ \<Rightarrow> None))"

definition extract_turn_metadata ::
  "http_lib \<Rightarrow> json_lib \<Rightarrow> header_map \<Rightarrow> json \<Rightarrow> metadata_error + decoded_turn_metadata" where
  "extract_turn_metadata L J headers request =
     bindr (ok_or (metadata_payload L J headers request) Missing) (\<lambda>payload.
     bindr (map_err InvalidJson (jl_from_str J payload)) (\<lambda>j.
     bindr (require_string j ''session_id'') (\<lambda>session_id.
     bindr (require_string j ''thread_id'') (\<lambda>thread_id.
     bindr (require_string j ''turn_id'') (\<lambda>turn_id.
     bindr (require_string j ''request_kind'') (\<lambda>request_kind.
       Inr \<lparr>tm_session_id = session_id, tm_thread_id = thread_id, tm_turn_id = turn_id,
            tm_request_kind = request_kind, tm_parent_turn_id = get_str j ''parent_turn_id'',
            tm_root_turn_id = get_str j ''root_turn_id''\<rparr>))))))"

section \<open>Decoded events\<close>

record decoded_error =
  de_wire_type :: "string option"
  de_code :: "string option"
  de_message :: "string option"
  de_param :: "string option"
  de_reason :: "string option"
  de_http_status :: "u16 option"

definition decoded_error_default :: decoded_error where
  "decoded_error_default = \<lparr>de_wire_type = None, de_code = None, de_message = None,
     de_param = None, de_reason = None, de_http_status = None\<rparr>"

datatype decoded_event =
    TaskObserved "string option"
  | AttemptStarted uuid "string option"
  | ToolCall uuid string
  | AttemptCompleted uuid "string option" bool usage_summary
  | AttemptFailed uuid "string option" decoded_error
  | AttemptIncomplete uuid "string option" decoded_error
  | AttemptCancelled uuid "string option" decoded_error
  | HttpError "uuid option" decoded_error

record decoded_attempt =
  da_attempt_id :: uuid
  da_task_ref :: string
  da_identity :: task_identity
  da_codex :: codex_task_metadata
  da_model :: "string option"
  da_request_complete :: bool
  da_response_complete :: bool
  da_request_json :: json
  da_response_json_events :: "json list"
  da_decoded_events :: "decoded_event list"
  da_request_at_ms :: i64

datatype capture_error =
    Http http_parse_error | Metadata metadata_error | InvalidRequestJson string
  | InvalidResponseJson string | Sse sse_error

definition is_tool_call_type :: "string \<Rightarrow> bool" where
  "is_tool_call_type t = (t \<in> {''function_call'', ''tool_search_call'', ''custom_tool_call'',
     ''local_shell_call'', ''computer_call'', ''shell_call'', ''code_interpreter_call'',
     ''file_search_call'', ''web_search_call'', ''image_generation_call'', ''mcp_call''})"

definition response_id :: "json \<Rightarrow> string option" where
  "response_id j = opt_get_str (json_get j ''response'') ''id''"

definition usage_field :: "json \<Rightarrow> string \<Rightarrow> u64" where
  "usage_field usage k = unwrap_or (Option.bind (json_get usage k) as_u64) 0"

definition usage_either :: "json \<Rightarrow> string \<Rightarrow> string \<Rightarrow> u64" where
  "usage_either usage k l =
     unwrap_or (Option.bind (or_else (json_get usage k) (json_get usage l)) as_u64) 0"

definition parse_usage :: "json \<Rightarrow> usage_summary option" where
  "parse_usage response =
     map_option (\<lambda>usage.
       \<lparr>us_input_tokens = usage_either usage ''input_tokens'' ''prompt_tokens'',
        us_output_tokens = usage_either usage ''output_tokens'' ''completion_tokens'',
        us_reasoning_tokens = unwrap_or (Option.bind
          (opt_get (json_get usage ''output_tokens_details'') ''reasoning_tokens'') as_u64) 0,
        us_total_tokens = usage_field usage ''total_tokens''\<rparr>)
       (json_get response ''usage'')"

definition parse_error :: "json \<Rightarrow> decoded_error" where
  "parse_error j =
     (let response = json_get j ''response'';
          err = or_else (opt_get response ''error'') (json_get j ''error'')
      in \<lparr>de_wire_type = or_else (opt_get_str err ''type'') (get_str j ''type''),
          de_code = opt_get_str err ''code'',
          de_message = Option.bind (or_else (opt_get err ''message'') (json_get j ''message'')) as_str,
          de_param = opt_get_str err ''param'',
          de_reason = opt_get_str (opt_get response ''incomplete_details'') ''reason'',
          de_http_status = None\<rparr>)"

definition parse_http_error :: "json_lib \<Rightarrow> byte list \<Rightarrow> u16 \<Rightarrow> decoded_error" where
  "parse_http_error J body status =
     (let d = decoded_error_default\<lparr>de_http_status := Some status,
                de_message := Some (from_utf8_lossy body)\<rparr>
      in case jl_from_slice J body of
           Inl _ \<Rightarrow> d
         | Inr j \<Rightarrow>
             (let obj = unwrap_or (json_get j ''error'') j in
              d\<lparr>de_wire_type := get_str obj ''type'', de_code := get_str obj ''code'',
                de_message := or_else (get_str obj ''message'') (de_message d),
                de_param := get_str obj ''param''\<rparr>))"

definition tool_call_of :: "json \<Rightarrow> uuid \<Rightarrow> decoded_event list" where
  "tool_call_of j attempt_id =
     (case json_get j ''item'' of
        None \<Rightarrow> []
      | Some item \<Rightarrow>
          (let item_type = unwrap_or (get_str item ''type'') [] in
           if is_tool_call_type item_type
           then [ToolCall attempt_id (unwrap_or (get_str item ''name'') item_type)] else []))"

definition completed_of :: "json \<Rightarrow> uuid \<Rightarrow> decoded_event" where
  "completed_of j attempt_id =
     (let response = json_get j ''response'' in
      AttemptCompleted attempt_id (opt_get_str response ''id'')
        (unwrap_or (Option.bind (opt_get response ''end_turn'') as_bool) True)
        (unwrap_or (Option.bind response parse_usage) usage_default))"

definition map_responses_event :: "json \<Rightarrow> uuid \<Rightarrow> decoded_event list" where
  "map_responses_event j attempt_id =
     (let kind = unwrap_or (get_str j ''type'') [] in
      if kind = ''response.output_item.added'' \<or> kind = ''response.output_item.done''
      then tool_call_of j attempt_id
      else if kind = ''error'' then [AttemptFailed attempt_id None (parse_error j)]
      else if kind = ''response.completed'' then [completed_of j attempt_id]
      else if kind = ''response.failed'' then
        [AttemptFailed attempt_id (response_id j) (parse_error j)]
      else if kind = ''response.incomplete'' then
        [AttemptIncomplete attempt_id (response_id j) (parse_error j)]
      else if kind = ''response.cancelled'' then
        [AttemptCancelled attempt_id (response_id j) (parse_error j)]
      else [])"

section \<open>An exchange\<close>

definition metadata_identity :: "decoded_turn_metadata \<Rightarrow> task_identity" where
  "metadata_identity m = \<lparr>id_provider = ''codex'', id_session_id = tm_session_id m,
     id_thread_id = tm_thread_id m, id_turn_id = tm_turn_id m\<rparr>"

definition metadata_codex :: "decoded_turn_metadata \<Rightarrow> codex_task_metadata" where
  "metadata_codex m = \<lparr>cm_request_kind = tm_request_kind m,
     cm_parent_turn_id = tm_parent_turn_id m, cm_root_turn_id = tm_root_turn_id m\<rparr>"

definition is_success :: "u16 \<Rightarrow> bool" where
  "is_success status = (200 \<le> status \<and> status < 300)"

text \<open>The loop over the events of a successful response.\<close>

fun response_events_loop ::
  "json_lib \<Rightarrow> uuid \<Rightarrow> sse_event list \<Rightarrow> decoded_event list \<Rightarrow> json list
     \<Rightarrow> capture_error + decoded_event list \<times> json list" where
  "response_events_loop J attempt_id [] decoded jsons = Inr (decoded, jsons)"
| "response_events_loop J attempt_id (e # es) decoded jsons =
     bindr (map_err InvalidResponseJson (jl_from_str J (se_data e))) (\<lambda>j.
       response_events_loop J attempt_id es (decoded @ map_responses_event j attempt_id)
         (jsons @ [j]))"

definition decode_response ::
  "json_lib \<Rightarrow> uuid \<Rightarrow> http_message \<Rightarrow> decoded_event list
     \<Rightarrow> capture_error + decoded_event list \<times> json list" where
  "decode_response J attempt_id response initial =
     (let body = bd_decoded (ms_body response) in
      if is_some_and (ms_status response) (\<lambda>s. \<not> is_success s)
      then Inr (initial @ [HttpError (Some attempt_id)
                 (parse_http_error J body (unwrap_or (ms_status response) 0))], [])
      else bindr (map_err Sse (parse_sse_events body)) (\<lambda>es.
             response_events_loop J attempt_id es initial []))"

definition decode_http_exchange ::
  "http_lib \<Rightarrow> json_lib \<Rightarrow> uuid \<Rightarrow> byte list \<Rightarrow> byte list \<Rightarrow> i64 \<Rightarrow> capture_error + decoded_attempt" where
  "decode_http_exchange L J attempt_id request_bytes response_bytes request_at_ms =
     bindr (map_err Http (parse_http_request L request_bytes)) (\<lambda>request.
     bindr (map_err Http (parse_http_response L response_bytes)) (\<lambda>response.
     bindr (map_err InvalidRequestJson (jl_from_slice J (bd_decoded (ms_body request))))
       (\<lambda>request_json.
     bindr (map_err Metadata (extract_turn_metadata L J (ms_headers request) request_json))
       (\<lambda>metadata.
       let model = get_str request_json ''model'' in
       mapr (\<lambda>(events, jsons).
           \<lparr>da_attempt_id = attempt_id, da_task_ref = metadata_task_ref metadata,
            da_identity = metadata_identity metadata, da_codex = metadata_codex metadata,
            da_model = model, da_request_complete = bd_complete (ms_body request),
            da_response_complete = bd_complete (ms_body response), da_request_json = request_json,
            da_response_json_events = jsons, da_decoded_events = events,
            da_request_at_ms = request_at_ms\<rparr>)
         (decode_response J attempt_id response
            [TaskObserved model, AttemptStarted attempt_id model])))))"

section \<open>Facts\<close>

lemma response_events_loop_ok:
  "response_events_loop J a es d js = Inr (d', js') \<longleftrightarrow>
     (\<exists>vs. map_m (\<lambda>e. jl_from_str J (se_data e)) es = Inr vs
       \<and> d' = d @ concat (map (\<lambda>j. map_responses_event j a) vs) \<and> js' = js @ vs)"
  by (induction es arbitrary: d js) (auto simp: bindr_eq_Inr mapr_eq_Inr map_err_eq_Inr)

fun event_attempt :: "decoded_event \<Rightarrow> uuid option" where
  "event_attempt (TaskObserved m) = None"
| "event_attempt (AttemptStarted a m) = Some a"
| "event_attempt (ToolCall a n) = Some a"
| "event_attempt (AttemptCompleted a r t u) = Some a"
| "event_attempt (AttemptFailed a r e) = Some a"
| "event_attempt (AttemptIncomplete a r e) = Some a"
| "event_attempt (AttemptCancelled a r e) = Some a"
| "event_attempt (HttpError a e) = a"

lemma map_responses_event_attempt: "e \<in> set (map_responses_event j a) \<Longrightarrow> event_attempt e = Some a"
  by (auto simp: map_responses_event_def tool_call_of_def completed_of_def Let_def
      split: if_splits option.splits)

lemma metadata_task_ref_identity: "metadata_task_ref m = identity_task_ref (metadata_identity m)"
  by (simp add: metadata_task_ref_def identity_task_ref_def metadata_identity_def)

lemma decode_response_ok:
  assumes "decode_response J a r initial = Inr (events, jsons)"
  shows "(\<exists>err. events = initial @ [HttpError (Some a) err] \<and> jsons = []
       \<and> is_some_and (ms_status r) (\<lambda>s. \<not> is_success s))
     \<or> events = initial @ concat (map (\<lambda>j. map_responses_event j a) jsons)"
  using assms
  by (auto simp: decode_response_def Let_def bindr_eq_Inr map_err_eq_Inr response_events_loop_ok
      split: if_splits)

lemma exchange_result:
  assumes "decode_http_exchange L J a rq rs at = Inr d"
  shows "da_attempt_id d = a" and "da_task_ref d = identity_task_ref (da_identity d)"
    and "\<exists>r. decode_response J a r [TaskObserved (da_model d), AttemptStarted a (da_model d)] =
      Inr (da_decoded_events d, da_response_json_events d)"
  using assms
  by (auto simp: decode_http_exchange_def bindr_eq_Inr mapr_eq_Inr Let_def
      metadata_task_ref_identity)

text \<open>
  What an exchange decodes to: the task and the attempt it starts, then either one HTTP error or the
  events of the response in order, all of that attempt.
\<close>

lemma exchange_events:
  assumes "decode_http_exchange L J a rq rs at = Inr d"
  shows "\<exists>rest. da_decoded_events d = TaskObserved (da_model d) # AttemptStarted a (da_model d) # rest
     \<and> list_all (\<lambda>e. event_attempt e = Some a) rest
     \<and> ((\<exists>err. rest = [HttpError (Some a) err])
        \<or> rest = concat (map (\<lambda>j. map_responses_event j a) (da_response_json_events d)))"
proof -
  obtain r where "decode_response J a r [TaskObserved (da_model d), AttemptStarted a (da_model d)] =
      Inr (da_decoded_events d, da_response_json_events d)"
    using exchange_result(3) [OF assms] ..
  from decode_response_ok [OF this] show ?thesis
    using map_responses_event_attempt by (auto simp: list_all_iff)
qed

end
