(* ===== verification/Client_Projection.thy ===== *)
theory Client_Projection
  imports Client_Model Capture_Responses "HOL-Library.Sublist"
begin

text \<open>
  The projection of \<open>crates/client/src/capture_lane.rs\<close>: what one decoded exchange, a capture gap or
  the exit of a process makes of a task. The store and the title index are asked through the
  fields of \<open>lane_env\<close>, the clock reads and the drawn identifiers come as numbered streams, in the
  order of the source.
\<close>

section \<open>One attempt\<close>

record attempt_projection =
  ap_status :: client_attempt_status
  ap_phase :: client_phase
  ap_outcome :: "task_outcome option"
  ap_completeness :: completeness
  ap_error :: "structured_error option"
  ap_response_id :: "string option"
  ap_tool_names :: "string list"
  ap_usage :: token_usage
  ap_cause :: transition_cause

text \<open>The local variables of \<open>map_attempt_projection\<close> during its loop.\<close>

record projection_state =
  pj_response_id :: "string option"
  pj_tool_names :: "string list"
  pj_usage :: token_usage
  pj_error :: "structured_error option"
  pj_end_turn :: bool
  pj_status :: client_attempt_status
  pj_phase :: client_phase
  pj_cause :: transition_cause
  pj_saw_terminal :: bool

definition projection_init :: projection_state where
  "projection_init = \<lparr>pj_response_id = None, pj_tool_names = [], pj_usage = token_usage_default,
     pj_error = None, pj_end_turn = True, pj_status = client_attempt_status.Running,
     pj_phase = client_phase.Running, pj_cause = transition_cause.AttemptStarted,
     pj_saw_terminal = False\<rparr>"

definition structured_error_from_decoded :: "decoded_error \<Rightarrow> structured_error" where
  "structured_error_from_decoded e =
     (case de_http_status e of
        Some status \<Rightarrow>
          structured_error.Http \<lparr>he_status = status, he_provider_error = Some
            \<lparr>pe_wire_type = unwrap_or (de_wire_type e) ''http_error'', pe_code = de_code e,
             pe_message = unwrap_or (de_message e) (''http '' @ show_nat (unat status)),
             pe_param = de_param e\<rparr>\<rparr>
      | None \<Rightarrow>
          (case de_reason e of
             Some reason \<Rightarrow> structured_error.Incomplete reason
           | None \<Rightarrow>
               structured_error.Provider
                 \<lparr>pe_wire_type = unwrap_or (de_wire_type e) ''response.failed'', pe_code = de_code e,
                  pe_message = unwrap_or (de_message e) ''unknown error'', pe_param = de_param e\<rparr>))"

definition failed_attempt ::
  "client_attempt_status \<Rightarrow> decoded_error \<Rightarrow> projection_state \<Rightarrow> projection_state" where
  "failed_attempt status e s =
     s\<lparr>pj_status := status, pj_phase := client_phase.Retrying,
       pj_cause := transition_cause.RetryScheduled,
       pj_error := Some (structured_error_from_decoded e), pj_saw_terminal := True\<rparr>"

fun projection_event :: "decoded_event \<Rightarrow> projection_state \<Rightarrow> projection_state" where
  "projection_event (ToolCall a tool_name) s =
     (if tool_name \<in> set (pj_tool_names s) then s
      else s\<lparr>pj_tool_names := pj_tool_names s @ [tool_name]\<rparr>)"
| "projection_event (decoded_event.AttemptCompleted a rid end_turn usage) s =
     s\<lparr>pj_response_id := rid, pj_end_turn := end_turn,
       pj_usage := \<lparr>tu_input_tokens = Some (us_input_tokens usage),
         tu_output_tokens = Some (us_output_tokens usage), tu_cached_input_tokens = None,
         tu_reasoning_tokens = Some (us_reasoning_tokens usage),
         tu_total_tokens = Some (us_total_tokens usage)\<rparr>,
       pj_status := client_attempt_status.Completed, pj_phase := client_phase.Running,
       pj_cause := transition_cause.AttemptCompleted, pj_saw_terminal := True\<rparr>"
| "projection_event (decoded_event.AttemptFailed a rid e) s =
     failed_attempt client_attempt_status.Failed e (s\<lparr>pj_response_id := rid\<rparr>)"
| "projection_event (decoded_event.AttemptIncomplete a rid e) s =
     failed_attempt client_attempt_status.Incomplete e (s\<lparr>pj_response_id := rid\<rparr>)"
| "projection_event (decoded_event.AttemptCancelled a rid e) s =
     failed_attempt client_attempt_status.Cancelled e (s\<lparr>pj_response_id := rid\<rparr>)"
| "projection_event (decoded_event.HttpError a e) s =
     failed_attempt client_attempt_status.Failed e s"
| "projection_event (decoded_event.TaskObserved m) s = s"
| "projection_event (decoded_event.AttemptStarted a m) s = s"

definition map_attempt_projection :: "decoded_attempt \<Rightarrow> attempt_projection" where
  "map_attempt_projection attempt =
     (let s = fold projection_event (da_decoded_events attempt) projection_init;
          complete = (da_request_complete attempt
                        \<and> (da_response_complete attempt \<or> pj_saw_terminal s));
          p = \<lparr>ap_status = pj_status s, ap_phase = pj_phase s, ap_outcome = None,
               ap_completeness = (if complete then completeness.Complete else completeness.Degraded),
               ap_error = pj_error s, ap_response_id = pj_response_id s,
               ap_tool_names = pj_tool_names s, ap_usage = pj_usage s, ap_cause = pj_cause s\<rparr>
      in
        if \<not> pj_saw_terminal s \<or> ap_completeness p = completeness.Degraded then
          p\<lparr>ap_completeness := completeness.Degraded,
            ap_status := client_attempt_status.TransportLost, ap_phase := client_phase.Retrying,
            ap_cause := transition_cause.CaptureLost,
            ap_error := Some (structured_error.CaptureLost
              \<lparr>cl_reason = (if \<not> pj_saw_terminal s
                 then ''stream closed before response.completed''
                 else ''request or response body incomplete''), cl_lost_bytes = None\<rparr>)\<rparr>
        else if pj_status s = client_attempt_status.Completed
            \<and> (pj_tool_names s \<noteq> [] \<or> \<not> pj_end_turn s) then
          p\<lparr>ap_phase := client_phase.AwaitingTool,
            ap_cause := transition_cause.ToolCallObserved\<rparr>
        else if pj_status s = client_attempt_status.Completed \<and> pj_end_turn s then
          p\<lparr>ap_phase := client_phase.Terminal, ap_outcome := Some task_outcome.Completed,
            ap_cause := transition_cause.ResponseEndTurn\<rparr>
        else p)"

section \<open>Merging\<close>

definition merge_usage :: "token_usage option \<Rightarrow> token_usage option \<Rightarrow> token_usage" where
  "merge_usage current update =
     (let merged = unwrap_or current token_usage_default in
      case update of
        None \<Rightarrow> merged
      | Some u \<Rightarrow>
          \<lparr>tu_input_tokens = or_else (tu_input_tokens u) (tu_input_tokens merged),
           tu_output_tokens = or_else (tu_output_tokens u) (tu_output_tokens merged),
           tu_cached_input_tokens = or_else (tu_cached_input_tokens u) (tu_cached_input_tokens merged),
           tu_reasoning_tokens = or_else (tu_reasoning_tokens u) (tu_reasoning_tokens merged),
           tu_total_tokens = or_else (tu_total_tokens u) (tu_total_tokens merged)\<rparr>)"

definition merge_one :: "string \<Rightarrow> string list \<Rightarrow> string list" where
  "merge_one v current = (if v \<noteq> [] \<and> v \<notin> set current then current @ [v] else current)"

definition merge_unique :: "string list \<Rightarrow> string list \<Rightarrow> string list" where
  "merge_unique current appended = fold merge_one appended current"

section \<open>Contents\<close>

record stored_content_input =
  sc_task :: task_key
  sc_part :: content_part
  sc_media_type :: string
  sc_body :: "byte list"
  sc_headers :: "(string \<times> string) list"
  sc_created_at :: datetime

fun is_jstring :: "json \<Rightarrow> bool" where
  "is_jstring (JString s) = True"
| "is_jstring _ = False"

fun collect_text_nodes :: "json \<Rightarrow> string list" and
  collect_members :: "(string \<times> json) list \<Rightarrow> string list" and
  collect_items :: "json list \<Rightarrow> string list" where
  "collect_text_nodes (JObject m) = collect_members m"
| "collect_text_nodes (JArray xs) = collect_items xs"
| "collect_text_nodes JNull = []"
| "collect_text_nodes (JBool b) = []"
| "collect_text_nodes (JNumber n) = []"
| "collect_text_nodes (JString s) = []"
| "collect_members [] = []"
| "collect_members ((k, v) # m) =
     (if k \<in> {''text'', ''output_text'', ''delta''} \<and> is_jstring v
      then [unwrap_or (as_str v) []] else collect_text_nodes v) @ collect_members m"
| "collect_items [] = []"
| "collect_items (x # xs) = collect_text_nodes x @ collect_items xs"

definition extract_tool_inputs :: "json_lib \<Rightarrow> decoded_attempt \<Rightarrow> byte list option" where
  "extract_tool_inputs J a =
     (let items = filter (\<lambda>item. is_some_and (get_str item ''type'')
            (\<lambda>k. k \<in> {''function_call'', ''tool_search_call'', ''custom_tool_call''}))
            (List.map_filter (\<lambda>e. json_get e ''item'') (da_response_json_events a))
      in if items \<noteq> [] then Some (str_bytes (jl_to_string J (JArray items))) else None)"

fun as_array :: "json \<Rightarrow> json list option" where
  "as_array (JArray xs) = Some xs"
| "as_array _ = None"

definition extract_tool_outputs :: "json_lib \<Rightarrow> decoded_attempt \<Rightarrow> byte list option" where
  "extract_tool_outputs J a =
     (let items = filter (\<lambda>item. is_some_and (get_str item ''type'')
            (\<lambda>k. k \<in> {''function_call_output'', ''tool_result'', ''tool_output''}))
            (unwrap_or (Option.bind (json_get (da_request_json a) ''input'') as_array) [])
      in if items \<noteq> [] then Some (str_bytes (jl_to_string J (JArray items))) else None)"

definition extract_model_text :: "decoded_attempt \<Rightarrow> byte list option" where
  "extract_model_text a =
     (let text = filter (\<lambda>l. trim l \<noteq> [])
            (concat (map collect_text_nodes (da_response_json_events a)))
      in if text \<noteq> [] then Some (str_bytes (join [char_of (10 :: nat)] text)) else None)"

definition content_of ::
  "task_key \<Rightarrow> content_part \<Rightarrow> string \<Rightarrow> datetime \<Rightarrow> byte list option \<Rightarrow> stored_content_input list" where
  "content_of k part media at body =
     (case body of
        None \<Rightarrow> []
      | Some b \<Rightarrow> [\<lparr>sc_task = k, sc_part = part, sc_media_type = media, sc_body = b,
                    sc_headers = [], sc_created_at = at\<rparr>])"

definition extract_additional_contents ::
  "json_lib \<Rightarrow> (nat \<Rightarrow> datetime) \<Rightarrow> task_key \<Rightarrow> decoded_attempt \<Rightarrow> stored_content_input list" where
  "extract_additional_contents J clk k a =
     content_of k content_part.ToolInput ''application/json'' (clk 0) (extract_tool_inputs J a)
     @ content_of k content_part.ToolOutput ''application/json'' (clk 1) (extract_tool_outputs J a)
     @ content_of k content_part.ModelText ''text/plain'' (clk 2) (extract_model_text a)"

section \<open>Batches\<close>

record capture_batch =
  cb_records :: "summary_record list"
  cb_contents :: "stored_content_input list"

definition batch_empty :: capture_batch where
  "batch_empty = \<lparr>cb_records = [], cb_contents = []\<rparr>"

record task_cursor =
  cu_sequence :: u64
  cu_conversation_title :: "string option"
  cu_attempt_count :: u32
  cu_phase :: client_phase
  cu_outcome :: "task_outcome option"
  cu_started_at :: datetime
  cu_updated_at :: datetime
  cu_completeness :: completeness
  cu_model :: "string option"
  cu_tool_names :: "string list"
  cu_response_ids :: "string list"
  cu_usage :: token_usage

record lane_env =
  le_client_id :: string
  le_client_instance_id :: uuid
  le_http :: http_lib
  le_json :: json_lib
  le_sha256_hex :: "byte list \<Rightarrow> string"
  le_title :: "string \<Rightarrow> string option"
  le_has_attempt_response :: "task_key \<Rightarrow> string \<Rightarrow> bool"
  le_load_task_cursor :: "task_key \<Rightarrow> task_cursor option"

record decoded_exchange =
  dx_attempt :: decoded_attempt
  dx_request_raw :: "byte list"
  dx_response_raw :: "byte list"
  dx_request_headers :: "(string \<times> string) list"
  dx_response_headers :: "(string \<times> string) list"
  dx_response_status :: "u16 option"

definition exchange_task :: "lane_env \<Rightarrow> decoded_attempt \<Rightarrow> task_key" where
  "exchange_task E a =
     \<lparr>tk_client_id = le_client_id E, tk_provider = id_provider (da_identity a),
      tk_session_id = id_session_id (da_identity a), tk_thread_id = id_thread_id (da_identity a),
      tk_turn_id = id_turn_id (da_identity a)\<rparr>"

definition cursor_or :: "task_cursor option \<Rightarrow> 'a \<Rightarrow> (task_cursor \<Rightarrow> 'a) \<Rightarrow> 'a" where
  "cursor_or c d f = (case c of None \<Rightarrow> d | Some v \<Rightarrow> f v)"

definition exchange_summary ::
  "lane_env \<Rightarrow> (nat \<Rightarrow> datetime) \<Rightarrow> uuid \<Rightarrow> task_key \<Rightarrow> task_cursor option \<Rightarrow> decoded_attempt
     \<Rightarrow> attempt_projection \<Rightarrow> task_summary" where
  "exchange_summary E clk event_id k current a p =
     \<lparr>ts_task = k,
      ts_conversation_title = or_else (le_title E (tk_session_id k))
        (Option.bind current cu_conversation_title),
      ts_phase = ap_phase p, ts_outcome = ap_outcome p,
      ts_sequence = cursor_or current 1 (\<lambda>c. cu_sequence c + 1),
      ts_last_event_id = event_id,
      ts_started_at = cursor_or current (from_ms (da_request_at_ms a)) cu_started_at,
      ts_updated_at = clk 0,
      ts_terminal_at = (if ap_phase p = client_phase.Terminal then Some (clk 1) else None),
      ts_attempt_count = cursor_or current 1 (\<lambda>c. cu_attempt_count c + 1),
      ts_model = or_else (da_model a) (Option.bind current cu_model),
      ts_tool_names = merge_unique (cursor_or current [] cu_tool_names) (ap_tool_names p),
      ts_response_ids = merge_unique (cursor_or current [] cu_response_ids)
        (case ap_response_id p of None \<Rightarrow> [] | Some r \<Rightarrow> [r]),
      ts_usage = merge_usage (map_option cu_usage current) (Some (ap_usage p)),
      ts_completeness = ap_completeness p, ts_last_error = ap_error p\<rparr>"

definition summary_transition :: "transition_cause \<Rightarrow> task_summary \<Rightarrow> task_transition" where
  "summary_transition cause s =
     \<lparr>tt_event_id = ts_last_event_id s, tt_task = ts_task s, tt_sequence = ts_sequence s,
      tt_observed_at = ts_updated_at s, tt_phase = ts_phase s, tt_outcome = ts_outcome s,
      tt_cause = cause, tt_completeness = ts_completeness s, tt_error = ts_last_error s\<rparr>"

definition exchange_attempt ::
  "(nat \<Rightarrow> datetime) \<Rightarrow> task_key \<Rightarrow> u32 \<Rightarrow> decoded_attempt \<Rightarrow> attempt_projection \<Rightarrow> attempt_summary" where
  "exchange_attempt clk k ordinal a p =
     \<lparr>as_attempt_id = da_attempt_id a, as_task = k, as_ordinal = ordinal, as_status = ap_status p,
      as_started_at = from_ms (da_request_at_ms a), as_finished_at = Some (clk 2),
      as_response_id = ap_response_id p, as_model = da_model a,
      as_tool_names = ap_tool_names p, as_usage = ap_usage p,
      as_completeness = ap_completeness p, as_error = ap_error p\<rparr>"

definition media_type_of :: "(string \<times> string) list \<Rightarrow> string \<Rightarrow> string" where
  "media_type_of headers fallback = unwrap_or (map_get headers ''content-type'') fallback"

definition project_exchange ::
  "lane_env \<Rightarrow> (nat \<Rightarrow> datetime) \<Rightarrow> (nat \<Rightarrow> uuid) \<Rightarrow> decoded_exchange
     \<Rightarrow> http_parse_error + capture_batch" where
  "project_exchange E clk ids x =
     (let a = dx_attempt x; k = exchange_task E a; p = map_attempt_projection a in
      if cm_request_kind (da_codex a) \<noteq> ''turn'' then Inr batch_empty
      else if is_some_and (ap_response_id p) (le_has_attempt_response E k) then Inr batch_empty
      else
        let current = le_load_task_cursor E k;
            summary = exchange_summary E clk (ids 0) k current a p;
            attempt = exchange_attempt clk k (ts_attempt_count summary) a p in
        bindr (mapr (\<lambda>m. bd_decoded (ms_body m)) (parse_http_request (le_http E) (dx_request_raw x)))
          (\<lambda>request_body.
        bindr (mapr (\<lambda>m. bd_decoded (ms_body m)) (parse_http_response (le_http E) (dx_response_raw x)))
          (\<lambda>response_body.
          Inr \<lparr>cb_records =
                [Session \<lparr>ss_task = k, ss_parent_turn_id = cm_parent_turn_id (da_codex a),
                   ss_root_turn_id = cm_root_turn_id (da_codex a),
                   ss_first_seen_at = ts_started_at summary\<rparr>,
                 Attempt attempt,
                 HttpExchange \<lparr>hx_exchange_id = ids 1, hx_task = k,
                   hx_attempt_id = as_attempt_id attempt, hx_observed_at = clk 8,
                   hx_method = ''POST'', hx_path = ''/v1/responses'',
                   hx_status = dx_response_status x, hx_request_bytes = length request_body,
                   hx_response_bytes = length response_body,
                   hx_request_sha256 = Some (le_sha256_hex E request_body),
                   hx_response_sha256 = Some (le_sha256_hex E response_body),
                   hx_completeness = ap_completeness p\<rparr>,
                 Task summary, TaskTransition (summary_transition (ap_cause p) summary)],
               cb_contents =
                [\<lparr>sc_task = k, sc_part = content_part.Request,
                  sc_media_type = media_type_of (dx_request_headers x) ''application/json'',
                  sc_body = request_body, sc_headers = dx_request_headers x,
                  sc_created_at = clk 3\<rparr>,
                 \<lparr>sc_task = k, sc_part = content_part.Response,
                  sc_media_type = media_type_of (dx_response_headers x) ''text/event-stream'',
                  sc_body = response_body, sc_headers = dx_response_headers x,
                  sc_created_at = clk 4\<rparr>]
                @ extract_additional_contents (le_json E) (\<lambda>i. clk (5 + i)) k a\<rparr>)))"

definition gap_summary ::
  "lane_env \<Rightarrow> uuid \<Rightarrow> task_key \<Rightarrow> task_cursor \<Rightarrow> datetime \<Rightarrow> structured_error \<Rightarrow> task_summary" where
  "gap_summary E event_id k c observed_at err =
     \<lparr>ts_task = k,
      ts_conversation_title = or_else (le_title E (tk_session_id k)) (cu_conversation_title c),
      ts_phase = cu_phase c, ts_outcome = cu_outcome c, ts_sequence = cu_sequence c + 1,
      ts_last_event_id = event_id, ts_started_at = cu_started_at c, ts_updated_at = observed_at,
      ts_terminal_at = None, ts_attempt_count = cu_attempt_count c, ts_model = cu_model c,
      ts_tool_names = cu_tool_names c, ts_response_ids = cu_response_ids c,
      ts_usage = cu_usage c, ts_completeness = completeness.Degraded, ts_last_error = Some err\<rparr>"

definition project_gap ::
  "lane_env \<Rightarrow> (nat \<Rightarrow> uuid) \<Rightarrow> uuid \<Rightarrow> task_key option \<Rightarrow> datetime \<Rightarrow> string \<Rightarrow> u64 option
     \<Rightarrow> capture_batch" where
  "project_gap E ids flow_id task observed_at reason lost_bytes =
     (let gap = CaptureGap \<lparr>gs_gap_id = ids 0, gs_client_instance_id = le_client_instance_id E,
            gs_task = task, gs_observed_at = observed_at, gs_reason = reason,
            gs_lost_bytes = lost_bytes, gs_flow_id = Some flow_id\<rparr>;
          err = structured_error.CaptureLost \<lparr>cl_reason = reason, cl_lost_bytes = lost_bytes\<rparr>
      in \<lparr>cb_records = gap #
            (case task of
               None \<Rightarrow> []
             | Some k \<Rightarrow>
                 (case le_load_task_cursor E k of
                    None \<Rightarrow> []
                  | Some c \<Rightarrow>
                      if cu_phase c = client_phase.Terminal then []
                      else
                        (let s = gap_summary E (ids 1) k c observed_at err in
                         [Task s, TaskTransition
                            (summary_transition transition_cause.CaptureLost s)]))),
          cb_contents = []\<rparr>)"

definition exit_outcome :: "process_summary \<Rightarrow> task_outcome \<times> structured_error" where
  "exit_outcome process =
     (if is_some (ps_signal process) \<or> is_some_and (ps_exit_code process) (\<lambda>code. code \<noteq> 0)
      then (task_outcome.Terminated,
            ProcessTerminated \<lparr>pt_exit_code = ps_exit_code process, pt_signal = ps_signal process\<rparr>)
      else (task_outcome.Lost,
            structured_error.CaptureLost
              \<lparr>cl_reason = ''process exited without validated terminal turn event'',
               cl_lost_bytes = None\<rparr>))"

definition exit_summary ::
  "lane_env \<Rightarrow> uuid \<Rightarrow> task_key \<Rightarrow> task_cursor \<Rightarrow> datetime \<Rightarrow> process_summary \<Rightarrow> task_summary" where
  "exit_summary E event_id k c observed_at process =
     (let (outcome, err) = exit_outcome process in
      \<lparr>ts_task = k,
       ts_conversation_title = or_else (le_title E (tk_session_id k)) (cu_conversation_title c),
       ts_phase = client_phase.Terminal, ts_outcome = Some outcome,
       ts_sequence = cu_sequence c + 1, ts_last_event_id = event_id,
       ts_started_at = cu_started_at c, ts_updated_at = observed_at,
       ts_terminal_at = Some observed_at, ts_attempt_count = cu_attempt_count c,
       ts_model = cu_model c, ts_tool_names = cu_tool_names c,
       ts_response_ids = cu_response_ids c, ts_usage = cu_usage c,
       ts_completeness = cu_completeness c, ts_last_error = Some err\<rparr>)"

fun exit_tasks_loop ::
  "lane_env \<Rightarrow> (nat \<Rightarrow> uuid) \<Rightarrow> nat \<Rightarrow> datetime \<Rightarrow> process_summary \<Rightarrow> task_key list \<Rightarrow> summary_record list"
  where
  "exit_tasks_loop E ids i observed_at process [] = []"
| "exit_tasks_loop E ids i observed_at process (k # ks) =
     (case le_load_task_cursor E k of
        None \<Rightarrow> exit_tasks_loop E ids i observed_at process ks
      | Some c \<Rightarrow>
          if cu_phase c = client_phase.Terminal
          then exit_tasks_loop E ids i observed_at process ks
          else
            (let s = exit_summary E (ids i) k c observed_at process in
             Task s # TaskTransition (summary_transition transition_cause.ProcessExited s)
               # exit_tasks_loop E ids (Suc i) observed_at process ks))"

definition project_process_exit ::
  "lane_env \<Rightarrow> (nat \<Rightarrow> uuid) \<Rightarrow> datetime \<Rightarrow> process_summary \<Rightarrow> task_key list \<Rightarrow> capture_batch" where
  "project_process_exit E ids now process tasks =
     (let observed_at = unwrap_or (ps_exited_at process) now in
      \<lparr>cb_records = Process process # exit_tasks_loop E ids 0 observed_at process tasks,
       cb_contents = []\<rparr>)"

fun summary_record_task :: "summary_record \<Rightarrow> task_key option" where
  "summary_record_task (Task s) = Some (ts_task s)"
| "summary_record_task (Attempt a) = Some (as_task a)"
| "summary_record_task (TaskTransition t) = Some (tt_task t)"
| "summary_record_task (Session s) = Some (ss_task s)"
| "summary_record_task (CaptureGap g) = gs_task g"
| "summary_record_task (HttpExchange x) = Some (hx_task x)"
| "summary_record_task (Process p) = None"
| "summary_record_task (Heartbeat h) = None"

section \<open>What an attempt amounts to\<close>

text \<open>The event that decides an attempt is the last of its terminal events.\<close>

fun is_terminal_event :: "decoded_event \<Rightarrow> bool" where
  "is_terminal_event (TaskObserved m) = False"
| "is_terminal_event (AttemptStarted a m) = False"
| "is_terminal_event (ToolCall a n) = False"
| "is_terminal_event _ = True"

definition last_terminal :: "decoded_event list \<Rightarrow> decoded_event option" where
  "last_terminal es =
     (let t = filter is_terminal_event es in if t = [] then None else Some (last t))"

fun tool_name_of :: "decoded_event \<Rightarrow> string option" where
  "tool_name_of (ToolCall a n) = Some n"
| "tool_name_of _ = None"

definition called_tools :: "decoded_event list \<Rightarrow> string list" where
  "called_tools es = List.map_filter tool_name_of es"

type_synonym verdict =
  "client_attempt_status \<times> client_phase \<times> task_outcome option \<times> transition_cause \<times> completeness"

text \<open>
  The reference: a verdict from whether the request was complete, the deciding event and whether a
  tool was called.
\<close>

fun attempt_verdict :: "bool \<Rightarrow> decoded_event option \<Rightarrow> bool \<Rightarrow> verdict" where
  "attempt_verdict True (Some (decoded_event.AttemptCompleted a r True u)) False =
     (client_attempt_status.Completed, client_phase.Terminal, Some task_outcome.Completed,
      transition_cause.ResponseEndTurn, completeness.Complete)"
| "attempt_verdict True (Some (decoded_event.AttemptCompleted a r t u)) tools =
     (client_attempt_status.Completed, client_phase.AwaitingTool, None,
      transition_cause.ToolCallObserved, completeness.Complete)"
| "attempt_verdict True (Some (decoded_event.AttemptFailed a r e)) tools =
     (client_attempt_status.Failed, client_phase.Retrying, None,
      transition_cause.RetryScheduled, completeness.Complete)"
| "attempt_verdict True (Some (decoded_event.AttemptIncomplete a r e)) tools =
     (client_attempt_status.Incomplete, client_phase.Retrying, None,
      transition_cause.RetryScheduled, completeness.Complete)"
| "attempt_verdict True (Some (decoded_event.AttemptCancelled a r e)) tools =
     (client_attempt_status.Cancelled, client_phase.Retrying, None,
      transition_cause.RetryScheduled, completeness.Complete)"
| "attempt_verdict True (Some (decoded_event.HttpError a e)) tools =
     (client_attempt_status.Failed, client_phase.Retrying, None,
      transition_cause.RetryScheduled, completeness.Complete)"
| "attempt_verdict rc ev tools =
     (client_attempt_status.TransportLost, client_phase.Retrying, None,
      transition_cause.CaptureLost, completeness.Degraded)"

definition verdict_of :: "attempt_projection \<Rightarrow> verdict" where
  "verdict_of p = (ap_status p, ap_phase p, ap_outcome p, ap_cause p, ap_completeness p)"

abbreviation projected :: "decoded_event list \<Rightarrow> projection_state" where
  "projected es \<equiv> fold projection_event es projection_init"

lemma last_terminal_Nil [simp]: "last_terminal [] = None"
  by (simp add: last_terminal_def)

lemma last_terminal_snoc [simp]:
  "last_terminal (es @ [e]) = (if is_terminal_event e then Some e else last_terminal es)"
  by (simp add: last_terminal_def Let_def)

lemma last_terminal_in: "last_terminal es = Some e \<Longrightarrow> e \<in> set es \<and> is_terminal_event e"
  using last_in_set [of "filter is_terminal_event es"]
  by (auto simp: last_terminal_def Let_def split: if_splits)

lemma last_terminal_is_terminal: "last_terminal es = Some e \<Longrightarrow> is_terminal_event e"
  using last_terminal_in by blast

lemma called_tools_simps [simp]:
  "called_tools [] = []" "called_tools (es @ [e]) = called_tools es @
    (case tool_name_of e of None \<Rightarrow> [] | Some n \<Rightarrow> [n])"
  by (simp_all add: called_tools_def map_filter_def split: option.split)

lemma projected_saw: "pj_saw_terminal (projected es) = is_some (last_terminal es)"
proof (induction es rule: rev_induct)
  case (snoc e es)
  then show ?case by (cases e) (simp_all add: failed_attempt_def)
qed (simp add: projection_init_def)

lemma projected_tools:
  "set (pj_tool_names (projected es)) = set (called_tools es) \<and> distinct (pj_tool_names (projected es))"
proof (induction es rule: rev_induct)
  case (snoc e es)
  then show ?case by (cases e) (auto simp: failed_attempt_def)
qed (simp add: projection_init_def)

fun decides :: "decoded_event \<Rightarrow> projection_state \<Rightarrow> bool" where
  "decides (decoded_event.AttemptCompleted a r t u) s \<longleftrightarrow>
     pj_status s = client_attempt_status.Completed \<and> pj_phase s = client_phase.Running
     \<and> pj_end_turn s = t \<and> pj_response_id s = r
     \<and> pj_cause s = transition_cause.AttemptCompleted"
| "decides (decoded_event.AttemptFailed a r e) s \<longleftrightarrow>
     pj_status s = client_attempt_status.Failed \<and> pj_phase s = client_phase.Retrying
     \<and> pj_cause s = transition_cause.RetryScheduled
     \<and> pj_response_id s = r \<and> pj_error s = Some (structured_error_from_decoded e)"
| "decides (decoded_event.AttemptIncomplete a r e) s \<longleftrightarrow>
     pj_status s = client_attempt_status.Incomplete \<and> pj_phase s = client_phase.Retrying
     \<and> pj_cause s = transition_cause.RetryScheduled
     \<and> pj_response_id s = r \<and> pj_error s = Some (structured_error_from_decoded e)"
| "decides (decoded_event.AttemptCancelled a r e) s \<longleftrightarrow>
     pj_status s = client_attempt_status.Cancelled \<and> pj_phase s = client_phase.Retrying
     \<and> pj_cause s = transition_cause.RetryScheduled
     \<and> pj_response_id s = r \<and> pj_error s = Some (structured_error_from_decoded e)"
| "decides (decoded_event.HttpError a e) s \<longleftrightarrow>
     pj_status s = client_attempt_status.Failed \<and> pj_phase s = client_phase.Retrying
     \<and> pj_cause s = transition_cause.RetryScheduled
     \<and> pj_error s = Some (structured_error_from_decoded e)"
| "decides _ s \<longleftrightarrow> True"

lemma decides_tools [simp]: "decides e (s\<lparr>pj_tool_names := n\<rparr>) = decides e s"
  by (cases e) simp_all

lemma projected_decides: "last_terminal es = Some e \<Longrightarrow> decides e (projected es)"
proof (induction es arbitrary: e rule: rev_induct)
  case (snoc x es)
  then show ?case by (cases x) (auto simp: failed_attempt_def)
qed simp

lemma projection_verdict:
  "verdict_of (map_attempt_projection a) =
     attempt_verdict (da_request_complete a) (last_terminal (da_decoded_events a))
       (called_tools (da_decoded_events a) \<noteq> [])"
proof (cases "last_terminal (da_decoded_events a)")
  case None
  then show ?thesis
    using projected_saw [of "da_decoded_events a"]
    by (simp add: verdict_of_def map_attempt_projection_def Let_def)
next
  case (Some e)
  then have saw: "pj_saw_terminal (projected (da_decoded_events a))"
    by (simp add: projected_saw)
  have tools: "pj_tool_names (projected (da_decoded_events a)) = [] \<longleftrightarrow>
      called_tools (da_decoded_events a) = []"
    using projected_tools [of "da_decoded_events a"] by (metis set_empty)
  note d = projected_decides [OF Some] last_terminal_is_terminal [OF Some]
  show ?thesis
  proof (cases "da_request_complete a")
    case False
    then show ?thesis
      by (simp add: verdict_of_def map_attempt_projection_def Let_def)
  next
    case True
    then show ?thesis
      using d saw tools Some
      by (cases e; cases "called_tools (da_decoded_events a) = []")
         (auto simp: verdict_of_def map_attempt_projection_def Let_def split: bool.split)
  qed
qed

text \<open>
  What an attempt amounts to is decided by three facts: whether the whole request was captured,
  the last of the terminal events of the response, and whether any tool was called. A completed
  response ends the turn only when its \<open>end_turn\<close> is set and no tool was called; a failed, incomplete
  or cancelled one or an HTTP error schedules a retry with its error; without a terminal event or
  with an incomplete request the transport was lost and the capture is degraded.
\<close>

theorem attempt_projection_verdict:
  "verdict_of (map_attempt_projection a) =
     attempt_verdict (da_request_complete a) (last_terminal (da_decoded_events a))
       (called_tools (da_decoded_events a) \<noteq> [])"
  by (rule projection_verdict)

section \<open>The evidence a finished turn rests on\<close>

text \<open>The same verdict, read off the JSON events of the response.\<close>

definition event_type :: "json \<Rightarrow> string" where
  "event_type j = unwrap_or (get_str j ''type'') []"

definition closes :: "json \<Rightarrow> bool" where
  "closes j \<longleftrightarrow> event_type j \<in> {''error'', ''response.completed'', ''response.failed'',
     ''response.incomplete'', ''response.cancelled''}"

definition closing_event :: "json list \<Rightarrow> json option" where
  "closing_event js = (let t = filter closes js in if t = [] then None else Some (last t))"

definition end_turn_of :: "json \<Rightarrow> bool" where
  "end_turn_of j = unwrap_or (Option.bind (opt_get (json_get j ''response'') ''end_turn'') as_bool) True"

definition calls_tool :: "json \<Rightarrow> bool" where
  "calls_tool j \<longleftrightarrow> event_type j \<in> {''response.output_item.added'', ''response.output_item.done''}
     \<and> is_some_and (json_get j ''item'') (\<lambda>i. is_tool_call_type (event_type i))"

definition ends_turn :: "json list \<Rightarrow> bool" where
  "ends_turn js \<longleftrightarrow>
     is_some_and (closing_event js) (\<lambda>j. event_type j = ''response.completed'' \<and> end_turn_of j)
     \<and> \<not> list_ex calls_tool js"

lemma last_terminal_append:
  "last_terminal (xs @ ys) = or_else (last_terminal ys) (last_terminal xs)"
  by (induction ys rule: rev_induct) (simp_all flip: append_assoc)

lemma called_tools_append: "called_tools (xs @ ys) = called_tools xs @ called_tools ys"
  by (simp add: called_tools_def map_filter_def)

lemma tool_call_of_facts:
  "last_terminal (tool_call_of j a) = None"
  "called_tools (tool_call_of j a) \<noteq> [] \<longleftrightarrow>
     is_some_and (json_get j ''item'') (\<lambda>i. is_tool_call_type (event_type i))"
  by (simp_all add: tool_call_of_def last_terminal_def called_tools_def map_filter_def
      event_type_def Let_def split: option.split)

lemma map_responses_terminal:
  "last_terminal (map_responses_event j a) =
     (if closes j then Some (last (map_responses_event j a)) else None)"
  by (simp add: map_responses_event_def closes_def event_type_def tool_call_of_facts Let_def
      completed_of_def) (simp add: last_terminal_def)

lemma map_responses_calls:
  "called_tools (map_responses_event j a) \<noteq> [] \<longleftrightarrow> calls_tool j"
  by (auto simp: map_responses_event_def calls_tool_def tool_call_of_facts Let_def completed_of_def
      event_type_def [of j]) (auto simp: called_tools_def map_filter_def)

lemma closing_event_snoc:
  "closing_event (js @ [j]) = (if closes j then Some j else closing_event js)"
  by (simp add: closing_event_def Let_def)

lemma closing_event_closes: "closing_event js = Some j \<Longrightarrow> closes j"
  using last_in_set [of "filter closes js"]
  by (auto simp: closing_event_def Let_def split: if_splits)

lemma response_terminal:
  "last_terminal (concat (map (\<lambda>j. map_responses_event j a) js)) =
     map_option (\<lambda>j. last (map_responses_event j a)) (closing_event js)"
  by (induction js rule: rev_induct)
     (simp_all add: closing_event_def [of "[]"] closing_event_snoc last_terminal_append
        map_responses_terminal)

lemma response_calls:
  "called_tools (concat (map (\<lambda>j. map_responses_event j a) js)) \<noteq> [] \<longleftrightarrow> list_ex calls_tool js"
proof (induction js)
  case (Cons j js)
  then show ?case
    using map_responses_calls [of j a] by (simp add: called_tools_append)
qed simp

lemma attempt_verdict_terminal:
  "fst (snd (attempt_verdict rc ev tools)) = client_phase.Terminal \<longleftrightarrow>
     rc \<and> (\<exists>a r u. ev = Some (decoded_event.AttemptCompleted a r True u)) \<and> \<not> tools"
  by (cases "(rc, ev, tools)" rule: attempt_verdict.cases) auto

lemma closing_completed:
  assumes "closes j"
  shows "(\<exists>b r u. last (map_responses_event j a) = decoded_event.AttemptCompleted b r True u)
     \<longleftrightarrow> event_type j = ''response.completed'' \<and> end_turn_of j"
  using assms
  by (auto simp: map_responses_event_def closes_def event_type_def completed_of_def end_turn_of_def
      Let_def)

text \<open>
  C34. From the captured bytes to the verdict: the projection of a decoded exchange ends the turn
  exactly when the request was captured completely, the last of the closing events of the response
  is a \<open>response.completed\<close> whose \<open>end_turn\<close> is not false, and no output item was a tool call. In
  particular no HTTP error, truncated response or tool round ends a turn.
\<close>

theorem turn_end_evidence:
  assumes "decode_http_exchange L J aid request response at = Inr d"
  shows "ap_phase (map_attempt_projection d) = client_phase.Terminal \<longleftrightarrow>
     da_request_complete d \<and> ends_turn (da_response_json_events d)"
proof -
  let ?js = "da_response_json_events d"
  let ?init = "[TaskObserved (da_model d), decoded_event.AttemptStarted aid (da_model d)]"
  obtain r where r: "decode_response J aid r ?init = Inr (da_decoded_events d, ?js)"
    using exchange_result(3) [OF assms] ..
  have init: "last_terminal ?init = None" "called_tools ?init = []"
    by (simp_all add: last_terminal_def called_tools_def map_filter_def)
  have v: "ap_phase (map_attempt_projection d) = client_phase.Terminal \<longleftrightarrow>
     da_request_complete d
     \<and> (\<exists>a r u. last_terminal (da_decoded_events d) = Some (decoded_event.AttemptCompleted a r True u))
     \<and> called_tools (da_decoded_events d) = []"
  proof -
    have "ap_phase (map_attempt_projection d) = fst (snd (verdict_of (map_attempt_projection d)))"
      by (simp add: verdict_of_def)
    then show ?thesis by (simp add: projection_verdict attempt_verdict_terminal)
  qed
  from decode_response_ok [OF r] show ?thesis
  proof (elim disjE exE conjE)
    fix err
    assume "da_decoded_events d = ?init @ [decoded_event.HttpError (Some aid) err]" "?js = []"
    then show ?thesis by (simp add: v last_terminal_def ends_turn_def closing_event_def)
  next
    assume e: "da_decoded_events d = ?init @ concat (map (\<lambda>j. map_responses_event j aid) ?js)"
    have "last_terminal (da_decoded_events d) =
        map_option (\<lambda>j. last (map_responses_event j aid)) (closing_event ?js)"
      using init by (simp only: e last_terminal_append response_terminal)
        (cases "closing_event ?js"; simp)
    moreover have "called_tools (da_decoded_events d) = [] \<longleftrightarrow> \<not> list_ex calls_tool ?js"
      using init response_calls [of aid ?js] by (simp only: e called_tools_append append_Nil) blast
    ultimately show ?thesis
      using closing_event_closes [of ?js] closing_completed
      by (cases "closing_event ?js") (auto simp: v ends_turn_def)
  qed
qed

text \<open>A concrete exchange: a request of kind turn and a response of one completed event.\<close>

definition sample_head :: parsed_head where
  "sample_head = \<lparr>hd_length = 0, hd_version = Some 1, hd_method = Some ''POST'',
     hd_path = Some ''/v1/responses'', hd_code = Some 200, hd_headers = []\<rparr>"

definition sample_http :: http_lib where
  "sample_http = \<lparr>hl_parse_request = (\<lambda>b. Some sample_head), hl_parse_response = (\<lambda>b. Some sample_head),
     hl_method = Some, hl_uri = Some, hl_status = Some, hl_header_name = Some,
     hl_header_value = Some, hl_to_str = (\<lambda>b. Some (bytes_str b)), hl_gzip = Inr,
     hl_brotli = Inr, hl_zstd = Inr\<rparr>"

definition sample_request_json :: json where
  "sample_request_json = JObject [(''model'', JString ''m''),
     (''client_metadata'', JObject [(''x-codex-turn-metadata'', JString ''meta'')])]"

definition sample_metadata_json :: json where
  "sample_metadata_json = JObject [(''session_id'', JString ''s''), (''thread_id'', JString ''t''),
     (''turn_id'', JString ''u''), (''request_kind'', JString ''turn'')]"

definition sample_completed_json :: json where
  "sample_completed_json = JObject [(''type'', JString ''response.completed''),
     (''response'', JObject [(''id'', JString ''r''), (''end_turn'', JBool True)])]"

definition sample_json :: json_lib where
  "sample_json = \<lparr>
     jl_from_str = (\<lambda>s. Inr (if s = ''meta'' then sample_metadata_json else sample_completed_json)),
     jl_from_slice = (\<lambda>b. Inr sample_request_json), jl_to_string = (\<lambda>j. ''[]'')\<rparr>"

definition sample_response :: "byte list" where
  "sample_response = str_bytes (''data: x'' @ [char_of (10 :: nat), char_of (10 :: nat)])"

lemma sample_exchange:
  "\<exists>d. decode_http_exchange sample_http sample_json (Uuid 7 1) [123] sample_response 5 = Inr d
     \<and> da_request_complete d \<and> da_response_json_events d = [sample_completed_json]
     \<and> cm_request_kind (da_codex d) = ''turn''"
proof -
  have "case decode_http_exchange sample_http sample_json (Uuid 7 1) [123] sample_response 5 of
      Inr d \<Rightarrow> da_request_complete d \<and> da_response_json_events d = [sample_completed_json]
        \<and> cm_request_kind (da_codex d) = ''turn''
    | Inl _ \<Rightarrow> False"
    by code_simp
  then show ?thesis by (auto split: sum.splits)
qed

theorem turn_end_evidence_witness:
  "\<exists>d. decode_http_exchange sample_http sample_json (Uuid 7 1) [123] sample_response 5 = Inr d
     \<and> ap_phase (map_attempt_projection d) = client_phase.Terminal"
proof -
  obtain d where d: "decode_http_exchange sample_http sample_json (Uuid 7 1) [123] sample_response 5 = Inr d"
    "da_request_complete d" "da_response_json_events d = [sample_completed_json]"
    using sample_exchange by blast
  have "ends_turn [sample_completed_json]" by code_simp
  with turn_end_evidence [OF d(1)] d show ?thesis by auto
qed

section \<open>Batches keep to their task and advance its cursor\<close>

lemma merge_one_facts:
  "set (merge_one v c) = set c \<union> ({v} - {[]})"
  "distinct c \<Longrightarrow> distinct (merge_one v c)" "prefix c (merge_one v c)"
  by (auto simp: merge_one_def)

lemma merge_unique_facts:
  shows "set (merge_unique c a) = set c \<union> (set a - {[]})"
    and "distinct c \<Longrightarrow> distinct (merge_unique c a)" and "prefix c (merge_unique c a)"
proof -
  show "set (merge_unique c a) = set c \<union> (set a - {[]})"
    unfolding merge_unique_def by (induction a arbitrary: c) (auto simp: merge_one_facts)
  show "distinct c \<Longrightarrow> distinct (merge_unique c a)"
    unfolding merge_unique_def by (induction a arbitrary: c) (auto simp: merge_one_facts)
  show "prefix c (merge_unique c a)"
    unfolding merge_unique_def
  proof (induction a arbitrary: c)
    case (Cons x a)
    then show ?case
      using merge_one_facts(3) [of c x] prefix_order.trans by fastforce
  qed simp
qed

lemma content_of_task: "sc_task c = k" if "c \<in> set (content_of k part media at body)"
  using that by (auto simp: content_of_def split: option.splits)

lemma additional_contents_task: "list_all (\<lambda>c. sc_task c = k) (extract_additional_contents J clk k a)"
  by (auto simp: extract_additional_contents_def list_all_iff dest: content_of_task)

lemma attempt_projection_outcome:
  "ap_outcome (map_attempt_projection a) =
     (if ap_phase (map_attempt_projection a) = client_phase.Terminal
      then Some task_outcome.Completed else None)"
proof -
  define v where "v = verdict_of (map_attempt_projection a)"
  have "fst (snd (snd v)) = (if fst (snd v) = client_phase.Terminal then Some task_outcome.Completed else None)"
    unfolding v_def projection_verdict
    by (cases "(da_request_complete a, last_terminal (da_decoded_events a),
      called_tools (da_decoded_events a) \<noteq> [])" rule: attempt_verdict.cases) auto
  then show ?thesis by (simp add: v_def verdict_of_def)
qed

text \<open>The declarative content of a task summary that advances a stored cursor by one exchange.\<close>

definition advances :: "task_cursor option \<Rightarrow> attempt_projection \<Rightarrow> task_summary \<Rightarrow> bool" where
  "advances current p s \<longleftrightarrow>
     ts_sequence s = cursor_or current 1 (\<lambda>c. cu_sequence c + 1)
     \<and> ts_attempt_count s = cursor_or current 1 (\<lambda>c. cu_attempt_count c + 1)
     \<and> ts_phase s = ap_phase p \<and> ts_outcome s = ap_outcome p
     \<and> is_some (ts_terminal_at s) = (ap_phase p = client_phase.Terminal)
     \<and> prefix (cursor_or current [] cu_tool_names) (ts_tool_names s)
     \<and> set (ts_tool_names s) =
         set (cursor_or current [] cu_tool_names) \<union> (set (ap_tool_names p) - {[]})
     \<and> prefix (cursor_or current [] cu_response_ids) (ts_response_ids s)
     \<and> set (ts_response_ids s) =
         set (cursor_or current [] cu_response_ids) \<union> (set_option (ap_response_id p) - {[]})"

lemma exchange_summary_advances: "advances current p (exchange_summary E clk ev k current a p)"
proof -
  have "set (case ap_response_id p of None \<Rightarrow> [] | Some r \<Rightarrow> [r]) = set_option (ap_response_id p)"
    by (cases "ap_response_id p") simp_all
  then show ?thesis
    by (simp add: advances_def exchange_summary_def merge_unique_facts)
qed

text \<open>
  An exchange that is no turn request, or whose response was already recorded for its task,
  leaves no trace. Every other one gives five records and at least the two bodies, all of the one
  task the metadata names: its attempt is numbered one more than the cursor counts, its summary
  carries the next sequence number and keeps every tool name and response id it had, its
  transition repeats the summary, and the digests are those of the bodies handed to the store.
\<close>

theorem exchange_batch_of_one_task:
  assumes "project_exchange E clk ids x = Inr b" and "k = exchange_task E (dx_attempt x)"
    and "p = map_attempt_projection (dx_attempt x)" and "current = le_load_task_cursor E k"
  shows "if cm_request_kind (da_codex (dx_attempt x)) \<noteq> ''turn''
         \<or> is_some_and (ap_response_id p) (le_has_attempt_response E k)
     then b = batch_empty
     else \<exists>ses att ex s rq rs more.
         cb_records b = [Session ses, Attempt att, HttpExchange ex, Task s,
           TaskTransition (summary_transition (ap_cause p) s)]
         \<and> cb_contents b = rq # rs # more
         \<and> list_all (\<lambda>r. summary_record_task r = Some k) (cb_records b)
         \<and> list_all (\<lambda>c. sc_task c = k) (cb_contents b)
         \<and> advances current p s \<and> as_ordinal att = ts_attempt_count s
         \<and> as_status att = ap_status p \<and> ts_last_error s = as_error att
         \<and> sc_part rq = content_part.Request \<and> sc_part rs = content_part.Response
         \<and> hx_request_sha256 ex = Some (le_sha256_hex E (sc_body rq))
         \<and> hx_response_sha256 ex = Some (le_sha256_hex E (sc_body rs))"
proof (cases "cm_request_kind (da_codex (dx_attempt x)) \<noteq> ''turn''
    \<or> is_some_and (ap_response_id p) (le_has_attempt_response E k)")
  case True
  then have "project_exchange E clk ids x = Inr batch_empty"
    unfolding assms(2,3) by (auto simp: project_exchange_def Let_def)
  with assms(1) True show ?thesis by simp
next
  case False
  let ?s = "exchange_summary E clk (ids 0) k current (dx_attempt x) p"
  from assms(1) False
  obtain rq rs where b: "cb_records b =
      [Session \<lparr>ss_task = k, ss_parent_turn_id = cm_parent_turn_id (da_codex (dx_attempt x)),
         ss_root_turn_id = cm_root_turn_id (da_codex (dx_attempt x)),
         ss_first_seen_at = ts_started_at ?s\<rparr>,
       Attempt (exchange_attempt clk k (ts_attempt_count ?s) (dx_attempt x) p),
       HttpExchange \<lparr>hx_exchange_id = ids 1, hx_task = k, hx_attempt_id = da_attempt_id (dx_attempt x),
         hx_observed_at = clk 8, hx_method = ''POST'', hx_path = ''/v1/responses'',
         hx_status = dx_response_status x, hx_request_bytes = length rq,
         hx_response_bytes = length rs, hx_request_sha256 = Some (le_sha256_hex E rq),
         hx_response_sha256 = Some (le_sha256_hex E rs), hx_completeness = ap_completeness p\<rparr>,
       Task ?s, TaskTransition (summary_transition (ap_cause p) ?s)]"
    and c: "cb_contents b =
      \<lparr>sc_task = k, sc_part = content_part.Request,
        sc_media_type = media_type_of (dx_request_headers x) ''application/json'',
        sc_body = rq, sc_headers = dx_request_headers x, sc_created_at = clk 3\<rparr>
      # \<lparr>sc_task = k, sc_part = content_part.Response,
         sc_media_type = media_type_of (dx_response_headers x) ''text/event-stream'',
         sc_body = rs, sc_headers = dx_response_headers x, sc_created_at = clk 4\<rparr>
      # extract_additional_contents (le_json E) (\<lambda>i. clk (5 + i)) k (dx_attempt x)"
    by (auto simp: project_exchange_def Let_def bindr_eq_Inr exchange_attempt_def
        assms(2-4) [symmetric])
  show ?thesis
    using False exchange_summary_advances [of current p E clk "ids 0" k "dx_attempt x"]
    by (simp add: b c additional_contents_task exchange_attempt_def summary_transition_def)
      (simp add: exchange_summary_def)
qed

definition sample_env :: lane_env where
  "sample_env =
     \<lparr>le_client_id = ''c'', le_client_instance_id = Uuid 7 9, le_http = sample_http,
      le_json = sample_json, le_sha256_hex = (\<lambda>b. ''h''), le_title = (\<lambda>s. None),
      le_has_attempt_response = (\<lambda>k r. False), le_load_task_cursor = (\<lambda>k. None)\<rparr>"

lemma sample_bodies: "is_ok (parse_http_request sample_http [123])"
  "is_ok (parse_http_response sample_http sample_response)"
  by code_simp+

theorem exchange_batch_of_one_task_witness:
  "\<exists>x b s. dx_request_raw x = [123] \<and> project_exchange sample_env (\<lambda>i. 7) (Uuid 7) x = Inr b
     \<and> Task s \<in> set (cb_records b) \<and> ts_sequence s = 1"
proof -
  obtain d :: decoded_attempt where d: "cm_request_kind (da_codex d) = ''turn''"
    using sample_exchange by blast
  define x where "x = \<lparr>dx_attempt = d, dx_request_raw = [123], dx_response_raw = sample_response,
      dx_request_headers = [], dx_response_headers = [], dx_response_status = Some 200\<rparr>"
  have env: "le_has_attempt_response sample_env = (\<lambda>k r. False)"
    "le_load_task_cursor sample_env = (\<lambda>k. None)" "le_http sample_env = sample_http"
    by (simp_all add: sample_env_def)
  obtain b where b: "project_exchange sample_env (\<lambda>i. 7) (Uuid 7) x = Inr b"
    using sample_bodies d
    by (auto simp: project_exchange_def Let_def x_def env is_some_and_iff is_ok_iff)
  have "\<not> (cm_request_kind (da_codex (dx_attempt x)) \<noteq> ''turn''
      \<or> is_some_and (ap_response_id (map_attempt_projection (dx_attempt x)))
          (le_has_attempt_response sample_env (exchange_task sample_env (dx_attempt x))))"
    using d by (simp add: x_def env is_some_and_iff)
  with exchange_batch_of_one_task [OF b refl refl refl]
  have "\<exists>s. Task s \<in> set (cb_records b) \<and> ts_sequence s = 1"
    by (auto simp: advances_def env cursor_or_def)
  moreover have "dx_request_raw x = [123]"
    by (simp add: x_def)
  ultimately show ?thesis using b by blast
qed

section \<open>Gaps and process exits\<close>

text \<open>The tasks of a list that the store knows and has not seen end.\<close>

definition open_tasks :: "lane_env \<Rightarrow> task_key list \<Rightarrow> task_key list" where
  "open_tasks E ks = [k \<leftarrow> ks. is_some_and (le_load_task_cursor E k)
     (\<lambda>c. cu_phase c \<noteq> client_phase.Terminal)]"

definition ends_with :: "lane_env \<Rightarrow> datetime \<Rightarrow> process_summary \<Rightarrow> task_summary \<Rightarrow> bool" where
  "ends_with E at process s \<longleftrightarrow>
     ts_phase s = client_phase.Terminal \<and> ts_terminal_at s = Some at \<and> ts_updated_at s = at
     \<and> ts_outcome s = Some (fst (exit_outcome process))
     \<and> ts_last_error s = Some (snd (exit_outcome process))
     \<and> is_some_and (le_load_task_cursor E (ts_task s)) (\<lambda>c.
         ts_sequence s = cu_sequence c + 1 \<and> ts_attempt_count s = cu_attempt_count c
         \<and> ts_tool_names s = cu_tool_names c \<and> ts_response_ids s = cu_response_ids c
         \<and> ts_usage s = cu_usage c)"

definition with_transition :: "transition_cause \<Rightarrow> task_summary \<Rightarrow> summary_record list" where
  "with_transition cause s = [Task s, TaskTransition (summary_transition cause s)]"

lemma exit_summary_ends:
  "le_load_task_cursor E k = Some c \<Longrightarrow> ends_with E at process (exit_summary E ev k c at process)"
  by (simp add: ends_with_def exit_summary_def split: prod.split)

lemma exit_summary_ids [simp]:
  "ts_task (exit_summary E ev k c at process) = k"
  "ts_last_event_id (exit_summary E ev k c at process) = ev"
  by (simp_all add: exit_summary_def split: prod.split)

lemma exit_tasks_loop_summaries:
  "\<exists>ss. exit_tasks_loop E ids i at process ks =
       concat (map (with_transition transition_cause.ProcessExited) ss)
     \<and> map ts_task ss = open_tasks E ks
     \<and> map ts_last_event_id ss = map ids [i..<i + length ss]
     \<and> list_all (ends_with E at process) ss"
proof (induction ks arbitrary: i)
  case Nil
  then show ?case by (auto simp: open_tasks_def)
next
  case (Cons k ks)
  show ?case
  proof (cases "\<exists>c. le_load_task_cursor E k = Some c \<and> cu_phase c \<noteq> client_phase.Terminal")
    case False
    then show ?thesis
      using Cons [of i] by (auto simp: open_tasks_def split: option.split)
  next
    case True
    then obtain c where c: "le_load_task_cursor E k = Some c" "cu_phase c \<noteq> client_phase.Terminal"
      by blast
    let ?s = "exit_summary E (ids i) k c at process"
    obtain ss where ss: "exit_tasks_loop E ids (Suc i) at process ks =
         concat (map (with_transition transition_cause.ProcessExited) ss)"
      "map ts_task ss = open_tasks E ks"
      "map ts_last_event_id ss = map ids [Suc i..<Suc i + length ss]"
      "list_all (ends_with E at process) ss"
      using Cons [of "Suc i"] by blast
    have "map ids [i..<i + length (?s # ss)] = ids i # map ids [Suc i..<Suc i + length ss]"
      by (simp add: upt_conv_Cons del: upt_Suc)
    with ss c exit_summary_ends [OF c(1)] show ?thesis
      by (intro exI [of _ "?s # ss"])
        (simp add: open_tasks_def with_transition_def [of _ ?s] Let_def del: upt_Suc)
  qed
qed

text \<open>
  When a process exits, the batch holds its record and then, for each of its tasks the store
  knows and has not seen end, in order and with an identifier of its own, a terminal summary and its
  transition: terminated with the exit status when the process died of a signal or a
  non-zero code, lost otherwise, one sequence number past the cursor and keeping what the cursor
  accumulated. Tasks that already ended are not touched.
\<close>

theorem process_exit_ends_open_tasks:
  "\<exists>ss. project_process_exit E ids now process ks =
       \<lparr>cb_records = Process process
          # concat (map (with_transition transition_cause.ProcessExited) ss), cb_contents = []\<rparr>
     \<and> map ts_task ss = open_tasks E ks
     \<and> map ts_last_event_id ss = map ids [0..<length ss]
     \<and> list_all (ends_with E (unwrap_or (ps_exited_at process) now) process) ss"
  using exit_tasks_loop_summaries
    [of E ids 0 "unwrap_or (ps_exited_at process) now" process ks]
  by (simp add: project_process_exit_def Let_def)

text \<open>What a gap makes of an open task: degraded, with its phase, outcome and contents kept.\<close>

definition degrades :: "task_cursor \<Rightarrow> string \<Rightarrow> u64 option \<Rightarrow> task_summary \<Rightarrow> bool" where
  "degrades c reason lost s \<longleftrightarrow>
     ts_phase s = cu_phase c \<and> ts_outcome s = cu_outcome c \<and> ts_sequence s = cu_sequence c + 1
     \<and> ts_completeness s = completeness.Degraded
     \<and> ts_last_error s = Some (structured_error.CaptureLost
         \<lparr>cl_reason = reason, cl_lost_bytes = lost\<rparr>)
     \<and> ts_terminal_at s = None \<and> ts_attempt_count s = cu_attempt_count c
     \<and> ts_tool_names s = cu_tool_names c \<and> ts_response_ids s = cu_response_ids c"

text \<open>
  A capture gap never ends or revives a task: it is recorded with its flow and reason, and
  a task that is known and open is degraded with the loss as its error, one sequence number on and
  with its phase kept; a task that ended, or is unknown, gets no record besides the gap itself.
\<close>

theorem gap_degrades_open_task:
  "\<exists>g ss. project_gap E ids flow task at reason lost =
       \<lparr>cb_records = CaptureGap g
          # concat (map (with_transition transition_cause.CaptureLost) ss), cb_contents = []\<rparr>
     \<and> gs_task g = task \<and> gs_reason g = reason \<and> gs_lost_bytes g = lost \<and> gs_flow_id g = Some flow
     \<and> map ts_task ss = open_tasks E (case task of None \<Rightarrow> [] | Some k \<Rightarrow> [k])
     \<and> list_all (\<lambda>s. is_some_and (le_load_task_cursor E (ts_task s))
         (\<lambda>c. degrades c reason lost s)) ss"
proof (cases "\<exists>k c. task = Some k \<and> le_load_task_cursor E k = Some c
    \<and> cu_phase c \<noteq> client_phase.Terminal")
  case True
  then obtain k c where k: "task = Some k" "le_load_task_cursor E k = Some c"
    "cu_phase c \<noteq> client_phase.Terminal" by blast
  let ?s = "gap_summary E (ids 1) k c at
      (structured_error.CaptureLost \<lparr>cl_reason = reason, cl_lost_bytes = lost\<rparr>)"
  from k show ?thesis
    by (intro exI [of _ "\<lparr>gs_gap_id = ids 0, gs_client_instance_id = le_client_instance_id E,
            gs_task = task, gs_observed_at = at, gs_reason = reason,
            gs_lost_bytes = lost, gs_flow_id = Some flow\<rparr>"] exI [of _ "[?s]"])
      (simp add: project_gap_def Let_def with_transition_def open_tasks_def degrades_def
        gap_summary_def)
next
  case False
  then show ?thesis
    by (intro exI [of _ "\<lparr>gs_gap_id = ids 0, gs_client_instance_id = le_client_instance_id E,
            gs_task = task, gs_observed_at = at, gs_reason = reason,
            gs_lost_bytes = lost, gs_flow_id = Some flow\<rparr>"] exI [of _ "[]"])
      (auto simp: project_gap_def Let_def open_tasks_def is_some_and_iff split: option.split)
qed

end
