(* ===== verification/Client_Wire.thy ===== *)
theory Client_Wire
  imports Client_Projection Protocol_Validation
begin

text \<open>
  From the client's records to the wire contract: the pure functions at the end of
  \<open>crates/client/src/store.rs\<close>. The error identifiers that \<open>Uuid::now_v7\<close> draws, the digest and
  the textual form of a UUID are arguments.
\<close>

section \<open>Normalising records\<close>

definition is_char_boundary :: "string \<Rightarrow> nat \<Rightarrow> bool" where
  "is_char_boundary s i =
     (i = 0 \<or> i = length s \<or> (i < length s \<and> \<not> (0x80 \<le> code (s ! i) \<and> code (s ! i) \<le> 0xBF)))"

fun floor_boundary :: "string \<Rightarrow> nat \<Rightarrow> nat" where
  "floor_boundary s 0 = 0"
| "floor_boundary s (Suc e) = (if is_char_boundary s (Suc e) then Suc e else floor_boundary s e)"

definition truncation_suffix :: "(byte list \<Rightarrow> string) \<Rightarrow> string \<Rightarrow> string" where
  "truncation_suffix sha message =
     '' [truncated orig_len='' @ show_nat (length message) @ '' sha256=''
       @ sha (str_bytes message) @ '']''"

definition truncate_message :: "(byte list \<Rightarrow> string) \<Rightarrow> string \<Rightarrow> string" where
  "truncate_message sha message =
     (if length message \<le> 32 * 1024 then message
      else
        let suffix = truncation_suffix sha message;
            stop = floor_boundary message (32 * 1024 - length suffix)
        in take stop message @ suffix)"

fun normalize_error :: "(byte list \<Rightarrow> string) \<Rightarrow> structured_error \<Rightarrow> structured_error" where
  "normalize_error sha (structured_error.Provider e) =
     structured_error.Provider (e\<lparr>pe_message := truncate_message sha (pe_message e)\<rparr>)"
| "normalize_error sha (structured_error.Http e) =
     structured_error.Http (e\<lparr>he_provider_error := map_option
       (\<lambda>p. p\<lparr>pe_message := truncate_message sha (pe_message p)\<rparr>) (he_provider_error e)\<rparr>)"
| "normalize_error sha (structured_error.Incomplete reason) =
     structured_error.Incomplete (truncate_message sha reason)"
| "normalize_error sha (structured_error.CodexTerminal e) =
     structured_error.CodexTerminal (e\<lparr>ct_message := truncate_message sha (ct_message e)\<rparr>)"
| "normalize_error sha (structured_error.TurnAborted reason) =
     structured_error.TurnAborted (truncate_message sha reason)"
| "normalize_error sha (structured_error.CaptureLost e) =
     structured_error.CaptureLost (e\<lparr>cl_reason := truncate_message sha (cl_reason e)\<rparr>)"
| "normalize_error sha (structured_error.ProcessTerminated e) = structured_error.ProcessTerminated e"
| "normalize_error sha (structured_error.UnsupportedCodexBuild e) =
     structured_error.UnsupportedCodexBuild e"

fun normalize_record :: "(byte list \<Rightarrow> string) \<Rightarrow> summary_record \<Rightarrow> summary_record" where
  "normalize_record sha (Task s) =
     Task (s\<lparr>ts_last_error := map_option (normalize_error sha) (ts_last_error s)\<rparr>)"
| "normalize_record sha (TaskTransition t) =
     TaskTransition (t\<lparr>tt_error := map_option (normalize_error sha) (tt_error t)\<rparr>)"
| "normalize_record sha (Attempt a) =
     Attempt (a\<lparr>as_error := map_option (normalize_error sha) (as_error a)\<rparr>)"
| "normalize_record sha (Heartbeat h) =
     Heartbeat (h\<lparr>hs_health := (hs_health h)\<lparr>ch_last_error :=
       map_option (normalize_error sha) (ch_last_error (hs_health h))\<rparr>\<rparr>)"
| "normalize_record sha (Session s) = Session s"
| "normalize_record sha (HttpExchange x) = HttpExchange x"
| "normalize_record sha (CaptureGap g) = CaptureGap g"
| "normalize_record sha (Process p) = Process p"

fun split_loop ::
  "summary_record list list \<Rightarrow> summary_record list \<Rightarrow> summary_record list
     \<Rightarrow> summary_record list list" where
  "split_loop chunks current [] = (if current \<noteq> [] then chunks @ [current] else chunks)"
| "split_loop chunks current (r # rs) =
     (if length (current @ [r]) \<ge> 128 then split_loop (chunks @ [current @ [r]]) [] rs
      else split_loop chunks (current @ [r]) rs)"

definition split_records :: "summary_record list \<Rightarrow> summary_record list list" where
  "split_records records = split_loop [] [] records"

fun is_priority_record :: "summary_record \<Rightarrow> bool" where
  "is_priority_record (CaptureGap g) = True"
| "is_priority_record (Heartbeat h) = True"
| "is_priority_record (Task s) = (is_some (ts_outcome s) \<or> is_some (ts_last_error s))"
| "is_priority_record (TaskTransition t) =
     (tt_phase t = client_phase.Terminal \<or> is_some (tt_error t))"
| "is_priority_record (Attempt a) = (as_status a \<noteq> client_attempt_status.Running)"
| "is_priority_record (Process p) =
     (is_some (ps_signal p) \<or> is_some_and (ps_exit_code p) (\<lambda>c. c \<noteq> 0))"
| "is_priority_record (Session s) = False"
| "is_priority_record (HttpExchange x) = False"

section \<open>Enumerations and counters\<close>

fun map_phase :: "client_phase \<Rightarrow> task_phase" where
  "map_phase client_phase.Running = task_phase.Running"
| "map_phase client_phase.AwaitingTool = task_phase.AwaitingTool"
| "map_phase client_phase.Retrying = task_phase.Retrying"
| "map_phase client_phase.Terminal = task_phase.Terminal"

fun map_outcome :: "task_outcome \<Rightarrow> terminal_outcome" where
  "map_outcome task_outcome.Completed = terminal_outcome.Completed"
| "map_outcome task_outcome.Failed = terminal_outcome.Failed"
| "map_outcome task_outcome.Aborted = terminal_outcome.Aborted"
| "map_outcome task_outcome.Terminated = terminal_outcome.Terminated"
| "map_outcome task_outcome.Lost = terminal_outcome.Lost"

fun map_integrity :: "completeness \<Rightarrow> integrity_state" where
  "map_integrity completeness.Complete = integrity_state.Complete"
| "map_integrity completeness.Degraded = integrity_state.Degraded"
| "map_integrity completeness.Unknown = integrity_state.Degraded"

definition map_usage :: "token_usage \<Rightarrow> usage_summary" where
  "map_usage u =
     \<lparr>us_input_tokens = unwrap_or (tu_input_tokens u) 0,
      us_output_tokens = unwrap_or (tu_output_tokens u) 0,
      us_reasoning_tokens = unwrap_or (tu_reasoning_tokens u) 0,
      us_total_tokens = unwrap_or (tu_total_tokens u)
        (unwrap_or (tu_input_tokens u) 0 + unwrap_or (tu_output_tokens u) 0
          + unwrap_or (tu_reasoning_tokens u) 0)\<rparr>"

fun map_attempt_status :: "client_attempt_status \<Rightarrow> attempt_status" where
  "map_attempt_status client_attempt_status.Running = attempt_status.Running"
| "map_attempt_status client_attempt_status.Completed = attempt_status.Completed"
| "map_attempt_status client_attempt_status.Failed = attempt_status.Failed"
| "map_attempt_status client_attempt_status.Incomplete = attempt_status.Incomplete"
| "map_attempt_status client_attempt_status.Cancelled = attempt_status.Cancelled"
| "map_attempt_status client_attempt_status.TransportLost = attempt_status.TransportLost"

fun content_part_name :: "content_part \<Rightarrow> string" where
  "content_part_name content_part.Request = ''request''"
| "content_part_name content_part.Response = ''response''"
| "content_part_name content_part.ToolInput = ''tool_input''"
| "content_part_name content_part.ToolOutput = ''tool_output''"
| "content_part_name content_part.ModelText = ''model_text''"

text \<open>The delay in seconds before a retry.\<close>

definition backoff_delay :: "u32 \<Rightarrow> nat" where
  "backoff_delay attempt_count = min (2 ^ min (unat attempt_count) 10 * 5) 600"

section \<open>Errors\<close>

text \<open>The \<open>Debug\<close> form of an event kind.\<close>

fun kind_name :: "task_event_kind \<Rightarrow> string" where
  "kind_name task_event_kind.TaskObserved = ''TaskObserved''"
| "kind_name task_event_kind.AttemptStarted = ''AttemptStarted''"
| "kind_name task_event_kind.AttemptCompleted = ''AttemptCompleted''"
| "kind_name task_event_kind.AttemptFailed = ''AttemptFailed''"
| "kind_name task_event_kind.AttemptIncomplete = ''AttemptIncomplete''"
| "kind_name task_event_kind.AttemptCancelled = ''AttemptCancelled''"
| "kind_name task_event_kind.AttemptLost = ''AttemptLost''"
| "kind_name task_event_kind.Retrying = ''Retrying''"
| "kind_name task_event_kind.AwaitingTool = ''AwaitingTool''"
| "kind_name task_event_kind.TerminalCompleted = ''TerminalCompleted''"
| "kind_name task_event_kind.TerminalFailed = ''TerminalFailed''"
| "kind_name task_event_kind.TerminalAborted = ''TerminalAborted''"
| "kind_name task_event_kind.TerminalTerminated = ''TerminalTerminated''"
| "kind_name task_event_kind.TerminalLost = ''TerminalLost''"
| "kind_name task_event_kind.CaptureGap = ''CaptureGap''"
| "kind_name task_event_kind.ProcessExit = ''ProcessExit''"
| "kind_name task_event_kind.UnsupportedBuild = ''UnsupportedBuild''"

definition blank_error :: "uuid \<Rightarrow> string \<Rightarrow> uuid option \<Rightarrow> i64 \<Rightarrow> error_source \<Rightarrow> string \<Rightarrow> error_record"
  where
  "blank_error error_id task_ref attempt_id at source message =
     \<lparr>er_error_id = error_id, er_task_ref = task_ref, er_attempt_id = attempt_id,
      er_occurred_at_ms = at, er_source = source, er_wire_type = None, er_code = None,
      er_message = message, er_param = None, er_reason = None, er_http_status = None,
      er_exit_code = None, er_signal = None\<rparr>"

fun map_error_record ::
  "uuid \<Rightarrow> string \<Rightarrow> uuid option \<Rightarrow> i64 \<Rightarrow> structured_error \<Rightarrow> task_event_kind option \<Rightarrow> error_record"
  where
  "map_error_record eid task_ref aid at (structured_error.Provider e) kind =
     (blank_error eid task_ref aid at
        (if pe_wire_type e = ''response.cancelled'' then error_source.ResponseCancelled
         else error_source.ResponseFailed) (pe_message e))
       \<lparr>er_wire_type := Some (pe_wire_type e), er_code := pe_code e, er_param := pe_param e\<rparr>"
| "map_error_record eid task_ref aid at (structured_error.Http e) kind =
     (blank_error eid task_ref aid at error_source.HttpStatus
        (case he_provider_error e of
           None \<Rightarrow> ''http '' @ show_nat (unat (he_status e))
         | Some p \<Rightarrow> pe_message p))
       \<lparr>er_wire_type := map_option pe_wire_type (he_provider_error e),
        er_code := Option.bind (he_provider_error e) pe_code,
        er_param := Option.bind (he_provider_error e) pe_param,
        er_http_status := Some (he_status e)\<rparr>"
| "map_error_record eid task_ref aid at (structured_error.Incomplete reason) kind =
     (blank_error eid task_ref aid at error_source.ResponseIncomplete reason)
       \<lparr>er_reason := Some reason\<rparr>"
| "map_error_record eid task_ref aid at (structured_error.CodexTerminal e) kind =
     (blank_error eid task_ref aid at error_source.TurnComplete (ct_message e))\<lparr>er_code := ct_code e\<rparr>"
| "map_error_record eid task_ref aid at (structured_error.TurnAborted reason) kind =
     (blank_error eid task_ref aid at error_source.TurnAborted reason)\<lparr>er_reason := Some reason\<rparr>"
| "map_error_record eid task_ref aid at (structured_error.ProcessTerminated e) kind =
     (blank_error eid task_ref aid at error_source.ProcessExit ''process exited'')
       \<lparr>er_reason := map_option kind_name kind, er_exit_code := pt_exit_code e,
        er_signal := pt_signal e\<rparr>"
| "map_error_record eid task_ref aid at (structured_error.CaptureLost e) kind =
     (blank_error eid task_ref aid at error_source.CaptureGap (cl_reason e))
       \<lparr>er_reason := Some (cl_reason e)\<rparr>"
| "map_error_record eid task_ref aid at (structured_error.UnsupportedCodexBuild e) kind =
     (blank_error eid task_ref aid at error_source.UnsupportedCodexBuild
        (''unsupported build '' @ ub_architecture e))
       \<lparr>er_code := Some (ub_executable_sha256 e), er_param := ub_codex_version e\<rparr>"

fun extract_http_status :: "structured_error option \<Rightarrow> u16 option" where
  "extract_http_status (Some (structured_error.Http e)) = Some (he_status e)"
| "extract_http_status _ = None"

fun extract_process_exit :: "structured_error option \<Rightarrow> i32 option \<times> i32 option" where
  "extract_process_exit (Some (structured_error.ProcessTerminated e)) = (pt_exit_code e, pt_signal e)"
| "extract_process_exit _ = (None, None)"

fun classify_attempt_failure :: "structured_error option \<Rightarrow> task_event_kind" where
  "classify_attempt_failure (Some (structured_error.Incomplete r)) = task_event_kind.AttemptIncomplete"
| "classify_attempt_failure (Some (structured_error.CaptureLost e)) = task_event_kind.AttemptLost"
| "classify_attempt_failure (Some (structured_error.Provider e)) =
     (if pe_wire_type e = ''response.cancelled'' then task_event_kind.AttemptCancelled
      else task_event_kind.AttemptFailed)"
| "classify_attempt_failure (Some (structured_error.Http e)) = task_event_kind.AttemptFailed"
| "classify_attempt_failure _ = task_event_kind.Retrying"

fun dedupe_loop :: "uuid set \<Rightarrow> error_record list \<Rightarrow> error_record list" where
  "dedupe_loop seen [] = []"
| "dedupe_loop seen (e # es) =
     (if er_error_id e \<in> seen then dedupe_loop seen es
      else e # dedupe_loop (insert (er_error_id e) seen) es)"

definition dedupe_errors :: "error_record list \<Rightarrow> error_record list" where
  "dedupe_errors errors = dedupe_loop {} errors"

section \<open>Events and gaps\<close>

text \<open>The kind of an event from the cause, the phase, the outcome and the error of a transition.\<close>

fun transition_kind ::
  "transition_cause \<Rightarrow> client_phase \<Rightarrow> task_outcome option \<Rightarrow> structured_error option
     \<Rightarrow> task_event_kind" where
  "transition_kind transition_cause.AttemptStarted p out e = task_event_kind.AttemptStarted"
| "transition_kind transition_cause.ResponseEndTurn p out e =
     (if p = client_phase.Terminal \<and> out = Some task_outcome.Completed
      then task_event_kind.TerminalCompleted else task_event_kind.AttemptCompleted)"
| "transition_kind transition_cause.ToolCallObserved p out e = task_event_kind.AwaitingTool"
| "transition_kind transition_cause.RetryScheduled p out e = task_event_kind.Retrying"
| "transition_kind transition_cause.CaptureLost p out e =
     (if p = client_phase.Terminal \<and> out = Some task_outcome.Lost
      then task_event_kind.TerminalLost else task_event_kind.CaptureGap)"
| "transition_kind transition_cause.ProcessExited p out e =
     (if out = Some task_outcome.Lost then task_event_kind.TerminalLost
      else task_event_kind.ProcessExit)"
| "transition_kind transition_cause.CodexTurnAborted p out e = task_event_kind.TerminalAborted"
| "transition_kind transition_cause.CodexTurnComplete p out e =
     (case out of
        Some task_outcome.Completed \<Rightarrow> task_event_kind.TerminalCompleted
      | Some task_outcome.Failed \<Rightarrow> task_event_kind.TerminalFailed
      | Some task_outcome.Aborted \<Rightarrow> task_event_kind.TerminalAborted
      | Some task_outcome.Terminated \<Rightarrow> task_event_kind.TerminalTerminated
      | Some task_outcome.Lost \<Rightarrow> task_event_kind.TerminalLost
      | None \<Rightarrow> task_event_kind.AttemptCompleted)"
| "transition_kind transition_cause.AttemptCompleted p out e =
     (case p of
        client_phase.AwaitingTool \<Rightarrow> task_event_kind.AwaitingTool
      | client_phase.Retrying \<Rightarrow> classify_attempt_failure e
      | _ \<Rightarrow> task_event_kind.AttemptCompleted)"
| "transition_kind transition_cause.CaptureStarted p out e = task_event_kind.TaskObserved"
| "transition_kind transition_cause.ClientRecovered p out e = task_event_kind.TaskObserved"

definition map_transition_event :: "uuid \<Rightarrow> task_transition \<Rightarrow> task_event" where
  "map_transition_event error_id t =
     (let kind = transition_kind (tt_cause t) (tt_phase t) (tt_outcome t) (tt_error t);
          task_ref = key_task_ref (tt_task t) in
      \<lparr>ev_event_id = tt_event_id t, ev_task_ref = task_ref, ev_sequence = tt_sequence t,
       ev_occurred_at_ms = ts (tt_observed_at t), ev_kind = kind, ev_phase = map_phase (tt_phase t),
       ev_terminal = map_option map_outcome (tt_outcome t), ev_attempt_id = None,
       ev_response_id = None, ev_model = None, ev_tool_names = [], ev_usage = usage_default,
       ev_error = map_option (\<lambda>e. map_error_record error_id task_ref None
         (ts (tt_observed_at t)) e (Some kind)) (tt_error t),
       ev_http_status = extract_http_status (tt_error t),
       ev_exit_code = fst (extract_process_exit (tt_error t)),
       ev_signal = snd (extract_process_exit (tt_error t)), ev_note = None\<rparr>)"

definition map_gap_record :: "(uuid \<Rightarrow> string) \<Rightarrow> capture_gap_summary \<Rightarrow> capture_gap_record" where
  "map_gap_record show_uuid g =
     \<lparr>gap_gap_id = gs_gap_id g, gap_task_ref = map_option key_task_ref (gs_task g),
      gap_flow_id = unwrap_or (map_option show_uuid (gs_flow_id g)) ''unknown'',
      gap_direction = flow_direction.ServerToClient, gap_occurred_at_ms = ts (gs_observed_at g),
      gap_start_seq = unwrap_or (gs_lost_bytes g) 0, gap_end_seq = unwrap_or (gs_lost_bytes g) 0,
      gap_reason = gs_reason g\<rparr>"

text \<open>\<open>build_attempt_record_tx\<close>, the two object digests being what the store looks up.\<close>

definition build_attempt_record ::
  "uuid \<Rightarrow> string option \<Rightarrow> string option \<Rightarrow> attempt_summary \<Rightarrow> attempt_record" where
  "build_attempt_record error_id request_sha response_sha a =
     (let task_ref = key_task_ref (as_task a) in
      \<lparr>at_attempt_id = as_attempt_id a, at_task_ref = task_ref, at_ordinal = as_ordinal a,
       at_response_id = as_response_id a, at_transport = ''responses'',
       at_status = map_attempt_status (as_status a), at_http_status = extract_http_status (as_error a),
       at_model = as_model a, at_tool_names = as_tool_names a, at_usage = map_usage (as_usage a),
       at_error = map_option (\<lambda>e. map_error_record error_id task_ref (Some (as_attempt_id a))
         (ts (unwrap_or (as_finished_at a) (as_started_at a))) e None) (as_error a),
       at_request_object_sha256 = request_sha, at_response_object_sha256 = response_sha,
       at_started_at_ms = ts (as_started_at a), at_ended_at_ms = map_option ts (as_finished_at a),
       at_awaiting_tool = False\<rparr>)"

fun is_capture_loss :: "structured_error option \<Rightarrow> bool" where
  "is_capture_loss (Some (structured_error.CaptureLost e)) = True"
| "is_capture_loss _ = False"

definition build_heartbeat :: "string \<Rightarrow> uuid \<Rightarrow> heartbeat_summary \<Rightarrow> heartbeat" where
  "build_heartbeat client_id heartbeat_id h =
     \<lparr>hb_heartbeat_id = heartbeat_id, hb_client_id = client_id,
      hb_instance_id = hs_client_instance_id h, hb_observed_at_ms = ts (hs_observed_at h),
      hb_queue_depth = 0, hb_active_task_count = 0,
      hb_capture_health =
        (if \<not> ch_profile_supported (hs_health h) then integrity_state.UnsupportedBuild
         else if ch_ring_buffer_drops (hs_health h) > 0
             \<or> is_capture_loss (ch_last_error (hs_health h))
         then integrity_state.Degraded
         else integrity_state.Complete),
      hb_note = Some (hs_client_version h)\<rparr>"

section \<open>Splitting a persist call into batches\<close>

lemma split_loop_facts:
  assumes "length current < 128" and "list_all (\<lambda>c. length c = 128) chunks"
  shows "concat (split_loop chunks current rs) = concat chunks @ current @ rs
    \<and> list_all (\<lambda>c. length c = 128) (butlast (split_loop chunks current rs))
    \<and> list_all (\<lambda>c. 0 < length c \<and> length c \<le> 128) (split_loop chunks current rs)"
  using assms
proof (induction chunks current rs rule: split_loop.induct)
  case (1 chunks current)
  then show ?case
    by (auto simp: list_all_iff dest: in_set_butlastD)
next
  case (2 chunks current r rs)
  show ?case
  proof (cases "length (current @ [r]) \<ge> 128")
    case True
    with "2.prems" have "length (current @ [r]) = 128" by simp
    with "2.IH"(1) [OF True] "2.prems" True show ?thesis by simp
  next
    case False
    with "2.IH"(2) [OF False] "2.prems" show ?thesis by simp
  qed
qed

text \<open>
  Splitting the records of one persist call loses and reorders nothing: the chunks concatenate
  to the records, each holds between 1 and 128 of them and all but the last exactly 128.
\<close>

theorem split_records_partition:
  "concat (split_records records) = records
    \<and> list_all (\<lambda>c. 0 < length c \<and> length c \<le> 128) (split_records records)
    \<and> list_all (\<lambda>c. length c = 128) (butlast (split_records records))"
  using split_loop_facts [of "[]" "[]" records] by (simp add: split_records_def)

lemma dedupe_loop_ids:
  "er_error_id ` set (dedupe_loop seen es) = er_error_id ` set es - seen
    \<and> distinct (map er_error_id (dedupe_loop seen es)) \<and> set (dedupe_loop seen es) \<subseteq> set es"
  by (induction seen es rule: dedupe_loop.induct) auto

section \<open>Truncated messages\<close>

lemma floor_boundary_le: "floor_boundary s n \<le> n"
  by (induction n) auto

lemma floor_boundary_boundary: "is_char_boundary s (floor_boundary s n)"
  by (induction n) (auto simp: is_char_boundary_def)

lemma show_nat_length: "n < 10 ^ k \<Longrightarrow> 0 < k \<Longrightarrow> length (show_nat n) \<le> k"
proof (induction n arbitrary: k rule: show_nat.induct)
  case (1 n)
  show ?case
  proof (cases "n < 10")
    case True
    with "1.prems" show ?thesis by (simp add: show_nat.simps [of n])
  next
    case False
    with "1.prems" obtain j where j: "k = Suc j" "0 < j"
      by (cases k; cases "k - 1") auto
    then have "n div 10 < 10 ^ j" using "1.prems"(1) by (simp add: less_mult_imp_div_less)
    with "1.IH" [OF False _ j(2)] j False show ?thesis by (simp add: show_nat.simps [of n])
  qed
qed

lemma plain_suffix_bytes:
  assumes "is_hex64 (sha (str_bytes m))" and "length m < 2 ^ 64"
  shows "length (truncation_suffix sha m) \<le> 114" and "utf8_ok (str_bytes (truncation_suffix sha m))"
proof -
  have n: "length (show_nat (length m)) \<le> 20"
    using assms(2) by (intro show_nat_length) simp_all
  have h: "length (sha (str_bytes m)) = 64" "list_all is_ascii_hexdigit (sha (str_bytes m))"
    using assms(1) by (simp_all add: is_hex64_def)
  show "length (truncation_suffix sha m) \<le> 114"
    using n h(1) by (simp add: truncation_suffix_def)
  have d: "list_all (\<lambda>c. 32 \<le> code c \<and> code c \<le> 126) (show_nat (length m))"
    using show_nat_digits [of _ "length m"] by (fastforce simp: list_all_iff is_ascii_digit_def)
  have x: "list_all (\<lambda>c. 32 \<le> code c \<and> code c \<le> 126) (sha (str_bytes m))"
    using h(2) by (fastforce simp: list_all_iff is_ascii_hexdigit_def is_ascii_digit_def)
  have "list_all (\<lambda>c. 32 \<le> code c \<and> code c \<le> 126) (truncation_suffix sha m)"
    using d x by (simp add: truncation_suffix_def code_def)
  from str_bytes_ascii(1) [OF this] show "utf8_ok (str_bytes (truncation_suffix sha m))"
    by (simp add: from_utf8_def split: if_splits)
qed

lemma boundary_bytes:
  "is_char_boundary s i \<Longrightarrow>
     i = 0 \<or> i = length (str_bytes s) \<or> i < length (str_bytes s) \<and> \<not> is_cont (str_bytes s ! i)"
  by (auto simp: is_char_boundary_def is_cont_def str_bytes_def word_le_nat_alt unat_of_char code_def)

text \<open>
  Whatever the length of a message, what is stored in its place has at most 32 KiB, is valid
  UTF-8 again, is not blank when the message was not, and keeps a message of at most 32 KiB as it is.
\<close>

theorem truncate_message_bounded:
  assumes "is_hex64 (sha (str_bytes m))" and "length m < 2 ^ 64" and "utf8_ok (str_bytes m)"
    and "trim m \<noteq> []"
  shows "length (truncate_message sha m) \<le> MAX_ERROR_MESSAGE_BYTES
    \<and> utf8_ok (str_bytes (truncate_message sha m)) \<and> trim (truncate_message sha m) \<noteq> []
    \<and> (length m \<le> MAX_ERROR_MESSAGE_BYTES \<longrightarrow> truncate_message sha m = m)"
proof (cases "length m \<le> 32 * 1024")
  case True
  then show ?thesis
    using assms by (simp add: truncate_message_def MAX_ERROR_MESSAGE_BYTES_def)
next
  case False
  let ?suffix = "truncation_suffix sha m"
  let ?stop = "floor_boundary m (32 * 1024 - length ?suffix)"
  note suffix = plain_suffix_bytes [of sha m, OF assms(1,2)]
  have t: "truncate_message sha m = take ?stop m @ ?suffix"
    using False by (simp add: truncate_message_def Let_def)
  have "length (take ?stop m @ ?suffix) \<le> 32 * 1024"
    using floor_boundary_le [of m "32 * 1024 - length ?suffix"] suffix(1) by simp
  moreover have "utf8_ok (str_bytes (take ?stop m @ ?suffix))"
    using utf8_ok_take [OF assms(3) boundary_bytes [OF floor_boundary_boundary]] suffix(2)
    by (simp add: str_bytes_append utf8_ok_append str_bytes_def take_map)
  moreover have "is_graphic CHR '']''"
    by (simp add: is_graphic_def code_def)
  then have "trim (take ?stop m @ ?suffix) \<noteq> []"
    using trim_graphic_mid [of "CHR '']''" "take ?stop m @ butlast ?suffix" "[]"]
    by (simp add: truncation_suffix_def butlast_append)
  ultimately show ?thesis
    using False by (simp add: t MAX_ERROR_MESSAGE_BYTES_def)
qed

theorem truncate_message_bounded_witness:
  "length (truncate_message (\<lambda>b. replicate 64 CHR ''a'') (replicate 40000 CHR ''x'')) \<le> 32768"
proof -
  let ?m = "replicate 40000 CHR ''x''"
  have "is_hex64 (replicate 64 CHR ''a'')"
    by (simp add: is_hex64_def list_all_iff is_ascii_hexdigit_def code_def)
  moreover have "utf8_ok (str_bytes ?m)"
    by (rule utf8_ok_ascii) (auto simp: str_bytes_def)
  moreover have "trim ?m \<noteq> []"
    using trim_graphic_mid [of "CHR ''x''" "[]" "replicate 39999 CHR ''x''"]
    by (simp add: is_graphic_def code_def flip: replicate_Suc)
  ultimately show ?thesis
    using truncate_message_bounded [of "\<lambda>b. replicate 64 CHR ''a''" ?m]
    by (simp add: MAX_ERROR_MESSAGE_BYTES_def)
qed

section \<open>What the lane produces is what the contract accepts\<close>

text \<open>The bounds on the texts of an error under which its wire form validates.\<close>

definition text_ok :: "string \<Rightarrow> nat \<Rightarrow> bool" where
  "text_ok s limit \<longleftrightarrow> trim s \<noteq> [] \<and> length s \<le> limit"

definition opt_text_ok :: "string option \<Rightarrow> nat \<Rightarrow> bool" where
  "opt_text_ok s limit \<longleftrightarrow> (case s of None \<Rightarrow> True | Some t \<Rightarrow> text_ok t limit)"

definition provider_ok :: "provider_error \<Rightarrow> bool" where
  "provider_ok p \<longleftrightarrow> text_ok (pe_wire_type p) MAX_SHORT_TEXT_BYTES
     \<and> opt_text_ok (pe_code p) MAX_SHORT_TEXT_BYTES
     \<and> text_ok (pe_message p) MAX_ERROR_MESSAGE_BYTES
     \<and> opt_text_ok (pe_param p) MAX_SHORT_TEXT_BYTES"

fun error_ok :: "structured_error \<Rightarrow> bool" where
  "error_ok (structured_error.Provider p) = provider_ok p"
| "error_ok (structured_error.Http e) =
     (100 \<le> he_status e \<and> he_status e \<le> 599
      \<and> (case he_provider_error e of None \<Rightarrow> True | Some p \<Rightarrow> provider_ok p))"
| "error_ok (structured_error.Incomplete reason) = text_ok reason MAX_ERROR_MESSAGE_BYTES"
| "error_ok (structured_error.CodexTerminal e) =
     (text_ok (ct_message e) MAX_ERROR_MESSAGE_BYTES \<and> opt_text_ok (ct_code e) MAX_SHORT_TEXT_BYTES)"
| "error_ok (structured_error.TurnAborted reason) = text_ok reason MAX_ERROR_MESSAGE_BYTES"
| "error_ok (structured_error.ProcessTerminated p) = (is_some (pt_exit_code p) \<or> is_some (pt_signal p))"
| "error_ok (structured_error.CaptureLost c) = text_ok (cl_reason c) MAX_ERROR_MESSAGE_BYTES"
| "error_ok (structured_error.UnsupportedCodexBuild u) =
     (is_hex64 (ub_executable_sha256 u)
      \<and> length (ub_architecture u) + 18 \<le> MAX_ERROR_MESSAGE_BYTES
      \<and> opt_text_ok (ub_codex_version u) MAX_SHORT_TEXT_BYTES)"

lemma opt_text_ok_check:
  "check_opt t (\<lambda>v. validate_text p v limit) = Inr () \<longleftrightarrow> opt_text_ok t limit"
  by (cases t) (simp_all add: opt_text_ok_def text_ok_def)

lemma http_message_ok: "text_ok (''http '' @ show_nat (unat (s :: u16))) MAX_ERROR_MESSAGE_BYTES"
proof -
  have "unat s < 2 ^ 16" using unsigned_less [of s] by simp
  then have "length (show_nat (unat s)) \<le> 5" by (intro show_nat_length) simp_all
  then show ?thesis
    by (simp add: text_ok_def MAX_ERROR_MESSAGE_BYTES_def trim_graphic is_graphic_def code_def)
qed

lemma kind_name_ok: "text_ok (kind_name k) MAX_ERROR_MESSAGE_BYTES"
  by (cases k) (simp_all add: text_ok_def MAX_ERROR_MESSAGE_BYTES_def trim_graphic is_graphic_def code_def)

lemma hex64_text: "is_hex64 s \<Longrightarrow> text_ok s MAX_SHORT_TEXT_BYTES"
proof -
  assume h: "is_hex64 s"
  then obtain c cs where s: "s = c # cs" by (cases s) (auto simp: is_hex64_def)
  with h have "is_graphic c"
    by (auto simp: is_hex64_def is_ascii_hexdigit_def is_ascii_digit_def is_graphic_def)
  with h s show ?thesis by (simp add: text_ok_def trim_graphic is_hex64_def MAX_SHORT_TEXT_BYTES_def)
qed

lemma validate_mapped_error:
  assumes "is_uuid_v7 eid" and "text_ok task_ref MAX_ID_BYTES" and "error_ok e"
  shows "validate_error_record (map_error_record eid task_ref aid at e kind) = Inr ()"
proof -
  have msg: "text_ok ''process exited'' MAX_ERROR_MESSAGE_BYTES"
    by (simp add: text_ok_def MAX_ERROR_MESSAGE_BYTES_def trim_graphic is_graphic_def code_def)
  have arch: "trim (''unsupported build '' @ a) \<noteq> []" for a
    by (simp add: trim_graphic is_graphic_def code_def)
  show ?thesis
    using assms msg arch http_message_ok kind_name_ok hex64_text
    by (cases e) (auto simp: validate_error_record_def opt_text_ok_check blank_error_def
        text_ok_def opt_text_ok_def provider_ok_def MAX_SHORT_TEXT_BYTES_def split: option.splits)
qed

text \<open>The combinations of cause, phase, outcome and error that the lane's transitions have.\<close>

fun is_process_end :: "structured_error option \<Rightarrow> bool" where
  "is_process_end (Some (structured_error.ProcessTerminated p)) = True"
| "is_process_end _ = False"

fun consistent :: "transition_cause \<Rightarrow> client_phase \<Rightarrow> task_outcome option \<Rightarrow> structured_error option \<Rightarrow> bool"
  where
  "consistent transition_cause.ResponseEndTurn p out e \<longleftrightarrow>
     p = client_phase.Terminal \<and> out = Some task_outcome.Completed \<and> e = None"
| "consistent transition_cause.ToolCallObserved p out e \<longleftrightarrow> p = client_phase.AwaitingTool \<and> out = None"
| "consistent transition_cause.RetryScheduled p out e \<longleftrightarrow> p = client_phase.Retrying \<and> out = None"
| "consistent transition_cause.CaptureLost p out e \<longleftrightarrow> p \<noteq> client_phase.Terminal \<and> out = None"
| "consistent transition_cause.ProcessExited p out e \<longleftrightarrow> p = client_phase.Terminal
     \<and> (out = Some task_outcome.Terminated \<and> is_process_end e
        \<or> out = Some task_outcome.Lost \<and> is_capture_loss e)"
| "consistent _ p out e \<longleftrightarrow> False"

lemma is_process_end_iff: "is_process_end e \<longleftrightarrow> (\<exists>p. e = Some (structured_error.ProcessTerminated p))"
  by (cases e rule: is_process_end.cases) auto

lemma is_capture_loss_iff: "is_capture_loss e \<longleftrightarrow> (\<exists>c. e = Some (structured_error.CaptureLost c))"
  by (cases e rule: is_capture_loss.cases) auto

lemma map_error_record_task [simp]: "er_task_ref (map_error_record eid r aid at e k) = r"
  by (cases e) (simp_all add: blank_error_def)

lemma map_phase_Terminal [simp]: "map_phase p = task_phase.Terminal \<longleftrightarrow> p = client_phase.Terminal"
  by (cases p) simp_all

definition bounded_transition :: "uuid \<Rightarrow> task_transition \<Rightarrow> bool" where
  "bounded_transition error_id t \<longleftrightarrow> is_uuid_v7 error_id \<and> is_uuid_v7 (tt_event_id t)
     \<and> tt_sequence t \<noteq> 0 \<and> text_ok (key_task_ref (tt_task t)) MAX_ID_BYTES
     \<and> (case tt_error t of None \<Rightarrow> True | Some e \<Rightarrow> error_ok e)"

lemma consistent_event_valid:
  assumes "bounded_transition eid t"
    and "consistent (tt_cause t) (tt_phase t) (tt_outcome t) (tt_error t)"
  shows "validate_event (map_transition_event eid t) = Inr ()"
proof -
  let ?v = "map_transition_event eid t"
  have base: "is_uuid_v7 (ev_event_id ?v)" "text_ok (ev_task_ref ?v) MAX_ID_BYTES"
    "ev_sequence ?v \<noteq> 0"
    using assms(1) by (simp_all add: bounded_transition_def map_transition_event_def Let_def)
  have err: "validate_error_record e = Inr () \<and> er_task_ref e = ev_task_ref ?v"
    if "ev_error ?v = Some e" for e
    using that assms(1) validate_mapped_error
    by (auto simp: bounded_transition_def map_transition_event_def Let_def split: option.splits)
  have proj: "validate_event_projection ?v = Inr ()" "validate_event_evidence ?v = Inr ()"
    using assms(2)
    by (cases "tt_cause t"; cases "tt_phase t"; auto simp: map_transition_event_def Let_def
        validate_event_projection_def validate_event_evidence_def is_process_end_iff
        is_capture_loss_iff error_source_is_def blank_error_def)+
  show ?thesis
    using base err proj by (auto simp: validate_event_def check_opt_ok text_ok_def)
qed

lemma verdict_consistent:
  assumes "p = map_attempt_projection a" and "ap_phase p = client_phase.Terminal \<longrightarrow> e = None"
  shows "consistent (ap_cause p) (ap_phase p) (ap_outcome p) e"
proof -
  define v where "v = verdict_of p"
  have "fst (snd v) = client_phase.Terminal \<longrightarrow> e = None"
    using assms(2) by (simp add: v_def verdict_of_def)
  moreover have "v = attempt_verdict (da_request_complete a) (last_terminal (da_decoded_events a))
      (called_tools (da_decoded_events a) \<noteq> [])"
    by (simp add: v_def assms(1) projection_verdict)
  moreover have "last_terminal (da_decoded_events a) = Some d \<Longrightarrow> is_terminal_event d" for d
    by (rule last_terminal_is_terminal)
  ultimately have "consistent (fst (snd (snd (snd v)))) (fst (snd v)) (fst (snd (snd v))) e"
    by (cases "(da_request_complete a, last_terminal (da_decoded_events a),
      called_tools (da_decoded_events a) \<noteq> [])" rule: attempt_verdict.cases) auto
  then show ?thesis by (simp add: v_def verdict_of_def)
qed

lemma exchange_transition:
  assumes "project_exchange E clk ids x = Inr b" and "TaskTransition t \<in> set (cb_records b)"
  shows "\<exists>p. p = map_attempt_projection (dx_attempt x) \<and> tt_cause t = ap_cause p
    \<and> tt_phase t = ap_phase p \<and> tt_outcome t = ap_outcome p \<and> tt_event_id t = ids 0"
  using assms
  by (auto simp: project_exchange_def Let_def bindr_eq_Inr batch_empty_def summary_transition_def
      exchange_summary_def exchange_attempt_def split: if_splits)

text \<open>
  The transition of a captured exchange, with version 7 identifiers and texts within their
  limits, becomes an event that the wire contract accepts, unless it ends the turn while carrying an
  error: then, and only then, the event is refused.
\<close>

theorem exchange_event_valid_iff:
  assumes "project_exchange E clk ids x = Inr b" and "TaskTransition t \<in> set (cb_records b)"
    and "bounded_transition eid t"
  shows "validate_event (map_transition_event eid t) = Inr () \<longleftrightarrow>
     \<not> (tt_phase t = client_phase.Terminal \<and> tt_error t \<noteq> None)"
proof -
  obtain p where p: "p = map_attempt_projection (dx_attempt x)" "tt_cause t = ap_cause p"
    "tt_phase t = ap_phase p" "tt_outcome t = ap_outcome p"
    using exchange_transition [OF assms(1,2)] by blast
  show ?thesis
  proof (cases "tt_phase t = client_phase.Terminal \<and> tt_error t \<noteq> None")
    case False
    then have "consistent (tt_cause t) (tt_phase t) (tt_outcome t) (tt_error t)"
      using verdict_consistent [OF p(1), of "tt_error t"] p by simp
    from consistent_event_valid [OF assms(3) this] False show ?thesis by simp
  next
    case True
    then have "consistent (tt_cause t) (tt_phase t) (tt_outcome t) None"
      using verdict_consistent [OF p(1), of None] p by simp
    with True have c: "tt_cause t = transition_cause.ResponseEndTurn"
      "tt_outcome t = Some task_outcome.Completed"
      by (cases "tt_cause t"; simp)+
    with True have "\<not> evidence_valid (map_transition_event eid t) (ev_kind (map_transition_event eid t))"
      by (auto simp: map_transition_event_def Let_def)
    with True show ?thesis
      by (simp add: validate_event_def validate_event_evidence_def)
  qed
qed

lemma with_transition_member:
  "TaskTransition t \<in> set (concat (map (with_transition c) ss)) \<longleftrightarrow>
     (\<exists>s \<in> set ss. t = summary_transition c s)"
  by (auto simp: with_transition_def)

lemma exit_outcome_cases:
  "fst (exit_outcome p) = task_outcome.Terminated \<and> is_process_end (Some (snd (exit_outcome p)))
   \<or> fst (exit_outcome p) = task_outcome.Lost \<and> is_capture_loss (Some (snd (exit_outcome p)))"
  by (simp add: exit_outcome_def)

lemma exit_outcome_error_ok: "error_ok (snd (exit_outcome p))"
  by (auto simp: exit_outcome_def is_some_and_iff text_ok_def MAX_ERROR_MESSAGE_BYTES_def
      trim_graphic is_graphic_def code_def)

text \<open>
  Every transition a process exit makes becomes an event that the wire contract accepts, given
  version 7 identifiers, task references within their limit and sequence numbers that did not wrap.
\<close>

theorem exit_events_valid:
  assumes "TaskTransition t \<in> set (cb_records (project_process_exit E ids now process ks))"
    and "is_uuid_v7 eid" and "is_uuid_v7 (tt_event_id t)" and "tt_sequence t \<noteq> 0"
    and "text_ok (key_task_ref (tt_task t)) MAX_ID_BYTES"
  shows "validate_event (map_transition_event eid t) = Inr ()"
proof -
  obtain ss where ss: "project_process_exit E ids now process ks =
       \<lparr>cb_records = Process process
          # concat (map (with_transition transition_cause.ProcessExited) ss), cb_contents = []\<rparr>"
    "list_all (ends_with E (unwrap_or (ps_exited_at process) now) process) ss"
    using exit_tasks_loop_summaries [of E ids 0 "unwrap_or (ps_exited_at process) now" process ks]
    by (auto simp: project_process_exit_def Let_def)
  from assms(1) ss(1)
  have "TaskTransition t \<in> set (concat (map (with_transition transition_cause.ProcessExited) ss))"
    by simp
  then obtain s where s: "s \<in> set ss"
    "t = summary_transition transition_cause.ProcessExited s"
    unfolding with_transition_member by blast
  with ss(2) have e: "ends_with E (unwrap_or (ps_exited_at process) now) process s"
    by (simp add: list_all_iff)
  show ?thesis
  proof (rule consistent_event_valid)
    show "bounded_transition eid t"
      using assms e exit_outcome_error_ok
      by (simp add: bounded_transition_def s(2) summary_transition_def ends_with_def)
    show "consistent (tt_cause t) (tt_phase t) (tt_outcome t) (tt_error t)"
      using e exit_outcome_cases [of process]
      by (auto simp: s(2) summary_transition_def ends_with_def)
  qed
qed

text \<open>
  The evidence the wire contract asks of an attempt, read on the client's side: which errors each
  status may carry.
\<close>

fun evidence_matches :: "client_attempt_status \<Rightarrow> structured_error option \<Rightarrow> bool" where
  "evidence_matches client_attempt_status.Completed e \<longleftrightarrow> e = None"
| "evidence_matches client_attempt_status.Failed (Some (structured_error.Provider p)) \<longleftrightarrow>
     pe_wire_type p \<noteq> ''response.cancelled''"
| "evidence_matches client_attempt_status.Failed (Some (structured_error.Http h)) \<longleftrightarrow> True"
| "evidence_matches client_attempt_status.Incomplete (Some (structured_error.Incomplete r)) \<longleftrightarrow> True"
| "evidence_matches client_attempt_status.Cancelled (Some (structured_error.Provider p)) \<longleftrightarrow>
     pe_wire_type p = ''response.cancelled''"
| "evidence_matches client_attempt_status.TransportLost (Some (structured_error.CaptureLost c)) \<longleftrightarrow> True"
| "evidence_matches _ _ \<longleftrightarrow> False"

definition bounded_attempt :: "uuid \<Rightarrow> attempt_summary \<Rightarrow> bool" where
  "bounded_attempt error_id a \<longleftrightarrow> is_uuid_v7 error_id \<and> is_uuid_v7 (as_attempt_id a)
     \<and> as_ordinal a \<noteq> 0 \<and> text_ok (key_task_ref (as_task a)) MAX_ID_BYTES
     \<and> is_some_and (as_finished_at a) (\<lambda>f. as_started_at a \<le> f)
     \<and> (case as_error a of None \<Rightarrow> True | Some e \<Rightarrow> error_ok e)"

text \<open>
  The wire form of a finished attempt with version 7 identifiers, texts within their limits and
  the digests of stored objects validates exactly when its error is one its status may carry.
\<close>

theorem attempt_record_valid_iff:
  assumes "bounded_attempt eid a" and "list_all is_hex64 (List.map_filter id [rq, rs])"
  shows "validate_attempt (build_attempt_record eid rq rs a) = Inr () \<longleftrightarrow>
     evidence_matches (as_status a) (as_error a)"
proof -
  let ?r = "build_attempt_record eid rq rs a"
  have sha: "check_opt rq (validate_sha256 f) = Inr ()" "check_opt rs (validate_sha256 f) = Inr ()" for f
    using assms(2) by (cases rq; cases rs; simp add: map_filter_def)+
  obtain f where f: "as_finished_at a = Some f" "ts (as_started_at a) \<le> ts f"
    using assms(1) by (auto simp: bounded_attempt_def is_some_and_iff ts_mono)
  have err: "validate_error_record e = Inr ()" if "at_error ?r = Some e" for e
    using that assms(1) validate_mapped_error
    by (auto simp: bounded_attempt_def build_attempt_record_def Let_def split: option.splits)
  have "trim ''responses'' \<noteq> []" by (simp add: trim_graphic is_graphic_def code_def)
  then have "validate_attempt ?r = Inr () \<longleftrightarrow> valid_terminal_fields ?r (at_status ?r)"
    using assms(1) sha f err
    by (auto simp: validate_attempt_def build_attempt_record_def Let_def bounded_attempt_def
        text_ok_def check_opt_ok split: option.splits)
  also have "\<dots> \<longleftrightarrow> evidence_matches (as_status a) (as_error a)"
    using f by (cases "(as_status a, as_error a)" rule: evidence_matches.cases)
      (auto simp: build_attempt_record_def Let_def blank_error_def is_some_iff)
  finally show ?thesis .
qed

section \<open>Concrete runs\<close>

text \<open>The capture of the concrete exchange, with its task already known to the store and open.\<close>

definition sample_key :: task_key where
  "sample_key = \<lparr>tk_client_id = ''c'', tk_provider = ''codex'', tk_session_id = ''s'',
     tk_thread_id = ''t'', tk_turn_id = ''u''\<rparr>"

definition sample_cursor :: task_cursor where
  "sample_cursor = \<lparr>cu_sequence = 1, cu_conversation_title = None, cu_attempt_count = 1,
     cu_phase = client_phase.AwaitingTool, cu_outcome = None, cu_started_at = 0, cu_updated_at = 0,
     cu_completeness = completeness.Complete, cu_model = None, cu_tool_names = [''exec''],
     cu_response_ids = [], cu_usage = token_usage_default\<rparr>"

definition sample_process :: process_summary where
  "sample_process = \<lparr>ps_process_instance_id = Uuid 7 20, ps_client_instance_id = Uuid 7 21,
     ps_pid = 7, ps_executable_sha256 = [], ps_codex_version = None, ps_started_at = 0,
     ps_exited_at = Some 9, ps_exit_code = Some 1, ps_signal = None\<rparr>"

lemmas run_defs = sample_key_def sample_cursor_def sample_process_def sample_env_def key_task_ref_def

lemma sample_text_ok: "text_ok ''s:t:u'' MAX_ID_BYTES"
  by (simp add: text_ok_def MAX_ID_BYTES_def trim_graphic is_graphic_def code_def)

theorem exit_events_valid_witness:
  "\<exists>t. TaskTransition t \<in> set (cb_records (project_process_exit
       (sample_env\<lparr>le_load_task_cursor := (\<lambda>k. Some sample_cursor)\<rparr>) (Uuid 7) 5 sample_process [sample_key]))
     \<and> validate_event (map_transition_event (Uuid 7 99) t) = Inr ()"
proof -
  let ?E = "sample_env\<lparr>le_load_task_cursor := (\<lambda>k. Some sample_cursor)\<rparr>"
  let ?t = "summary_transition transition_cause.ProcessExited
      (exit_summary ?E (Uuid 7 0) sample_key sample_cursor 9 sample_process)"
  have mem: "TaskTransition ?t \<in> set (cb_records
      (project_process_exit ?E (Uuid 7) 5 sample_process [sample_key]))"
    by (simp add: project_process_exit_def Let_def run_defs)
  have "is_uuid_v7 (Uuid 7 99)" "is_uuid_v7 (tt_event_id ?t)" "tt_sequence ?t \<noteq> 0"
    "text_ok (key_task_ref (tt_task ?t)) MAX_ID_BYTES"
    using sample_text_ok
    by (simp_all add: is_uuid_v7_def summary_transition_def exit_summary_def run_defs exit_outcome_def)
  from exit_events_valid [OF mem this] mem show ?thesis by blast
qed

definition sample_turn :: "decoded_attempt \<Rightarrow> decoded_exchange" where
  "sample_turn d = \<lparr>dx_attempt = d, dx_request_raw = [123], dx_response_raw = sample_response,
      dx_request_headers = [], dx_response_headers = [], dx_response_status = Some 200\<rparr>"

definition sample_run :: "http_parse_error + capture_batch" where
  "sample_run =
     (case decode_http_exchange sample_http sample_json (Uuid 7 1) [123] sample_response 5 of
        Inl e \<Rightarrow> Inl IncompleteHead
      | Inr d \<Rightarrow> project_exchange sample_env (\<lambda>i. 7000000) (Uuid 7) (sample_turn d))"

fun ends_cleanly :: "summary_record \<Rightarrow> bool" where
  "ends_cleanly (TaskTransition t) = (tt_phase t = client_phase.Terminal \<and> tt_error t = None
     \<and> tt_event_id t = Uuid 7 0 \<and> tt_sequence t = 1 \<and> key_task_ref (tt_task t) = ''s:t:u'')"
| "ends_cleanly _ = False"

lemma sample_run_ends:
  "\<exists>d b t. project_exchange sample_env (\<lambda>i. 7000000) (Uuid 7) (sample_turn d) = Inr b
     \<and> TaskTransition t \<in> set (cb_records b) \<and> ends_cleanly (TaskTransition t)"
proof -
  have "case sample_run of Inl _ \<Rightarrow> False | Inr b \<Rightarrow> list_ex ends_cleanly (cb_records b)"
    by code_simp
  then obtain b r where b: "sample_run = Inr b" "r \<in> set (cb_records b)" "ends_cleanly r"
    by (auto simp: list_ex_iff split: sum.splits)
  then obtain t where "r = TaskTransition t" by (cases r) auto
  moreover obtain d where "project_exchange sample_env (\<lambda>i. 7000000) (Uuid 7) (sample_turn d) = Inr b"
    using b(1) by (auto simp: sample_run_def split: sum.splits)
  ultimately show ?thesis using b by blast
qed

theorem exchange_event_valid_iff_witness:
  "\<exists>d b t. project_exchange sample_env (\<lambda>i. 7000000) (Uuid 7) (sample_turn d) = Inr b
     \<and> TaskTransition t \<in> set (cb_records b) \<and> tt_phase t = client_phase.Terminal
     \<and> validate_event (map_transition_event (Uuid 7 99) t) = Inr ()"
proof -
  obtain d b t where b: "project_exchange sample_env (\<lambda>i. 7000000) (Uuid 7) (sample_turn d) = Inr b"
    "TaskTransition t \<in> set (cb_records b)" "ends_cleanly (TaskTransition t)"
    using sample_run_ends by blast
  then have "bounded_transition (Uuid 7 99) t"
    using sample_text_ok by (simp add: bounded_transition_def is_uuid_v7_def)
  from exchange_event_valid_iff [OF b(1,2) this] b show ?thesis by auto
qed

theorem attempt_record_valid_iff_witness:
  "validate_attempt (build_attempt_record (Uuid 7 99) None None
     \<lparr>as_attempt_id = Uuid 7 1, as_task = sample_key, as_ordinal = 1,
      as_status = client_attempt_status.Completed, as_started_at = 5, as_finished_at = Some 9,
      as_response_id = None, as_model = None, as_tool_names = [], as_usage = token_usage_default,
      as_completeness = completeness.Complete, as_error = None\<rparr>) = Inr ()"
  using sample_text_ok
  by (subst attempt_record_valid_iff)
    (simp_all add: bounded_attempt_def is_uuid_v7_def run_defs map_filter_def)

section \<open>Statuses and evidence that do not agree\<close>

text \<open>
  An attempt in which a failure was followed by a completion ends the turn but keeps the error of
  the failure, which no completed attempt and no completed turn may carry on the wire.
\<close>

lemma projected_error_kept:
  assumes "list_all (\<lambda>v. \<not> is_terminal_event v) mid"
  shows "pj_error (fold projection_event mid s) = pj_error s"
  using assms
proof (induction mid arbitrary: s)
  case (Cons v mid)
  then show ?case by (cases v) simp_all
qed simp

lemma late_completion_keeps_error:
  assumes "da_decoded_events a = pre @ decoded_event.AttemptFailed i r e # mid
      @ [decoded_event.AttemptCompleted j q True u]"
    and "list_all (\<lambda>v. \<not> is_terminal_event v) mid" and "da_request_complete a"
    and "called_tools (da_decoded_events a) = []" and "p = map_attempt_projection a"
  shows "ap_phase p = client_phase.Terminal \<and> ap_error p = Some (structured_error_from_decoded e)
     \<and> \<not> evidence_matches (ap_status p) (ap_error p)"
proof -
  have last: "last_terminal (da_decoded_events a) = Some (decoded_event.AttemptCompleted j q True u)"
    by (simp add: assms(1) last_terminal_def)
  have "verdict_of p = (client_attempt_status.Completed, client_phase.Terminal,
      Some task_outcome.Completed, transition_cause.ResponseEndTurn, completeness.Complete)"
    using assms(3,4) by (simp add: assms(5) projection_verdict last)
  then have v: "ap_status p = client_attempt_status.Completed" "ap_phase p = client_phase.Terminal"
    "ap_completeness p = completeness.Complete"
    by (simp_all add: verdict_of_def)
  have "pj_error (projected (da_decoded_events a)) = Some (structured_error_from_decoded e)"
    using projected_error_kept [OF assms(2)] by (simp add: assms(1) failed_attempt_def)
  moreover have "pj_saw_terminal (projected (da_decoded_events a))"
    by (simp add: projected_saw last)
  ultimately have "ap_error p = Some (structured_error_from_decoded e)"
    using assms(3) by (simp add: assms(5) map_attempt_projection_def Let_def)
  with v show ?thesis by simp
qed

text \<open>
  The errors the decoder attaches to a response do not always fit its status either: an incomplete
  response without a reason maps to a provider error, a failed one with a reason to an incomplete
  one, and a cancelled one whose error has a type of its own to a provider error of that type.
\<close>

lemma statuses_without_evidence:
  "de_http_status e = None \<Longrightarrow> de_reason e = None \<Longrightarrow>
     \<not> evidence_matches client_attempt_status.Incomplete (Some (structured_error_from_decoded e))"
  "de_http_status e = None \<Longrightarrow> de_reason e = Some r \<Longrightarrow>
     \<not> evidence_matches client_attempt_status.Failed (Some (structured_error_from_decoded e))"
  "de_http_status e = None \<Longrightarrow> de_wire_type e \<noteq> Some ''response.cancelled'' \<Longrightarrow>
     \<not> evidence_matches client_attempt_status.Cancelled (Some (structured_error_from_decoded e))"
  by (cases "de_reason e"; cases "de_wire_type e"; simp add: structured_error_from_decoded_def)+

end
