(* ===== verification/Client_Blob.thy ===== *)
theory Client_Blob
  imports Client_Wire
begin

text \<open>
  The content-addressed store of \<open>crates/client/src/blob.rs\<close>. The directory of the store is the
  map from an object's digest to the bytes of its file; zstd and SHA-256 are the fields of
  \<open>blob_lib\<close>.
\<close>

definition RETENTION_HOURS :: int where
  "RETENTION_HOURS = 72"

record blob_lib =
  bl_sha256_hex :: "byte list \<Rightarrow> string"
  bl_encode_all :: "byte list \<Rightarrow> string + byte list"

type_synonym blob_files = "(string \<times> byte list) list"

datatype blob_error = EmptyMediaType | Compress string | ReadObject string

record stored_blob =
  sb_task :: task_key
  sb_part :: content_part
  sb_object_sha256 :: string
  sb_media_type :: string
  sb_uncompressed_bytes :: nat
  sb_compressed_bytes :: "byte list"
  sb_chunk_count :: u32
  sb_created_at :: datetime
  sb_expires_at :: datetime
  sb_sanitized_headers :: "(string \<times> string) list"

definition is_sensitive :: "string \<Rightarrow> bool" where
  "is_sensitive key =
     (let lower = to_ascii_lowercase key in
      lower \<in> {''authorization'', ''proxy-authorization'', ''cookie'', ''set-cookie''}
      \<or> contains_sub lower ''api-key'')"

definition sanitize_headers :: "(string \<times> string) list \<Rightarrow> (string \<times> string) list" where
  "sanitize_headers headers = filter (\<lambda>(key, v). \<not> is_sensitive key) headers"

definition div_ceil :: "nat \<Rightarrow> nat \<Rightarrow> nat" where
  "div_ceil n d = (n + d - 1) div d"

definition chunk_count :: "nat \<Rightarrow> u32" where
  "chunk_count compressed_bytes =
     word_of_nat (max (div_ceil compressed_bytes MAX_CONTENT_CHUNK_BYTES) 1)"

text \<open>\<open>slice::chunks\<close>: pieces of \<open>n\<close> elements, the last one possibly shorter.\<close>

function chunks_of :: "nat \<Rightarrow> 'a list \<Rightarrow> 'a list list" where
  "chunks_of n xs = (if xs = [] \<or> n = 0 then [] else take n xs # chunks_of n (drop n xs))"
  by pat_completeness auto
termination
  by (relation "measure (\<lambda>(n, xs). length xs)") auto

declare chunks_of.simps [simp del]

definition blob_manifest :: "stored_blob \<Rightarrow> uuid \<Rightarrow> content_object_manifest" where
  "blob_manifest b request_id =
     \<lparr>mf_request_id = request_id, mf_task_ref = key_task_ref (sb_task b),
      mf_session_id = tk_session_id (sb_task b), mf_thread_id = tk_thread_id (sb_task b),
      mf_part = sb_part b, mf_object_sha256 = sb_object_sha256 b, mf_media_type = sb_media_type b,
      mf_uncompressed_bytes = word_of_nat (sb_uncompressed_bytes b),
      mf_compressed_bytes = word_of_nat (length (sb_compressed_bytes b)),
      mf_chunk_count = sb_chunk_count b, mf_created_at_ms = ts (sb_created_at b)\<rparr>"

definition blob_store ::
  "blob_lib \<Rightarrow> blob_files \<Rightarrow> stored_content_input \<Rightarrow> blob_error + blob_files \<times> stored_blob" where
  "blob_store B files x =
     (if trim (sc_media_type x) = [] then Inl EmptyMediaType
      else
        let object_sha256 = bl_sha256_hex B (sc_body x) in
        bindr (map_err Compress (bl_encode_all B (sc_body x))) (\<lambda>compressed.
          Inr (if map_get files object_sha256 = None
               then map_put files object_sha256 compressed else files,
               \<lparr>sb_task = sc_task x, sb_part = sc_part x, sb_object_sha256 = object_sha256,
                sb_media_type = sc_media_type x, sb_uncompressed_bytes = length (sc_body x),
                sb_compressed_bytes = compressed, sb_chunk_count = chunk_count (length (sc_body x)),
                sb_created_at = sc_created_at x,
                sb_expires_at = sc_created_at x + RETENTION_HOURS * 3600 * 1000000000,
                sb_sanitized_headers = sanitize_headers (sc_headers x)\<rparr>)))"

text \<open>The loop of \<open>load_chunks\<close> over the enumerated chunks.\<close>

fun load_chunks_loop ::
  "blob_lib \<Rightarrow> uuid \<Rightarrow> string \<Rightarrow> u32 \<Rightarrow> nat \<Rightarrow> byte list list \<Rightarrow> content_upload_chunk list" where
  "load_chunks_loop B request_id object_sha256 total_chunks i [] = []"
| "load_chunks_loop B request_id object_sha256 total_chunks i (p # ps) =
     \<lparr>ch_request_id = request_id, ch_chunk_index = word_of_nat i, ch_chunk_count = total_chunks,
      ch_object_sha256 = object_sha256, ch_payload_sha256 = bl_sha256_hex B p, ch_payload_zstd = p,
      ch_is_last = (word_of_nat i + 1 = total_chunks)\<rparr>
     # load_chunks_loop B request_id object_sha256 total_chunks (Suc i) ps"

definition load_chunks ::
  "blob_lib \<Rightarrow> blob_files \<Rightarrow> string \<Rightarrow> uuid \<Rightarrow> blob_error + content_upload_chunk list" where
  "load_chunks B files object_sha256 request_id =
     (case map_get files object_sha256 of
        None \<Rightarrow> Inl (ReadObject object_sha256)
      | Some bytes \<Rightarrow>
          Inr (load_chunks_loop B request_id object_sha256 (chunk_count (length bytes)) 0
                 (chunks_of MAX_CONTENT_CHUNK_BYTES bytes)))"

definition blob_remove :: "blob_files \<Rightarrow> string \<Rightarrow> blob_files" where
  "blob_remove files object_sha256 = map_del files object_sha256"

section \<open>Chunks\<close>

lemma concat_chunks_of: "0 < n \<Longrightarrow> concat (chunks_of n xs) = xs"
  by (induction n xs rule: chunks_of.induct) (simp add: chunks_of.simps [of _ xs for xs])

lemma chunks_of_length: "c \<in> set (chunks_of n xs) \<Longrightarrow> 0 < length c \<and> length c \<le> n"
proof (induction n xs rule: chunks_of.induct)
  case (1 n xs)
  then show ?case by (subst (asm) (2) chunks_of.simps) (auto split: if_splits)
qed

lemma length_chunks_of: "0 < n \<Longrightarrow> length (chunks_of n xs) = div_ceil (length xs) n"
proof (induction n xs rule: chunks_of.induct)
  case (1 n xs)
  show ?case
  proof (cases "xs = []")
    case True
    then show ?thesis using "1.prems" by (simp add: chunks_of.simps div_ceil_def)
  next
    case False
    then have "length (chunks_of n xs) = Suc (div_ceil (length (drop n xs)) n)"
      using 1 by (simp add: chunks_of.simps [of n xs])
    also have "\<dots> = div_ceil (length xs) n"
    proof (cases "length xs \<le> n")
      case True
      with False have "(length xs + n - 1) div n = 1"
        using div_nat_eqI [of n 1 "length xs + n - 1"] by (cases xs) auto
      with True "1.prems" show ?thesis by (simp add: div_ceil_def)
    next
      case gt: False
      then have e: "length xs + n - 1 = (length xs - 1) + n" by simp
      show ?thesis
        unfolding div_ceil_def e using div_add_self2 [of n "length xs - 1"] "1.prems" gt
        by (simp add: le_Suc_eq)
    qed
    finally show ?thesis .
  qed
qed

lemma div_ceil_zero: "0 < d \<Longrightarrow> div_ceil n d = 0 \<longleftrightarrow> n = 0"
  by (auto simp: div_ceil_def div_eq_0_iff)

lemma load_chunks_loop_payloads:
  "map ch_payload_zstd (load_chunks_loop B r s t i ps) = ps"
  "length (load_chunks_loop B r s t i ps) = length ps"
  by (induction ps arbitrary: i) simp_all

lemma load_chunks_loop_nth:
  "j < length ps \<Longrightarrow> load_chunks_loop B r s t i ps ! j =
     \<lparr>ch_request_id = r, ch_chunk_index = word_of_nat (i + j), ch_chunk_count = t,
      ch_object_sha256 = s, ch_payload_sha256 = bl_sha256_hex B (ps ! j), ch_payload_zstd = ps ! j,
      ch_is_last = (word_of_nat (i + j) + 1 = t)\<rparr>"
  by (induction ps arbitrary: i j) (auto simp: nth_Cons split: nat.split)

definition sha_ok :: "(byte list \<Rightarrow> string) \<Rightarrow> bool" where
  "sha_ok sha \<longleftrightarrow> (\<forall>b. is_hex64 (sha b) \<and> to_ascii_lowercase (sha b) = sha b)"

lemma word_of_nat_eq_iff:
  "i < 2 ^ 32 \<Longrightarrow> j < 2 ^ 32 \<Longrightarrow> (word_of_nat i :: u32) = word_of_nat j \<longleftrightarrow> i = j"
  "i < 2 ^ 32 \<Longrightarrow> j < 2 ^ 32 \<Longrightarrow> (word_of_nat i :: u32) < word_of_nat j \<longleftrightarrow> i < j"
  by (simp_all add: word_unat_eq_iff word_less_nat_alt unat_of_nat)

lemma load_chunks_loop_valid:
  assumes "c \<in> set (load_chunks_loop B r s (word_of_nat (length ps)) 0 ps)"
    and "length ps < 2 ^ 32" and "\<And>p. p \<in> set ps \<Longrightarrow> length p \<le> MAX_CONTENT_CHUNK_BYTES"
    and "is_hex64 s" and "is_uuid_v7 r" and "sha_ok (bl_sha256_hex B)"
  shows "validate_chunk (bl_sha256_hex B) c = Inr ()"
proof -
  obtain j where j: "j < length ps" "c = load_chunks_loop B r s (word_of_nat (length ps)) 0 ps ! j"
    using assms(1) by (auto simp: in_set_conv_nth load_chunks_loop_payloads)
  have "(word_of_nat j :: u32) < word_of_nat (length ps)" "(word_of_nat (length ps) :: u32) \<noteq> 0"
    using j(1) assms(2) word_of_nat_eq_iff [of j "length ps"] word_of_nat_eq_iff(1) [of "length ps" 0]
    by auto
  moreover have "length (ps ! j) \<le> MAX_CONTENT_CHUNK_BYTES"
    using assms(3) j(1) by simp
  ultimately show ?thesis
    using assms(4-6) j(1)
    by (simp add: j(2) load_chunks_loop_nth validate_chunk_def sha_ok_def not_le)
qed

lemma last_marks:
  assumes "0 < length ps" and "length ps < 2 ^ 32"
  shows "map ch_is_last (load_chunks_loop B r s (word_of_nat (length ps)) 0 ps) =
     replicate (length ps - 1) False @ [True]"
proof (rule nth_equalityI)
  show "length (map ch_is_last (load_chunks_loop B r s (word_of_nat (length ps)) 0 ps)) =
      length (replicate (length ps - 1) False @ [True])"
    using assms(1) by (simp add: load_chunks_loop_payloads)
  fix j assume "j < length (map ch_is_last (load_chunks_loop B r s (word_of_nat (length ps)) 0 ps))"
  then have j: "j < length ps" by (simp add: load_chunks_loop_payloads)
  have "(word_of_nat j + 1 :: u32) = word_of_nat (Suc j)" by simp
  then have "(word_of_nat j + 1 = (word_of_nat (length ps) :: u32)) \<longleftrightarrow> Suc j = length ps"
    using j assms(2) word_of_nat_eq_iff(1) [of "Suc j" "length ps"] by (simp add: add.commute)
  then show "map ch_is_last (load_chunks_loop B r s (word_of_nat (length ps)) 0 ps) ! j =
      (replicate (length ps - 1) False @ [True]) ! j"
    using j by (auto simp: load_chunks_loop_nth load_chunks_loop_payloads nth_append)
qed

lemma chunk_count_chunks:
  assumes "bytes \<noteq> []" and "length bytes < 2 ^ 50"
  shows "chunk_count (length bytes) = word_of_nat (length (chunks_of MAX_CONTENT_CHUNK_BYTES bytes))"
    and "0 < length (chunks_of MAX_CONTENT_CHUNK_BYTES bytes)"
    and "length (chunks_of MAX_CONTENT_CHUNK_BYTES bytes) < 2 ^ 32"
proof -
  have n: "length (chunks_of MAX_CONTENT_CHUNK_BYTES bytes) =
      div_ceil (length bytes) MAX_CONTENT_CHUNK_BYTES"
    by (rule length_chunks_of) (simp add: MAX_CONTENT_CHUNK_BYTES_def)
  have "div_ceil (length bytes) MAX_CONTENT_CHUNK_BYTES \<noteq> 0"
    using assms(1) by (simp add: div_ceil_zero MAX_CONTENT_CHUNK_BYTES_def)
  then have "max (div_ceil (length bytes) MAX_CONTENT_CHUNK_BYTES) 1 =
      div_ceil (length bytes) MAX_CONTENT_CHUNK_BYTES"
    and "0 < div_ceil (length bytes) MAX_CONTENT_CHUNK_BYTES" by simp_all
  then show "chunk_count (length bytes) =
      word_of_nat (length (chunks_of MAX_CONTENT_CHUNK_BYTES bytes))"
    "0 < length (chunks_of MAX_CONTENT_CHUNK_BYTES bytes)"
    by (simp_all only: n chunk_count_def)
  have "length bytes + MAX_CONTENT_CHUNK_BYTES - 1 < 2 ^ 32 * MAX_CONTENT_CHUNK_BYTES"
    using assms(2) by (simp add: MAX_CONTENT_CHUNK_BYTES_def)
  then show "length (chunks_of MAX_CONTENT_CHUNK_BYTES bytes) < 2 ^ 32"
    unfolding n div_ceil_def by (rule less_mult_imp_div_less)
qed

text \<open>
  Loading the chunks of a stored object gives its bytes back, cut into consecutive
  chunks numbered from zero of which exactly the final one is marked last, and each of them passes
  the validation of the wire contract.
\<close>

theorem load_chunks_complete:
  assumes "map_get files sha = Some bytes" and "bytes \<noteq> []" and "length bytes < 2 ^ 50"
    and "is_hex64 sha" and "is_uuid_v7 request_id" and "sha_ok (bl_sha256_hex B)"
  shows "\<exists>cs. load_chunks B files sha request_id = Inr cs
    \<and> concat (map ch_payload_zstd cs) = bytes
    \<and> map ch_chunk_index cs = map word_of_nat [0..<length cs]
    \<and> map ch_is_last cs = replicate (length cs - 1) False @ [True]
    \<and> list_all (\<lambda>c. validate_chunk (bl_sha256_hex B) c = Inr ()) cs"
proof -
  let ?ps = "chunks_of MAX_CONTENT_CHUNK_BYTES bytes"
  let ?cs = "load_chunks_loop B request_id sha (word_of_nat (length ?ps)) 0 ?ps"
  note n = chunk_count_chunks [OF assms(2,3)]
  have "load_chunks B files sha request_id = Inr ?cs"
    by (simp add: load_chunks_def assms(1) n(1))
  moreover have "concat (map ch_payload_zstd ?cs) = bytes"
    by (simp add: load_chunks_loop_payloads concat_chunks_of MAX_CONTENT_CHUNK_BYTES_def)
  moreover have "map ch_chunk_index ?cs = map word_of_nat [0..<length ?cs]"
    by (rule nth_equalityI) (simp_all add: load_chunks_loop_payloads load_chunks_loop_nth)
  moreover have "map ch_is_last ?cs = replicate (length ?cs - 1) False @ [True]"
    using last_marks [OF n(2,3)] by (simp add: load_chunks_loop_payloads)
  moreover have "list_all (\<lambda>c. validate_chunk (bl_sha256_hex B) c = Inr ()) ?cs"
    using load_chunks_loop_valid [OF _ n(3)] chunks_of_length assms(4-6)
    by (fastforce simp: list_all_iff)
  ultimately show ?thesis by blast
qed

lemma constant_sha_ok: "sha_ok (\<lambda>b. replicate 64 CHR ''a'')"
proof -
  have "list_all is_ascii_hexdigit (replicate 64 CHR ''a'')"
    by (simp add: list_all_iff is_ascii_hexdigit_def code_def)
  moreover have "ascii_lower CHR ''a'' = CHR ''a''" by (simp add: ascii_lower_def code_def)
  ultimately show ?thesis by (simp add: sha_ok_def is_hex64_def to_ascii_lowercase_def)
qed

theorem load_chunks_complete_witness:
  "\<exists>cs. load_chunks \<lparr>bl_sha256_hex = (\<lambda>b. replicate 64 CHR ''a''), bl_encode_all = Inr\<rparr>
      [(replicate 64 CHR ''a'', [1, 2, 3])] (replicate 64 CHR ''a'') (Uuid 7 1) = Inr cs
    \<and> concat (map ch_payload_zstd cs) = [1, 2, 3]"
  using load_chunks_complete [of "[(replicate 64 CHR ''a'', [1, 2, 3])]" "replicate 64 CHR ''a''"
      "[1, 2, 3]" "Uuid 7 1" "\<lparr>bl_sha256_hex = (\<lambda>b. replicate 64 CHR ''a''), bl_encode_all = Inr\<rparr>"]
    constant_sha_ok
  by (auto simp: sha_ok_def is_uuid_v7_def)

text \<open>
  What is stored keeps no credential: of the captured headers exactly those whose name is, in
  any case, an authorization or cookie header or contains \<open>api-key\<close> are removed, the object is found
  under its digest with the bytes it had when the digest was first stored, and other objects keep
  theirs.
\<close>

theorem blob_store_keeps_no_credentials:
  assumes "blob_store B files x = Inr (files', b)"
  shows "set (sb_sanitized_headers b) = {(k, v) \<in> set (sc_headers x). \<not> is_sensitive k}
    \<and> list_all (\<lambda>(k, v). to_ascii_lowercase k \<notin> {''authorization'', ''proxy-authorization'',
         ''cookie'', ''set-cookie''} \<and> \<not> contains_sub (to_ascii_lowercase k) ''api-key'')
         (sb_sanitized_headers b)
    \<and> map_get files' (sb_object_sha256 b) =
        or_else (map_get files (sb_object_sha256 b)) (Some (sb_compressed_bytes b))
    \<and> (\<forall>k. k = sb_object_sha256 b \<or> map_get files' k = map_get files k)
    \<and> sb_expires_at b = sb_created_at b + 72 * 3600 * 1000000000"
proof -
  from assms obtain z where "bl_encode_all B (sc_body x) = Inr z"
    "sb_object_sha256 b = bl_sha256_hex B (sc_body x)" "sb_compressed_bytes b = z"
    "files' = (if map_get files (bl_sha256_hex B (sc_body x)) = None
       then map_put files (bl_sha256_hex B (sc_body x)) z else files)"
    "sb_sanitized_headers b = sanitize_headers (sc_headers x)"
    "sb_expires_at b = sb_created_at b + RETENTION_HOURS * 3600 * 1000000000"
    by (auto simp: blob_store_def Let_def bindr_eq_Inr map_err_eq_Inr split: if_splits)
  then show ?thesis
    by (cases "map_get files (bl_sha256_hex B (sc_body x))")
      (auto simp: sanitize_headers_def is_sensitive_def Let_def list_all_iff RETENTION_HOURS_def)
qed

theorem blob_store_keeps_no_credentials_witness:
  "\<exists>files' b. blob_store \<lparr>bl_sha256_hex = (\<lambda>b. ''h''), bl_encode_all = Inr\<rparr> []
      \<lparr>sc_task = sample_key, sc_part = content_part.Request, sc_media_type = ''text/plain'',
       sc_body = [7], sc_headers = [(''Cookie'', ''a''), (''accept'', ''b'')], sc_created_at = 0\<rparr>
      = Inr (files', b)
    \<and> set (sb_sanitized_headers b) = {(''accept'', ''b'')}"
proof -
  let ?B = "\<lparr>bl_sha256_hex = (\<lambda>b. ''h''), bl_encode_all = Inr\<rparr>"
  let ?x = "\<lparr>sc_task = sample_key, sc_part = content_part.Request, sc_media_type = ''text/plain'',
       sc_body = [7], sc_headers = [(''Cookie'', ''a''), (''accept'', ''b'')], sc_created_at = 0\<rparr>"
  have "is_ok (blob_store ?B [] ?x)"
    by (simp add: blob_store_def Let_def trim_graphic is_graphic_def code_def)
  then obtain files' b where b: "blob_store ?B [] ?x = Inr (files', b)"
    by (auto simp: is_ok_iff)
  have "is_sensitive ''Cookie''" "\<not> is_sensitive ''accept''"
    by code_simp+
  then show ?thesis
    using b blob_store_keeps_no_credentials [OF b] by auto
qed

text \<open>
  The manifest counts the chunks of the body, \<open>load_chunks\<close> those of the compressed file: a body of
  more than one chunk whose compressed form fits into one is announced with a count that its
  upload never reaches.
\<close>

lemma manifest_count_disagrees:
  assumes "blob_store B [] x = Inr (files, b)" and "MAX_CONTENT_CHUNK_BYTES < length (sc_body x)"
    and "length (sc_body x) < 2 ^ 50" and "sb_compressed_bytes b \<noteq> []"
    and "length (sb_compressed_bytes b) \<le> MAX_CONTENT_CHUNK_BYTES"
    and "load_chunks B files (sb_object_sha256 b) r = Inr cs"
  shows "length cs = 1 \<and> list_all (\<lambda>c. ch_chunk_count c = 1) cs
    \<and> mf_chunk_count (blob_manifest b r) \<noteq> 1"
proof -
  let ?z = "sb_compressed_bytes b"
  have st: "map_get files (sb_object_sha256 b) = Some ?z"
    "sb_chunk_count b = chunk_count (length (sc_body x))"
    using assms(1) by (auto simp: blob_store_def Let_def bindr_eq_Inr split: if_splits)
  have "length ?z < 2 ^ 50"
    using assms(5) by (simp add: MAX_CONTENT_CHUNK_BYTES_def)
  note z = chunk_count_chunks [OF assms(4) this]
  have one: "chunks_of MAX_CONTENT_CHUNK_BYTES ?z = [?z]"
    using assms(4,5)
    by (simp add: chunks_of.simps [of _ ?z] chunks_of.simps [of _ "[]"] MAX_CONTENT_CHUNK_BYTES_def)
  have "sc_body x \<noteq> []" using assms(2) by auto
  note n = chunk_count_chunks [OF this assms(3)]
  have "div_ceil (length (sc_body x)) MAX_CONTENT_CHUNK_BYTES \<ge> 2"
    using assms(2) div_le_mono [of "2 * MAX_CONTENT_CHUNK_BYTES"
        "length (sc_body x) + MAX_CONTENT_CHUNK_BYTES - 1" MAX_CONTENT_CHUNK_BYTES]
    by (simp add: div_ceil_def MAX_CONTENT_CHUNK_BYTES_def)
  then have "length (chunks_of MAX_CONTENT_CHUNK_BYTES (sc_body x)) \<noteq> 1"
    by (simp add: length_chunks_of MAX_CONTENT_CHUNK_BYTES_def)
  then have "sb_chunk_count b \<noteq> word_of_nat 1"
    using word_of_nat_eq_iff(1) [OF n(3), of 1] by (simp only: st n(1)) simp
  then show ?thesis
    using assms(6) z(1) by (auto simp: load_chunks_def st(1) one blob_manifest_def)
qed

end
