(* ===== verification/Sql_Rows.thy ===== *)
theory Sql_Rows
  imports Prelude
begin

text \<open>
  The SQL statements of the client and the server on one table, as functions on the list of its rows
  in the order of their row ids. \<open>key\<close> is the primary key of the table; JSON columns hold the value
  they serialise.
\<close>

text \<open>\<open>SELECT ... WHERE key = k\<close>.\<close>

definition row_find :: "('r \<Rightarrow> 'k) \<Rightarrow> 'k \<Rightarrow> 'r list \<Rightarrow> 'r option" where
  "row_find key k rows = find (\<lambda>r. key r = k) rows"

text \<open>\<open>INSERT ... ON CONFLICT(key) DO UPDATE\<close> with the row that results.\<close>

fun row_put :: "('r \<Rightarrow> 'k) \<Rightarrow> 'r \<Rightarrow> 'r list \<Rightarrow> 'r list" where
  "row_put key r [] = [r]"
| "row_put key r (q # rows) = (if key q = key r then r # rows else q # row_put key r rows)"

text \<open>\<open>INSERT OR REPLACE\<close>: the old row goes, the new one gets a new row id.\<close>

definition row_replace :: "('r \<Rightarrow> 'k) \<Rightarrow> 'r \<Rightarrow> 'r list \<Rightarrow> 'r list" where
  "row_replace key r rows = filter (\<lambda>q. key q \<noteq> key r) rows @ [r]"

text \<open>\<open>INSERT OR IGNORE\<close> and \<open>ON CONFLICT DO NOTHING\<close>.\<close>

definition row_insert_new :: "('r \<Rightarrow> 'k) \<Rightarrow> 'r \<Rightarrow> 'r list \<Rightarrow> 'r list" where
  "row_insert_new key r rows = (if row_find key (key r) rows = None then rows @ [r] else rows)"

text \<open>\<open>INSERT ... ON CONFLICT(key) DO UPDATE SET f\<close>.\<close>

definition row_upsert :: "('r \<Rightarrow> 'k) \<Rightarrow> 'r \<Rightarrow> ('r \<Rightarrow> 'r) \<Rightarrow> 'r list \<Rightarrow> 'r list" where
  "row_upsert key new f rows =
     row_put key (case row_find key (key new) rows of None \<Rightarrow> new | Some r \<Rightarrow> f r) rows"

text \<open>\<open>UPDATE ... SET f WHERE p\<close>.\<close>

definition row_update :: "('r \<Rightarrow> bool) \<Rightarrow> ('r \<Rightarrow> 'r) \<Rightarrow> 'r list \<Rightarrow> 'r list" where
  "row_update p f rows = map (\<lambda>r. if p r then f r else r) rows"

text \<open>
  \<open>SELECT ... ORDER BY measure LIMIT 1\<close>; among equal measures the row with the smallest row id.
\<close>

fun row_min :: "('r \<Rightarrow> 'o :: linorder) \<Rightarrow> 'r list \<Rightarrow> 'r option" where
  "row_min f [] = None"
| "row_min f (r # rows) =
     (case row_min f rows of
        None \<Rightarrow> Some r
      | Some q \<Rightarrow> if f q < f r then Some q else Some r)"

lemma row_find_Nil [simp]: "row_find key k [] = None"
  by (simp add: row_find_def)

lemma row_find_Cons [simp]:
  "row_find key k (r # rows) = (if key r = k then Some r else row_find key k rows)"
  by (simp add: row_find_def)

lemma row_find_Some: "row_find key k rows = Some r \<Longrightarrow> r \<in> set rows \<and> key r = k"
  by (induction rows) (auto split: if_splits)

lemma row_find_None: "row_find key k rows = None \<longleftrightarrow> k \<notin> key ` set rows"
  by (induction rows) auto

lemma row_find_put [simp]:
  "row_find key k (row_put key r rows) = (if key r = k then Some r else row_find key k rows)"
  by (induction rows) auto

lemma row_find_append:
  "row_find key k (xs @ ys) = (case row_find key k xs of None \<Rightarrow> row_find key k ys | Some r \<Rightarrow> Some r)"
  by (induction xs) auto

lemma set_row_put: "set (row_put key r rows) \<subseteq> insert r (set rows)"
  by (induction rows) auto

lemma row_put_in: "r \<in> set (row_put key r rows)"
  by (induction rows) auto

lemma row_put_keys: "key ` set (row_put key r rows) = insert (key r) (key ` set rows)"
  by (induction rows) auto

lemma row_put_distinct: "distinct (map key rows) \<Longrightarrow> distinct (map key (row_put key r rows))"
  by (induction rows) (auto simp: image_iff dest: set_row_put [THEN subsetD])

lemma row_put_fresh: "row_find key (key r) rows = None \<Longrightarrow> row_put key r rows = rows @ [r]"
  by (induction rows) (auto split: if_splits)

lemma row_find_update:
  assumes "\<And>r. key (f r) = key r"
  shows "row_find key k (row_update (\<lambda>r. key r = q) f rows) =
     (if k = q then map_option f (row_find key k rows) else row_find key k rows)"
  using assms by (induction rows) (auto simp: row_update_def)

lemma row_update_keys: "(\<And>r. key (f r) = key r) \<Longrightarrow> map key (row_update p f rows) = map key rows"
  by (simp add: row_update_def)

lemma row_min_Some: "row_min f rows = Some r \<Longrightarrow> r \<in> set rows \<and> (\<forall>q \<in> set rows. f r \<le> f q)"
proof (induction rows arbitrary: r)
  case (Cons a rows)
  show ?case
  proof (cases "row_min f rows")
    case None
    then have "rows = []" by (cases rows) (auto split: option.splits if_splits)
    with Cons.prems show ?thesis by simp
  next
    case (Some q)
    with Cons.IH [OF Some] Cons.prems show ?thesis by (auto split: if_splits)
  qed
qed simp

lemma row_min_None [simp]: "row_min f rows = None \<longleftrightarrow> rows = []"
  by (cases rows) (auto split: option.splits)

lemma row_upsert_keys:
  "(\<And>r. key (f r) = key r) \<Longrightarrow>
     key ` set (row_upsert key new f rows) = insert (key new) (key ` set rows)"
  by (auto simp: row_upsert_def row_put_keys dest: row_find_Some split: option.split)

lemma set_row_upsert:
  "set (row_upsert key new f rows) \<subseteq>
     set rows \<union> {new} \<union> {f r |r. r \<in> set rows \<and> key r = key new}"
  using set_row_put [of key] by (fastforce simp: row_upsert_def dest: row_find_Some split: option.split)

lemma row_upsert_distinct:
  "distinct (map key rows) \<Longrightarrow> distinct (map key (row_upsert key new f rows))"
  by (simp add: row_upsert_def row_put_distinct)

lemma row_upsert_find:
  assumes "\<And>r. key (f r) = key r"
  shows "row_find key k (row_upsert key new f rows) =
    (if key new = k then Some (case row_find key k rows of None \<Rightarrow> new | Some r \<Rightarrow> f r)
     else row_find key k rows)"
  using assms by (auto simp: row_upsert_def dest: row_find_Some split: option.split)

end
