(* ===== verification/Client_Store.thy ===== *)
theory Client_Store
  imports Client_Blob Protocol_Codec Sql_Rows "HOL-Library.List_Lexorder" "HOL-Library.Char_ord"
begin

text \<open>
  The SQLite store of \<open>crates/client/src/store.rs\<close>: its tables as lists of rows, its statements as
  the functions of \<open>Sql_Rows\<close>, a transaction as a step that keeps the old tables when it fails.
  Identifiers drawn and clock reads are numbered streams; the counters of the tables that SQLite
  keeps as 64-bit integers keep the width of the field they store.
\<close>

section \<open>Tables\<close>

record task_row =
  tr_ref :: string
  tr_client_id :: string
  tr_provider :: string
  tr_session_id :: string
  tr_thread_id :: string
  tr_turn_id :: string
  tr_title :: "string option"
  tr_phase :: client_phase
  tr_outcome :: "task_outcome option"
  tr_sequence :: u64
  tr_last_event_id :: uuid
  tr_started_at :: i64
  tr_updated_at :: i64
  tr_terminal_at :: "i64 option"
  tr_attempt_count :: u32
  tr_model :: "string option"
  tr_tool_names :: "string list"
  tr_response_ids :: "string list"
  tr_usage :: token_usage
  tr_completeness :: completeness
  tr_last_error :: "structured_error option"
  tr_parent_turn_id :: "string option"
  tr_root_turn_id :: "string option"
  tr_first_seen_at :: "i64 option"

record attempt_row =
  ar_attempt_id :: uuid
  ar_task_ref :: string
  ar_ordinal :: u32
  ar_status :: client_attempt_status
  ar_started_at :: i64
  ar_finished_at :: "i64 option"
  ar_response_id :: "string option"
  ar_model :: "string option"
  ar_tool_names :: "string list"
  ar_usage :: token_usage
  ar_completeness :: completeness
  ar_error :: "structured_error option"

record gap_row =
  gr_gap_id :: uuid
  gr_client_instance_id :: uuid
  gr_task_ref :: "string option"
  gr_observed_at :: i64
  gr_reason :: string
  gr_lost_bytes :: "u64 option"
  gr_flow_id :: "uuid option"

record process_row =
  pr_process_instance_id :: uuid
  pr_client_instance_id :: uuid
  pr_pid :: u32
  pr_executable_sha256 :: string
  pr_codex_version :: "string option"
  pr_started_at :: i64
  pr_exited_at :: "i64 option"
  pr_exit_code :: "i32 option"
  pr_signal :: "i32 option"

record flow_row =
  fr_flow_id :: uuid
  fr_client_instance_id :: uuid
  fr_process_instance_id :: "uuid option"
  fr_local_addr :: string
  fr_remote_addr :: string
  fr_transport :: string
  fr_created_at :: i64
  fr_closed_at :: "i64 option"

record raw_row =
  rr_object_sha256 :: string
  rr_task_ref :: string
  rr_part :: string
  rr_media_type :: string
  rr_uncompressed_bytes :: u64
  rr_compressed_bytes :: u64
  rr_chunk_count :: u32
  rr_created_at :: i64
  rr_expires_at :: i64
  rr_pinned_by_command_id :: "uuid option"
  rr_sanitized_headers :: "(string \<times> string) list"

record outbox_row =
  ox_batch_id :: uuid
  ox_payload_sha256 :: string
  ox_body :: "byte list"
  ox_record_count :: nat
  ox_created_at :: i64
  ox_next_attempt_at :: i64
  ox_attempt_count :: u32
  ox_last_error :: "string option"
  ox_is_priority :: bool

record acked_row =
  ak_batch_id :: uuid
  ak_payload_sha256 :: string
  ak_acked_at :: i64

datatype command_status = Pending | Running | Failed | Completed

record command_row =
  cw_command_id :: uuid
  cw_expires_at :: i64
  cw_status :: command_status
  cw_payload :: client_command
  cw_result :: "content_upload_result option"
  cw_error :: "string option"
  cw_attempt_count :: u32
  cw_next_attempt_at :: i64
  cw_completed_at :: "i64 option"

record client_store =
  st_client :: client_instance
  st_processes :: "process_row list"
  st_flows :: "flow_row list"
  st_tasks :: "task_row list"
  st_attempts :: "attempt_row list"
  st_gaps :: "gap_row list"
  st_raw_objects :: "raw_row list"
  st_outbox :: "outbox_row list"
  st_acked :: "acked_row list"
  st_commands :: "command_row list"

section \<open>Reading a task\<close>

definition cursor_of :: "task_row \<Rightarrow> task_cursor" where
  "cursor_of r =
     \<lparr>cu_sequence = tr_sequence r, cu_conversation_title = tr_title r,
      cu_attempt_count = tr_attempt_count r, cu_phase = tr_phase r, cu_outcome = tr_outcome r,
      cu_started_at = from_ms (tr_started_at r), cu_updated_at = from_ms (tr_updated_at r),
      cu_completeness = tr_completeness r, cu_model = tr_model r, cu_tool_names = tr_tool_names r,
      cu_response_ids = tr_response_ids r, cu_usage = tr_usage r\<rparr>"

definition find_task :: "client_store \<Rightarrow> string \<Rightarrow> task_row option" where
  "find_task st task_ref = row_find tr_ref task_ref (st_tasks st)"

definition load_task_cursor :: "client_store \<Rightarrow> task_key \<Rightarrow> task_cursor option" where
  "load_task_cursor st k = map_option cursor_of (find_task st (key_task_ref k))"

definition has_attempt_response :: "client_store \<Rightarrow> task_key \<Rightarrow> string \<Rightarrow> bool" where
  "has_attempt_response st k rid =
     list_ex (\<lambda>a. ar_task_ref a = key_task_ref k \<and> ar_response_id a = Some rid)
       (st_attempts st)"

section \<open>Applying a record\<close>

text \<open>Whether a stored row is as recent as a record with this sequence number and event.\<close>

definition is_stale :: "task_row \<Rightarrow> u64 \<Rightarrow> uuid \<Rightarrow> bool" where
  "is_stale r sequence event_id =
     (tr_sequence r > sequence \<or> (tr_sequence r = sequence \<and> tr_last_event_id r = event_id))"

definition new_task_row :: "task_summary \<Rightarrow> task_row" where
  "new_task_row s =
     \<lparr>tr_ref = key_task_ref (ts_task s), tr_client_id = tk_client_id (ts_task s),
      tr_provider = tk_provider (ts_task s), tr_session_id = tk_session_id (ts_task s),
      tr_thread_id = tk_thread_id (ts_task s), tr_turn_id = tk_turn_id (ts_task s),
      tr_title = ts_conversation_title s, tr_phase = ts_phase s, tr_outcome = ts_outcome s,
      tr_sequence = ts_sequence s, tr_last_event_id = ts_last_event_id s,
      tr_started_at = ts (ts_started_at s), tr_updated_at = ts (ts_updated_at s),
      tr_terminal_at = map_option ts (ts_terminal_at s), tr_attempt_count = ts_attempt_count s,
      tr_model = ts_model s, tr_tool_names = ts_tool_names s, tr_response_ids = ts_response_ids s,
      tr_usage = ts_usage s, tr_completeness = ts_completeness s, tr_last_error = ts_last_error s,
      tr_parent_turn_id = None, tr_root_turn_id = None,
      tr_first_seen_at = Some (ts (ts_started_at s))\<rparr>"

text \<open>The row of \<open>ON CONFLICT(task_ref) DO UPDATE\<close>.\<close>

definition updated_task_row :: "task_row \<Rightarrow> task_summary \<Rightarrow> task_row" where
  "updated_task_row r s =
     r\<lparr>tr_title := or_else (ts_conversation_title s) (tr_title r), tr_phase := ts_phase s,
       tr_outcome := ts_outcome s, tr_sequence := ts_sequence s,
       tr_last_event_id := ts_last_event_id s, tr_started_at := ts (ts_started_at s),
       tr_updated_at := ts (ts_updated_at s), tr_terminal_at := map_option ts (ts_terminal_at s),
       tr_attempt_count := ts_attempt_count s, tr_model := ts_model s,
       tr_tool_names := ts_tool_names s, tr_response_ids := ts_response_ids s,
       tr_usage := ts_usage s, tr_completeness := ts_completeness s,
       tr_last_error := ts_last_error s\<rparr>"

definition upsert_task_summary :: "client_store \<Rightarrow> task_summary \<Rightarrow> client_store \<times> bool" where
  "upsert_task_summary st s =
     (case find_task st (key_task_ref (ts_task s)) of
        None \<Rightarrow> (st\<lparr>st_tasks := row_put tr_ref (new_task_row s) (st_tasks st)\<rparr>, True)
      | Some r \<Rightarrow>
          if is_stale r (ts_sequence s) (ts_last_event_id s) then (st, False)
          else (st\<lparr>st_tasks := row_put tr_ref (updated_task_row r s) (st_tasks st)\<rparr>, True))"

definition new_transition_row :: "task_transition \<Rightarrow> task_row" where
  "new_transition_row t =
     \<lparr>tr_ref = key_task_ref (tt_task t), tr_client_id = tk_client_id (tt_task t),
      tr_provider = tk_provider (tt_task t), tr_session_id = tk_session_id (tt_task t),
      tr_thread_id = tk_thread_id (tt_task t), tr_turn_id = tk_turn_id (tt_task t),
      tr_title = None, tr_phase = tt_phase t, tr_outcome = tt_outcome t,
      tr_sequence = tt_sequence t, tr_last_event_id = tt_event_id t,
      tr_started_at = ts (tt_observed_at t), tr_updated_at = ts (tt_observed_at t),
      tr_terminal_at = (if tt_phase t = client_phase.Terminal then Some (ts (tt_observed_at t))
        else None),
      tr_attempt_count = 0, tr_model = None, tr_tool_names = [], tr_response_ids = [],
      tr_usage = token_usage_default, tr_completeness = tt_completeness t,
      tr_last_error = tt_error t, tr_parent_turn_id = None, tr_root_turn_id = None,
      tr_first_seen_at = Some (ts (tt_observed_at t))\<rparr>"

definition updated_transition_row :: "task_row \<Rightarrow> task_transition \<Rightarrow> task_row" where
  "updated_transition_row r t =
     r\<lparr>tr_phase := tt_phase t, tr_outcome := tt_outcome t, tr_sequence := tt_sequence t,
       tr_last_event_id := tt_event_id t, tr_updated_at := ts (tt_observed_at t),
       tr_terminal_at := (if tt_phase t = client_phase.Terminal then Some (ts (tt_observed_at t))
         else None),
       tr_completeness := tt_completeness t, tr_last_error := tt_error t\<rparr>"

definition upsert_transition :: "client_store \<Rightarrow> task_transition \<Rightarrow> client_store \<times> bool" where
  "upsert_transition st t =
     (case find_task st (key_task_ref (tt_task t)) of
        None \<Rightarrow> (st\<lparr>st_tasks := row_put tr_ref (new_transition_row t) (st_tasks st)\<rparr>, True)
      | Some r \<Rightarrow>
          if is_stale r (tt_sequence t) (tt_event_id t) then (st, False)
          else (st\<lparr>st_tasks := row_put tr_ref (updated_transition_row r t) (st_tasks st)\<rparr>, True))"

definition new_attempt_row :: "attempt_summary \<Rightarrow> attempt_row" where
  "new_attempt_row a =
     \<lparr>ar_attempt_id = as_attempt_id a, ar_task_ref = key_task_ref (as_task a),
      ar_ordinal = as_ordinal a, ar_status = as_status a, ar_started_at = ts (as_started_at a),
      ar_finished_at = map_option ts (as_finished_at a), ar_response_id = as_response_id a,
      ar_model = as_model a, ar_tool_names = as_tool_names a, ar_usage = as_usage a,
      ar_completeness = as_completeness a, ar_error = as_error a\<rparr>"

definition updated_attempt_row :: "attempt_row \<Rightarrow> attempt_summary \<Rightarrow> attempt_row" where
  "updated_attempt_row r a =
     r\<lparr>ar_status := as_status a, ar_finished_at := map_option ts (as_finished_at a),
       ar_response_id := as_response_id a, ar_model := as_model a,
       ar_tool_names := as_tool_names a, ar_usage := as_usage a,
       ar_completeness := as_completeness a, ar_error := as_error a\<rparr>"

definition attempt_merged_row :: "task_row \<Rightarrow> attempt_summary \<Rightarrow> task_row" where
  "attempt_merged_row r a =
     r\<lparr>tr_attempt_count := max (tr_attempt_count r) (as_ordinal a),
       tr_model := or_else (as_model a) (tr_model r),
       tr_tool_names := merge_unique (tr_tool_names r) (as_tool_names a),
       tr_response_ids := merge_unique (tr_response_ids r)
         (case as_response_id a of None \<Rightarrow> [] | Some i \<Rightarrow> [i]),
       tr_usage := as_usage a, tr_completeness := as_completeness a,
       tr_last_error := or_else (as_error a) (tr_last_error r)\<rparr>"

definition upsert_attempt :: "client_store \<Rightarrow> attempt_summary \<Rightarrow> client_store \<times> bool" where
  "upsert_attempt st a =
     (case row_find ar_attempt_id (as_attempt_id a) (st_attempts st) of
        Some r \<Rightarrow>
          (st\<lparr>st_attempts := row_put ar_attempt_id (updated_attempt_row r a) (st_attempts st)\<rparr>, True)
      | None \<Rightarrow>
          (st\<lparr>st_attempts := row_put ar_attempt_id (new_attempt_row a) (st_attempts st),
              st_tasks :=
                (case find_task st (key_task_ref (as_task a)) of
                   None \<Rightarrow> st_tasks st
                 | Some r \<Rightarrow> row_put tr_ref (attempt_merged_row r a) (st_tasks st))\<rparr>, True))"

definition upsert_gap :: "client_store \<Rightarrow> capture_gap_summary \<Rightarrow> client_store \<times> bool" where
  "upsert_gap st g =
     (if row_find gr_gap_id (gs_gap_id g) (st_gaps st) \<noteq> None then (st, False)
      else (st\<lparr>st_gaps := st_gaps st @
              [\<lparr>gr_gap_id = gs_gap_id g, gr_client_instance_id = gs_client_instance_id g,
                gr_task_ref = map_option key_task_ref (gs_task g),
                gr_observed_at = ts (gs_observed_at g), gr_reason = gs_reason g,
                gr_lost_bytes = gs_lost_bytes g, gr_flow_id = gs_flow_id g\<rparr>]\<rparr>, True))"

definition new_process_row :: "process_summary \<Rightarrow> process_row" where
  "new_process_row p =
     \<lparr>pr_process_instance_id = ps_process_instance_id p,
      pr_client_instance_id = ps_client_instance_id p, pr_pid = ps_pid p,
      pr_executable_sha256 = ps_executable_sha256 p, pr_codex_version = ps_codex_version p,
      pr_started_at = ts (ps_started_at p), pr_exited_at = map_option ts (ps_exited_at p),
      pr_exit_code = ps_exit_code p, pr_signal = ps_signal p\<rparr>"

definition upsert_process :: "client_store \<Rightarrow> process_summary \<Rightarrow> client_store \<times> bool" where
  "upsert_process st p =
     (case row_find pr_process_instance_id (ps_process_instance_id p) (st_processes st) of
        None \<Rightarrow>
          (st\<lparr>st_processes := row_put pr_process_instance_id (new_process_row p) (st_processes st)\<rparr>, True)
      | Some r \<Rightarrow>
          (st\<lparr>st_processes := row_put pr_process_instance_id
                (r\<lparr>pr_exited_at := map_option ts (ps_exited_at p), pr_exit_code := ps_exit_code p,
                   pr_signal := ps_signal p\<rparr>) (st_processes st)\<rparr>, False))"

definition session_merged_row :: "task_row \<Rightarrow> session_summary \<Rightarrow> task_row" where
  "session_merged_row r s =
     r\<lparr>tr_parent_turn_id := or_else (ss_parent_turn_id s) (tr_parent_turn_id r),
       tr_root_turn_id := or_else (ss_root_turn_id s) (tr_root_turn_id r),
       tr_first_seen_at := or_else (tr_first_seen_at r) (Some (ts (ss_first_seen_at s)))\<rparr>"

definition merge_session :: "client_store \<Rightarrow> session_summary \<Rightarrow> client_store \<times> bool" where
  "merge_session st s =
     (case find_task st (key_task_ref (ss_task s)) of
        None \<Rightarrow> (st, False)
      | Some r \<Rightarrow>
          (st\<lparr>st_tasks := row_put tr_ref (session_merged_row r s) (st_tasks st)\<rparr>, True))"

fun apply_record :: "client_store \<Rightarrow> summary_record \<Rightarrow> client_store \<times> bool" where
  "apply_record st (Task s) = upsert_task_summary st s"
| "apply_record st (TaskTransition t) = (fst (upsert_transition st t), True)"
| "apply_record st (Attempt a) = upsert_attempt st a"
| "apply_record st (CaptureGap g) = upsert_gap st g"
| "apply_record st (Process p) = upsert_process st p"
| "apply_record st (Session s) = merge_session st s"
| "apply_record st (Heartbeat h) = (st, True)"
| "apply_record st (HttpExchange x) = (st, True)"

text \<open>The first loop of \<open>persist_ingress\<close>: the records that were new and the number of the others.\<close>

fun apply_records ::
  "client_store \<Rightarrow> summary_record list \<Rightarrow> nat \<Rightarrow> summary_record list
     \<Rightarrow> client_store \<times> summary_record list \<times> nat" where
  "apply_records st accepted dups [] = (st, accepted, dups)"
| "apply_records st accepted dups (r # rs) =
     (case apply_record st r of
        (st', True) \<Rightarrow> apply_records st' (accepted @ [r]) dups rs
      | (st', False) \<Rightarrow> apply_records st' accepted (Suc dups) rs)"

section \<open>Contents\<close>

definition raw_row_of :: "stored_blob \<Rightarrow> raw_row" where
  "raw_row_of b =
     \<lparr>rr_object_sha256 = sb_object_sha256 b, rr_task_ref = key_task_ref (sb_task b),
      rr_part = content_part_name (sb_part b), rr_media_type = sb_media_type b,
      rr_uncompressed_bytes = word_of_nat (sb_uncompressed_bytes b),
      rr_compressed_bytes = word_of_nat (length (sb_compressed_bytes b)),
      rr_chunk_count = sb_chunk_count b, rr_created_at = ts (sb_created_at b),
      rr_expires_at = ts (sb_expires_at b), rr_pinned_by_command_id = None,
      rr_sanitized_headers = sb_sanitized_headers b\<rparr>"

definition store_raw_object :: "client_store \<Rightarrow> stored_blob \<Rightarrow> client_store" where
  "store_raw_object st b =
     st\<lparr>st_raw_objects := row_replace rr_object_sha256 (raw_row_of b) (st_raw_objects st)\<rparr>"

text \<open>\<open>WHERE task_ref = ? AND part = ? ORDER BY created_at DESC LIMIT 1\<close>.\<close>

definition latest_raw :: "client_store \<Rightarrow> string \<Rightarrow> content_part \<Rightarrow> raw_row option" where
  "latest_raw st task_ref part =
     row_min (\<lambda>r. - rr_created_at r)
       (filter (\<lambda>r. rr_task_ref r = task_ref \<and> rr_part r = content_part_name part)
         (st_raw_objects st))"

fun store_contents ::
  "blob_lib \<Rightarrow> blob_files \<Rightarrow> client_store \<Rightarrow> nat \<Rightarrow> stored_content_input list
     \<Rightarrow> blob_files \<times> (blob_error + client_store \<times> nat)" where
  "store_contents B files st n [] = (files, Inr (st, n))"
| "store_contents B files st n (c # cs) =
     (case blob_store B files c of
        Inl e \<Rightarrow> (files, Inl e)
      | Inr (files', b) \<Rightarrow> store_contents B files' (store_raw_object st b) (Suc n) cs)"

section \<open>Wire batches\<close>

record task_accumulator =
  acc_attempts :: "attempt_record list"
  acc_events :: "task_event list"
  acc_errors :: "error_record list"
  acc_gaps :: "capture_gap_record list"

definition accumulator_default :: task_accumulator where
  "accumulator_default = \<lparr>acc_attempts = [], acc_events = [], acc_errors = [], acc_gaps = []\<rparr>"

type_synonym accumulators = "(string \<times> task_accumulator) list"

definition acc_update ::
  "accumulators \<Rightarrow> string \<Rightarrow> (task_accumulator \<Rightarrow> task_accumulator) \<Rightarrow> accumulators" where
  "acc_update m k f = map_put m k (f (unwrap_or (map_get m k) accumulator_default))"

record batch_builder =
  bb_task_refs :: "string list"
  bb_tasks :: accumulators
  bb_heartbeats :: "heartbeat list"

definition insert_ref :: "string \<Rightarrow> batch_builder \<Rightarrow> batch_builder" where
  "insert_ref r b = b\<lparr>bb_task_refs := (if r \<in> set (bb_task_refs b) then bb_task_refs b
     else r # bb_task_refs b)\<rparr>"

definition add_event :: "task_event \<Rightarrow> task_accumulator \<Rightarrow> task_accumulator" where
  "add_event e a = a\<lparr>acc_errors := (case ev_error e of None \<Rightarrow> acc_errors a
       | Some x \<Rightarrow> acc_errors a @ [x]), acc_events := acc_events a @ [e]\<rparr>"

definition add_attempt :: "attempt_record \<Rightarrow> task_accumulator \<Rightarrow> task_accumulator" where
  "add_attempt r a = a\<lparr>acc_errors := (case at_error r of None \<Rightarrow> acc_errors a
       | Some x \<Rightarrow> acc_errors a @ [x]), acc_attempts := acc_attempts a @ [r]\<rparr>"

fun build_record ::
  "(uuid \<Rightarrow> string) \<Rightarrow> client_store \<Rightarrow> uuid \<Rightarrow> summary_record \<Rightarrow> batch_builder \<Rightarrow> batch_builder" where
  "build_record show_uuid st u (Session s) b = insert_ref (key_task_ref (ss_task s)) b"
| "build_record show_uuid st u (Task s) b = insert_ref (key_task_ref (ts_task s)) b"
| "build_record show_uuid st u (TaskTransition t) b =
     (let r = key_task_ref (tt_task t); c = insert_ref r b in
      c\<lparr>bb_tasks := acc_update (bb_tasks c) r (add_event (map_transition_event u t))\<rparr>)"
| "build_record show_uuid st u (Attempt a) b =
     (let r = key_task_ref (as_task a); c = insert_ref r b;
          rec = build_attempt_record u
            (map_option rr_object_sha256 (latest_raw st r content_part.Request))
            (map_option rr_object_sha256 (latest_raw st r content_part.Response)) a in
      c\<lparr>bb_tasks := acc_update (bb_tasks c) r (add_attempt rec)\<rparr>)"
| "build_record show_uuid st u (CaptureGap g) b =
     (case gs_task g of
        None \<Rightarrow> b
      | Some k \<Rightarrow>
          (let r = key_task_ref k; c = insert_ref r b in
           c\<lparr>bb_tasks := acc_update (bb_tasks c) r
             (\<lambda>a. a\<lparr>acc_gaps := acc_gaps a @ [map_gap_record show_uuid g]\<rparr>)\<rparr>))"
| "build_record show_uuid st u (Heartbeat h) b =
     b\<lparr>bb_heartbeats := bb_heartbeats b @ [build_heartbeat (ci_client_id (st_client st)) u h]\<rparr>"
| "build_record show_uuid st u (HttpExchange x) b = b"
| "build_record show_uuid st u (Process p) b = b"

fun build_records ::
  "(uuid \<Rightarrow> string) \<Rightarrow> client_store \<Rightarrow> (nat \<Rightarrow> uuid) \<Rightarrow> nat \<Rightarrow> summary_record list \<Rightarrow> batch_builder
     \<Rightarrow> batch_builder" where
  "build_records show_uuid st ids i [] b = b"
| "build_records show_uuid st ids i (r # rs) b =
     build_records show_uuid st ids (Suc i) rs (build_record show_uuid st (ids i) r b)"

definition snapshot_of :: "uuid \<Rightarrow> task_row \<Rightarrow> task_snapshot" where
  "snapshot_of error_id r =
     \<lparr>sn_task_ref = tr_ref r,
      sn_identity = \<lparr>id_provider = tr_provider r, id_session_id = tr_session_id r,
        id_thread_id = tr_thread_id r, id_turn_id = tr_turn_id r\<rparr>,
      sn_codex = \<lparr>cm_request_kind = ''turn'', cm_parent_turn_id = tr_parent_turn_id r,
        cm_root_turn_id = tr_root_turn_id r\<rparr>,
      sn_conversation_title = tr_title r, sn_sequence = tr_sequence r,
      sn_phase = map_phase (tr_phase r), sn_terminal = map_option map_outcome (tr_outcome r),
      sn_integrity = map_integrity (tr_completeness r), sn_model = tr_model r,
      sn_attempt_count = tr_attempt_count r, sn_tool_names = tr_tool_names r,
      sn_response_ids = tr_response_ids r, sn_usage = map_usage (tr_usage r),
      sn_started_at_ms = tr_started_at r, sn_updated_at_ms = tr_updated_at r,
      sn_completed_at_ms = tr_terminal_at r,
      sn_last_error = map_option (\<lambda>e. map_error_record error_id (tr_ref r) None (tr_updated_at r) e None)
        (tr_last_error r)\<rparr>"

fun uploads_loop ::
  "client_store \<Rightarrow> (nat \<Rightarrow> uuid) \<Rightarrow> nat \<Rightarrow> accumulators \<Rightarrow> string list \<Rightarrow> task_upload list" where
  "uploads_loop st ids i accs [] = []"
| "uploads_loop st ids i accs (r # rs) =
     (case find_task st r of
        None \<Rightarrow> uploads_loop st ids (Suc i) accs rs
      | Some row \<Rightarrow>
          (let a = unwrap_or (map_get accs r) accumulator_default in
           \<lparr>up_snapshot = snapshot_of (ids i) row, up_attempts = acc_attempts a,
            up_events = acc_events a, up_errors = dedupe_errors (acc_errors a),
            up_gaps = acc_gaps a\<rparr>
           # uploads_loop st ids (Suc i) (map_del accs r) rs))"

text \<open>
  \<open>ids\<close> 0 is the batch's identifier, the next ones are drawn by the records in order and then by the
  snapshots.
\<close>

definition build_wire_batch ::
  "(uuid \<Rightarrow> string) \<Rightarrow> client_store \<Rightarrow> (nat \<Rightarrow> uuid) \<Rightarrow> i64 \<Rightarrow> summary_record list \<Rightarrow> ingest_batch" where
  "build_wire_batch show_uuid st ids generated_at records =
     (let b = build_records show_uuid st ids 1 records
            \<lparr>bb_task_refs = [], bb_tasks = [], bb_heartbeats = []\<rparr> in
      \<lparr>ib_version = PROTOCOL_VERSION, ib_batch_id = ids 0, ib_generated_at_ms = generated_at,
       ib_client = st_client st,
       ib_tasks = uploads_loop st ids (1 + length records) (bb_tasks b) (sort (bb_task_refs b)),
       ib_heartbeats = bb_heartbeats b\<rparr>)"

section \<open>The outbox\<close>

definition OUTBOX_HARD_CAP_BYTES :: nat where
  "OUTBOX_HARD_CAP_BYTES = 1024 * 1024 * 1024"

definition OUTBOX_PRIORITY_RESERVE_BYTES :: nat where
  "OUTBOX_PRIORITY_RESERVE_BYTES = 64 * 1024 * 1024"

definition body_bytes :: "outbox_row list \<Rightarrow> nat" where
  "body_bytes rows = sum_list (map (\<lambda>r. length (ox_body r)) rows)"

datatype 'l store_error =
    HardCapReached | RoutineBudgetExhausted | EncodeFailed "'l codec_error" | BlobFailed blob_error
  | NoSuchRow

definition ensure_outbox_capacity :: "client_store \<Rightarrow> nat \<Rightarrow> bool \<Rightarrow> 'l store_error + unit" where
  "ensure_outbox_capacity st next_bytes priority =
     (let total_bytes = body_bytes (st_outbox st);
          priority_bytes = body_bytes (filter ox_is_priority (st_outbox st)) in
      if total_bytes + next_bytes > OUTBOX_HARD_CAP_BYTES then Inl HardCapReached
      else if \<not> priority
          \<and> total_bytes - priority_bytes + next_bytes
              > OUTBOX_HARD_CAP_BYTES - OUTBOX_PRIORITY_RESERVE_BYTES
      then Inl RoutineBudgetExhausted
      else Inr ())"

record 'l store_lib =
  sl_wire :: "'l wire_lib"
  sl_zstd :: "byte list \<Rightarrow> string + byte list"
  sl_show_uuid :: "uuid \<Rightarrow> string"

definition store_sha :: "'l store_lib \<Rightarrow> byte list \<Rightarrow> string" where
  "store_sha S = sha256_hex (sl_wire S)"

definition blob_lib_of :: "'l store_lib \<Rightarrow> blob_lib" where
  "blob_lib_of S = \<lparr>bl_sha256_hex = store_sha S, bl_encode_all = sl_zstd S\<rparr>"

text \<open>
  The loop of \<open>enqueue_records_tx\<close>: \<open>ids\<close> and \<open>clk\<close> give the identifiers and the clock reads of
  each batch.
\<close>

definition outbox_row_of :: "encoded_batch \<Rightarrow> ingest_batch \<Rightarrow> i64 \<Rightarrow> i64 \<Rightarrow> bool \<Rightarrow> outbox_row" where
  "outbox_row_of e b created_at next_attempt_at priority =
     \<lparr>ox_batch_id = eb_batch_id e, ox_payload_sha256 = eb_payload_sha256 e, ox_body = eb_bytes e,
      ox_record_count = length (ib_tasks b) + length (ib_heartbeats b),
      ox_created_at = created_at, ox_next_attempt_at = next_attempt_at, ox_attempt_count = 0,
      ox_last_error = None, ox_is_priority = priority\<rparr>"

fun enqueue_loop ::
  "'l store_lib \<Rightarrow> (nat \<Rightarrow> nat \<Rightarrow> uuid) \<Rightarrow> (nat \<Rightarrow> nat \<Rightarrow> i64) \<Rightarrow> bool \<Rightarrow> nat \<Rightarrow> nat \<Rightarrow> client_store
     \<Rightarrow> summary_record list list \<Rightarrow> 'l store_error + client_store \<times> nat" where
  "enqueue_loop S ids clk priority j inserted st [] = Inr (st, inserted)"
| "enqueue_loop S ids clk priority j inserted st (rs # rss) =
     (let b = build_wire_batch (sl_show_uuid S) st (ids j) (clk j 0) rs in
      if ib_tasks b = [] \<and> ib_heartbeats b = []
      then enqueue_loop S ids clk priority (Suc j) inserted st rss
      else
        bindr (map_err EncodeFailed (encode_batch (sl_wire S) b)) (\<lambda>e.
        bindr (ensure_outbox_capacity st (length (eb_bytes e)) priority) (\<lambda>_.
          enqueue_loop S ids clk priority (Suc j) (Suc inserted)
            (st\<lparr>st_outbox := st_outbox st @ [outbox_row_of e b (clk j 1) (clk j 2) priority]\<rparr>) rss)))"

definition enqueue_records ::
  "'l store_lib \<Rightarrow> (nat \<Rightarrow> nat \<Rightarrow> uuid) \<Rightarrow> (nat \<Rightarrow> nat \<Rightarrow> i64) \<Rightarrow> client_store \<Rightarrow> summary_record list
     \<Rightarrow> 'l store_error + client_store \<times> nat" where
  "enqueue_records S ids clk st records =
     (if records = [] then Inr (st, 0)
      else enqueue_loop S ids clk (list_ex is_priority_record records) 0 0 st
             (split_records records))"

record persist_outcome =
  po_enqueued_batches :: nat
  po_stored_contents :: nat
  po_duplicate_records :: nat

text \<open>
  \<open>persist_ingress\<close>: one transaction over the tables; the files of the blob store are written as it
  goes and stay when the transaction is rolled back.
\<close>

definition persist_ingress ::
  "'l store_lib \<Rightarrow> (nat \<Rightarrow> nat \<Rightarrow> uuid) \<Rightarrow> (nat \<Rightarrow> nat \<Rightarrow> i64) \<Rightarrow> client_store \<times> blob_files
     \<Rightarrow> summary_record list \<Rightarrow> stored_content_input list
     \<Rightarrow> (client_store \<times> blob_files) \<times> ('l store_error + persist_outcome)" where
  "persist_ingress S ids clk w records contents =
     (let (st, files) = w;
          (st1, accepted, dups) =
            apply_records st [] 0 (map (normalize_record (store_sha S)) records) in
      case store_contents (blob_lib_of S) files st1 0 contents of
        (files', Inl e) \<Rightarrow> ((st, files'), Inl (BlobFailed e))
      | (files', Inr (st2, stored)) \<Rightarrow>
          (case enqueue_records S ids clk st2 accepted of
             Inl e \<Rightarrow> ((st, files'), Inl e)
           | Inr (st3, enqueued) \<Rightarrow>
               ((st3, files'), Inr \<lparr>po_enqueued_batches = enqueued, po_stored_contents = stored,
                  po_duplicate_records = dups\<rparr>)))"

section \<open>Delivering the outbox\<close>

record pending_batch =
  pb_batch_id :: uuid
  pb_payload_sha256 :: string
  pb_body :: "byte list"

definition next_due_batch :: "client_store \<Rightarrow> datetime \<Rightarrow> pending_batch option" where
  "next_due_batch st now =
     map_option (\<lambda>r. \<lparr>pb_batch_id = ox_batch_id r, pb_payload_sha256 = ox_payload_sha256 r,
         pb_body = ox_body r\<rparr>)
       (row_min ox_created_at (filter (\<lambda>r. ox_next_attempt_at r \<le> ts now) (st_outbox st)))"

definition mark_batch_acked :: "client_store \<Rightarrow> i64 \<Rightarrow> ingest_ack \<Rightarrow> client_store" where
  "mark_batch_acked st now ack =
     st\<lparr>st_acked := row_replace (\<lambda>r. (ak_batch_id r, ak_payload_sha256 r))
          \<lparr>ak_batch_id = ack_batch_id ack, ak_payload_sha256 = ack_payload_sha256 ack, ak_acked_at = now\<rparr>
          (st_acked st),
        st_outbox := filter (\<lambda>r. \<not> (ox_batch_id r = ack_batch_id ack
            \<and> ox_payload_sha256 r = ack_payload_sha256 ack)) (st_outbox st)\<rparr>"

definition seconds :: "nat \<Rightarrow> datetime" where
  "seconds n = int n * 1000000000"

definition mark_batch_retry ::
  "'l store_lib \<Rightarrow> client_store \<Rightarrow> datetime \<Rightarrow> uuid \<Rightarrow> string \<Rightarrow> 'l store_error + client_store" where
  "mark_batch_retry S st now batch_id err =
     (case row_find ox_batch_id batch_id (st_outbox st) of
        None \<Rightarrow> Inl NoSuchRow
      | Some row \<Rightarrow>
          Inr (st\<lparr>st_outbox := row_update (\<lambda>r. ox_batch_id r = batch_id)
            (\<lambda>r. r\<lparr>ox_attempt_count := ox_attempt_count r + 1,
               ox_next_attempt_at := ts (now + seconds (backoff_delay (ox_attempt_count row))),
               ox_last_error := Some (truncate_message (store_sha S) err)\<rparr>) (st_outbox st)\<rparr>))"

section \<open>Commands\<close>

record stored_command =
  sd_command :: client_command
  sd_status :: command_status
  sd_attempt_count :: u32

fun command_meta :: "client_command \<Rightarrow> uuid \<times> i64 option" where
  "command_meta (RequestContent c) = (cc_command_id c, cr_expires_at_ms (cc_request c))"

text \<open>\<open>clk i 0\<close> and \<open>clk i 1\<close> are the clock reads for the command at position \<open>i\<close>.\<close>

fun save_commands_loop ::
  "(nat \<Rightarrow> nat \<Rightarrow> i64) \<Rightarrow> nat \<Rightarrow> client_store \<Rightarrow> client_command list \<Rightarrow> client_store" where
  "save_commands_loop clk i st [] = st"
| "save_commands_loop clk i st (c # cs) =
     (let (command_id, expires_at_ms) = command_meta c in
      save_commands_loop clk (Suc i)
        (st\<lparr>st_commands := row_insert_new cw_command_id
           \<lparr>cw_command_id = command_id,
            cw_expires_at = unwrap_or expires_at_ms (clk i 0 + 7 * 24 * 3600 * 1000),
            cw_status = command_status.Pending, cw_payload = c, cw_result = None, cw_error = None,
            cw_attempt_count = 0, cw_next_attempt_at = clk i 1, cw_completed_at = None\<rparr>
           (st_commands st)\<rparr>) cs)"

definition save_commands ::
  "(nat \<Rightarrow> nat \<Rightarrow> i64) \<Rightarrow> client_store \<Rightarrow> command_poll_response \<Rightarrow> client_store" where
  "save_commands clk st response = save_commands_loop clk 0 st (cp_commands response)"

definition next_due_command :: "client_store \<Rightarrow> datetime \<Rightarrow> stored_command option" where
  "next_due_command st now =
     map_option (\<lambda>r. \<lparr>sd_command = cw_payload r, sd_status = cw_status r,
         sd_attempt_count = cw_attempt_count r\<rparr>)
       (find (\<lambda>r. cw_status r \<in> {command_status.Pending, command_status.Failed,
                command_status.Running} \<and> cw_next_attempt_at r \<le> ts now) (st_commands st))"

record upload_work =
  uw_command_id :: uuid
  uw_request_id :: uuid
  uw_manifests :: "content_object_manifest list"

datatype upload_preparation =
    Ready upload_work
  | Expired uuid content_upload_result

definition expired_result :: "uuid \<Rightarrow> content_request \<Rightarrow> string \<Rightarrow> upload_preparation" where
  "expired_result command_id request note =
     Expired command_id \<lparr>cu_request_id = cr_request_id request,
       cu_status = content_upload_status.ContentExpired, cu_note = Some note\<rparr>"

definition manifest_of :: "content_request \<Rightarrow> content_part \<Rightarrow> raw_row \<Rightarrow> content_object_manifest" where
  "manifest_of request part r =
     \<lparr>mf_request_id = cr_request_id request, mf_task_ref = cr_task_ref request,
      mf_session_id = cr_session_id request, mf_thread_id = cr_thread_id request, mf_part = part,
      mf_object_sha256 = rr_object_sha256 r, mf_media_type = rr_media_type r,
      mf_uncompressed_bytes = rr_uncompressed_bytes r, mf_compressed_bytes = rr_compressed_bytes r,
      mf_chunk_count = rr_chunk_count r, mf_created_at_ms = rr_created_at r\<rparr>"

text \<open>The loop over the requested parts: the manifests, or why the command is answered as expired.\<close>

fun manifests_loop ::
  "client_store \<Rightarrow> (nat \<Rightarrow> i64) \<Rightarrow> nat \<Rightarrow> content_request \<Rightarrow> content_object_manifest list
     \<Rightarrow> content_part list \<Rightarrow> string + content_object_manifest list" where
  "manifests_loop st clk i request manifests [] = Inr manifests"
| "manifests_loop st clk i request manifests (part # parts) =
     (case latest_raw st (cr_task_ref request) part of
        None \<Rightarrow> Inl (''missing local content for part '' @ content_part_name part)
      | Some r \<Rightarrow>
          if rr_expires_at r \<le> clk i
          then Inl (''expired local content for part '' @ content_part_name part)
          else manifests_loop st clk (Suc i) request (manifests @ [manifest_of request part r]) parts)"

definition prepare_upload ::
  "client_store \<Rightarrow> (nat \<Rightarrow> i64) \<Rightarrow> client_command \<Rightarrow> client_store \<times> upload_preparation" where
  "prepare_upload st clk command =
     (case command of RequestContent content \<Rightarrow>
       let command_id = cc_command_id content; request = cc_request content in
       if is_some_and (cr_expires_at_ms request) (\<lambda>e. e \<le> clk 0)
       then (st, expired_result command_id request ''content request expired'')
       else
         case manifests_loop st clk 2 request [] (cr_parts request) of
           Inl note \<Rightarrow> (st, expired_result command_id request note)
         | Inr manifests \<Rightarrow>
             (st\<lparr>st_raw_objects := row_update (\<lambda>r. rr_task_ref r = cr_task_ref request)
                   (\<lambda>r. r\<lparr>rr_pinned_by_command_id := Some command_id\<rparr>) (st_raw_objects st),
                 st_commands := row_update (\<lambda>r. cw_command_id r = command_id)
                   (\<lambda>r. r\<lparr>cw_status := command_status.Running,
                      cw_attempt_count := cw_attempt_count r + 1, cw_next_attempt_at := clk 1\<rparr>)
                   (st_commands st)\<rparr>,
              Ready \<lparr>uw_command_id = command_id, uw_request_id = cr_request_id request,
                uw_manifests = manifests\<rparr>))"

definition unpin :: "client_store \<Rightarrow> uuid \<Rightarrow> client_store" where
  "unpin st command_id =
     st\<lparr>st_raw_objects := row_update (\<lambda>r. rr_pinned_by_command_id r = Some command_id)
       (\<lambda>r. r\<lparr>rr_pinned_by_command_id := None\<rparr>) (st_raw_objects st)\<rparr>"

definition complete_command ::
  "client_store \<Rightarrow> i64 \<Rightarrow> i64 \<Rightarrow> uuid \<Rightarrow> content_upload_result \<Rightarrow> bool \<Rightarrow> client_store" where
  "complete_command st completed_at next_attempt_at command_id result keep_pinned =
     (let st' = st\<lparr>st_commands := row_update (\<lambda>r. cw_command_id r = command_id)
            (\<lambda>r. r\<lparr>cw_status := command_status.Completed, cw_result := Some result,
               cw_completed_at := Some completed_at, cw_next_attempt_at := next_attempt_at\<rparr>)
            (st_commands st)\<rparr>
      in if keep_pinned then st' else unpin st' command_id)"

definition fail_command ::
  "'l store_lib \<Rightarrow> client_store \<Rightarrow> datetime \<Rightarrow> uuid \<Rightarrow> string \<Rightarrow> bool \<Rightarrow> 'l store_error + client_store"
  where
  "fail_command S st now command_id err keep_pinned =
     (case row_find cw_command_id command_id (st_commands st) of
        None \<Rightarrow> Inl NoSuchRow
      | Some row \<Rightarrow>
          let st' = st\<lparr>st_commands := row_update (\<lambda>r. cw_command_id r = command_id)
                (\<lambda>r. r\<lparr>cw_status := command_status.Failed,
                   cw_next_attempt_at := ts (now + seconds (backoff_delay (cw_attempt_count row))),
                   cw_error := Some (truncate_message (store_sha S) err)\<rparr>) (st_commands st)\<rparr>
          in Inr (if keep_pinned then st' else unpin st' command_id))"

section \<open>Retention, titles and flows\<close>

definition days :: "int \<Rightarrow> datetime" where
  "days n = n * 24 * 3600 * 1000000000"

definition cleanup ::
  "client_store \<times> blob_files \<Rightarrow> datetime \<Rightarrow> client_store \<times> blob_files" where
  "cleanup w now =
     (let (st, files) = w;
          gone = (\<lambda>r. rr_expires_at r \<le> ts now \<and> rr_pinned_by_command_id r = None) in
      (st\<lparr>st_raw_objects := filter (\<lambda>r. \<not> gone r) (st_raw_objects st),
          st_acked := filter (\<lambda>r. \<not> ak_acked_at r \<le> ts (now - days 400)) (st_acked st),
          st_commands := filter (\<lambda>r. \<not> (cw_status r = command_status.Completed
              \<and> is_some_and (cw_completed_at r) (\<lambda>c. c \<le> ts (now - days 30)))) (st_commands st)\<rparr>,
       fold (\<lambda>r fs. blob_remove fs (rr_object_sha256 r)) (filter gone (st_raw_objects st)) files))"

definition title_differs :: "string \<Rightarrow> string \<Rightarrow> task_row \<Rightarrow> bool" where
  "title_differs session_id title r =
     (tr_session_id r = session_id \<and> \<not> is_some_and (tr_title r) (\<lambda>t. t = title))"

definition session_record_of :: "task_row \<Rightarrow> summary_record" where
  "session_record_of r =
     Session \<lparr>ss_task = \<lparr>tk_client_id = tr_client_id r, tk_provider = tr_provider r,
         tk_session_id = tr_session_id r, tk_thread_id = tr_thread_id r, tk_turn_id = tr_turn_id r\<rparr>,
       ss_parent_turn_id = None, ss_root_turn_id = None,
       ss_first_seen_at = from_ms (tr_started_at r)\<rparr>"

definition sync_conversation_title ::
  "'l store_lib \<Rightarrow> (nat \<Rightarrow> nat \<Rightarrow> uuid) \<Rightarrow> (nat \<Rightarrow> nat \<Rightarrow> i64) \<Rightarrow> client_store \<times> blob_files
     \<Rightarrow> string \<Rightarrow> string \<Rightarrow> (client_store \<times> blob_files) \<times> ('l store_error + nat)" where
  "sync_conversation_title S ids clk w session_id title =
     (let (st, files) = w; rows = filter (title_differs session_id title) (st_tasks st) in
      if rows = [] then (w, Inr 0)
      else
        let st' = st\<lparr>st_tasks := row_update (title_differs session_id title)
              (\<lambda>r. r\<lparr>tr_title := Some title\<rparr>) (st_tasks st)\<rparr>;
            (w', res) = persist_ingress S ids clk (st', files) (map session_record_of rows) []
        in (w', mapr po_enqueued_batches res))"

definition note_flow_open ::
  "client_store \<Rightarrow> uuid \<Rightarrow> uuid option \<Rightarrow> string \<Rightarrow> string \<Rightarrow> string \<Rightarrow> datetime \<Rightarrow> client_store" where
  "note_flow_open st flow_id process_instance_id local_addr remote_addr transport created_at =
     st\<lparr>st_flows := row_insert_new fr_flow_id
       \<lparr>fr_flow_id = flow_id, fr_client_instance_id = ci_instance_id (st_client st),
        fr_process_instance_id = process_instance_id, fr_local_addr = local_addr,
        fr_remote_addr = remote_addr, fr_transport = transport, fr_created_at = ts created_at,
        fr_closed_at = None\<rparr> (st_flows st)\<rparr>"

definition note_flow_closed :: "client_store \<Rightarrow> uuid \<Rightarrow> datetime \<Rightarrow> client_store" where
  "note_flow_closed st flow_id closed_at =
     st\<lparr>st_flows := row_update (\<lambda>r. fr_flow_id r = flow_id)
       (\<lambda>r. r\<lparr>fr_closed_at := Some (ts closed_at)\<rparr>) (st_flows st)\<rparr>"

record health_snapshot =
  hl_outbox_batches :: nat
  hl_outbox_bytes :: nat
  hl_pending_commands :: nat
  hl_active_tasks :: nat
  hl_active_flows :: nat
  hl_raw_objects :: nat

definition health_snapshot_of :: "client_store \<Rightarrow> health_snapshot" where
  "health_snapshot_of st =
     \<lparr>hl_outbox_batches = length (st_outbox st), hl_outbox_bytes = body_bytes (st_outbox st),
      hl_pending_commands = length (filter (\<lambda>r. cw_status r \<noteq> command_status.Completed) (st_commands st)),
      hl_active_tasks = length (st_tasks st),
      hl_active_flows = length (filter (\<lambda>r. fr_closed_at r = None) (st_flows st)),
      hl_raw_objects = length (st_raw_objects st)\<rparr>"

section \<open>Asking the store while projecting\<close>

text \<open>The store as the capture lane sees it.\<close>

definition store_env :: "lane_env \<Rightarrow> client_store \<Rightarrow> lane_env" where
  "store_env E st =
     E\<lparr>le_has_attempt_response := has_attempt_response st, le_load_task_cursor := load_task_cursor st\<rparr>"

end
