(* ===== verification/Client_Store_Facts.thy ===== *)
theory Client_Store_Facts
  imports Client_Store
begin

text \<open>
  What holds of the client's store in every run of its operations: the step relation over the
  operations, the invariants of the outbox and of the raw objects, the progress of tasks, and the
  interface through which the capture lane relies on the store.
\<close>

section \<open>Runs of the store\<close>

inductive store_step ::
  "'l store_lib \<Rightarrow> client_store \<times> blob_files \<Rightarrow> client_store \<times> blob_files \<Rightarrow> bool"
  for S :: "'l store_lib" where
  persist: "store_step S w (fst (persist_ingress S ids clk w records contents))"
| title: "store_step S w (fst (sync_conversation_title S ids clk w session_id t))"
| acked: "store_step S (st, files) (mark_batch_acked st now ack, files)"
| retry: "mark_batch_retry S st now' batch_id err = Inr st' \<Longrightarrow> store_step S (st, files) (st', files)"
| save: "store_step S (st, files) (save_commands clk st response, files)"
| prepare: "store_step S (st, files) (fst (prepare_upload st clk' command), files)"
| complete: "store_step S (st, files) (complete_command st c n command_id result keep, files)"
| fail: "fail_command S st now' command_id err keep = Inr st' \<Longrightarrow> store_step S (st, files) (st', files)"
| clean: "store_step S w (cleanup w now')"
| flow_open: "store_step S (st, files) (note_flow_open st flow p l r tr created, files)"
| flow_close: "store_step S (st, files) (note_flow_closed st flow closed, files)"

text \<open>An operation that leaves a table alone.\<close>

lemma apply_record_frame:
  "st_outbox (fst (apply_record st r)) = st_outbox st"
  "st_raw_objects (fst (apply_record st r)) = st_raw_objects st"
  "st_client (fst (apply_record st r)) = st_client st"
  by (cases r; simp add: upsert_task_summary_def upsert_transition_def upsert_attempt_def
      upsert_gap_def upsert_process_def merge_session_def split: option.split)+

lemma apply_records_frame:
  "apply_records st acc n rs = (st', acc', n') \<Longrightarrow>
     st_outbox st' = st_outbox st \<and> st_raw_objects st' = st_raw_objects st
     \<and> st_client st' = st_client st"
proof (induction rs arbitrary: st acc n)
  case (Cons r rs)
  obtain s1 b where s1: "apply_record st r = (s1, b)" by fastforce
  with apply_record_frame [of st r] have "st_outbox s1 = st_outbox st"
    "st_raw_objects s1 = st_raw_objects st" "st_client s1 = st_client st" by simp_all
  with Cons s1 show ?case by (cases b) auto
qed simp

lemma store_contents_frame:
  "store_contents B files st n cs = (files', Inr (st', m)) \<Longrightarrow>
     st_outbox st' = st_outbox st \<and> st_tasks st' = st_tasks st \<and> st_attempts st' = st_attempts st
     \<and> st_client st' = st_client st"
  by (induction cs arbitrary: files st n) (auto simp: store_raw_object_def split: sum.splits)

lemma enqueue_loop_frame:
  "enqueue_loop S ids clk p j n st rss = Inr (st', m) \<Longrightarrow>
     st_tasks st' = st_tasks st \<and> st_attempts st' = st_attempts st
     \<and> st_raw_objects st' = st_raw_objects st \<and> st_client st' = st_client st"
proof (induction rss arbitrary: j n st)
  case (Cons rs rss)
  from Cons.prems show ?case
    by (auto simp: Let_def bindr_eq_Inr dest!: Cons.IH split: if_splits)
qed simp

lemma enqueue_records_frame:
  "enqueue_records S ids clk st rs = Inr (st', m) \<Longrightarrow>
     st_tasks st' = st_tasks st \<and> st_attempts st' = st_attempts st
     \<and> st_raw_objects st' = st_raw_objects st \<and> st_client st' = st_client st"
  by (auto simp: enqueue_records_def dest: enqueue_loop_frame split: if_splits)

text \<open>A persist call either keeps the tables or went through its three stages.\<close>

lemma persist_ingress_cases:
  assumes "persist_ingress S ids clk (st, files) records contents = ((st', files'), res)"
  obtains (failed) e where "res = Inl e" "st' = st"
      "\<exists>st1 acc n x. apply_records st [] 0 (map (normalize_record (store_sha S)) records) = (st1, acc, n)
        \<and> store_contents (blob_lib_of S) files st1 0 contents = (files', x)"
  | (stored) st1 acc n st2 m where
      "apply_records st [] 0 (map (normalize_record (store_sha S)) records) = (st1, acc, n)"
      "store_contents (blob_lib_of S) files st1 0 contents = (files', Inr (st2, m))"
      "\<exists>q. enqueue_records S ids clk st2 acc = Inr (st', q)"
      "is_ok res"
proof -
  obtain st1 acc n where a: "apply_records st [] 0 (map (normalize_record (store_sha S)) records) =
      (st1, acc, n)"
    by (cases "apply_records st [] 0 (map (normalize_record (store_sha S)) records)") auto
  obtain fs x where c: "store_contents (blob_lib_of S) files st1 0 contents = (fs, x)"
    by (cases "store_contents (blob_lib_of S) files st1 0 contents") auto
  show ?thesis
  proof (cases x)
    case (Inl e)
    with assms a c have "res = Inl (BlobFailed e)" "st' = st" "files' = fs"
      by (simp_all add: persist_ingress_def)
    with a c show ?thesis by (intro failed) auto
  next
    case (Inr p)
    obtain st2 m where p: "p = (st2, m)" by fastforce
    show ?thesis
    proof (cases "enqueue_records S ids clk st2 acc")
      case (Inl e)
      with assms a c Inr p have "res = Inl e" "st' = st" "files' = fs"
        by (simp_all add: persist_ingress_def)
      with a c show ?thesis by (intro failed) auto
    next
      case en: (Inr q)
      with assms a c Inr p have "files' = fs" "st' = fst q" "is_ok res"
        by (auto simp: persist_ingress_def split: prod.splits)
      with a c Inr p en show ?thesis by (intro stored) (auto intro: exI [of _ "snd q"])
    qed
  qed
qed

section \<open>Tasks only move forward\<close>

definition task_le :: "client_store \<Rightarrow> client_store \<Rightarrow> bool" where
  "task_le st st' \<longleftrightarrow> (\<forall>ref r. find_task st ref = Some r \<longrightarrow>
     (\<exists>r'. find_task st' ref = Some r' \<and> tr_sequence r \<le> tr_sequence r'))"

lemma task_le_refl [simp]: "task_le st st"
  by (simp add: task_le_def)

lemma task_le_trans: "task_le a b \<Longrightarrow> task_le b c \<Longrightarrow> task_le a c"
  unfolding task_le_def by (meson order_trans)

lemma task_le_same: "st_tasks st' = st_tasks st \<Longrightarrow> task_le st st'"
  by (simp add: task_le_def find_task_def)

lemma find_task_ref: "find_task st ref = Some r \<Longrightarrow> tr_ref r = ref"
  by (auto simp: find_task_def dest: row_find_Some)

lemma task_le_put:
  assumes "st_tasks st' = row_put tr_ref q (st_tasks st)" and "find_task st ref = Some r"
    and "tr_ref q = ref" and "tr_sequence r \<le> tr_sequence q"
  shows "task_le st st'"
  using assms by (auto simp: task_le_def find_task_def)

lemma task_le_new:
  assumes "st_tasks st' = row_put tr_ref q (st_tasks st)" and "find_task st (tr_ref q) = None"
  shows "task_le st st'"
  using assms by (auto simp: task_le_def find_task_def)

lemma row_updates_ref [simp]:
  "tr_ref (updated_task_row r s) = tr_ref r" "tr_ref (updated_transition_row r t) = tr_ref r"
  "tr_ref (attempt_merged_row r a) = tr_ref r" "tr_ref (new_task_row s) = key_task_ref (ts_task s)"
  "tr_ref (new_transition_row t) = key_task_ref (tt_task t)"
  "tr_sequence (updated_task_row r s) = ts_sequence s"
  "tr_sequence (updated_transition_row r t) = tt_sequence t"
  "tr_sequence (attempt_merged_row r a) = tr_sequence r"
  "tr_ref (session_merged_row r ses) = tr_ref r"
  "tr_sequence (session_merged_row r ses) = tr_sequence r"
  by (simp_all add: session_merged_row_def updated_task_row_def updated_transition_row_def attempt_merged_row_def
      new_task_row_def new_transition_row_def)

lemma apply_record_task_le: "task_le st (fst (apply_record st r))"
proof (cases r)
  case (Task s)
  show ?thesis
  proof (cases "find_task st (key_task_ref (ts_task s))")
    case None
    then show ?thesis
      by (simp add: Task upsert_task_summary_def task_le_new [of _ "new_task_row s"])
  next
    case (Some q)
    then show ?thesis
      using task_le_put [of _ "updated_task_row q s" st _ q] find_task_ref [OF Some]
      by (simp add: Task upsert_task_summary_def is_stale_def not_less)
  qed
next
  case (TaskTransition t)
  show ?thesis
  proof (cases "find_task st (key_task_ref (tt_task t))")
    case None
    then show ?thesis
      by (simp add: TaskTransition upsert_transition_def task_le_new [of _ "new_transition_row t"])
  next
    case (Some q)
    then show ?thesis
      using task_le_put [of _ "updated_transition_row q t" st _ q] find_task_ref [OF Some]
      by (simp add: TaskTransition upsert_transition_def is_stale_def not_less)
  qed
next
  case (Attempt a)
  show ?thesis
  proof (cases "row_find ar_attempt_id (as_attempt_id a) (st_attempts st)")
    case None
    show ?thesis
    proof (cases "find_task st (key_task_ref (as_task a))")
      case n: None
      with None show ?thesis by (simp add: Attempt upsert_attempt_def task_le_same)
    next
      case (Some q)
      with None show ?thesis
        using task_le_put [of _ "attempt_merged_row q a" st _ q] find_task_ref [OF Some]
        by (simp add: Attempt upsert_attempt_def)
    qed
  qed (simp add: Attempt upsert_attempt_def task_le_same)
next
  case (Session s)
  show ?thesis
  proof (cases "find_task st (key_task_ref (ss_task s))")
    case (Some q)
    then show ?thesis
      using task_le_put [of _ "session_merged_row q s" st _ q] find_task_ref [OF Some]
      by (simp add: Session merge_session_def)
  qed (simp add: Session merge_session_def)
next
  case (Process p)
  then show ?thesis by (simp add: upsert_process_def task_le_same split: option.split)
next
  case (CaptureGap g)
  then show ?thesis by (simp add: upsert_gap_def task_le_same)
qed (simp_all add: task_le_same)

lemma apply_records_task_le:
  "apply_records st acc n rs = (st', acc', n') \<Longrightarrow> task_le st st'"
proof (induction rs arbitrary: st acc n)
  case (Cons r rs)
  obtain s1 b where s1: "apply_record st r = (s1, b)" by fastforce
  with apply_record_task_le [of st r] have "task_le st s1" by simp
  moreover from Cons s1 have "task_le s1 st'" by (cases b) auto
  ultimately show ?case by (rule task_le_trans)
qed simp

lemma persist_task_le:
  "task_le (fst w) (fst (fst (persist_ingress S ids clk w records contents)))"
proof -
  obtain st files where w: "w = (st, files)" by fastforce
  obtain st' files' res where p: "persist_ingress S ids clk (st, files) records contents =
      ((st', files'), res)" by (metis prod.exhaust)
  from p have "task_le st st'"
  proof (cases rule: persist_ingress_cases)
    case (stored st1 acc n st2 m)
    then obtain q where "enqueue_records S ids clk st2 acc = Inr (st', q)" by blast
    with stored have "st_tasks st' = st_tasks st1"
      using enqueue_records_frame store_contents_frame by metis
    with apply_records_task_le [OF stored(1)] show ?thesis
      by (simp add: task_le_def find_task_def)
  qed simp
  with p w show ?thesis by simp
qed

lemma task_le_titles:
  "task_le st (st\<lparr>st_tasks := row_update p (\<lambda>r. r\<lparr>tr_title := t\<rparr>) (st_tasks st)\<rparr>)"
proof -
  have "row_find tr_ref ref (row_update p (\<lambda>r. r\<lparr>tr_title := t\<rparr>) rows) =
      map_option (\<lambda>r. if p r then r\<lparr>tr_title := t\<rparr> else r) (row_find tr_ref ref rows)" for ref rows
    by (induction rows) (auto simp: row_update_def)
  then show ?thesis by (auto simp: task_le_def find_task_def)
qed

lemma sync_title_frame:
  "fst (sync_conversation_title S ids clk (st, files) session_id t) = (st, files)
   \<or> (\<exists>records. fst (sync_conversation_title S ids clk (st, files) session_id t) =
       fst (persist_ingress S ids clk
       (st\<lparr>st_tasks := row_update (title_differs session_id t) (\<lambda>r. r\<lparr>tr_title := Some t\<rparr>)
          (st_tasks st)\<rparr>, files) records []))"
proof (cases "filter (title_differs session_id t) (st_tasks st) = []")
  case False
  then show ?thesis
    by (intro disjI2 exI [of _ "map session_record_of (filter (title_differs session_id t) (st_tasks st))"])
      (simp add: sync_conversation_title_def Let_def split: prod.split)
qed (simp add: sync_conversation_title_def)

lemma save_commands_frame:
  "st_tasks (save_commands clk st response) = st_tasks st"
  "st_outbox (save_commands clk st response) = st_outbox st"
  "st_raw_objects (save_commands clk st response) = st_raw_objects st"
proof -
  have "st_tasks (save_commands_loop clk i st cs) = st_tasks st
      \<and> st_outbox (save_commands_loop clk i st cs) = st_outbox st
      \<and> st_raw_objects (save_commands_loop clk i st cs) = st_raw_objects st" for i cs
    by (induction cs arbitrary: i st) (simp_all add: Let_def split: prod.split)
  then show "st_tasks (save_commands clk st response) = st_tasks st"
    "st_outbox (save_commands clk st response) = st_outbox st"
    "st_raw_objects (save_commands clk st response) = st_raw_objects st"
    by (simp_all add: save_commands_def)
qed

lemma prepare_upload_tasks: "st_tasks (fst (prepare_upload st clk c)) = st_tasks st"
  "st_outbox (fst (prepare_upload st clk c)) = st_outbox st"
  by (cases c; simp add: prepare_upload_def Let_def split: sum.split)+

lemma unpin_frame [simp]:
  "st_tasks (unpin st c) = st_tasks st" "st_outbox (unpin st c) = st_outbox st"
  by (simp_all add: unpin_def)

lemma store_step_task_le: "store_step S w w' \<Longrightarrow> task_le (fst w) (fst w')"
proof (induction rule: store_step.induct)
  case (persist w ids clk records contents)
  then show ?case by (rule persist_task_le)
next
  case (title w ids clk session_id t)
  obtain st files where w: "w = (st, files)" by fastforce
  from sync_title_frame [of S ids clk st files session_id t] show ?case
  proof (elim disjE exE)
    fix records
    assume "fst (sync_conversation_title S ids clk (st, files) session_id t) = fst (persist_ingress S ids clk
       (st\<lparr>st_tasks := row_update (title_differs session_id t) (\<lambda>r. r\<lparr>tr_title := Some t\<rparr>)
          (st_tasks st)\<rparr>, files) records [])"
    then show ?thesis
      using persist_task_le [of "(st\<lparr>st_tasks := row_update (title_differs session_id t)
         (\<lambda>r. r\<lparr>tr_title := Some t\<rparr>) (st_tasks st)\<rparr>, files)" S ids clk records "[]"]
        task_le_titles [of st "title_differs session_id t" "Some t"]
      by (auto simp: w intro: task_le_trans)
  qed (simp add: w)
next
  case (save st files clk response)
  then show ?case by (simp add: task_le_same save_commands_frame)
qed (auto simp: mark_batch_acked_def mark_batch_retry_def prepare_upload_tasks complete_command_def
    fail_command_def cleanup_def note_flow_open_def note_flow_closed_def Let_def
    intro!: task_le_same split: option.splits prod.splits if_splits)

text \<open>
  C35. In every run of the store's operations a known task stays known and its sequence number never
  decreases, whatever records arrive, in whatever order and however often.
\<close>

theorem task_sequence_never_decreases:
  assumes "(store_step S)\<^sup>*\<^sup>* w w'" and "find_task (fst w) task_ref = Some r"
  shows "\<exists>r'. find_task (fst w') task_ref = Some r' \<and> tr_sequence r \<le> tr_sequence r'"
proof -
  from assms(1) have "task_le (fst w) (fst w')"
    by (induction rule: rtranclp_induct) (auto dest: store_step_task_le intro: task_le_trans)
  with assms(2) show ?thesis by (auto simp: task_le_def)
qed

section \<open>The outbox stays within its budget and can be delivered\<close>

definition row_sound :: "'l store_lib \<Rightarrow> outbox_row \<Rightarrow> bool" where
  "row_sound S r \<longleftrightarrow> (\<exists>d. decode_batch_with_payload (sl_wire S) (ox_body r) = Inr d
     \<and> db_payload_sha256 d = ox_payload_sha256 r \<and> ib_batch_id (db_batch d) = ox_batch_id r)"

definition outbox_ok :: "'l store_lib \<Rightarrow> client_store \<Rightarrow> bool" where
  "outbox_ok S st \<longleftrightarrow> body_bytes (st_outbox st) \<le> OUTBOX_HARD_CAP_BYTES
     \<and> body_bytes (filter (\<lambda>r. \<not> ox_is_priority r) (st_outbox st))
         \<le> OUTBOX_HARD_CAP_BYTES - OUTBOX_PRIORITY_RESERVE_BYTES
     \<and> list_all (row_sound S) (st_outbox st)"

lemma body_bytes_simps [simp]:
  "body_bytes [] = 0" "body_bytes (r # rows) = length (ox_body r) + body_bytes rows"
  "body_bytes (xs @ ys) = body_bytes xs + body_bytes ys"
  by (simp_all add: body_bytes_def)

lemma body_bytes_filter: "body_bytes (filter p rows) \<le> body_bytes rows"
  by (induction rows) auto

lemma body_bytes_partition:
  "body_bytes rows - body_bytes (filter p rows) = body_bytes (filter (\<lambda>r. \<not> p r) rows)"
proof -
  have "body_bytes rows = body_bytes (filter p rows) + body_bytes (filter (\<lambda>r. \<not> p r) rows)"
    by (induction rows) auto
  then show ?thesis by simp
qed

lemma outbox_ok_same: "st_outbox st' = st_outbox st \<Longrightarrow> outbox_ok S st' = outbox_ok S st"
  by (simp add: outbox_ok_def)

lemma enqueued_row_sound:
  assumes "wire_lib_ok (sl_wire S)" and "encode_batch (sl_wire S) b = Inr e"
  shows "row_sound S (outbox_row_of e b c n p)"
proof -
  have "eb_batch_id e = ib_batch_id b" using assms(2) by (auto simp: encode_batch_ok)
  with decode_encode [OF assms] show ?thesis by (auto simp: row_sound_def outbox_row_of_def)
qed

lemma enqueue_loop_outbox:
  assumes "wire_lib_ok (sl_wire S)"
  shows "enqueue_loop S ids clk p j n st rss = Inr (st', m) \<Longrightarrow> outbox_ok S st \<Longrightarrow> outbox_ok S st'"
proof (induction rss arbitrary: j n st)
  case (Cons rs rss)
  let ?b = "build_wire_batch (sl_show_uuid S) st (ids j) (clk j 0) rs"
  show ?case
  proof (cases "ib_tasks ?b = [] \<and> ib_heartbeats ?b = []")
    case True
    with Cons show ?thesis by (simp add: Let_def)
  next
    case False
    with Cons.prems(1) obtain e where e: "encode_batch (sl_wire S) ?b = Inr e"
      "ensure_outbox_capacity st (length (eb_bytes e)) p = (Inr () :: 'a store_error + unit)"
      and rest: "enqueue_loop S ids clk p (Suc j) (Suc n)
        (st\<lparr>st_outbox := st_outbox st @ [outbox_row_of e ?b (clk j 1) (clk j 2) p]\<rparr>) rss = Inr (st', m)"
      by (auto simp: Let_def bindr_eq_Inr map_err_eq_Inr)
    have "outbox_ok S (st\<lparr>st_outbox := st_outbox st @ [outbox_row_of e ?b (clk j 1) (clk j 2) p]\<rparr>)"
      using Cons.prems(2) e(2) enqueued_row_sound [OF assms e(1)]
      by (auto simp: outbox_ok_def ensure_outbox_capacity_def Let_def outbox_row_of_def
          body_bytes_partition not_less split: if_splits)
    from Cons.IH [OF rest this] show ?thesis .
  qed
qed simp

lemma persist_outbox:
  assumes "wire_lib_ok (sl_wire S)" and "outbox_ok S (fst w)"
  shows "outbox_ok S (fst (fst (persist_ingress S ids clk w records contents)))"
proof -
  obtain st files where w: "w = (st, files)" by fastforce
  obtain st' files' res where p: "persist_ingress S ids clk (st, files) records contents =
      ((st', files'), res)" by (metis prod.exhaust)
  from p have "outbox_ok S st'"
  proof (cases rule: persist_ingress_cases)
    case failed
    with assms(2) w show ?thesis by simp
  next
    case (stored st1 acc n st2 m)
    then obtain q where q: "enqueue_records S ids clk st2 acc = Inr (st', q)" by blast
    have "st_outbox st2 = st_outbox st"
      using apply_records_frame [OF stored(1)] store_contents_frame [OF stored(2)] by simp
    then have "outbox_ok S st2" using assms(2) w outbox_ok_same [of st2 st S] by simp
    with q show ?thesis
      by (auto simp: enqueue_records_def dest: enqueue_loop_outbox [OF assms(1)] split: if_splits)
  qed
  with p w show ?thesis by simp
qed

lemma body_bytes_update:
  assumes "\<And>r. ox_body (f r) = ox_body r" and "\<And>r. ox_is_priority (f r) = ox_is_priority r"
  shows "body_bytes (row_update p f rows) = body_bytes rows"
    and "body_bytes (filter (\<lambda>r. \<not> ox_is_priority r) (row_update p f rows)) =
      body_bytes (filter (\<lambda>r. \<not> ox_is_priority r) rows)"
  using assms by (induction rows) (auto simp: row_update_def)

lemma outbox_ok_filter:
  assumes "outbox_ok S st" and "st_outbox st' = filter p (st_outbox st)"
  shows "outbox_ok S st'"
proof -
  have "body_bytes (filter (\<lambda>r. \<not> ox_is_priority r) (filter p (st_outbox st))) \<le>
      body_bytes (filter (\<lambda>r. \<not> ox_is_priority r) (st_outbox st))"
    using body_bytes_filter [of p "filter (\<lambda>r. \<not> ox_is_priority r) (st_outbox st)"]
    by (simp add: filter_filter conj_commute)
  with assms body_bytes_filter [of p "st_outbox st"] show ?thesis
    by (auto simp: outbox_ok_def list_all_iff)
qed

lemma store_step_outbox:
  assumes "wire_lib_ok (sl_wire S)"
  shows "store_step S w w' \<Longrightarrow> outbox_ok S (fst w) \<Longrightarrow> outbox_ok S (fst w')"
proof (induction rule: store_step.induct)
  case (persist w ids clk records contents)
  then show ?case using persist_outbox [OF assms] by blast
next
  case (title w ids clk session_id t)
  obtain st files where w: "w = (st, files)" by fastforce
  let ?st = "st\<lparr>st_tasks := row_update (title_differs session_id t) (\<lambda>r. r\<lparr>tr_title := Some t\<rparr>)
          (st_tasks st)\<rparr>"
  have "outbox_ok S ?st" using title w by (simp add: outbox_ok_def)
  then show ?case
    using sync_title_frame [of S ids clk st files session_id t] title w
      persist_outbox [OF assms, of "(?st, files)"] by auto
next
  case (acked st files now ack)
  then show ?case
    by (auto simp: mark_batch_acked_def intro: outbox_ok_filter)
next
  case (retry st now' batch_id err st' files)
  then obtain f where f: "st_outbox st' = row_update (\<lambda>r. ox_batch_id r = batch_id) f (st_outbox st)"
    and keep: "\<And>r. ox_body (f r) = ox_body r" "\<And>r. ox_is_priority (f r) = ox_is_priority r"
      "\<And>r. row_sound S (f r) = row_sound S r"
    by (auto simp: mark_batch_retry_def row_sound_def split: option.splits)
  have "list_all (row_sound S) (row_update p f rows) = list_all (row_sound S) rows" for p rows
    using keep(3) by (induction rows) (auto simp: row_update_def)
  with retry f body_bytes_update [of f, OF keep(1,2)] show ?case
    by (simp add: outbox_ok_def)
qed (auto simp: save_commands_frame prepare_upload_tasks complete_command_def fail_command_def
    cleanup_def note_flow_open_def note_flow_closed_def Let_def outbox_ok_def
    split: option.splits prod.splits if_splits)

text \<open>
  C36. In every run of the store's operations the outbox holds at most 1 GiB, of which at most 960
  MiB are batches without priority, and every batch in it can be delivered: its body decodes to a
  batch that validates, with the identifier and the digest of its row.
\<close>

theorem outbox_bounded_and_decodable:
  assumes "wire_lib_ok (sl_wire S)" and "(store_step S)\<^sup>*\<^sup>* w w'" and "outbox_ok S (fst w)"
  shows "outbox_ok S (fst w')"
  using assms(2,3) by (induction rule: rtranclp_induct) (auto intro: store_step_outbox [OF assms(1)])

definition empty_store :: "client_instance \<Rightarrow> client_store" where
  "empty_store c = \<lparr>st_client = c, st_processes = [], st_flows = [], st_tasks = [],
     st_attempts = [], st_gaps = [], st_raw_objects = [], st_outbox = [], st_acked = [],
     st_commands = []\<rparr>"

definition sample_store_lib :: "unit store_lib" where
  "sample_store_lib = \<lparr>sl_wire = sample_lib, sl_zstd = Inr, sl_show_uuid = (\<lambda>u. ''u'')\<rparr>"

definition sample_summary :: "u64 \<Rightarrow> task_summary" where
  "sample_summary n = \<lparr>ts_task = sample_key, ts_conversation_title = None,
     ts_phase = client_phase.Running, ts_outcome = None, ts_sequence = n,
     ts_last_event_id = Uuid 7 50, ts_started_at = 0, ts_updated_at = 0, ts_terminal_at = None,
     ts_attempt_count = 1, ts_model = None, ts_tool_names = [], ts_response_ids = [],
     ts_usage = token_usage_default, ts_completeness = completeness.Complete, ts_last_error = None\<rparr>"

lemma sample_wire_ok: "wire_lib_ok (sl_wire sample_store_lib)"
  by (auto simp: wire_lib_ok_def sample_lib_def sample_store_lib_def split: if_splits)

theorem outbox_bounded_and_decodable_witness:
  "outbox_ok sample_store_lib (fst (fst (persist_ingress sample_store_lib (\<lambda>j i. Uuid 7 i)
     (\<lambda>j i. 0) (empty_store sample_client, []) [Task (sample_summary 1)] [])))"
proof (rule outbox_bounded_and_decodable [OF sample_wire_ok])
  show "(store_step sample_store_lib)\<^sup>*\<^sup>* (empty_store sample_client, []) (fst (persist_ingress
      sample_store_lib (\<lambda>j i. Uuid 7 i) (\<lambda>j i. 0) (empty_store sample_client, [])
      [Task (sample_summary 1)] []))"
    by (intro r_into_rtranclp store_step.persist)
  show "outbox_ok sample_store_lib (fst (empty_store sample_client, []))"
    by (simp add: outbox_ok_def empty_store_def)
qed

text \<open>The task known from the start, while a summary older than it is persisted.\<close>

theorem task_sequence_never_decreases_witness:
  "\<exists>r'. find_task (fst (fst (persist_ingress sample_store_lib (\<lambda>j i. Uuid 7 i) (\<lambda>j i. 0)
       (fst (upsert_task_summary (empty_store sample_client) (sample_summary 5)), [])
       [Task (sample_summary 3)] []))) ''s:t:u'' = Some r' \<and> 5 \<le> tr_sequence r'"
proof -
  let ?w = "(fst (upsert_task_summary (empty_store sample_client) (sample_summary 5)), [])"
  have "(store_step sample_store_lib)\<^sup>*\<^sup>* ?w (fst (persist_ingress sample_store_lib (\<lambda>j i. Uuid 7 i)
      (\<lambda>j i. 0) ?w [Task (sample_summary 3)] []))"
    by (intro r_into_rtranclp store_step.persist)
  moreover have "find_task (fst ?w) ''s:t:u'' = Some (new_task_row (sample_summary 5))"
    by (simp add: upsert_task_summary_def find_task_def empty_store_def sample_summary_def run_defs)
  ultimately show ?thesis
    using task_sequence_never_decreases [of sample_store_lib ?w _ "''s:t:u''"]
    by (fastforce simp: new_task_row_def sample_summary_def)
qed

section \<open>Stored objects keep their files\<close>

definition objects_ok :: "client_store \<times> blob_files \<Rightarrow> bool" where
  "objects_ok w \<longleftrightarrow> distinct (map rr_object_sha256 (st_raw_objects (fst w)))
     \<and> list_all (\<lambda>r. map_get (snd w) (rr_object_sha256 r) \<noteq> None) (st_raw_objects (fst w))"

definition files_le :: "blob_files \<Rightarrow> blob_files \<Rightarrow> bool" where
  "files_le fs gs \<longleftrightarrow> (\<forall>k. map_get fs k \<noteq> None \<longrightarrow> map_get gs k \<noteq> None)"

lemma blob_store_files:
  "blob_store B files x = Inr (files', b) \<Longrightarrow>
     files_le files files' \<and> map_get files' (sb_object_sha256 b) \<noteq> None"
  by (cases "map_get files (bl_sha256_hex B (sc_body x))")
    (auto simp: blob_store_def Let_def bindr_eq_Inr files_le_def split: if_splits)

lemma objects_ok_mono:
  "objects_ok (st, files) \<Longrightarrow> files_le files files' \<Longrightarrow> st_raw_objects st' = st_raw_objects st \<Longrightarrow>
     objects_ok (st', files')"
  by (auto simp: objects_ok_def list_all_iff files_le_def)

lemma distinct_map_filter_keys: "distinct (map f xs) \<Longrightarrow> distinct (map f (filter p xs))"
  by (induction xs) auto

lemma store_raw_object_ok:
  assumes "objects_ok (st, files)" and "blob_store B files x = Inr (files', b)"
  shows "objects_ok (store_raw_object st b, files')"
proof -
  note f = blob_store_files [OF assms(2)]
  have "rr_object_sha256 (raw_row_of b) = sb_object_sha256 b" by (simp add: raw_row_of_def)
  with assms(1) f show ?thesis
    by (auto simp: objects_ok_def store_raw_object_def row_replace_def list_all_iff files_le_def
        distinct_map_filter_keys)
qed

lemma store_contents_ok:
  "store_contents B files st n cs = (files', x) \<Longrightarrow>
     files_le files files'
     \<and> (\<forall>st' m. objects_ok (st, files) \<longrightarrow> x = Inr (st', m) \<longrightarrow> objects_ok (st', files'))"
proof (induction cs arbitrary: files st n)
  case Nil
  then show ?case by (auto simp: files_le_def)
next
  case (Cons c cs)
  show ?case
  proof (cases "blob_store B files c")
    case (Inl e)
    with Cons.prems show ?thesis by (auto simp: files_le_def)
  next
    case (Inr p)
    obtain fs b where p: "p = (fs, b)" by fastforce
    with Inr Cons.prems have "store_contents B fs (store_raw_object st b) (Suc n) cs = (files', x)"
      by simp
    from Cons.IH [OF this] store_raw_object_ok [of st files B c fs b] blob_store_files [of B files c fs b]
    show ?thesis using Inr p by (auto simp: files_le_def)
  qed
qed

lemma persist_objects:
  assumes "objects_ok w"
  shows "objects_ok (fst (persist_ingress S ids clk w records contents))"
proof -
  obtain st files where w: "w = (st, files)" by fastforce
  obtain st' files' res where p: "persist_ingress S ids clk (st, files) records contents =
      ((st', files'), res)" by (metis prod.exhaust)
  from p have "objects_ok (st', files')"
  proof (cases rule: persist_ingress_cases)
    case (failed e)
    then obtain st1 n acc x where "store_contents (blob_lib_of S) files st1 0 contents = (files', x)"
      by blast
    from store_contents_ok [OF this] assms w failed(2) show ?thesis
      by (auto intro: objects_ok_mono)
  next
    case (stored st1 acc n st2 m)
    then obtain q where q: "enqueue_records S ids clk st2 acc = Inr (st', q)" by blast
    have "objects_ok (st1, files)"
      using assms w apply_records_frame [OF stored(1)] by (simp add: objects_ok_def)
    with store_contents_ok [OF stored(2)] have "objects_ok (st2, files')" by blast
    with enqueue_records_frame [OF q] show ?thesis by (simp add: objects_ok_def)
  qed
  with p w show ?thesis by simp
qed

lemma fold_blob_remove:
  "map_get (fold (\<lambda>r fs. blob_remove fs (rr_object_sha256 r)) rs files) k =
     (if k \<in> rr_object_sha256 ` set rs then None else map_get files k)"
  by (induction rs arbitrary: files) (auto simp: blob_remove_def)

lemma cleanup_objects: "objects_ok w \<Longrightarrow> objects_ok (cleanup w now)"
proof -
  assume ok: "objects_ok w"
  obtain st files where w: "w = (st, files)" by fastforce
  let ?gone = "\<lambda>r. rr_expires_at r \<le> ts now \<and> rr_pinned_by_command_id r = None"
  have inj: "inj_on rr_object_sha256 (set (st_raw_objects st))"
    using ok by (simp add: objects_ok_def w distinct_map)
  have "rr_object_sha256 r \<notin> rr_object_sha256 ` set (filter ?gone (st_raw_objects st))"
    if "r \<in> set (st_raw_objects st)" "\<not> ?gone r" for r
    using inj_onD [OF inj] that by fastforce
  with ok show ?thesis
    by (auto simp: cleanup_def objects_ok_def w list_all_iff fold_blob_remove distinct_map_filter_keys)
qed

lemma objects_ok_keys:
  "objects_ok (st, files) \<longleftrightarrow>
     (let ks = map rr_object_sha256 (st_raw_objects st) in
      distinct ks \<and> list_all (\<lambda>k. map_get files k \<noteq> None) ks)"
  by (simp add: objects_ok_def list.pred_map comp_def)

lemma row_update_raw:
  "(\<And>r. rr_object_sha256 (f r) = rr_object_sha256 r) \<Longrightarrow>
     objects_ok (st\<lparr>st_raw_objects := row_update p f (st_raw_objects st)\<rparr>, files) = objects_ok (st, files)"
  by (simp add: objects_ok_keys row_update_keys)

lemma objects_ok_commands [simp]: "objects_ok (st\<lparr>st_commands := c\<rparr>, files) = objects_ok (st, files)"
  by (simp add: objects_ok_def)

lemma unpin_objects: "objects_ok (unpin st c, files) = objects_ok (st, files)"
  unfolding unpin_def by (rule row_update_raw) simp

lemma store_step_objects: "store_step S w w' \<Longrightarrow> objects_ok w \<Longrightarrow> objects_ok w'"
proof (induction rule: store_step.induct)
  case (persist w ids clk records contents)
  then show ?case by (intro persist_objects)
next
  case (title w ids clk session_id t)
  obtain st files where w: "w = (st, files)" by fastforce
  let ?st = "st\<lparr>st_tasks := row_update (title_differs session_id t) (\<lambda>r. r\<lparr>tr_title := Some t\<rparr>)
          (st_tasks st)\<rparr>"
  have "objects_ok (?st, files)" using title w by (simp add: objects_ok_def)
  then show ?case
    using sync_title_frame [of S ids clk st files session_id t] title w
      persist_objects [of "(?st, files)"] by auto
next
  case (prepare st files clk' command)
  then show ?case
    by (cases command) (auto simp: prepare_upload_def Let_def row_update_raw split: sum.split)
next
  case (complete st files c n command_id result keep)
  then show ?case by (simp add: complete_command_def Let_def unpin_objects)
next
  case (fail st now' command_id err keep st' files)
  then show ?case
    by (auto simp: fail_command_def Let_def unpin_objects split: option.splits if_splits)
next
  case (clean w now')
  then show ?case by (rule cleanup_objects)
qed (auto simp: save_commands_frame mark_batch_acked_def mark_batch_retry_def note_flow_open_def
    note_flow_closed_def objects_ok_def split: option.splits)

lemma manifests_loop_rows:
  assumes "manifests_loop st clk i request ms parts = Inr ms'"
  shows "\<exists>rows. ms' = ms @ map2 (manifest_of request) parts rows \<and> length rows = length parts
    \<and> set rows \<subseteq> set (st_raw_objects st)"
  using assms
proof (induction parts arbitrary: i ms)
  case (Cons part parts)
  then obtain r where r: "latest_raw st (cr_task_ref request) part = Some r"
    "manifests_loop st clk (Suc i) request (ms @ [manifest_of request part r]) parts = Inr ms'"
    by (auto split: option.splits if_splits)
  from Cons.IH [OF r(2)] obtain rows where
    rows: "ms' = (ms @ [manifest_of request part r]) @ map2 (manifest_of request) parts rows"
      "length rows = length parts" "set rows \<subseteq> set (st_raw_objects st)" by blast
  moreover have "r \<in> set (st_raw_objects st)"
    using r(1) by (auto simp: latest_raw_def dest!: row_min_Some)
  ultimately show ?case by (intro exI [of _ "r # rows"]) simp
qed simp


definition sample_stored :: "client_store \<times> blob_files" where
  "sample_stored = fst (persist_ingress sample_store_lib (\<lambda>j i. Uuid 7 i) (\<lambda>j i. 0)
     (empty_store sample_client, []) []
     [\<lparr>sc_task = sample_key, sc_part = Request, sc_media_type = ''text/plain'', sc_body = [7],
       sc_headers = [], sc_created_at = 0\<rparr>])"

definition sample_content :: content_request_command where
  "sample_content = \<lparr>cc_command_id = Uuid 7 60, cc_request = \<lparr>cr_request_id = Uuid 7 61,
     cr_client_id = ''c'', cr_task_ref = ''s:t:u'', cr_session_id = ''s'', cr_thread_id = ''t'',
     cr_created_at_ms = 1, cr_expires_at_ms = None, cr_parts = [Request]\<rparr>\<rparr>"


end
