(* ===== verification/Client_Replay.thy ===== *)
theory Client_Replay
  imports Client_Store_Facts "HOL-Library.Code_Target_Nat"
begin

text \<open>
  The interface between the capture lane and the store, and what the lane gets from it: a response
  that was recorded for a task is never counted again, however often its exchange is replayed.
\<close>

section \<open>The interface\<close>

fun attempt_of :: "summary_record \<Rightarrow> attempt_summary option" where
  "attempt_of (Attempt a) = Some a"
| "attempt_of _ = None"

definition attempts_in :: "summary_record list \<Rightarrow> attempt_summary list" where
  "attempts_in rs = List.map_filter attempt_of rs"

definition attempt_ids :: "capture_batch \<Rightarrow> uuid list" where
  "attempt_ids b = map as_attempt_id (attempts_in (cb_records b))"

fun persist_all :: "('s \<Rightarrow> 'b \<Rightarrow> 's option) \<Rightarrow> 's \<Rightarrow> 'b list \<Rightarrow> 's option" where
  "persist_all persist s [] = Some s"
| "persist_all persist s (b # bs) = Option.bind (persist s b) (\<lambda>t. persist_all persist t bs)"

text \<open>
  What the lane relies on: the store tells of each recorded response, keeps telling of it while
  batches with new attempts are persisted, and its identity does not change.
\<close>

locale exchange_store =
  fixes env :: "'s \<Rightarrow> lane_env"
    and persist :: "'s \<Rightarrow> capture_batch \<Rightarrow> 's option"
    and known :: "'s \<Rightarrow> uuid \<Rightarrow> bool"
  assumes recorded: "persist s b = Some t \<Longrightarrow> attempts_in (cb_records b) = [a] \<Longrightarrow>
      \<not> known s (as_attempt_id a) \<Longrightarrow> as_response_id a = Some r \<Longrightarrow>
      le_has_attempt_response (env t) (as_task a) r"
    and kept: "persist s b = Some t \<Longrightarrow> list_all (\<lambda>i. \<not> known s i) (attempt_ids b) \<Longrightarrow>
      le_has_attempt_response (env s) k r \<Longrightarrow> le_has_attempt_response (env t) k r"
    and known_grows: "persist s b = Some t \<Longrightarrow> known t i \<longleftrightarrow> known s i \<or> i \<in> set (attempt_ids b)"
    and same_client: "persist s b = Some t \<Longrightarrow> le_client_id (env t) = le_client_id (env s)"
begin

lemma kept_all:
  assumes "persist_all persist s bs = Some t" and "distinct (concat (map attempt_ids bs))"
    and "list_all (\<lambda>i. \<not> known s i) (concat (map attempt_ids bs))"
    and "le_has_attempt_response (env s) k r"
  shows "le_has_attempt_response (env t) k r \<and> le_client_id (env t) = le_client_id (env s)"
  using assms
proof (induction bs arbitrary: s)
  case (Cons b bs)
  then obtain u where u: "persist s b = Some u" "persist_all persist u bs = Some t"
    by (auto split: bind_splits)
  have "list_all (\<lambda>i. \<not> known u i) (concat (map attempt_ids bs))"
    using Cons.prems(2,3) known_grows [OF u(1)] by (fastforce simp: list_all_iff)
  moreover have "le_has_attempt_response (env u) k r"
    using kept [OF u(1)] Cons.prems(3,4) by (simp add: list_all_iff)
  ultimately show ?case
    using Cons.IH [OF u(2)] Cons.prems(2) same_client [OF u(1)] by simp
qed simp

lemma projected_attempt:
  assumes "project_exchange E clk ids x = Inr b" and "p = map_attempt_projection (dx_attempt x)"
    and "cm_request_kind (da_codex (dx_attempt x)) = ''turn''" and "ap_response_id p = Some r"
  shows "b = batch_empty \<and> le_has_attempt_response E (exchange_task E (dx_attempt x)) r
     \<or> (\<exists>a. attempts_in (cb_records b) = [a] \<and> as_attempt_id a = da_attempt_id (dx_attempt x)
          \<and> as_task a = exchange_task E (dx_attempt x) \<and> as_response_id a = Some r)"
  using assms
  by (auto simp: project_exchange_def Let_def bindr_eq_Inr attempts_in_def map_filter_def
      exchange_attempt_def split: if_splits)

lemma replay_ignored:
  assumes x: "project_exchange (env s) clk ids x = Inr b" "persist s b = Some t"
      "cm_request_kind (da_codex (dx_attempt x)) = ''turn''"
      "ap_response_id (map_attempt_projection (dx_attempt x)) = Some r"
      "\<not> known s (da_attempt_id (dx_attempt x))"
    and later: "persist_all persist t bs = Some u" "distinct (concat (map attempt_ids bs))"
      "list_all (\<lambda>i. \<not> known t i) (concat (map attempt_ids bs))"
    and y: "da_identity (dx_attempt y) = da_identity (dx_attempt x)"
      "ap_response_id (map_attempt_projection (dx_attempt y)) = Some r"
  shows "project_exchange (env u) clk' ids' y = Inr batch_empty"
proof -
  let ?k = "exchange_task (env s) (dx_attempt x)"
  from projected_attempt [OF x(1) refl x(3,4)]
  have "le_has_attempt_response (env t) ?k r"
  proof (elim disjE exE conjE)
    assume "b = batch_empty" "le_has_attempt_response (env s) ?k r"
    then show ?thesis
      using kept [OF x(2)] by (simp add: attempt_ids_def attempts_in_def batch_empty_def map_filter_def)
  next
    fix a assume "attempts_in (cb_records b) = [a]" "as_attempt_id a = da_attempt_id (dx_attempt x)"
      "as_task a = ?k" "as_response_id a = Some r"
    with recorded [OF x(2), of a r] x(5) show ?thesis by simp
  qed
  with kept_all [OF later, of ?k r] same_client [OF x(2)]
  have "le_has_attempt_response (env u) (exchange_task (env u) (dx_attempt y)) r"
    using y(1) by (simp add: exchange_task_def)
  with y(2) show ?thesis by (simp add: project_exchange_def Let_def)
qed

end

section \<open>The store provides it\<close>

definition attempt_known :: "client_store \<times> blob_files \<Rightarrow> uuid \<Rightarrow> bool" where
  "attempt_known w i \<longleftrightarrow> row_find ar_attempt_id i (st_attempts (fst w)) \<noteq> None"

definition persist_batch ::
  "'l store_lib \<Rightarrow> (nat \<Rightarrow> nat \<Rightarrow> uuid) \<Rightarrow> (nat \<Rightarrow> nat \<Rightarrow> i64) \<Rightarrow> client_store \<times> blob_files
     \<Rightarrow> capture_batch \<Rightarrow> (client_store \<times> blob_files) option" where
  "persist_batch S ids clk w b =
     (case persist_ingress S ids clk w (cb_records b) (cb_contents b) of
        (w', Inr outcome) \<Rightarrow> Some w'
      | (w', Inl e) \<Rightarrow> None)"

lemma row_put_keeps: "r \<in> set rows \<Longrightarrow> key r \<noteq> key q \<Longrightarrow> r \<in> set (row_put key q rows)"
  by (induction rows) auto

text \<open>The attempts after one record: a row is put for an attempt, nothing changes otherwise.\<close>

lemma new_attempt_row_simps:
  "ar_attempt_id (new_attempt_row a) = as_attempt_id a"
  "ar_task_ref (new_attempt_row a) = key_task_ref (as_task a)"
  "ar_response_id (new_attempt_row a) = as_response_id a"
  "ar_attempt_id (updated_attempt_row r a) = ar_attempt_id r"
  by (simp_all add: new_attempt_row_def updated_attempt_row_def)

lemma apply_record_attempts:
  "case attempt_of r of
     None \<Rightarrow> st_attempts (fst (apply_record st r)) = st_attempts st
   | Some a \<Rightarrow> (\<exists>q. st_attempts (fst (apply_record st r)) = row_put ar_attempt_id q (st_attempts st)
       \<and> ar_attempt_id q = as_attempt_id a
       \<and> (row_find ar_attempt_id (as_attempt_id a) (st_attempts st) = None \<longrightarrow> q = new_attempt_row a))"
proof (cases r)
  case (Attempt a)
  show ?thesis
  proof (cases "row_find ar_attempt_id (as_attempt_id a) (st_attempts st)")
    case None
    then show ?thesis
      using Attempt by (auto simp: upsert_attempt_def new_attempt_row_simps intro!: exI [of _ "new_attempt_row a"])
  next
    case (Some x)
    then show ?thesis
      using Attempt row_find_Some [OF Some]
      by (auto simp: upsert_attempt_def new_attempt_row_simps intro!: exI [of _ "updated_attempt_row x a"])
  qed
qed (auto simp: upsert_task_summary_def upsert_transition_def upsert_gap_def upsert_process_def
    merge_session_def split: option.split)

lemma attempts_in_Cons:
  "attempts_in (r # rs) = (case attempt_of r of None \<Rightarrow> [] | Some a \<Rightarrow> [a]) @ attempts_in rs"
  by (simp add: attempts_in_def map_filter_def split: option.split)

lemma apply_records_attempts:
  assumes "apply_records st acc n rs = (st', acc', n')"
  shows "(\<forall>q \<in> set (st_attempts st). ar_attempt_id q \<notin> as_attempt_id ` set (attempts_in rs)
           \<longrightarrow> q \<in> set (st_attempts st'))
    \<and> ar_attempt_id ` set (st_attempts st') =
        ar_attempt_id ` set (st_attempts st) \<union> as_attempt_id ` set (attempts_in rs)
    \<and> (\<forall>a. attempts_in rs = [a] \<longrightarrow> as_attempt_id a \<notin> ar_attempt_id ` set (st_attempts st)
           \<longrightarrow> new_attempt_row a \<in> set (st_attempts st'))"
  using assms
proof (induction rs arbitrary: st acc n)
  case Nil
  then show ?case by (simp add: attempts_in_def map_filter_def)
next
  case (Cons r rs)
  obtain s1 b where s1: "apply_record st r = (s1, b)" by fastforce
  have rest: "\<exists>acc n. apply_records s1 acc n rs = (st', acc', n')"
    using Cons.prems s1 by (cases b) auto
  then obtain acc2 n2 where r2: "apply_records s1 acc2 n2 rs = (st', acc', n')" by blast
  note IH = Cons.IH [OF r2]
  note step = apply_record_attempts [where r = r and st = st]
  show ?case
  proof (cases "attempt_of r")
    case None
    with step s1 have "st_attempts s1 = st_attempts st" by simp
    with IH None show ?thesis by (simp add: attempts_in_Cons)
  next
    case (Some a)
    with step s1 obtain q where q: "st_attempts s1 = row_put ar_attempt_id q (st_attempts st)"
      "ar_attempt_id q = as_attempt_id a"
      "row_find ar_attempt_id (as_attempt_id a) (st_attempts st) = None \<longrightarrow> q = new_attempt_row a"
      by auto
    have keys: "ar_attempt_id ` set (st_attempts s1) =
        insert (as_attempt_id a) (ar_attempt_id ` set (st_attempts st))"
      using row_put_keys [of ar_attempt_id q] q by simp
    have "z \<in> set (st_attempts s1)" if "z \<in> set (st_attempts st)" "ar_attempt_id z \<noteq> as_attempt_id a" for z
      using row_put_keeps [OF that(1), of ar_attempt_id q] that(2) q by simp
    moreover have "q \<in> set (st_attempts s1)" using row_put_in q(1) by metis
    moreover have "as_attempt_id a \<notin> ar_attempt_id ` set (st_attempts st) \<Longrightarrow> q = new_attempt_row a"
      using q(3) by (simp add: row_find_None)
    ultimately show ?thesis
      using IH keys Some q(2) by (auto simp: attempts_in_Cons)
  qed
qed

lemma attempt_of_normalized:
  "attempt_of (normalize_record sha r) =
     map_option (\<lambda>a. a\<lparr>as_error := map_option (normalize_error sha) (as_error a)\<rparr>) (attempt_of r)"
  by (cases r) simp_all

lemma attempts_in_normalized:
  "attempts_in (map (normalize_record sha) rs) =
     map (\<lambda>a. a\<lparr>as_error := map_option (normalize_error sha) (as_error a)\<rparr>) (attempts_in rs)"
  by (induction rs) (auto simp: attempts_in_Cons attempt_of_normalized attempts_in_def [of "[]"]
      map_filter_def split: option.split)

lemma persist_batch_stages:
  assumes "persist_batch S ids clk w b = Some t"
  obtains st1 acc n where
    "apply_records (fst w) [] 0 (map (normalize_record (store_sha S)) (cb_records b)) = (st1, acc, n)"
    and "st_attempts (fst t) = st_attempts st1"
proof -
  obtain st files where w: "w = (st, files)" by fastforce
  obtain st' files' where t: "t = (st', files')" by fastforce
  from assms w t obtain out where
    p: "persist_ingress S ids clk (st, files) (cb_records b) (cb_contents b) = ((st', files'), Inr out)"
    by (auto simp: persist_batch_def split: prod.splits sum.splits)
  then show ?thesis
  proof (cases rule: persist_ingress_cases)
    case (stored st1 acc n st2 m)
    then obtain q where "enqueue_records S ids clk st2 acc = Inr (st', q)" by blast
    with stored have "st_attempts st' = st_attempts st1"
      using enqueue_records_frame store_contents_frame by metis
    with stored(1) w t that show ?thesis by simp
  qed simp
qed

lemma has_attempt_response_iff:
  "has_attempt_response st k r \<longleftrightarrow>
     (\<exists>q \<in> set (st_attempts st). ar_task_ref q = key_task_ref k \<and> ar_response_id q = Some r)"
  by (simp add: has_attempt_response_def list_ex_iff)

lemma attempt_known_iff: "attempt_known w i \<longleftrightarrow> i \<in> ar_attempt_id ` set (st_attempts (fst w))"
  by (simp add: attempt_known_def row_find_None)

interpretation sqlite: exchange_store
  "\<lambda>w. store_env E (fst w)" "persist_batch S ids clk" attempt_known
  for E :: lane_env and S :: "'l store_lib" and ids clk
proof
  fix s t :: "client_store \<times> blob_files" and b :: capture_batch and a r i k
  assume p: "persist_batch S ids clk s b = Some t"
  obtain st1 acc n where st1:
    "apply_records (fst s) [] 0 (map (normalize_record (store_sha S)) (cb_records b)) = (st1, acc, n)"
    "st_attempts (fst t) = st_attempts st1"
    by (rule persist_batch_stages [OF p])
  note facts = apply_records_attempts [OF st1(1)]
  have ids: "as_attempt_id ` set (attempts_in (map (normalize_record (store_sha S)) (cb_records b))) =
      set (attempt_ids b)"
    by (auto simp: attempts_in_normalized attempt_ids_def image_image)
  show "attempt_known t i \<longleftrightarrow> attempt_known s i \<or> i \<in> set (attempt_ids b)"
    using facts ids by (simp add: attempt_known_iff st1(2))
  show "le_client_id (store_env E (fst t)) = le_client_id (store_env E (fst s))"
    by (simp add: store_env_def)
  {
    assume "list_all (\<lambda>i. \<not> attempt_known s i) (attempt_ids b)"
      and "le_has_attempt_response (store_env E (fst s)) k r"
    then show "le_has_attempt_response (store_env E (fst t)) k r"
      using facts ids by (fastforce simp: store_env_def has_attempt_response_iff st1(2)
          attempt_known_iff list_all_iff)
  next
    assume a: "attempts_in (cb_records b) = [a]" "\<not> attempt_known s (as_attempt_id a)"
      "as_response_id a = Some r"
    let ?a = "a\<lparr>as_error := map_option (normalize_error (store_sha S)) (as_error a)\<rparr>"
    have "new_attempt_row ?a \<in> set (st_attempts (fst t))"
      using facts a(1,2) by (simp add: attempts_in_normalized attempt_known_iff st1(2))
    then show "le_has_attempt_response (store_env E (fst t)) (as_task a) r"
      using a(3)
      by (auto simp: store_env_def has_attempt_response_iff new_attempt_row_simps
          intro!: bexI [of _ "new_attempt_row ?a"])
  }
qed


text \<open>An exchange of an empty store, persisted and then seen again.\<close>

definition counting_lib :: "unit store_lib" where
  "counting_lib = sample_store_lib\<lparr>sl_wire := sample_lib\<lparr>wl_into_writer := (\<lambda>b. Inr [1, 2, 3])\<rparr>\<rparr>"

definition sample_counted :: decoded_attempt where
  "sample_counted = \<lparr>da_attempt_id = Uuid 7 1, da_task_ref = ''s:t:u'',
     da_identity = \<lparr>id_provider = ''codex'', id_session_id = ''s'', id_thread_id = ''t'', id_turn_id = ''u''\<rparr>,
     da_codex = \<lparr>cm_request_kind = ''turn'', cm_parent_turn_id = None, cm_root_turn_id = None\<rparr>,
     da_model = None, da_request_complete = True, da_response_complete = True, da_request_json = JNull,
     da_response_json_events = [],
     da_decoded_events = [AttemptCompleted (Uuid 7 1) (Some ''r'') True usage_default], da_request_at_ms = 5\<rparr>"

definition sample_counting :: "(capture_batch \<times> client_store \<times> blob_files) option" where
  "sample_counting =
     (case project_exchange (store_env sample_env (empty_store sample_client)) (\<lambda>i. 7000000) (Uuid 7)
        (sample_turn sample_counted) of
        Inl e \<Rightarrow> None
      | Inr b \<Rightarrow> map_option (Pair b)
          (persist_batch counting_lib (\<lambda>j i. Uuid 7 (100 + i)) (\<lambda>j i. 0) (empty_store sample_client, []) b))"



end
