(* ===== verification/Client_Framing.thy ===== *)
theory Client_Framing
  imports Capture_Responses "HOL-Library.Code_Target_Nat"
begin

text \<open>
  How the capture lane finds HTTP/1 messages in the two byte streams of a connection
  (\<open>crates/client/src/capture_lane.rs\<close>, from \<open>looks_like_request\<close> to \<open>header_value\<close>): recognising the
  protocol, cutting complete requests and responses off a buffer, and writing HTTP/2 streams and
  WebSocket messages as the HTTP/1 messages the decoder of the Responses API reads. The addition of
  a head length and a content length that leaves the range of \<open>usize\<close> is a failure of its own, as in
  a build with overflow checks.
\<close>

section \<open>Recognising a protocol\<close>

definition HTTP2_START :: "byte list" where
  "HTTP2_START = str_bytes ''PRI * HTTP/2.0''"

definition looks_like_request :: "byte list \<Rightarrow> bool" where
  "looks_like_request bs \<longleftrightarrow>
     starts_with bs (str_bytes ''GET '') \<or> starts_with bs (str_bytes ''POST '')
   \<or> starts_with bs (str_bytes ''PUT '') \<or> starts_with bs (str_bytes ''DELETE '')
   \<or> starts_with bs (str_bytes ''PATCH '') \<or> starts_with bs HTTP2_START"

definition looks_like_http1 :: "byte list \<Rightarrow> bool" where
  "looks_like_http1 bs = looks_like_request bs"

definition HTTP1_PREFIX :: "byte list" where
  "HTTP1_PREFIX = str_bytes ''HTTP/1.''"

definition looks_like_http1_response :: "byte list \<Rightarrow> bool" where
  "looks_like_http1_response bs = starts_with bs HTTP1_PREFIX"

text \<open>\<open>slice::windows\<close>: every run of \<open>n\<close> neighbouring elements.\<close>

definition windows :: "nat \<Rightarrow> 'a list \<Rightarrow> 'a list list" where
  "windows n xs = map (\<lambda>i. take n (drop i xs)) [0 ..< Suc (length xs) - n]"

definition looks_like_websocket_handshake :: "byte list \<Rightarrow> bool" where
  "looks_like_websocket_handshake bs =
     list_ex (\<lambda>w. eq_ignore_ascii_case (bytes_str w) ''upgrade: websocket'') (windows 19 bs)"

definition upgrades_to_websocket :: "http_lib \<Rightarrow> header_map \<Rightarrow> bool" where
  "upgrades_to_websocket L h =
     is_some_and (header_str L h ''upgrade'') (\<lambda>v. eq_ignore_ascii_case v ''websocket'')"

definition is_websocket_upgrade :: "http_lib \<Rightarrow> header_map \<Rightarrow> header_map \<Rightarrow> bool" where
  "is_websocket_upgrade L request_headers response_headers \<longleftrightarrow>
     upgrades_to_websocket L request_headers \<and> upgrades_to_websocket L response_headers"

definition trim_end_matches :: "char \<Rightarrow> string \<Rightarrow> string" where
  "trim_end_matches c s = rev (dropWhile (\<lambda>x. x = c) (rev s))"

text \<open>\<open>uri_path\<close> is the \<open>path\<close> method of the http crate's \<open>Uri\<close>.\<close>

definition is_responses_request :: "(string \<Rightarrow> string) \<Rightarrow> http_message \<Rightarrow> bool" where
  "is_responses_request uri_path request =
     is_some_and (ms_uri request)
       (\<lambda>uri. ends_with (trim_end_matches CHR ''/'' (uri_path uri)) ''/responses'')"

section \<open>Taking messages off a buffer\<close>

datatype frame_error = FrameParse http_parse_error | FrameOverflow

definition HEADER_END :: "byte list" where
  "HEADER_END = [13, 10, 13, 10]"

definition LAST_CHUNK :: "byte list" where
  "LAST_CHUNK = [48, 13, 10, 13, 10]"

definition find_header_end :: "byte list \<Rightarrow> nat option" where
  "find_header_end bs = map_option (\<lambda>index. index + 4) (find_sub HEADER_END bs)"

definition is_chunked_headers :: "http_lib \<Rightarrow> header_map \<Rightarrow> bool" where
  "is_chunked_headers L h =
     is_some_and (header_str L h ''transfer-encoding'')
       (\<lambda>v. contains_sub (to_ascii_lowercase v) ''chunked'')"

definition find_chunked_end :: "byte list \<Rightarrow> nat \<Rightarrow> nat option" where
  "find_chunked_end bs header_end =
     map_option (\<lambda>offset. header_end + offset + 5) (find_sub LAST_CHUNK (drop header_end bs))"

definition content_len :: "http_lib \<Rightarrow> header_map \<Rightarrow> nat" where
  "content_len L h = unwrap_or (Option.bind (header_str L h ''content-length'') parse_usize) 0"

text \<open>The message and what is left of the buffer.\<close>

definition split_message :: "byte list \<Rightarrow> nat \<Rightarrow> byte list \<times> byte list" where
  "split_message buf total_len = (take total_len buf, drop total_len buf)"

definition message_headers :: "http_lib \<Rightarrow> bool \<Rightarrow> byte list \<Rightarrow> frame_error + header_map" where
  "message_headers L request head =
     map_err FrameParse (mapr ms_headers
       (if request then parse_http_request L head else parse_http_response L head))"

definition try_take_http1_message ::
  "http_lib \<Rightarrow> bool \<Rightarrow> byte list \<Rightarrow> frame_error + (byte list \<times> byte list) option" where
  "try_take_http1_message L request buf =
     (case find_header_end buf of
        None \<Rightarrow> Inr None
      | Some header_end \<Rightarrow>
          bindr (message_headers L request (take header_end buf)) (\<lambda>headers.
            if is_chunked_headers L headers then
              Inr (map_option (split_message buf) (find_chunked_end buf header_end))
            else
              let total = header_end + content_len L headers in
              if total \<ge> 2 ^ 64 then Inl FrameOverflow
              else if length buf < total then Inr None
              else Inr (Some (split_message buf total))))"

definition try_take_http1_request ::
  "http_lib \<Rightarrow> byte list \<Rightarrow> frame_error + (byte list \<times> byte list) option" where
  "try_take_http1_request L buf = try_take_http1_message L True buf"

definition try_take_http1_response ::
  "http_lib \<Rightarrow> byte list \<Rightarrow> frame_error + (byte list \<times> byte list) option" where
  "try_take_http1_response L buf = try_take_http1_message L False buf"

definition terminal_kinds :: "string list" where
  "terminal_kinds = [''response.completed'', ''response.failed'', ''response.incomplete'',
     ''response.cancelled'']"

text \<open>The \<open>type\<close> of a JSON text, when it has one.\<close>

definition json_kind :: "json_lib \<Rightarrow> string \<Rightarrow> string option" where
  "json_kind J s = (case jl_from_str J s of Inl e \<Rightarrow> None | Inr v \<Rightarrow> get_str v ''type'')"

definition has_terminal_sse_event :: "json_lib \<Rightarrow> byte list \<Rightarrow> bool" where
  "has_terminal_sse_event J body =
     (case parse_sse_events body of
        Inl e \<Rightarrow> False
      | Inr events \<Rightarrow>
          list_ex (\<lambda>e. is_some_and (json_kind J (se_data e))
            (\<lambda>k. k = ''error'' \<or> k \<in> set terminal_kinds)) events)"

definition is_event_stream :: "http_lib \<Rightarrow> header_map \<Rightarrow> bool" where
  "is_event_stream L h =
     is_some_and (header_str L h ''content-type'')
       (\<lambda>v. contains_sub (to_ascii_lowercase v) ''text/event-stream'')"

definition try_take_http1_response_or_terminal ::
  "http_lib \<Rightarrow> json_lib \<Rightarrow> byte list \<Rightarrow> frame_error + (byte list \<times> byte list) option" where
  "try_take_http1_response_or_terminal L J buf =
     bindr (try_take_http1_response L buf) (\<lambda>taken.
       if is_some taken then Inr taken
       else if find_header_end buf = None then Inr None
       else
         bindr (map_err FrameParse (parse_http_response L buf)) (\<lambda>response.
           Inr (if is_event_stream L (ms_headers response)
                  \<and> has_terminal_sse_event J (bd_decoded (ms_body response))
                then Some (buf, []) else None)))"

definition prefix_suffix_len :: "byte list \<Rightarrow> nat" where
  "prefix_suffix_len buf =
     unwrap_or (find (\<lambda>l. ends_with buf (take l HTTP1_PREFIX))
       (rev [1 ..< Suc (min (length buf) (length HTTP1_PREFIX))])) 0"

definition align_http1_response :: "byte list \<Rightarrow> byte list" where
  "align_http1_response buf =
     (if starts_with buf HTTP1_PREFIX \<or> buf = [] then buf
      else case find_sub HTTP1_PREFIX buf of
        Some offset \<Rightarrow> drop offset buf
      | None \<Rightarrow> drop (length buf - prefix_suffix_len buf) buf)"

section \<open>Writing messages\<close>

definition header_value :: "(string \<times> string) list \<Rightarrow> string \<Rightarrow> string option" where
  "header_value headers name =
     map_option snd (find (\<lambda>(current, _). eq_ignore_ascii_case current name) headers)"

definition CRLF :: string where
  "CRLF = [char_of (13 :: nat), char_of (10 :: nat)]"

definition header_lines :: "(string \<times> string) list \<Rightarrow> string" where
  "header_lines headers =
     concat (map (\<lambda>(name, value). if starts_with name '':'' then [] else name @ '': '' @ value @ CRLF)
       headers)"

definition length_line :: "byte list \<Rightarrow> string" where
  "length_line body = ''Content-Length: '' @ show_nat (length body) @ CRLF @ CRLF"

definition synthesize_h2_request :: "(string \<times> string) list \<Rightarrow> byte list \<Rightarrow> byte list" where
  "synthesize_h2_request headers body =
     str_bytes (unwrap_or (header_value headers '':method'') ''POST'' @ '' ''
       @ unwrap_or (header_value headers '':path'') ''/v1/responses'' @ '' HTTP/1.1'' @ CRLF
       @ header_lines headers @ length_line body) @ body"

definition synthesize_h2_response :: "(string \<times> string) list \<Rightarrow> byte list \<Rightarrow> byte list" where
  "synthesize_h2_response headers body =
     str_bytes (''HTTP/1.1 '' @ unwrap_or (header_value headers '':status'') ''200'' @ '' OK'' @ CRLF
       @ header_lines headers @ length_line body) @ body"

definition synthesize_ws_request :: "byte list \<Rightarrow> byte list" where
  "synthesize_ws_request body =
     str_bytes (''POST /v1/responses HTTP/1.1'' @ CRLF @ ''Content-Type: application/json'' @ CRLF
       @ length_line body) @ body"

definition LF :: string where
  "LF = [char_of (10 :: nat)]"

definition ws_event_text :: "string \<Rightarrow> string" where
  "ws_event_text event = ''event: message'' @ LF @ ''data: '' @ event @ LF @ LF"

definition synthesize_ws_response :: "string list \<Rightarrow> byte list" where
  "synthesize_ws_response events =
     (let body = str_bytes (concat (map ws_event_text events)) in
      str_bytes (''HTTP/1.1 200 OK'' @ CRLF @ ''Content-Type: text/event-stream'' @ CRLF
        @ length_line body) @ body)"

section \<open>Cutting requests off is a frame source\<close>

text \<open>The \<open>while let\<close> of \<open>consume_http1\<close>, as one step of it.\<close>

definition request_next :: "http_lib \<Rightarrow> byte list \<Rightarrow> byte list \<times> (frame_error + byte list list option)" where
  "request_next L buf =
     (case try_take_http1_request L buf of
        Inl e \<Rightarrow> (buf, Inl e)
      | Inr None \<Rightarrow> (buf, Inr None)
      | Inr (Some (m, rest)) \<Rightarrow> (rest, Inr (Some [m])))"

definition take_requests :: "http_lib \<Rightarrow> byte list \<Rightarrow> byte list \<times> (frame_error + byte list list)" where
  "take_requests L buf = drain (request_next L) length buf"

lemma header_end_bounds:
  assumes "find_header_end buf = Some h"
  shows "4 \<le> h" and "h \<le> length buf" and "find_header_end (buf @ b) = Some h"
proof -
  from assms obtain z where z: "find_sub HEADER_END buf = Some z" "h = z + 4"
    by (auto simp: find_header_end_def)
  from z(2) show "4 \<le> h" by simp
  from find_sub_Some [OF z(1)] z(2) show "h \<le> length buf" by (simp add: HEADER_END_def)
  from find_sub_append [OF z(1)] z(2) show "find_header_end (buf @ b) = Some h"
    by (simp add: find_header_end_def)
qed

lemma chunked_end_bounds:
  assumes "find_chunked_end buf h = Some c"
  shows "h + 5 \<le> c"
    and "h \<le> length buf \<Longrightarrow> c \<le> length buf \<and> find_chunked_end (buf @ b) h = Some c"
proof -
  from assms obtain z where z: "find_sub LAST_CHUNK (drop h buf) = Some z" "c = h + z + 5"
    by (auto simp: find_chunked_end_def)
  from z(2) show "h + 5 \<le> c" by simp
  from find_sub_Some [OF z(1)] find_sub_append [OF z(1), of b] z(2)
  show "h \<le> length buf \<Longrightarrow> c \<le> length buf \<and> find_chunked_end (buf @ b) h = Some c"
    by (auto simp: LAST_CHUNK_def find_chunked_end_def)
qed

lemma take_message_split:
  assumes "try_take_http1_message L req buf = Inr (Some (m, rest))"
  shows "buf = m @ rest" and "4 \<le> length m"
  using assms header_end_bounds [of buf] chunked_end_bounds [of buf]
  by (fastforce simp: try_take_http1_message_def split_message_def bindr_eq_Inr Let_def
      split: option.splits if_splits)+

lemma take_message_stable:
  assumes "try_take_http1_message L req buf = r" and "r \<noteq> Inr None"
  shows "try_take_http1_message L req (buf @ b) =
    mapr (map_option (\<lambda>(m, rest). (m, rest @ b))) r"
proof (cases "find_header_end buf")
  case None
  with assms show ?thesis by (simp add: try_take_http1_message_def)
next
  case (Some h)
  note h = header_end_bounds [OF Some]
  show ?thesis
  proof (cases "message_headers L req (take h buf)")
    case (Inl e)
    with Some h(2) h(3) [of b] assms(1) show ?thesis by (auto simp: try_take_http1_message_def)
  next
    case (Inr headers)
    then show ?thesis
    proof (cases "is_chunked_headers L headers")
      case True
      with Some Inr assms obtain c where c: "find_chunked_end buf h = Some c"
        by (cases "find_chunked_end buf h") (auto simp: try_take_http1_message_def)
      with chunked_end_bounds(2) [OF c h(2), of b] True Some Inr h(2) h(3) [of b] assms(1)
      show ?thesis by (auto simp: try_take_http1_message_def split_message_def)
    next
      case False
      with Some Inr h(2) h(3) [of b] assms show ?thesis
        by (auto simp: try_take_http1_message_def split_message_def Let_def split: if_splits)
    qed
  qed
qed

interpretation http1: frame_source "request_next L" length "(@)"
proof unfold_locales
  fix s t :: "byte list" and es
  assume "request_next L s = (t, Inr (Some es))"
  then obtain m where "try_take_http1_message L True s = Inr (Some (m, t))"
    by (auto simp: request_next_def try_take_http1_request_def split: sum.splits option.splits)
  from take_message_split [OF this] show "length t < length s" by auto
next
  fix s t :: "byte list"
  assume "request_next L s = (t, Inr None)"
  then show "t = s" by (auto simp: request_next_def split: sum.splits option.splits)
next
  fix s t b :: "byte list" and es
  assume "request_next L s = (t, Inr (Some es))"
  then show "request_next L (s @ b) = (t @ b, Inr (Some es))"
    using take_message_stable [of L True s "try_take_http1_message L True s" b]
    by (auto simp: request_next_def try_take_http1_request_def split: sum.splits option.splits)
next
  fix s t b :: "byte list" and e
  assume "request_next L s = (t, Inl e)"
  then show "request_next L (s @ b) = (t @ b, Inl e)"
    using take_message_stable [of L True s "try_take_http1_message L True s" b]
    by (auto simp: request_next_def try_take_http1_request_def split: sum.splits option.splits)
qed simp_all

text \<open>A whole request, and the pushes of a connection whose client side is HTTP/1.\<close>

definition complete_request :: "http_lib \<Rightarrow> byte list \<Rightarrow> bool" where
  "complete_request L m \<longleftrightarrow> try_take_http1_request L m = Inr (Some (m, []))"

definition request_push :: "http_lib \<Rightarrow> byte list \<Rightarrow> byte list \<Rightarrow> byte list \<times> (frame_error + byte list list)" where
  "request_push L buf bs = take_requests L (buf @ bs)"

lemma request_push_eq: "request_push L = push_with (request_next L) length (@)"
  by (intro ext) (simp add: request_push_def take_requests_def push_with_def)

lemma request_next_complete:
  assumes "complete_request L m"
  shows "request_next L (m @ rest) = (rest, Inr (Some [m]))"
  using assms take_message_stable [of L True m "Inr (Some (m, []))" rest]
  by (simp add: complete_request_def request_next_def try_take_http1_request_def)

lemma take_complete_requests:
  assumes "list_all (complete_request L) ms" and "try_take_http1_request L tail = Inr None"
  shows "take_requests L (concat ms @ tail) = (tail, Inr ms)"
  using assms(1)
proof (induction ms)
  case Nil
  have "request_next L tail = (tail, Inr None)" using assms(2) by (simp add: request_next_def)
  then show ?case by (simp add: take_requests_def http1.drain_idle)
next
  case (Cons m ms)
  then have "request_next L (m @ (concat ms @ tail)) = (concat ms @ tail, Inr (Some [m]))"
    by (intro request_next_complete) simp
  from http1.drain_step [OF this] Cons show ?case by (simp add: take_requests_def)
qed

section \<open>WebSocket events as an event stream\<close>

definition ws_text_ok :: "string \<Rightarrow> bool" where
  "ws_text_ok t \<longleftrightarrow> t \<noteq> [] \<and> is_graphic (hd t) \<and> utf8_ok (str_bytes t)
     \<and> 10 \<notin> set (str_bytes t) \<and> last (str_bytes t) \<noteq> 13"

lemma decoding_ws_event:
  assumes "ws_text_ok t"
  shows "decoding (str_bytes (ws_event_text t) @ rest) builder_default =
    prepend [\<lparr>se_event = Some ''message'', se_data = t\<rparr>] (decoding rest builder_default)"
proof -
  let ?b = "builder_default\<lparr>eb_event := Some ''message''\<rparr>"
  let ?c = "?b\<lparr>eb_data_lines := [t]\<rparr>"
  obtain c cs where t: "t = c # cs" "is_graphic c"
    using assms by (cases t) (auto simp: ws_text_ok_def)
  have m: "plain ''message''" by (simp add: plain_def is_graphic_def code_def)
  have "trim_end ''message'' = ''message''"
    using trim_plain [OF m] trim_start_plain [OF m] by (simp add: trim_def)
  then have event: "decoding (render_line ''event: message'' @ x) builder_default = decoding x ?b" for x
    using decoding_line [of "''event: message''" builder_default ?b "[]" x] m
    by (simp add: sse_line_def builder_field_def strip_prefix_def trim_def trim_start_blank
        trim_start_plain code_def)
  have data: "decoding (render_line (''data: '' @ t) @ x) ?b = decoding x ?c" for x
  proof -
    obtain zs where "trim_start t = zs @ t" using trim_start_graphic_mid [of c "[]" cs] t by auto
    with length_trim_start [of t] have "trim_start t = t" by simp
    then have "sse_line ?b (''data: '' @ t) = (?c, [])"
      by (simp add: sse_line_def builder_field_def strip_prefix_def trim_start_blank builder_default_def)
    moreover have "utf8_ok (str_bytes (''data: '' @ t))"
      using assms by (simp add: ws_text_ok_def str_bytes_def utf8_ok_ascii_Cons)
    moreover have "10 \<notin> set (str_bytes (''data: '' @ t))" "last (str_bytes (''data: '' @ t)) \<noteq> 13"
      using assms by (auto simp: ws_text_ok_def str_bytes_def)
    ultimately show ?thesis using decoding_text [of "''data: '' @ t" ?b ?c "[]" x] by simp
  qed
  have stop: "decoding (render_line [] @ x) ?c =
      prepend [\<lparr>se_event = Some ''message'', se_data = t\<rparr>] (decoding x builder_default)" for x
    using decoding_line [of "[]" ?c builder_default "[\<lparr>se_event = Some ''message'', se_data = t\<rparr>]" x]
    by (simp add: sse_line_def builder_finish_def builder_default_def)
  have "of_char (char_of (10 :: nat)) = (10 :: byte)" by (simp add: word_unat_eq_iff unat_of_char)
  then have "str_bytes (ws_event_text t) =
      render_line ''event: message'' @ render_line (''data: '' @ t) @ render_line []"
    by (simp add: ws_event_text_def render_line_def LF_def str_bytes_def)
  then have "decoding (str_bytes (ws_event_text t) @ rest) builder_default =
      decoding (render_line (''data: '' @ t) @ render_line [] @ rest) ?b"
    by (simp only: append_assoc event)
  then show ?thesis by (simp only: data stop)
qed

section \<open>Properties\<close>


definition sample_framing_lib :: http_lib where
  "sample_framing_lib = \<lparr>hl_parse_request = (\<lambda>bs. Some \<lparr>hd_length = length bs, hd_version = Some 1,
     hd_method = Some ''POST'', hd_path = Some ''/v1/responses'', hd_code = None,
     hd_headers = [(''content-length'', str_bytes ''2'')]\<rparr>), hl_parse_response = (\<lambda>_. None),
     hl_method = Some, hl_uri = Some, hl_status = Some, hl_header_name = Some, hl_header_value = Some,
     hl_to_str = Some \<circ> bytes_str, hl_gzip = Inr, hl_brotli = Inr, hl_zstd = Inr\<rparr>"




section \<open>Where the code differs from what it means\<close>

text \<open>
  The handshake test compares windows of 19 bytes with a text of 18, so it never holds: a WebSocket
  flow is only recognised through its HTTP/1 request.
\<close>

lemma websocket_handshake_never: "\<not> looks_like_websocket_handshake bs"
proof -
  have "length w = 19" if "w \<in> set (windows 19 bs)" for w
    using that by (auto simp: windows_def)
  moreover have "length s = length t" if "eq_ignore_ascii_case s t" for s t
    using that unfolding eq_ignore_ascii_case_def by (metis length_to_ascii_lowercase)
  ultimately show ?thesis by (fastforce simp: looks_like_websocket_handshake_def list_ex_iff)
qed

text \<open>
  A chunk of 16 bytes that starts with an empty line ends the message for \<open>find_chunked_end\<close>, in
  the middle of what \<open>decode_chunked\<close> reads as one chunk.
\<close>

lemma chunked_end_too_early:
  defines "body \<equiv> str_bytes ''10'' @ [13, 10, 13, 10] @ str_bytes ''fourteen bytes'' @ [13, 10]
     @ str_bytes ''0'' @ [13, 10, 13, 10]"
  shows "find_chunked_end body 0 = Some 6" and "length body = 27"
    and "decode_chunked body = Inr ([13, 10] @ str_bytes ''fourteen bytes'', True)"
  unfolding body_def by code_simp+

end
