(* ===== verification/Capture_Flows.thy ===== *)
theory Capture_Flows
  imports Capture_Http1
begin

text \<open>
  The packet tap of \<open>crates/capture/src/af_packet.rs\<close>: the TCP segment of an Ethernet or IP frame,
  the sockets of a process as \<open>/proc\<close> lists them, and the attribution of a segment to a process by
  its endpoints. The header parser is the etherparse crate, so \<open>packet_lib\<close> holds its two entry
  points; reading sockets and files is I/O, whose outcome is an argument.
\<close>

section \<open>Segments and flows\<close>

record captured_segment =
  cg_source_ip :: string
  cg_source_port :: u16
  cg_destination_ip :: string
  cg_destination_port :: u16
  cg_sequence :: u32
  cg_ack :: u32
  cg_syn :: bool
  cg_fin :: bool
  cg_rst :: bool
  cg_payload :: "byte list"

record process_socket_flow =
  sf_pid :: u32
  sf_fd :: i32
  sf_inode :: nat
  sf_local_ip :: string
  sf_local_port :: u16
  sf_remote_ip :: string
  sf_remote_port :: u16
  sf_ipv6 :: bool

datatype process_flow_direction = LocalToRemote | RemoteToLocal

record process_flow_index =
  pi_pid :: u32
  pi_flows :: "process_socket_flow list"

fun find_map :: "('a \<Rightarrow> 'b option) \<Rightarrow> 'a list \<Rightarrow> 'b option" where
  "find_map f [] = None"
| "find_map f (x # xs) = (case f x of Some y \<Rightarrow> Some y | None \<Rightarrow> find_map f xs)"

definition flow_direction_of :: "captured_segment \<Rightarrow> process_socket_flow \<Rightarrow> process_flow_direction option" where
  "flow_direction_of s f =
     (if sf_local_ip f = cg_source_ip s \<and> sf_local_port f = cg_source_port s
         \<and> sf_remote_ip f = cg_destination_ip s \<and> sf_remote_port f = cg_destination_port s
      then Some LocalToRemote
      else if sf_local_ip f = cg_destination_ip s \<and> sf_local_port f = cg_destination_port s
         \<and> sf_remote_ip f = cg_source_ip s \<and> sf_remote_port f = cg_source_port s
      then Some RemoteToLocal
      else None)"

definition direction_for_segment ::
  "process_flow_index \<Rightarrow> captured_segment \<Rightarrow> process_flow_direction option" where
  "direction_for_segment ix s = find_map (flow_direction_of s) (pi_flows ix)"

definition matches_segment :: "process_flow_index \<Rightarrow> captured_segment \<Rightarrow> bool" where
  "matches_segment ix s = is_some (direction_for_segment ix s)"

section \<open>Frames\<close>

datatype net_slice = NetIpv4 "byte list" "byte list" | NetIpv6 "byte list" "byte list" | NetOther

record tcp_slice =
  tp_source_port :: u16
  tp_destination_port :: u16
  tp_sequence :: u32
  tp_ack :: u32
  tp_syn :: bool
  tp_fin :: bool
  tp_rst :: bool
  tp_payload :: "byte list"

datatype transport_slice = TcpSlice tcp_slice | OtherTransport

record sliced_packet =
  sp_net :: "net_slice option"
  sp_transport :: "transport_slice option"

record packet_lib =
  pk_from_ethernet :: "byte list \<Rightarrow> string + sliced_packet"
  pk_from_ip :: "byte list \<Rightarrow> string + sliced_packet"

datatype packet_decode_error = FrameParseFailed string

text \<open>\<open>Display\<close> of \<open>Ipv4Addr\<close> and \<open>Ipv6Addr\<close>, of the octets in network order.\<close>

definition show_ipv4 :: "nat list \<Rightarrow> string" where
  "show_ipv4 octets = join ''.'' (map show_nat octets)"

fun segments_of :: "nat list \<Rightarrow> nat list" where
  "segments_of (a # b # xs) = (a * 256 + b) # segments_of xs"
| "segments_of _ = []"

definition zero_run :: "nat list \<Rightarrow> nat" where
  "zero_run xs = length (takeWhile (\<lambda>x. x = 0) xs)"

definition longest_zeros :: "nat list \<Rightarrow> nat \<times> nat" where
  "longest_zeros xs =
     fold (\<lambda>i (start, len). let n = zero_run (drop i xs) in if n > len then (i, n) else (start, len))
       [0 ..< length xs] (0, 0)"

definition show_ipv6 :: "nat list \<Rightarrow> string" where
  "show_ipv6 octets =
     (if take 10 octets = replicate 10 0 \<and> take 2 (drop 10 octets) = [255, 255]
      then ''::ffff:'' @ show_ipv4 (drop 12 octets)
      else
        let xs = segments_of octets; (start, len) = longest_zeros xs in
        if len > 1
        then join '':'' (map show_hex (take start xs)) @ ''::''
             @ join '':'' (map show_hex (drop (start + len) xs))
        else join '':'' (map show_hex xs))"

definition is_raw_ip :: "byte list \<Rightarrow> bool" where
  "is_raw_ip frame =
     (case frame of [] \<Rightarrow> False | b # _ \<Rightarrow> drop_bit 4 b = (4 :: byte) \<or> drop_bit 4 b = (6 :: byte))"

definition slice_frame :: "packet_lib \<Rightarrow> byte list \<Rightarrow> packet_decode_error + sliced_packet option" where
  "slice_frame P frame =
     (case pk_from_ethernet P frame of
        Inr packet \<Rightarrow>
          if is_some (sp_net packet) \<or> is_some (sp_transport packet) \<or> \<not> is_raw_ip frame
          then Inr (Some packet)
          else mapr Some (map_err FrameParseFailed (pk_from_ip P frame))
      | Inl e \<Rightarrow>
          if is_raw_ip frame then mapr Some (map_err FrameParseFailed (pk_from_ip P frame))
          else Inr None)"

definition addresses_of :: "net_slice option \<Rightarrow> (string \<times> string) option" where
  "addresses_of n =
     (case n of
        Some (NetIpv4 a b) \<Rightarrow> Some (show_ipv4 (map unat a), show_ipv4 (map unat b))
      | Some (NetIpv6 a b) \<Rightarrow> Some (show_ipv6 (map unat a), show_ipv6 (map unat b))
      | _ \<Rightarrow> None)"

definition decode_segment :: "packet_lib \<Rightarrow> byte list \<Rightarrow> packet_decode_error + captured_segment option" where
  "decode_segment P frame =
     mapr (\<lambda>sliced.
       case sliced of
         None \<Rightarrow> None
       | Some packet \<Rightarrow>
           (case (addresses_of (sp_net packet), sp_transport packet) of
              (Some (source_ip, destination_ip), Some (TcpSlice t)) \<Rightarrow>
                Some \<lparr>cg_source_ip = source_ip, cg_source_port = tp_source_port t,
                      cg_destination_ip = destination_ip, cg_destination_port = tp_destination_port t,
                      cg_sequence = tp_sequence t, cg_ack = tp_ack t, cg_syn = tp_syn t,
                      cg_fin = tp_fin t, cg_rst = tp_rst t, cg_payload = tp_payload t\<rparr>
            | _ \<Rightarrow> None))
       (slice_frame P frame)"

text \<open>One read of the packet socket.\<close>

datatype read_outcome = WouldBlock | ReadFailed string | ReadBytes "byte list"

datatype tap_error = TapIo string | TapDecode packet_decode_error

definition tap_recv :: "packet_lib \<Rightarrow> read_outcome \<Rightarrow> tap_error + captured_segment option" where
  "tap_recv P r =
     (case r of
        WouldBlock \<Rightarrow> Inr None
      | ReadFailed e \<Rightarrow> Inl (TapIo e)
      | ReadBytes bytes \<Rightarrow> map_err TapDecode (decode_segment P bytes))"

section \<open>The tables of /proc\<close>

datatype proc_lookup_error = ProcIo string | MissingInterface i32 | InvalidProcLine string

text \<open>\<open>str::split_once\<close> on a character, \<open>split_whitespace\<close> and \<open>lines\<close>.\<close>

definition split_once :: "char \<Rightarrow> string \<Rightarrow> (string \<times> string) option" where
  "split_once c s =
     (if c \<in> set s then Some (takeWhile (\<lambda>x. x \<noteq> c) s, tl (dropWhile (\<lambda>x. x \<noteq> c) s)) else None)"

fun take_word :: "string \<Rightarrow> string \<times> string" where
  "take_word [] = ([], [])"
| "take_word (c # cs) =
     (if ws_prefix (map code (c # cs)) > 0 then ([], c # cs)
      else let (w, r) = take_word cs in (c # w, r))"

lemma length_take_word: "length (snd (take_word s)) \<le> length s"
  by (induction s) (auto simp: Let_def case_prod_unfold)

function split_whitespace :: "string \<Rightarrow> string list" where
  "split_whitespace s =
     (case trim_start s of
        [] \<Rightarrow> []
      | c # cs \<Rightarrow> (c # fst (take_word cs)) # split_whitespace (snd (take_word cs)))"
  by pat_completeness auto
termination
proof (relation "measure length", simp, simp)
  fix s c cs
  assume "trim_start s = c # cs"
  with length_trim_start [of s] length_take_word [of cs]
  show "length (snd (take_word cs)) < length s" by simp
qed

declare split_whitespace.simps [simp del]

definition LINE_FEED :: char where "LINE_FEED = char_of (10 :: nat)"

definition strip_cr :: "string \<Rightarrow> string" where
  "strip_cr l = (if l \<noteq> [] \<and> last l = char_of (13 :: nat) then butlast l else l)"

definition text_lines :: "string \<Rightarrow> string list" where
  "text_lines s =
     (let parts = split_on LINE_FEED s in
      map strip_cr (butlast parts) @ (if last parts = [] then [] else [last parts]))"

definition le_bytes :: "nat \<Rightarrow> nat list" where
  "le_bytes n = [n mod 256, n div 256 mod 256, n div 65536 mod 256, n div 16777216 mod 256]"

definition parse_hex_u32 :: "string \<Rightarrow> nat option" where
  "parse_hex_u32 = parse_unsigned 16 (2 ^ 32)"

definition parse_ipv4_address :: "string \<Rightarrow> proc_lookup_error + string" where
  "parse_ipv4_address value =
     mapr (\<lambda>raw. show_ipv4 (le_bytes raw)) (ok_or (parse_hex_u32 value) (InvalidProcLine value))"

fun chunks8 :: "nat \<Rightarrow> 'a list \<Rightarrow> 'a list list" where
  "chunks8 0 xs = []"
| "chunks8 (Suc n) xs = (if xs = [] then [] else take 8 xs # chunks8 n (drop 8 xs))"

definition parse_ipv6_address :: "string \<Rightarrow> proc_lookup_error + string" where
  "parse_ipv6_address value =
     (if length value \<noteq> 32 then Inl (InvalidProcLine value)
      else
        mapr (\<lambda>words. show_ipv6 (concat (map le_bytes words)))
          (map_m (\<lambda>chunk. bindr (ok_or (from_utf8 chunk) (InvalidProcLine value)) (\<lambda>text.
               ok_or (parse_hex_u32 text) (InvalidProcLine value)))
             (chunks8 4 (str_bytes value))))"

definition parse_proc_socket_address :: "string \<Rightarrow> bool \<Rightarrow> proc_lookup_error + string \<times> u16" where
  "parse_proc_socket_address value ipv6 =
     bindr (ok_or (split_once CHR '':'' value) (InvalidProcLine value)) (\<lambda>(address, port).
     bindr (ok_or (parse_unsigned 16 (2 ^ 16) port) (InvalidProcLine value)) (\<lambda>p.
       mapr (\<lambda>a. (a, word_of_nat p))
         (if ipv6 then parse_ipv6_address address else parse_ipv4_address address)))"

record tcp_entry =
  tn_local_ip :: string
  tn_local_port :: u16
  tn_remote_ip :: string
  tn_remote_port :: u16
  tn_ipv6 :: bool

definition parse_tcp_line :: "string \<Rightarrow> bool \<Rightarrow> proc_lookup_error + nat \<times> tcp_entry" where
  "parse_tcp_line line ipv6 =
     (let parts = split_whitespace line in
      if length parts \<le> 9 then Inl (InvalidProcLine line)
      else
        bindr (parse_proc_socket_address (parts ! 1) ipv6) (\<lambda>(local_ip, local_port).
        bindr (parse_proc_socket_address (parts ! 2) ipv6) (\<lambda>(remote_ip, remote_port).
        bindr (ok_or (parse_unsigned 10 (2 ^ 64) (parts ! 9)) (InvalidProcLine line)) (\<lambda>inode.
          Inr (inode, \<lparr>tn_local_ip = local_ip, tn_local_port = local_port, tn_remote_ip = remote_ip,
            tn_remote_port = remote_port, tn_ipv6 = ipv6\<rparr>)))))"

definition tcp_lines :: "string \<Rightarrow> string list" where
  "tcp_lines contents = filter (\<lambda>l. trim l \<noteq> []) (drop 1 (text_lines contents))"

definition load_tcp_file ::
  "(nat \<times> tcp_entry) list \<Rightarrow> (string + string) \<times> bool \<Rightarrow> proc_lookup_error + (nat \<times> tcp_entry) list" where
  "load_tcp_file entries f =
     bindr (map_err ProcIo (fst f)) (\<lambda>contents.
       foldr_m (\<lambda>m line. mapr (\<lambda>(inode, e). map_put m inode e) (parse_tcp_line line (snd f)))
         entries (tcp_lines contents))"

text \<open>\<open>tcp\<close> and \<open>tcp6\<close> are the outcomes of reading the two files.\<close>

definition load_tcp_entries ::
  "string + string \<Rightarrow> string + string \<Rightarrow> proc_lookup_error + (nat \<times> tcp_entry) list" where
  "load_tcp_entries tcp tcp6 = foldr_m load_tcp_file [] [(tcp, False), (tcp6, True)]"

definition parse_i32 :: "string \<Rightarrow> i32 option" where
  "parse_i32 s =
     (case s of
        [] \<Rightarrow> None
      | c # cs \<Rightarrow>
          if c = CHR ''-'' then
            (if cs = [] then None else map_option (\<lambda>n. - int n) (digits_val 10 (2 ^ 31 + 1) 0 cs))
          else map_option int (parse_unsigned 10 (2 ^ 31) s))"

definition parse_socket_inode :: "string \<Rightarrow> nat option" where
  "parse_socket_inode target =
     Option.bind (strip_prefix target ''socket:['') (\<lambda>r.
     Option.bind (strip_suffix r '']'') (parse_unsigned 10 (2 ^ 64)))"

text \<open>An entry of a directory: its name and the outcome of reading its link.\<close>

type_synonym dir_entry = "string + string \<times> (string + string)"

definition socket_inode_step :: "(i32 \<times> nat) list \<Rightarrow> dir_entry \<Rightarrow> proc_lookup_error + (i32 \<times> nat) list" where
  "socket_inode_step sockets entry =
     bindr (map_err ProcIo entry) (\<lambda>(name, link).
       case parse_i32 name of
         None \<Rightarrow> Inr sockets
       | Some fd \<Rightarrow>
           bindr (map_err ProcIo link) (\<lambda>target.
             case parse_socket_inode target of
               None \<Rightarrow> Inr sockets
             | Some inode \<Rightarrow> Inr (map_put sockets fd inode)))"

definition socket_inodes_for_pid :: "string + dir_entry list \<Rightarrow> proc_lookup_error + (i32 \<times> nat) list" where
  "socket_inodes_for_pid fd_dir =
     bindr (map_err ProcIo fd_dir) (\<lambda>entries. foldr_m socket_inode_step [] entries)"

definition socket_flow :: "u32 \<Rightarrow> i32 \<Rightarrow> nat \<Rightarrow> tcp_entry \<Rightarrow> process_socket_flow" where
  "socket_flow pid fd inode e =
     \<lparr>sf_pid = pid, sf_fd = fd, sf_inode = inode, sf_local_ip = tn_local_ip e,
      sf_local_port = tn_local_port e, sf_remote_ip = tn_remote_ip e,
      sf_remote_port = tn_remote_port e, sf_ipv6 = tn_ipv6 e\<rparr>"

definition from_proc_root ::
  "u32 \<Rightarrow> string + dir_entry list \<Rightarrow> string + string \<Rightarrow> string + string
     \<Rightarrow> proc_lookup_error + process_flow_index" where
  "from_proc_root pid fd_dir tcp tcp6 =
     bindr (socket_inodes_for_pid fd_dir) (\<lambda>inodes.
     bindr (load_tcp_entries tcp tcp6) (\<lambda>entries.
       Inr \<lparr>pi_pid = pid, pi_flows = List.map_filter (\<lambda>(fd, inode).
              map_option (socket_flow pid fd inode) (map_get entries inode)) (sort_key fst inodes)\<rparr>))"

text \<open>The entries of \<open>/sys/class/net\<close> with their \<open>ifindex\<close> files.\<close>

fun interface_name_loop ::
  "i32 \<Rightarrow> (string + string \<times> string option) list \<Rightarrow> proc_lookup_error + string" where
  "interface_name_loop index [] = Inl (MissingInterface index)"
| "interface_name_loop index (Inl e # es) = Inl (ProcIo e)"
| "interface_name_loop index (Inr (name, contents) # es) =
     (if Option.bind contents (\<lambda>s. parse_i32 (trim s)) = Some index then Inr name
      else interface_name_loop index es)"

definition interface_name_from_index ::
  "i32 \<Rightarrow> string + (string + string \<times> string option) list \<Rightarrow> proc_lookup_error + string" where
  "interface_name_from_index index dir =
     bindr (map_err ProcIo dir) (interface_name_loop index)"

end
