(* ===== verification/Client_Lane.thy ===== *)
theory Client_Lane
  imports Client_Framing Client_Store Capture_Tcp Capture_WebSocket Capture_H2 Capture_Flows
    "HOL-Library.Product_Lexorder"
begin

text \<open>
  The flow state machine of the capture lane (\<open>LiveCaptureLane\<close> of
  \<open>crates/client/src/capture_lane.rs\<close>): the flows by their endpoints, the protocol each one speaks,
  the exchanges taken off it and the tasks of each process. What the lane asks of the world is in
  \<open>lane_lib\<close> (the parsers of addresses and URIs, HPACK, the order in which a hash table lists its
  keys) and in \<open>lane_draws\<close> (the identifiers and clock readings of one input: \<open>dw_ids n i\<close> is the
  \<open>i\<close>-th identifier that the \<open>n\<close>-th projection draws). A flow whose handling fails is lost, as the
  code has taken it out of the table.
\<close>

section \<open>Endpoints\<close>

datatype ip_addr = V4 u32 | V6 "128 word"

instantiation ip_addr :: linorder
begin

fun less_eq_ip_addr :: "ip_addr \<Rightarrow> ip_addr \<Rightarrow> bool" where
  "less_eq_ip_addr (V4 a) (V4 b) = (a \<le> b)"
| "less_eq_ip_addr (V4 a) (V6 b) = True"
| "less_eq_ip_addr (V6 a) (V4 b) = False"
| "less_eq_ip_addr (V6 a) (V6 b) = (a \<le> b)"

definition less_ip_addr :: "ip_addr \<Rightarrow> ip_addr \<Rightarrow> bool" where
  "less_ip_addr x y \<longleftrightarrow> x \<le> y \<and> \<not> y \<le> x"

instance
proof
  fix x y z :: ip_addr
  show "x < y \<longleftrightarrow> x \<le> y \<and> \<not> y \<le> x" by (rule less_ip_addr_def)
  show "x \<le> x" by (cases x) simp_all
  show "x \<le> y \<Longrightarrow> y \<le> z \<Longrightarrow> x \<le> z" by (cases x; cases y; cases z) simp_all
  show "x \<le> y \<Longrightarrow> y \<le> x \<Longrightarrow> x = y" by (cases x; cases y) simp_all
  show "x \<le> y \<or> y \<le> x" by (cases x; cases y) (simp_all add: linear)
qed

end

type_synonym endpoint = "ip_addr \<times> u16"

text \<open>The order of \<open>Endpoint\<close> is the derived one: by address, then by port.\<close>

type_synonym flow_key = "endpoint \<times> endpoint"

definition flow_key_new :: "endpoint \<Rightarrow> endpoint \<Rightarrow> flow_key" where
  "flow_key_new a b = (if a \<le> b then (a, b) else (b, a))"

lemma flow_key_sym: "flow_key_new a b = flow_key_new b a"
  by (auto simp: flow_key_new_def)

section \<open>State\<close>

datatype direction = ClientToServer | ServerToClient

record websocket_request =
  wq_body :: "byte list"
  wq_observed_at :: i64
  wq_response_events :: "string list"

record websocket_state =
  wb_client :: ws_decoder
  wb_server :: ws_decoder
  wb_current_request :: "websocket_request option"

definition websocket_state_default :: websocket_state where
  "websocket_state_default = \<lparr>wb_client = ws_new, wb_server = ws_new, wb_current_request = None\<rparr>"

record 'h h2_decoder =
  hx_client :: "'h direction_state"
  hx_server :: "'h direction_state"

datatype 'h protocol_state =
  UnknownProtocol | Http1 | Http2 "'h h2_decoder" | WebSocketFlow websocket_state

record h2_stream_state =
  hs_request_headers :: "(string \<times> string) list"
  hs_request_body :: "byte list"
  hs_request_end :: bool
  hs_response_headers :: "(string \<times> string) list"
  hs_response_body :: "byte list"
  hs_response_end :: bool
  hs_request_at_ms :: i64

definition h2_stream_default :: h2_stream_state where
  "h2_stream_default = \<lparr>hs_request_headers = [], hs_request_body = [], hs_request_end = False,
     hs_response_headers = [], hs_response_body = [], hs_response_end = False, hs_request_at_ms = 0\<rparr>"

record request_envelope =
  re_raw :: "byte list"
  re_observed_at_ms :: i64

record 'h flow_state =
  fw_flow_id :: uuid
  fw_process :: "uuid option"
  fw_client :: endpoint
  fw_server :: endpoint
  fw_protocol :: "'h protocol_state"
  fw_client_assembler :: tcp_assembler
  fw_server_assembler :: tcp_assembler
  fw_client_buffer :: "byte list"
  fw_server_buffer :: "byte list"
  fw_client_closed :: bool
  fw_server_closed :: bool
  fw_request_queue :: "request_envelope list"
  fw_h2_streams :: "(u32 \<times> h2_stream_state) list"
  fw_current_task :: "task_key option"

record 'h live_lane =
  lv_store :: client_store
  lv_flows :: "(flow_key \<times> 'h flow_state) list"
  lv_process_tasks :: "(uuid \<times> task_key list) list"

record 'h lane_lib =
  ll_env :: lane_env
  ll_uri_path :: "string \<Rightarrow> string"
  ll_hpack :: "'h hpack_decode"
  ll_hpack_new :: 'h
  ll_parse_ip :: "string \<Rightarrow> ip_addr option"
  ll_show_ip :: "ip_addr \<Rightarrow> string"
  ll_stream_order :: "u32 list \<Rightarrow> u32 list"
  ll_task_order :: "task_key list \<Rightarrow> task_key list"

record lane_draws =
  dw_ids :: "nat \<Rightarrow> nat \<Rightarrow> uuid"
  dw_clk :: "nat \<Rightarrow> nat \<Rightarrow> datetime"
  dw_flow_id :: uuid
  dw_now :: datetime
  dw_event_ms :: "nat \<Rightarrow> i64"

datatype lane_error =
    LaneAddress string | LanePanic | LaneFrame frame_error | LaneHttp http_parse_error
  | LaneCapture capture_error | LaneH2 h2_decode_error | LaneWebSocket ws_failure

text \<open>What the handling of a segment works on: the flow, the tasks of the processes, the batch.\<close>

record 'h lane_ctx =
  cx_flow :: "'h flow_state"
  cx_tasks :: "(uuid \<times> task_key list) list"
  cx_batch :: capture_batch
  cx_drawn :: nat

type_synonym 'h lane_step = "'h lane_ctx \<times> (lane_error + unit)"

definition on_flow :: "('h flow_state \<Rightarrow> 'h flow_state) \<Rightarrow> 'h lane_ctx \<Rightarrow> 'h lane_ctx" where
  "on_flow f c = c\<lparr>cx_flow := f (cx_flow c)\<rparr>"

section \<open>Exchanges\<close>

definition associate_task ::
  "(uuid \<times> task_key list) list \<Rightarrow> uuid option \<Rightarrow> task_key \<Rightarrow> (uuid \<times> task_key list) list" where
  "associate_task m process task =
     (case process of
        None \<Rightarrow> m
      | Some p \<Rightarrow>
          let ts = unwrap_or (map_get m p) [] in
          map_put m p (if task \<in> set ts then ts else ts @ [task]))"

definition batch_extend :: "capture_batch \<Rightarrow> capture_batch \<Rightarrow> capture_batch" where
  "batch_extend b p = \<lparr>cb_records = cb_records b @ cb_records p, cb_contents = cb_contents b @ cb_contents p\<rparr>"

definition absorb_batch :: "'h lane_ctx \<Rightarrow> capture_batch \<Rightarrow> 'h lane_ctx" where
  "absorb_batch c p =
     (let d = (case find_map summary_record_task (cb_records p) of
                 None \<Rightarrow> c
               | Some task \<Rightarrow>
                   on_flow (fw_current_task_update (\<lambda>_. Some task))
                     (c\<lparr>cx_tasks := associate_task (cx_tasks c) (fw_process (cx_flow c)) task\<rparr>)) in
      d\<lparr>cx_batch := batch_extend (cx_batch d) p, cx_drawn := Suc (cx_drawn d)\<rparr>)"

definition absorb_exchange ::
  "lane_env \<Rightarrow> lane_draws \<Rightarrow> 'h lane_ctx \<Rightarrow> byte list \<Rightarrow> byte list \<Rightarrow> http_message \<Rightarrow> http_message
     \<Rightarrow> i64 \<Rightarrow> 'h lane_step" where
  "absorb_exchange E D c request_raw response_raw request response at =
     (case decode_http_exchange (le_http E) (le_json E) (dw_ids D (cx_drawn c) 2) request_raw
             response_raw at of
        Inl e \<Rightarrow> (c, Inl (LaneCapture e))
      | Inr attempt \<Rightarrow>
          (case project_exchange E (dw_clk D (cx_drawn c)) (dw_ids D (cx_drawn c))
                  \<lparr>dx_attempt = attempt, dx_request_raw = request_raw, dx_response_raw = response_raw,
                   dx_request_headers = headers_to_map (le_http E) (ms_headers request),
                   dx_response_headers = headers_to_map (le_http E) (ms_headers response),
                   dx_response_status = ms_status response\<rparr> of
             Inl e \<Rightarrow> (c, Inl (LaneHttp e))
           | Inr batch \<Rightarrow> (absorb_batch c batch, Inr ())))"

section \<open>HTTP/1\<close>

fun respond_loop ::
  "'h lane_lib \<Rightarrow> lane_env \<Rightarrow> lane_draws \<Rightarrow> request_envelope list \<Rightarrow> 'h lane_ctx \<Rightarrow> 'h lane_step" where
  "respond_loop X E D [] c = (on_flow (fw_request_queue_update (\<lambda>_. [])) c, Inr ())"
| "respond_loop X E D (q # qs) c =
     (let buf = align_http1_response (fw_server_buffer (cx_flow c));
          c1 = on_flow (\<lambda>f. f\<lparr>fw_server_buffer := buf, fw_request_queue := q # qs\<rparr>) c in
      case try_take_http1_response_or_terminal (le_http E) (le_json E) buf of
        Inl e \<Rightarrow> (c1, Inl (LaneFrame e))
      | Inr None \<Rightarrow> (c1, Inr ())
      | Inr (Some (response_raw, rest)) \<Rightarrow>
          let c2 = on_flow (\<lambda>f. f\<lparr>fw_server_buffer := rest, fw_request_queue := qs\<rparr>) c in
          (case (parse_http_request (le_http E) (re_raw q), parse_http_response (le_http E) response_raw) of
             (Inl e, _) \<Rightarrow> (c2, Inl (LaneHttp e))
           | (_, Inl e) \<Rightarrow> (c2, Inl (LaneHttp e))
           | (Inr request, Inr response) \<Rightarrow>
               if ms_status response = Some 101
                  \<and> is_websocket_upgrade (le_http E) (ms_headers request) (ms_headers response)
               then respond_loop X E D qs
                 (on_flow (fw_protocol_update (\<lambda>_. WebSocketFlow websocket_state_default)) c2)
               else if \<not> is_responses_request (ll_uri_path X) request then respond_loop X E D qs c2
               else
                 (case absorb_exchange E D c2 (re_raw q) response_raw request response
                         (re_observed_at_ms q) of
                    (c3, Inl e) \<Rightarrow> (c3, Inl e)
                  | (c3, Inr _) \<Rightarrow> respond_loop X E D qs c3)))"

definition consume_http1 ::
  "'h lane_lib \<Rightarrow> lane_env \<Rightarrow> lane_draws \<Rightarrow> 'h lane_ctx \<Rightarrow> 'h lane_step" where
  "consume_http1 X E D c =
     (case take_requests (le_http E) (fw_client_buffer (cx_flow c)) of
        (rest, Inl e) \<Rightarrow> (on_flow (fw_client_buffer_update (\<lambda>_. rest)) c, Inl (LaneFrame e))
      | (rest, Inr raws) \<Rightarrow>
          respond_loop X E D
            (fw_request_queue (cx_flow c)
              @ map (\<lambda>raw. \<lparr>re_raw = raw, re_observed_at_ms = ts (dw_now D)\<rparr>) raws)
            (on_flow (fw_client_buffer_update (\<lambda>_. rest)) c))"

section \<open>HTTP/2\<close>

definition touch_request_at :: "i64 \<Rightarrow> h2_stream_state \<Rightarrow> h2_stream_state" where
  "touch_request_at now s = (if hs_request_at_ms s = 0 then s\<lparr>hs_request_at_ms := now\<rparr> else s)"

definition on_stream ::
  "u32 \<Rightarrow> (h2_stream_state \<Rightarrow> h2_stream_state) \<Rightarrow> (u32 \<times> h2_stream_state) list
     \<Rightarrow> (u32 \<times> h2_stream_state) list" where
  "on_stream i f streams = map_put streams i (f (unwrap_or (map_get streams i) h2_stream_default))"

fun h2_event_step ::
  "direction \<Rightarrow> i64 \<Rightarrow> h2_event \<Rightarrow> (u32 \<times> h2_stream_state) list \<Rightarrow> (u32 \<times> h2_stream_state) list" where
  "h2_event_step ClientToServer now (Headers b) streams =
     on_stream (hh_stream_id b) (\<lambda>s. touch_request_at now
       (s\<lparr>hs_request_headers := hs_request_headers s @ hh_headers b, hs_request_end := hh_end_stream b\<rparr>))
       streams"
| "h2_event_step ServerToClient now (Headers b) streams =
     on_stream (hh_stream_id b) (\<lambda>s.
       s\<lparr>hs_response_headers := hs_response_headers s @ hh_headers b, hs_response_end := hh_end_stream b\<rparr>)
       streams"
| "h2_event_step ClientToServer now (Data i payload e) streams =
     on_stream i (\<lambda>s. touch_request_at now
       (s\<lparr>hs_request_body := hs_request_body s @ payload, hs_request_end := hs_request_end s \<or> e\<rparr>)) streams"
| "h2_event_step ServerToClient now (Data i payload e) streams =
     on_stream i (\<lambda>s.
       s\<lparr>hs_response_body := hs_response_body s @ payload, hs_response_end := hs_response_end s \<or> e\<rparr>) streams"
| "h2_event_step d now e streams = streams"

fun h2_events_loop ::
  "direction \<Rightarrow> (nat \<Rightarrow> i64) \<Rightarrow> nat \<Rightarrow> h2_event list \<Rightarrow> (u32 \<times> h2_stream_state) list
     \<Rightarrow> (u32 \<times> h2_stream_state) list" where
  "h2_events_loop d now i [] streams = streams"
| "h2_events_loop d now i (e # es) streams =
     h2_events_loop d now (Suc i) es (h2_event_step d (now i) e streams)"

definition stream_complete :: "h2_stream_state \<Rightarrow> bool" where
  "stream_complete s \<longleftrightarrow> hs_request_end s \<and> hs_response_end s
     \<and> hs_request_headers s \<noteq> [] \<and> hs_response_headers s \<noteq> []"

definition complete_streams :: "'h lane_lib \<Rightarrow> (u32 \<times> h2_stream_state) list \<Rightarrow> u32 list" where
  "complete_streams X streams =
     ll_stream_order X (map fst (filter (\<lambda>(i, s). stream_complete s) streams))"

fun h2_streams_loop ::
  "'h lane_lib \<Rightarrow> lane_env \<Rightarrow> lane_draws \<Rightarrow> u32 list \<Rightarrow> 'h lane_ctx \<Rightarrow> 'h lane_step" where
  "h2_streams_loop X E D [] c = (c, Inr ())"
| "h2_streams_loop X E D (i # is) c =
     (case map_get (fw_h2_streams (cx_flow c)) i of
        None \<Rightarrow> h2_streams_loop X E D is c
      | Some s \<Rightarrow>
          let c1 = on_flow (fw_h2_streams_update (\<lambda>m. map_del m i)) c;
              request_raw = synthesize_h2_request (hs_request_headers s) (hs_request_body s);
              response_raw = synthesize_h2_response (hs_response_headers s) (hs_response_body s) in
          (case (parse_http_request (le_http E) request_raw,
                 parse_http_response (le_http E) response_raw) of
             (Inl e, _) \<Rightarrow> (c1, Inl (LaneHttp e))
           | (_, Inl e) \<Rightarrow> (c1, Inl (LaneHttp e))
           | (Inr request, Inr response) \<Rightarrow>
               if \<not> is_responses_request (ll_uri_path X) request then h2_streams_loop X E D is c1
               else
                 (case absorb_exchange E D c1 request_raw response_raw request response
                         (hs_request_at_ms s) of
                    (c2, Inl e) \<Rightarrow> (c2, Inl e)
                  | (c2, Inr _) \<Rightarrow> h2_streams_loop X E D is c2)))"

definition h2_decoder_push ::
  "'h hpack_decode \<Rightarrow> direction \<Rightarrow> 'h h2_decoder \<Rightarrow> byte list
     \<Rightarrow> 'h h2_decoder \<times> (h2_decode_error + h2_event list)" where
  "h2_decoder_push hp d decoder bytes =
     (case d of
        ClientToServer \<Rightarrow>
          (let (s, r) = h2_push hp True (hx_client decoder) bytes in (decoder\<lparr>hx_client := s\<rparr>, r))
      | ServerToClient \<Rightarrow>
          (let (s, r) = h2_push hp False (hx_server decoder) bytes in (decoder\<lparr>hx_server := s\<rparr>, r)))"

definition consume_h2 ::
  "'h lane_lib \<Rightarrow> lane_env \<Rightarrow> lane_draws \<Rightarrow> direction \<Rightarrow> byte list \<Rightarrow> 'h h2_decoder \<Rightarrow> 'h lane_ctx
     \<Rightarrow> 'h lane_step" where
  "consume_h2 X E D d bytes decoder c =
     (case h2_decoder_push (ll_hpack X) d decoder bytes of
        (_, Inl e) \<Rightarrow> (c, Inl (LaneH2 e))
      | (decoder', Inr events) \<Rightarrow>
          let streams = h2_events_loop d (dw_event_ms D) 0 events (fw_h2_streams (cx_flow c)) in
          h2_streams_loop X E D (complete_streams X streams)
            (on_flow (\<lambda>f. f\<lparr>fw_h2_streams := streams, fw_protocol := Http2 decoder'\<rparr>) c))"

section \<open>WebSocket\<close>

definition ws_terminal :: "json_lib \<Rightarrow> string \<Rightarrow> bool" where
  "ws_terminal J text = is_some_and (json_kind J text) (\<lambda>k. k \<in> set terminal_kinds)"

text \<open>A frame of the server, while a request is open.\<close>

definition ws_response_frame ::
  "lane_env \<Rightarrow> lane_draws \<Rightarrow> byte list \<Rightarrow> websocket_request \<Rightarrow> websocket_state \<Rightarrow> 'h lane_ctx
     \<Rightarrow> websocket_state \<times> 'h lane_step" where
  "ws_response_frame E D payload request ws c =
     (let text = from_utf8_lossy payload in
      if \<not> starts_with (trim_start text) ''{'' then (ws, c, Inr ())
      else
        let events = wq_response_events request @ [text];
            ws1 = ws\<lparr>wb_current_request := Some (request\<lparr>wq_response_events := events\<rparr>)\<rparr> in
        if \<not> ws_terminal (le_json E) text then (ws1, c, Inr ())
        else
          let request_raw = synthesize_ws_request (wq_body request);
              response_raw = synthesize_ws_response events in
          (case (parse_http_request (le_http E) request_raw,
                 parse_http_response (le_http E) response_raw) of
             (Inl e, _) \<Rightarrow> (ws1, c, Inl (LaneHttp e))
           | (_, Inl e) \<Rightarrow> (ws1, c, Inl (LaneHttp e))
           | (Inr request_msg, Inr response_msg) \<Rightarrow>
               (case absorb_exchange E D c request_raw response_raw request_msg response_msg
                       (wq_observed_at request) of
                  (c1, Inl e) \<Rightarrow> (ws1, c1, Inl e)
                | (c1, Inr _) \<Rightarrow> (ws1\<lparr>wb_current_request := None\<rparr>, c1, Inr ()))))"

fun ws_frames_loop ::
  "lane_env \<Rightarrow> lane_draws \<Rightarrow> direction \<Rightarrow> nat \<Rightarrow> ws_frame list \<Rightarrow> websocket_state \<Rightarrow> 'h lane_ctx
     \<Rightarrow> websocket_state \<times> 'h lane_step" where
  "ws_frames_loop E D d i [] ws c = (ws, c, Inr ())"
| "ws_frames_loop E D d i (f # fs) ws c =
     (if wf_opcode f \<noteq> 1 then ws_frames_loop E D d (Suc i) fs ws c
      else case d of
        ClientToServer \<Rightarrow>
          ws_frames_loop E D d (Suc i) fs
            (ws\<lparr>wb_current_request := Some \<lparr>wq_body = wf_payload f, wq_observed_at = dw_event_ms D i,
               wq_response_events = []\<rparr>\<rparr>) c
      | ServerToClient \<Rightarrow>
          (case wb_current_request ws of
             None \<Rightarrow> ws_frames_loop E D d (Suc i) fs ws c
           | Some request \<Rightarrow>
               (case ws_response_frame E D (wf_payload f) request ws c of
                  (ws1, c1, Inl e) \<Rightarrow> (ws1, c1, Inl e)
                | (ws1, c1, Inr _) \<Rightarrow> ws_frames_loop E D d (Suc i) fs ws1 c1)))"

definition consume_websocket ::
  "lane_env \<Rightarrow> lane_draws \<Rightarrow> direction \<Rightarrow> byte list \<Rightarrow> websocket_state \<Rightarrow> 'h lane_ctx \<Rightarrow> 'h lane_step"
  where
  "consume_websocket E D d bytes ws c =
     (let (decoder, r) =
        ws_push (case d of ClientToServer \<Rightarrow> wb_client ws | ServerToClient \<Rightarrow> wb_server ws) bytes;
        ws1 = (case d of ClientToServer \<Rightarrow> ws\<lparr>wb_client := decoder\<rparr>
                       | ServerToClient \<Rightarrow> ws\<lparr>wb_server := decoder\<rparr>) in
      case r of
        Inl e \<Rightarrow> (c, Inl (LaneWebSocket e))
      | Inr frames \<Rightarrow>
          (case ws_frames_loop E D d 0 frames ws1 c of
             (ws2, c2, res) \<Rightarrow> (on_flow (fw_protocol_update (\<lambda>_. WebSocketFlow ws2)) c2, res)))"

section \<open>Bytes of a flow\<close>

definition detect_protocol :: "'h lane_lib \<Rightarrow> 'h flow_state \<Rightarrow> 'h protocol_state" where
  "detect_protocol X f =
     (if starts_with (fw_client_buffer f) HTTP2_START
      then Http2 \<lparr>hx_client = direction_new (ll_hpack_new X), hx_server = direction_new (ll_hpack_new X)\<rparr>
      else if looks_like_websocket_handshake (fw_client_buffer f)
         \<or> looks_like_http1 (fw_client_buffer f) \<or> looks_like_http1_response (fw_server_buffer f)
      then Http1
      else UnknownProtocol)"

definition append_bytes :: "direction \<Rightarrow> byte list \<Rightarrow> 'h flow_state \<Rightarrow> 'h flow_state" where
  "append_bytes d bytes f =
     (case d of
        ClientToServer \<Rightarrow> f\<lparr>fw_client_buffer := fw_client_buffer f @ bytes\<rparr>
      | ServerToClient \<Rightarrow> f\<lparr>fw_server_buffer := fw_server_buffer f @ bytes\<rparr>)"

definition with_protocol :: "'h lane_lib \<Rightarrow> 'h flow_state \<Rightarrow> 'h flow_state" where
  "with_protocol X f =
     (case fw_protocol f of
        UnknownProtocol \<Rightarrow> f\<lparr>fw_protocol := detect_protocol X f\<rparr>
      | _ \<Rightarrow> f)"

definition process_bytes ::
  "'h lane_lib \<Rightarrow> lane_env \<Rightarrow> lane_draws \<Rightarrow> direction \<Rightarrow> byte list \<Rightarrow> 'h lane_ctx \<Rightarrow> 'h lane_step" where
  "process_bytes X E D d bytes c =
     (let c1 = on_flow (\<lambda>f. with_protocol X (append_bytes d bytes f)) c in
      case fw_protocol (cx_flow c1) of
        UnknownProtocol \<Rightarrow> (c1, Inr ())
      | Http1 \<Rightarrow> consume_http1 X E D c1
      | Http2 decoder \<Rightarrow> consume_h2 X E D d bytes decoder c1
      | WebSocketFlow ws \<Rightarrow> consume_websocket E D d bytes ws c1)"

section \<open>Segments\<close>

definition flow_new ::
  "'h lane_lib \<Rightarrow> lane_draws \<Rightarrow> uuid option \<Rightarrow> endpoint \<Rightarrow> endpoint \<Rightarrow> 'h flow_state" where
  "flow_new X D process client server =
     \<lparr>fw_flow_id = dw_flow_id D, fw_process = process, fw_client = client, fw_server = server,
      fw_protocol = UnknownProtocol, fw_client_assembler = tcp_new, fw_server_assembler = tcp_new,
      fw_client_buffer = [], fw_server_buffer = [], fw_client_closed = False,
      fw_server_closed = False, fw_request_queue = [], fw_h2_streams = [], fw_current_task = None\<rparr>"

definition opened_flow ::
  "'h lane_lib \<Rightarrow> lane_draws \<Rightarrow> 'h live_lane \<Rightarrow> endpoint \<Rightarrow> endpoint \<Rightarrow> uuid option
     \<Rightarrow> process_flow_direction option \<Rightarrow> 'h flow_state" where
  "opened_flow X D lane source destination process attributed =
     (let (client, server) =
        (if attributed = Some RemoteToLocal then (destination, source) else (source, destination));
        f = unwrap_or (map_get (lv_flows lane) (flow_key_new source destination))
              (flow_new X D process client server) in
      if fw_process f = None then f\<lparr>fw_process := process\<rparr> else f)"

text \<open>The direction of the segment, and the flow with its ends as the segment shows them.\<close>

definition orient_flow ::
  "captured_segment \<Rightarrow> endpoint \<Rightarrow> endpoint \<Rightarrow> process_flow_direction option \<Rightarrow> 'h flow_state
     \<Rightarrow> 'h flow_state \<times> direction" where
  "orient_flow s source destination attributed f =
     (case attributed of
        Some LocalToRemote \<Rightarrow> (f\<lparr>fw_client := source, fw_server := destination\<rparr>, ClientToServer)
      | Some RemoteToLocal \<Rightarrow> (f\<lparr>fw_client := destination, fw_server := source\<rparr>, ServerToClient)
      | None \<Rightarrow>
          if source = fw_client f \<and> destination = fw_server f then (f, ClientToServer)
          else if source = fw_server f \<and> destination = fw_client f then (f, ServerToClient)
          else if looks_like_request (cg_payload s) \<or> cg_syn s
          then (f\<lparr>fw_client := source, fw_server := destination\<rparr>, ClientToServer)
          else (f, ServerToClient))"

definition assembler_of :: "direction \<Rightarrow> 'h flow_state \<Rightarrow> tcp_assembler" where
  "assembler_of d f =
     (case d of ClientToServer \<Rightarrow> fw_client_assembler f | ServerToClient \<Rightarrow> fw_server_assembler f)"

definition with_assembler :: "direction \<Rightarrow> tcp_assembler \<Rightarrow> 'h flow_state \<Rightarrow> 'h flow_state" where
  "with_assembler d a f =
     (case d of ClientToServer \<Rightarrow> f\<lparr>fw_client_assembler := a\<rparr>
              | ServerToClient \<Rightarrow> f\<lparr>fw_server_assembler := a\<rparr>)"

definition absorb_gap ::
  "lane_env \<Rightarrow> lane_draws \<Rightarrow> string \<Rightarrow> u64 option \<Rightarrow> 'h lane_ctx \<Rightarrow> 'h lane_ctx" where
  "absorb_gap E D reason lost c =
     (let p = project_gap E (dw_ids D (cx_drawn c)) (fw_flow_id (cx_flow c))
                (fw_current_task (cx_flow c)) (dw_now D) reason lost in
      c\<lparr>cx_batch := batch_extend (cx_batch c) p, cx_drawn := Suc (cx_drawn c)\<rparr>)"

definition deliver_segment ::
  "'h lane_lib \<Rightarrow> lane_env \<Rightarrow> lane_draws \<Rightarrow> direction \<Rightarrow> captured_segment \<Rightarrow> 'h lane_ctx \<Rightarrow> 'h lane_step"
  where
  "deliver_segment X E D d s c =
     (case tcp_push_segment (assembler_of d (cx_flow c))
             (cg_sequence s + (if cg_syn s then 1 else 0)) (cg_payload s) (cg_fin s) (cg_rst s) of
        None \<Rightarrow> (c, Inl LanePanic)
      | Some (a, result) \<Rightarrow>
          let c1 = on_flow (with_assembler d a) c in
          (case result of
             Advanced chunk \<Rightarrow> process_bytes X E D d (ac_bytes chunk) c1
           | GapDetected \<Rightarrow>
               (absorb_gap E D ''tcp_reassembly_gap'' (Some (word_of_nat (length (cg_payload s)))) c1, Inr ())
           | ConflictDetected \<Rightarrow>
               (absorb_gap E D ''tcp_reassembly_gap'' (Some (word_of_nat (length (cg_payload s)))) c1, Inr ())
           | Pending \<Rightarrow> (c1, Inr ())))"

definition mark_closed :: "direction \<Rightarrow> 'h flow_state \<Rightarrow> 'h flow_state" where
  "mark_closed d f =
     (case d of ClientToServer \<Rightarrow> f\<lparr>fw_client_closed := True\<rparr>
              | ServerToClient \<Rightarrow> f\<lparr>fw_server_closed := True\<rparr>)"

definition close_direction ::
  "lane_env \<Rightarrow> lane_draws \<Rightarrow> direction \<Rightarrow> captured_segment \<Rightarrow> 'h lane_ctx \<Rightarrow> 'h lane_ctx" where
  "close_direction E D d s c =
     (if \<not> (cg_fin s \<or> cg_rst s) then c
      else
        let (a, result) = tcp_finish (assembler_of d (cx_flow c));
            c1 = on_flow (\<lambda>f. with_assembler d a (mark_closed d f)) c in
        if result = GapDetected \<or> result = ConflictDetected
        then absorb_gap E D (case d of ClientToServer \<Rightarrow> ''client_stream_finish_with_gap''
                                     | ServerToClient \<Rightarrow> ''server_stream_finish_with_gap'') None c1
        else c1)"

definition show_endpoint :: "'h lane_lib \<Rightarrow> endpoint \<Rightarrow> string" where
  "show_endpoint X e = ll_show_ip X (fst e) @ '':'' @ show_nat (unat (snd e))"

definition is_empty_batch :: "capture_batch \<Rightarrow> bool" where
  "is_empty_batch b \<longleftrightarrow> cb_records b = [] \<and> cb_contents b = []"

definition batch_some :: "capture_batch \<Rightarrow> capture_batch option" where
  "batch_some b = (if is_empty_batch b then None else Some b)"

definition parse_endpoint :: "'h lane_lib \<Rightarrow> string \<Rightarrow> u16 \<Rightarrow> lane_error + endpoint" where
  "parse_endpoint X ip port = mapr (\<lambda>a. (a, port)) (ok_or (ll_parse_ip X ip) (LaneAddress ip))"

text \<open>The table without the flow while the segment is handled: an error leaves it so.\<close>

definition handle_flow ::
  "'h lane_lib \<Rightarrow> lane_draws \<Rightarrow> 'h live_lane \<Rightarrow> captured_segment \<Rightarrow> endpoint \<Rightarrow> endpoint
     \<Rightarrow> uuid option \<Rightarrow> process_flow_direction option
     \<Rightarrow> 'h live_lane \<times> (lane_error + capture_batch option)" where
  "handle_flow X D lane s source destination process attributed =
     (let key = flow_key_new source destination;
          f = opened_flow X D lane source destination process attributed;
          store = note_flow_open (lv_store lane) (fw_flow_id f) (fw_process f)
            (show_endpoint X (fw_client f)) (show_endpoint X (fw_server f)) ''tcp'' (dw_now D);
          E = store_env (ll_env X) store;
          (f1, d) = orient_flow s source destination attributed f;
          (c, r) = deliver_segment X E D d s
            \<lparr>cx_flow = f1, cx_tasks = lv_process_tasks lane, cx_batch = batch_empty, cx_drawn = 0\<rparr>;
          lane1 = lane\<lparr>lv_store := store, lv_flows := map_del (lv_flows lane) key,
            lv_process_tasks := cx_tasks c\<rparr> in
      case r of
        Inl e \<Rightarrow> (lane1, Inl e)
      | Inr _ \<Rightarrow>
          let c1 = close_direction E D d s c; f2 = cx_flow c1 in
          (if fw_client_closed f2 \<and> fw_server_closed f2
           then lane1\<lparr>lv_store := note_flow_closed store (fw_flow_id f2) (dw_now D)\<rparr>
           else lane1\<lparr>lv_flows := map_put (lv_flows lane1) key f2\<rparr>,
           Inr (batch_some (cx_batch c1))))"

definition handle_segment ::
  "'h lane_lib \<Rightarrow> lane_draws \<Rightarrow> 'h live_lane \<Rightarrow> captured_segment \<Rightarrow> uuid option
     \<Rightarrow> process_flow_direction option \<Rightarrow> 'h live_lane \<times> (lane_error + capture_batch option)" where
  "handle_segment X D lane s process attributed =
     (case (parse_endpoint X (cg_source_ip s) (cg_source_port s),
            parse_endpoint X (cg_destination_ip s) (cg_destination_port s)) of
        (Inl e, _) \<Rightarrow> (lane, Inl e)
      | (_, Inl e) \<Rightarrow> (lane, Inl e)
      | (Inr source, Inr destination) \<Rightarrow> handle_flow X D lane s source destination process attributed)"

section \<open>Inputs\<close>

datatype capture_input =
    SegmentInput captured_segment
  | AttributedInput captured_segment uuid process_flow_direction
  | GapInput uuid "task_key option" datetime string "u64 option"
  | ProcessObserved process_summary
  | ProcessExit process_summary

text \<open>The tasks a process exit ends: those associated with it and the current ones of its flows.\<close>

definition exit_tasks :: "'h lane_lib \<Rightarrow> 'h live_lane \<Rightarrow> uuid \<Rightarrow> task_key list" where
  "exit_tasks X lane process =
     ll_task_order X (remdups (unwrap_or (map_get (lv_process_tasks lane) process) []
       @ List.map_filter (\<lambda>(k, f). if fw_process f = Some process then fw_current_task f else None)
           (lv_flows lane)))"

fun handle_input ::
  "'h lane_lib \<Rightarrow> lane_draws \<Rightarrow> 'h live_lane \<Rightarrow> capture_input
     \<Rightarrow> 'h live_lane \<times> (lane_error + capture_batch option)" where
  "handle_input X D lane (SegmentInput s) = handle_segment X D lane s None None"
| "handle_input X D lane (AttributedInput s p d) = handle_segment X D lane s (Some p) (Some d)"
| "handle_input X D lane (GapInput flow_id task at reason lost) =
     (lane, Inr (batch_some (project_gap (store_env (ll_env X) (lv_store lane)) (dw_ids D 0) flow_id
       task at reason lost)))"
| "handle_input X D lane (ProcessObserved p) =
     (lane, Inr (Some \<lparr>cb_records = [Process p], cb_contents = []\<rparr>))"
| "handle_input X D lane (ProcessExit p) =
     (lane\<lparr>lv_process_tasks := map_del (lv_process_tasks lane) (ps_process_instance_id p)\<rparr>,
      Inr (batch_some (project_process_exit (store_env (ll_env X) (lv_store lane)) (dw_ids D 0)
        (dw_now D) p (exit_tasks X lane (ps_process_instance_id p)))))"

datatype 'l ingest_error = IngestLane lane_error | IngestStore "'l store_error"

definition ingest_input ::
  "'h lane_lib \<Rightarrow> 'l store_lib \<Rightarrow> lane_draws \<Rightarrow> (nat \<Rightarrow> nat \<Rightarrow> uuid) \<Rightarrow> (nat \<Rightarrow> nat \<Rightarrow> i64)
     \<Rightarrow> 'h live_lane \<times> blob_files \<Rightarrow> capture_input
     \<Rightarrow> ('h live_lane \<times> blob_files) \<times> ('l ingest_error + persist_outcome option)" where
  "ingest_input X S D ids clk w input =
     (let (lane, files) = w in
      case handle_input X D lane input of
        (lane1, Inl e) \<Rightarrow> ((lane1, files), Inl (IngestLane e))
      | (lane1, Inr None) \<Rightarrow> ((lane1, files), Inr None)
      | (lane1, Inr (Some b)) \<Rightarrow>
          if is_empty_batch b then ((lane1, files), Inr None)
          else
            let ((st, files'), r) =
              persist_ingress S ids clk (lv_store lane1, files) (cb_records b) (cb_contents b) in
            ((lane1\<lparr>lv_store := st\<rparr>, files'), map_err IngestStore (mapr Some r)))"

end
