(* ===== verification/Client_Lane_Facts.thy ===== *)
theory Client_Lane_Facts
  imports Client_Lane Client_Store_Facts
begin

text \<open>
  What the capture lane guarantees. The first part follows the client side of a flow from the packets
  to the queue of requests: whatever the network does to the segments, the lane queues the requests
  the client wrote, whole and in order.
\<close>

section \<open>The client side of a flow\<close>

text \<open>The protocol, the buffer and the queue of a flow that has read \<open>P\<close> from its client.\<close>

definition reads :: "http_lib \<Rightarrow> byte list \<Rightarrow> 'h flow_state \<Rightarrow> bool" where
  "reads L P f \<longleftrightarrow> fw_server_buffer f = [] \<and> \<not> fw_server_closed f
     \<and> (fw_protocol f = UnknownProtocol \<and> fw_client_buffer f = P \<and> fw_request_queue f = []
          \<and> \<not> looks_like_http1 P
        \<or> fw_protocol f = Http1
          \<and> take_requests L P = (fw_client_buffer f, Inr (map re_raw (fw_request_queue f))))"

lemma reads_frame:
  assumes "reads L P f" and "fw_server_buffer g = fw_server_buffer f"
    and "fw_server_closed g = fw_server_closed f" and "fw_protocol g = fw_protocol f"
    and "fw_client_buffer g = fw_client_buffer f" and "fw_request_queue g = fw_request_queue f"
  shows "reads L P g"
  using assms by (simp add: reads_def)

lemma respond_without_response:
  assumes "fw_server_buffer (cx_flow c) = []"
  shows "respond_loop X E D qs c = (on_flow (fw_request_queue_update (\<lambda>_. qs)) c, Inr ())"
proof (cases qs)
  case (Cons q qs')
  have none: "find_header_end [] = None" by (simp add: find_header_end_def HEADER_END_def)
  have "try_take_http1_response_or_terminal L J [] = Inr None" for L J
    by (simp add: try_take_http1_response_or_terminal_def try_take_http1_response_def
        try_take_http1_message_def none)
  moreover have "align_http1_response [] = []" by (simp add: align_http1_response_def)
  ultimately show ?thesis using assms Cons by (simp add: on_flow_def)
qed simp

lemma take_requests_append:
  assumes "take_requests L P = (buf, Inr raws)"
  shows "take_requests L (P @ b) = prepend raws (take_requests L (buf @ b))"
  using assms http1.drain_feed [of L P b] by (simp add: take_requests_def)

lemma take_requests_prefix:
  assumes "take_requests L (P @ b) = (rest, Inr ms)"
  shows "\<exists>buf raws more. take_requests L P = (buf, Inr raws) \<and> ms = raws @ more"
proof -
  obtain buf r where p: "take_requests L P = (buf, r)" by (cases "take_requests L P")
  show ?thesis
  proof (cases r)
    case (Inl e)
    with p assms http1.drain_feed [of L P b] show ?thesis by (simp add: take_requests_def)
  next
    case (Inr raws)
    with p take_requests_append have "prepend raws (take_requests L (buf @ b)) = (rest, Inr ms)"
      using assms by metis
    then obtain more where "ms = raws @ more"
      by (cases "take_requests L (buf @ b)"; cases "snd (take_requests L (buf @ b))") auto
    with p Inr show ?thesis by simp
  qed
qed

lemma detect_client_request:
  assumes "fw_server_buffer f = []" and "\<not> starts_with (fw_client_buffer f) HTTP2_START"
  shows "detect_protocol X f = (if looks_like_http1 (fw_client_buffer f) then Http1 else UnknownProtocol)"
  using assms
  by (simp add: detect_protocol_def websocket_handshake_never looks_like_http1_response_def
      HTTP1_PREFIX_def str_bytes_def)

lemma consume_client_bytes:
  assumes "fw_server_buffer (cx_flow c) = []"
    and "take_requests (le_http E) (fw_client_buffer (cx_flow c)) = (rest, Inr raws)"
  shows "\<exists>qs. consume_http1 X E D c =
      (on_flow (\<lambda>f. f\<lparr>fw_client_buffer := rest, fw_request_queue := fw_request_queue f @ qs\<rparr>) c, Inr ())
    \<and> map re_raw qs = raws"
proof (intro exI conjI)
  let ?qs = "map (\<lambda>raw. \<lparr>re_raw = raw, re_observed_at_ms = ts (dw_now D)\<rparr>) raws"
  show "map re_raw ?qs = raws" by (simp add: comp_def)
  show "consume_http1 X E D c =
      (on_flow (\<lambda>f. f\<lparr>fw_client_buffer := rest, fw_request_queue := fw_request_queue f @ ?qs\<rparr>) c, Inr ())"
    using assms by (simp add: consume_http1_def respond_without_response on_flow_def)
qed

lemma process_client_bytes:
  assumes "reads (le_http E) P (cx_flow c)" and "\<not> starts_with (P @ b) HTTP2_START"
    and "take_requests (le_http E) (P @ b) = (rest, Inr ms)"
  shows "\<exists>g. process_bytes X E D ClientToServer b c = (c\<lparr>cx_flow := g\<rparr>, Inr ())
    \<and> reads (le_http E) (P @ b) g \<and> fw_client_assembler g = fw_client_assembler (cx_flow c)"
proof -
  let ?f = "cx_flow c" and ?L = "le_http E"
  let ?g = "with_protocol X (append_bytes ClientToServer b ?f)"
  have server: "fw_server_buffer ?g = []" "\<not> fw_server_closed ?g"
      "fw_client_assembler ?g = fw_client_assembler ?f"
    using assms(1) by (auto simp: reads_def with_protocol_def append_bytes_def split: protocol_state.splits)
  from assms(1) consider
      (unknown) "fw_protocol ?f = UnknownProtocol" "fw_client_buffer ?f = P" "fw_request_queue ?f = []"
    | (http1) "fw_protocol ?f = Http1"
        "take_requests ?L P = (fw_client_buffer ?f, Inr (map re_raw (fw_request_queue ?f)))"
    by (auto simp: reads_def)
  then show ?thesis
  proof cases
    case unknown
    have buf: "fw_client_buffer ?g = P @ b" "fw_request_queue ?g = []"
      using unknown by (simp_all add: with_protocol_def append_bytes_def)
    have prot: "fw_protocol ?g = (if looks_like_http1 (P @ b) then Http1 else UnknownProtocol)"
      using unknown assms by (simp add: with_protocol_def append_bytes_def detect_client_request reads_def)
    show ?thesis
    proof (cases "looks_like_http1 (P @ b)")
      case False
      with prot buf server show ?thesis
        by (intro exI [of _ ?g]) (simp add: process_bytes_def on_flow_def reads_def)
    next
      case True
      obtain qs where "consume_http1 X E D (c\<lparr>cx_flow := ?g\<rparr>) = (on_flow (\<lambda>f.
          f\<lparr>fw_client_buffer := rest, fw_request_queue := fw_request_queue f @ qs\<rparr>) (c\<lparr>cx_flow := ?g\<rparr>),
          Inr ())" "map re_raw qs = ms"
        using consume_client_bytes [of "c\<lparr>cx_flow := ?g\<rparr>" E rest ms X D] server(1) buf(1) assms(3)
        by auto
      with True prot buf server assms(3) show ?thesis
        by (intro exI [of _ "?g\<lparr>fw_client_buffer := rest, fw_request_queue := qs\<rparr>"])
          (simp add: process_bytes_def on_flow_def reads_def)
    qed
  next
    case http1
    let ?g = "append_bytes ClientToServer b ?f"
    have g: "with_protocol X ?g = ?g" using http1 by (simp add: with_protocol_def append_bytes_def)
    from take_requests_append [OF http1(2), of b] assms(3) obtain raws where
      raws: "take_requests ?L (fw_client_buffer ?f @ b) = (rest, Inr raws)"
        "ms = map re_raw (fw_request_queue ?f) @ raws"
      by (cases "take_requests ?L (fw_client_buffer ?f @ b)";
          cases "snd (take_requests ?L (fw_client_buffer ?f @ b))") auto
    obtain qs where "consume_http1 X E D (c\<lparr>cx_flow := ?g\<rparr>) = (on_flow (\<lambda>f.
        f\<lparr>fw_client_buffer := rest, fw_request_queue := fw_request_queue f @ qs\<rparr>) (c\<lparr>cx_flow := ?g\<rparr>),
        Inr ())" "map re_raw qs = raws"
      using consume_client_bytes [of "c\<lparr>cx_flow := ?g\<rparr>" E rest raws X D] server(1) g raws(1)
      by (auto simp: append_bytes_def)
    with http1(1) g server raws assms(3) show ?thesis
      by (intro exI [of _ "?g\<lparr>fw_client_buffer := rest, fw_request_queue := fw_request_queue ?g @ qs\<rparr>"])
        (simp add: process_bytes_def on_flow_def reads_def append_bytes_def)
  qed
qed

text \<open>The sequence number of the first byte of a segment.\<close>

definition wire_seq :: "captured_segment \<Rightarrow> u32" where
  "wire_seq s = cg_sequence s + (if cg_syn s then 1 else 0)"

definition follows :: "http_lib \<Rightarrow> byte list \<Rightarrow> nat \<Rightarrow> 'h flow_state \<Rightarrow> bool" where
  "follows L S s0 f \<longleftrightarrow> (\<exists>k. tcp_inv S s0 (fw_client_assembler f) k
     \<and> small_segments (fw_client_assembler f) \<and> reads L (take k S) f)"

lemma deliver_client:
  assumes "reads (le_http E) (take j S) (cx_flow c)"
    and push: "tcp_push_segment (fw_client_assembler (cx_flow c)) (wire_seq s) (cg_payload s)
           (cg_fin s) (cg_rst s) = Some (a, r)"
    and "tcp_inv S s0 a k" and "small_segments a" and bytes: "take k S = take j S @ result_bytes r"
    and "\<not> starts_with S HTTP2_START" and "take_requests (le_http E) S = (tail, Inr ms)"
  shows "\<exists>c'. deliver_segment X E D ClientToServer s c = (c', Inr ())
    \<and> follows (le_http E) S s0 (cx_flow c')"
proof -
  let ?c = "on_flow (with_assembler ClientToServer a) c"
  have r1: "reads (le_http E) (take j S) (cx_flow ?c)" "fw_client_assembler (cx_flow ?c) = a"
    using assms(1) by (simp_all add: on_flow_def with_assembler_def reads_def)
  have deliver: "deliver_segment X E D ClientToServer s c =
      (case r of Advanced chunk \<Rightarrow> process_bytes X E D ClientToServer (ac_bytes chunk) ?c
       | GapDetected \<Rightarrow> (absorb_gap E D ''tcp_reassembly_gap'' (Some (word_of_nat (length (cg_payload s)))) ?c, Inr ())
       | ConflictDetected \<Rightarrow> (absorb_gap E D ''tcp_reassembly_gap'' (Some (word_of_nat (length (cg_payload s)))) ?c, Inr ())
       | Pending \<Rightarrow> (?c, Inr ()))"
    using push by (simp add: deliver_segment_def assembler_of_def wire_seq_def Let_def)
  show ?thesis
  proof (cases r)
    case (Advanced chunk)
    have "\<not> starts_with (take k S) HTTP2_START"
      using assms(6) starts_with_append [of "take k S" HTTP2_START "drop k S"] by auto
    moreover obtain buf raws where "take_requests (le_http E) (take k S) = (buf, Inr raws)"
      using take_requests_prefix [of "le_http E" "take k S" "drop k S"] assms(7) by auto
    ultimately obtain g where g: "process_bytes X E D ClientToServer (ac_bytes chunk) ?c = (?c\<lparr>cx_flow := g\<rparr>, Inr ())"
        "reads (le_http E) (take k S) g" "fw_client_assembler g = a"
      using process_client_bytes [OF r1(1), of "ac_bytes chunk" buf raws X D] bytes Advanced r1(2)
      by (auto simp: result_bytes_def)
    with deliver Advanced assms(3,4) show ?thesis by (auto simp: follows_def)
  qed (use deliver bytes r1 assms(3,4) in \<open>auto simp: follows_def result_bytes_def absorb_gap_def Let_def\<close>)
qed

lemma close_follows:
  assumes "follows L S s0 (cx_flow c)"
  shows "follows L S s0 (cx_flow (close_direction E D ClientToServer s c))"
proof -
  obtain a r where fin: "tcp_finish (fw_client_assembler (cx_flow c)) = (a, r)"
    by (cases "tcp_finish (fw_client_assembler (cx_flow c))")
  then have "tcp_inv S s0 a k" if "tcp_inv S s0 (fw_client_assembler (cx_flow c)) k" for k
    using that by (auto simp: tcp_finish_def degrade_def tcp_inv_def split: if_splits)
  moreover have "small_segments a" if "small_segments (fw_client_assembler (cx_flow c))"
    using that fin by (auto simp: tcp_finish_def degrade_def small_segments_def split: if_splits)
  moreover have "reads L P (with_assembler ClientToServer a (mark_closed ClientToServer (cx_flow c)))"
    if "reads L P (cx_flow c)" for P
    using that by (simp add: with_assembler_def mark_closed_def reads_def)
  ultimately show ?thesis
    using assms fin
    by (fastforce simp: close_direction_def assembler_of_def follows_def absorb_gap_def on_flow_def
        with_assembler_def mark_closed_def Let_def)
qed

lemma follows_open: "follows L S s0 f \<Longrightarrow> \<not> fw_server_closed f"
  by (auto simp: follows_def reads_def)

text \<open>One segment, of a flow the lane follows or, when it is the first, of a new one.\<close>

lemma segment_follows:
  assumes ends: "parse_endpoint X (cg_source_ip s) (cg_source_port s) = Inr src"
      "parse_endpoint X (cg_destination_ip s) (cg_destination_port s) = Inr dst"
    and flow: "case map_get (lv_flows lane) (flow_key_new src dst) of
        Some f \<Rightarrow> follows (le_http (ll_env X)) S s0 f | None \<Rightarrow> s0 = unat (wire_seq s)"
    and seg: "within S s0 (wire_seq s) (cg_payload s)" "s0 + length S < 2 ^ 32" "length S < 2 ^ 31"
    and stream: "\<not> starts_with S HTTP2_START" "take_requests (le_http (ll_env X)) S = (tail, Inr ms)"
  shows "\<exists>lane' b f. handle_segment X D lane s (Some p) (Some LocalToRemote) = (lane', Inr b)
    \<and> map_get (lv_flows lane') (flow_key_new src dst) = Some f \<and> follows (le_http (ll_env X)) S s0 f"
proof -
  let ?L = "le_http (ll_env X)"
  let ?f = "opened_flow X D lane src dst (Some p) (Some LocalToRemote)"
  let ?store = "note_flow_open (lv_store lane) (fw_flow_id ?f) (fw_process ?f)
      (show_endpoint X (fw_client ?f)) (show_endpoint X (fw_server ?f)) ''tcp'' (dw_now D)"
  let ?E = "store_env (ll_env X) ?store"
  let ?c = "\<lparr>cx_flow = ?f\<lparr>fw_client := src, fw_server := dst\<rparr>, cx_tasks = lv_process_tasks lane,
      cx_batch = batch_empty, cx_drawn = 0\<rparr>"
  have E: "le_http ?E = ?L" by (simp add: store_env_def)
  have small: "length (cg_payload s) < 2 ^ 31" using seg by (auto simp: within_def)
  have "\<exists>j k a r. reads ?L (take j S) (cx_flow ?c)
      \<and> tcp_push_segment (fw_client_assembler (cx_flow ?c)) (wire_seq s) (cg_payload s) (cg_fin s) (cg_rst s)
          = Some (a, r)
      \<and> tcp_inv S s0 a k \<and> small_segments a \<and> take k S = take j S @ result_bytes r"
  proof (cases "map_get (lv_flows lane) (flow_key_new src dst)")
    case None
    then have f: "fw_client_assembler ?f = tcp_new" "reads ?L [] (cx_flow ?c)"
      by (simp_all add: opened_flow_def flow_new_def reads_def looks_like_http1_def looks_like_request_def
          HTTP2_START_def str_bytes_def)
    have s0: "s0 = unat (wire_seq s)" using flow None by simp
    let ?a = "tcp_record (tcp_new\<lparr>ta_next_seq := Some (seq_add (wire_seq s) (cg_payload s))\<rparr>)
        (wire_seq s) (cg_payload s)"
    have "tcp_push_segment tcp_new (wire_seq s) (cg_payload s) (cg_fin s) (cg_rst s) =
        Some (?a, Advanced \<lparr>ac_bytes = cg_payload s, ac_fin = cg_fin s, ac_rst = cg_rst s\<rparr>)"
      by (simp add: tcp_push_segment_def tcp_new_def)
    moreover have "tcp_inv S s0 ?a (length (cg_payload s))"
      using within_unat_seq_add [OF seg(1,2)] seg s0 by (auto simp: tcp_inv_def within_def tcp_new_def)
    moreover have "small_segments ?a"
      by (rule record_small) (use small in \<open>simp_all add: small_segments_def tcp_new_def\<close>)
    moreover have "take (length (cg_payload s)) S = cg_payload s" using seg(1) s0 by (simp add: within_def)
    ultimately show ?thesis using f
      by (intro exI [of _ 0] exI [of _ "length (cg_payload s)"]) (auto simp: result_bytes_def)
  next
    case (Some f)
    with flow obtain j where j: "tcp_inv S s0 (fw_client_assembler f) j"
        "small_segments (fw_client_assembler f)" "reads ?L (take j S) f"
      by (auto simp: follows_def)
    obtain a r where p: "tcp_push_segment (fw_client_assembler f) (wire_seq s) (cg_payload s) (cg_fin s) (cg_rst s)
          = Some (a, r)" "small_segments a"
      using push_total [OF j(2) small] by blast
    from push_stream [OF j(1) seg(1) p(1)]
    have q: "tcp_inv S s0 a (j + length (result_bytes r))" "starts_with (drop j S) (result_bytes r)" by simp_all
    then have "take (j + length (result_bytes r)) S = take j S @ result_bytes r"
      by (simp add: take_add starts_with_take)
    moreover have "reads ?L (take j S) (cx_flow ?c)" "fw_client_assembler (cx_flow ?c) = fw_client_assembler f"
      using Some j(3) by (auto simp: opened_flow_def reads_def)
    ultimately show ?thesis using p q by metis
  qed
  then obtain c where c: "deliver_segment X ?E D ClientToServer s ?c = (c, Inr ())"
      "follows ?L S s0 (cx_flow c)"
    using deliver_client [of ?E _ S ?c s] stream E by metis
  note closed = close_follows [OF c(2), of ?E D s]
  have "handle_flow X D lane s src dst (Some p) (Some LocalToRemote) =
      (let c1 = close_direction ?E D ClientToServer s c;
           lane1 = lane\<lparr>lv_store := ?store, lv_flows := map_del (lv_flows lane) (flow_key_new src dst),
             lv_process_tasks := cx_tasks c\<rparr> in
       (lane1\<lparr>lv_flows := map_put (lv_flows lane1) (flow_key_new src dst) (cx_flow c1)\<rparr>,
        Inr (batch_some (cx_batch c1))))"
    using c(1) follows_open [OF closed] by (simp add: handle_flow_def orient_flow_def Let_def)
  with closed ends show ?thesis by (simp add: handle_segment_def Let_def)
qed

section \<open>Runs of the lane\<close>

text \<open>The inputs with what each one draws, and the results.\<close>

fun run_inputs ::
  "'h lane_lib \<Rightarrow> 'h live_lane \<Rightarrow> (lane_draws \<times> capture_input) list
     \<Rightarrow> 'h live_lane \<times> (lane_error + capture_batch option) list" where
  "run_inputs X lane [] = (lane, [])"
| "run_inputs X lane ((D, i) # xs) =
     (let (lane1, r) = handle_input X D lane i; (lane2, rs) = run_inputs X lane1 xs in (lane2, r # rs))"

text \<open>Segments of one direction of a connection, as windows of the stream the client writes.\<close>

definition client_segment ::
  "'h lane_lib \<Rightarrow> endpoint \<Rightarrow> endpoint \<Rightarrow> byte list \<Rightarrow> nat \<Rightarrow> captured_segment \<Rightarrow> bool" where
  "client_segment X src dst S s0 s \<longleftrightarrow>
     parse_endpoint X (cg_source_ip s) (cg_source_port s) = Inr src
   \<and> parse_endpoint X (cg_destination_ip s) (cg_destination_port s) = Inr dst
   \<and> within S s0 (wire_seq s) (cg_payload s)"

definition client_inputs ::
  "uuid \<Rightarrow> (lane_draws \<times> captured_segment) list \<Rightarrow> (lane_draws \<times> capture_input) list" where
  "client_inputs p xs = map (\<lambda>(D, s). (D, AttributedInput s p LocalToRemote)) xs"

lemma run_follows:
  assumes "list_all (\<lambda>x. client_segment X src dst S s0 (snd x)) xs"
    and "case map_get (lv_flows lane) (flow_key_new src dst) of
        Some f \<Rightarrow> follows (le_http (ll_env X)) S s0 f | None \<Rightarrow> xs \<noteq> [] \<and> s0 = unat (wire_seq (snd (hd xs)))"
    and "s0 + length S < 2 ^ 32" "length S < 2 ^ 31" "\<not> starts_with S HTTP2_START"
      "take_requests (le_http (ll_env X)) S = (tail, Inr ms)"
  shows "\<exists>f. map_get (lv_flows (fst (run_inputs X lane (client_inputs p xs)))) (flow_key_new src dst) = Some f
    \<and> follows (le_http (ll_env X)) S s0 f
    \<and> list_all is_ok (snd (run_inputs X lane (client_inputs p xs)))"
  using assms(1,2)
proof (induction xs arbitrary: lane)
  case Nil
  then show ?case by (auto simp: client_inputs_def split: option.splits)
next
  case (Cons x xs)
  obtain D s where x: "x = (D, s)" by (cases x)
  have ends: "parse_endpoint X (cg_source_ip s) (cg_source_port s) = Inr src"
    "parse_endpoint X (cg_destination_ip s) (cg_destination_port s) = Inr dst"
    "within S s0 (wire_seq s) (cg_payload s)"
    using Cons.prems(1) x by (simp_all add: client_segment_def)
  have "case map_get (lv_flows lane) (flow_key_new src dst) of
      Some f \<Rightarrow> follows (le_http (ll_env X)) S s0 f | None \<Rightarrow> s0 = unat (wire_seq s)"
    using Cons.prems(2) x by (auto split: option.splits)
  from segment_follows [OF ends(1,2) this ends(3) assms(3-6), of D p] obtain lane1 b f where
    step: "handle_segment X D lane s (Some p) (Some LocalToRemote) = (lane1, Inr b)"
      "map_get (lv_flows lane1) (flow_key_new src dst) = Some f" "follows (le_http (ll_env X)) S s0 f"
    by blast
  have "list_all (\<lambda>x. client_segment X src dst S s0 (snd x)) xs" using Cons.prems(1) by simp
  from Cons.IH [OF this, of lane1] step show ?case
    by (auto simp: x client_inputs_def Let_def case_prod_unfold)
qed

section \<open>Properties\<close>


definition sample_lane_lib :: "nat lane_lib" where
  "sample_lane_lib = \<lparr>ll_env = \<lparr>le_client_id = ''c'', le_client_instance_id = Uuid 7 1,
       le_http = sample_framing_lib, le_json = \<lparr>jl_from_str = (\<lambda>_. Inl []), jl_from_slice = (\<lambda>_. Inl []),
         jl_to_string = (\<lambda>_. [])\<rparr>, le_sha256_hex = (\<lambda>_. []), le_title = (\<lambda>_. None),
       le_has_attempt_response = (\<lambda>_ _. False), le_load_task_cursor = (\<lambda>_. None)\<rparr>,
     ll_uri_path = id, ll_hpack = sample_hpack, ll_hpack_new = 0,
     ll_parse_ip = (\<lambda>s. if s = ''10.0.0.1'' then Some (V4 1) else Some (V4 2)), ll_show_ip = (\<lambda>_. []),
     ll_stream_order = id, ll_task_order = id\<rparr>"

definition sample_draws :: lane_draws where
  "sample_draws = \<lparr>dw_ids = (\<lambda>n i. Uuid 7 (100 * n + i)), dw_clk = (\<lambda>n i. 0), dw_flow_id = Uuid 7 9,
     dw_now = 0, dw_event_ms = (\<lambda>i. 0)\<rparr>"

definition sample_segment :: "u32 \<Rightarrow> byte list \<Rightarrow> captured_segment" where
  "sample_segment q payload = \<lparr>cg_source_ip = ''10.0.0.1'', cg_source_port = 5000,
     cg_destination_ip = ''10.0.0.2'', cg_destination_port = 80, cg_sequence = q, cg_ack = 0,
     cg_syn = False, cg_fin = False, cg_rst = False, cg_payload = payload\<rparr>"


end
