(* ===== verification/Client_Lifecycle.thy ===== *)
theory Client_Lifecycle
  imports Client_Lane_Facts
begin

text \<open>
  Tasks and the processes that run them: which tasks the lane associates with a process, and what the
  store knows of them once the process has ended.
\<close>

lemma word_less_succ:
  fixes x :: u64
  assumes "x \<noteq> - 1"
  shows "x < x + 1"
proof -
  have "unat x \<noteq> 2 ^ 64 - 1"
  proof
    assume "unat x = 2 ^ 64 - 1"
    then have "unat x = unat (- 1 :: u64)" by (simp add: unsigned_minus_1_eq_mask mask_eq_exp_minus_1)
    with assms show False by (simp only: word_unat_eq_iff)
  qed
  moreover have "unat x < 2 ^ 64" using unsigned_less [of x] by simp
  ultimately have "unat x + 1 < 2 ^ 64" by linarith
  then show ?thesis by (simp add: word_less_nat_alt unat_word_ariths)
qed

section \<open>Association\<close>

definition tracked :: "'h live_lane \<Rightarrow> uuid \<Rightarrow> task_key \<Rightarrow> bool" where
  "tracked lane p k \<longleftrightarrow>
     k \<in> set (unwrap_or (map_get (lv_process_tasks lane) p) [])
   \<or> (\<exists>key f. (key, f) \<in> set (lv_flows lane) \<and> fw_process f = Some p \<and> fw_current_task f = Some k)"

definition lists_all :: "('a list \<Rightarrow> 'a list) \<Rightarrow> bool" where
  "lists_all order \<longleftrightarrow> (\<forall>xs. set (order xs) = set xs)"

lemma tracked_exit_tasks:
  assumes "lists_all (ll_task_order X)"
  shows "k \<in> set (exit_tasks X lane p) \<longleftrightarrow> tracked lane p k"
proof -
  have "set (List.map_filter (\<lambda>(key, f). if fw_process f = Some p then fw_current_task f else None) (lv_flows lane))
      = {k. \<exists>key f. (key, f) \<in> set (lv_flows lane) \<and> fw_process f = Some p \<and> fw_current_task f = Some k}"
    by (force simp: List.map_filter_def split: if_splits)
  with assms show ?thesis by (simp add: exit_tasks_def lists_all_def tracked_def)
qed

section \<open>Records that end a task\<close>

definition ends_or_ignores :: "string \<Rightarrow> summary_record \<Rightarrow> bool" where
  "ends_or_ignores ref r =
     (case r of
        Task s \<Rightarrow> key_task_ref (ts_task s) = ref \<longrightarrow> ts_phase s = client_phase.Terminal
      | TaskTransition t \<Rightarrow> key_task_ref (tt_task t) = ref \<longrightarrow> tt_phase t = client_phase.Terminal
      | Process p \<Rightarrow> True
      | _ \<Rightarrow> False)"

definition row_phase :: "client_store \<Rightarrow> string \<Rightarrow> client_phase option" where
  "row_phase st ref = map_option tr_phase (find_task st ref)"

text \<open>The row of the task while no record has named it: its phase and sequence number stay.\<close>

lemma apply_keeps_terminal:
  assumes "row_phase st ref = Some client_phase.Terminal" and "ends_or_ignores ref r"
  shows "row_phase (fst (apply_record st r)) ref = Some client_phase.Terminal"
  using assms
  by (cases r) (auto simp: row_phase_def ends_or_ignores_def upsert_task_summary_def
      upsert_transition_def upsert_process_def find_task_def new_task_row_def updated_task_row_def
      new_transition_row_def updated_transition_row_def dest: row_find_Some split: option.splits)

lemma apply_other_task:
  assumes "case r of Task s \<Rightarrow> key_task_ref (ts_task s) \<noteq> ref
    | TaskTransition t \<Rightarrow> key_task_ref (tt_task t) \<noteq> ref | Process p \<Rightarrow> True | _ \<Rightarrow> False"
  shows "find_task (fst (apply_record st r)) ref = find_task st ref"
  using assms
  by (cases r) (auto simp: upsert_task_summary_def upsert_transition_def upsert_process_def find_task_def
      new_task_row_def updated_task_row_def new_transition_row_def updated_transition_row_def
      dest: row_find_Some split: option.splits)

lemma apply_ends_task:
  assumes "find_task st (key_task_ref (ts_task s)) = Some r" and "tr_sequence r < ts_sequence s"
    and "ts_phase s = client_phase.Terminal"
  shows "row_phase (fst (apply_record st (Task s))) (key_task_ref (ts_task s)) = Some client_phase.Terminal"
  using assms find_task_ref [OF assms(1)]
  by (auto simp: row_phase_def upsert_task_summary_def is_stale_def find_task_def updated_task_row_def)

lemma apply_records_terminal:
  assumes "row_phase st ref = Some client_phase.Terminal" and "list_all (ends_or_ignores ref) rs"
  shows "row_phase (fst (apply_records st acc n rs)) ref = Some client_phase.Terminal"
  using assms
proof (induction rs arbitrary: st acc n)
  case (Cons r rs)
  obtain st1 b where a: "apply_record st r = (st1, b)" by (cases "apply_record st r")
  with apply_keeps_terminal [OF Cons.prems(1), of r] Cons.prems(2)
  have "row_phase st1 ref = Some client_phase.Terminal" by simp
  with Cons a show ?case by (cases b) auto
qed simp

section \<open>The exit loop\<close>

lemma exit_loop_ends_or_ignores:
  "list_all (ends_or_ignores ref) (map (normalize_record sha) (exit_tasks_loop E ids i at process ks))"
proof (induction ks arbitrary: i)
  case (Cons k ks)
  then show ?case
    by (auto simp: ends_or_ignores_def exit_summary_def summary_transition_def Let_def
        split: option.splits prod.splits)
qed simp

text \<open>
  Applying the loop's records to the store they were made from: a task that is among the keys is
  terminal afterwards.
\<close>

lemma exit_loop_ends:
  assumes "find_task st0 (key_task_ref k) = Some r" and "k \<in> set ks"
    and "find_task st (key_task_ref k) = Some r" and "tr_sequence r \<noteq> - 1"
  shows "row_phase (fst (apply_records st acc n (map (normalize_record sha)
      (exit_tasks_loop (store_env E st0) ids i at process ks)))) (key_task_ref k) = Some client_phase.Terminal"
  using assms(2,3)
proof (induction ks arbitrary: st acc n i)
  case (Cons q ks)
  let ?E = "store_env E st0" and ?ref = "key_task_ref k"
  show ?case
  proof (cases "tr_phase r = client_phase.Terminal")
    case True
    then have "row_phase st ?ref = Some client_phase.Terminal" using Cons.prems(2) by (simp add: row_phase_def)
    then show ?thesis using exit_loop_ends_or_ignores by (rule apply_records_terminal)
  next
    case False
    note open_task = False
    show ?thesis
    proof (cases "key_task_ref q = ?ref")
      case True
      have cursor: "le_load_task_cursor ?E q = Some (cursor_of r)"
        using assms(1) True by (simp add: store_env_def load_task_cursor_def)
      let ?s = "exit_summary ?E (ids i) q (cursor_of r) at process"
      let ?t = "?s\<lparr>ts_last_error := map_option (normalize_error sha) (ts_last_error ?s)\<rparr>"
      have s: "ts_task ?t = q" "ts_phase ?t = client_phase.Terminal" "ts_sequence ?t = tr_sequence r + 1"
        by (simp_all add: exit_summary_def cursor_of_def split: prod.splits)
      have "tr_sequence r < tr_sequence r + 1" using assms(4)
        by (rule word_less_succ)
      then have "row_phase (fst (apply_record st (Task ?t))) ?ref = Some client_phase.Terminal"
        using apply_ends_task [of st ?t r] s True Cons.prems(2) by simp
      moreover obtain st1 b where a: "apply_record st (Task ?t) = (st1, b)"
        by (cases "apply_record st (Task ?t)")
      ultimately have st1: "row_phase st1 ?ref = Some client_phase.Terminal" by simp
      have phase: "cu_phase (cursor_of r) = tr_phase r" by (simp add: cursor_of_def)
      have rest: "map (normalize_record sha) (exit_tasks_loop ?E ids i at process (q # ks)) =
          Task ?t # tl (map (normalize_record sha) (exit_tasks_loop ?E ids i at process (q # ks)))"
        using cursor open_task phase by (simp add: Let_def)
      have "list_all (ends_or_ignores ?ref)
          (tl (map (normalize_record sha) (exit_tasks_loop ?E ids i at process (q # ks))))"
        using exit_loop_ends_or_ignores [of ?ref sha ?E ids i at process "q # ks"]
        by (metis list.pred_set list.set_sel(2) list.sel(2))
      from apply_records_terminal [OF st1 this] a show ?thesis
        by (subst rest, cases b) (simp_all del: exit_tasks_loop.simps)
    next
      case other: False
      then have "k \<in> set ks" using Cons.prems(1) by auto
      note IH = Cons.IH [OF this]
      show ?thesis
      proof (cases "\<exists>c. le_load_task_cursor ?E q = Some c \<and> cu_phase c \<noteq> client_phase.Terminal")
        case False
        then have "exit_tasks_loop ?E ids i at process (q # ks) = exit_tasks_loop ?E ids i at process ks"
          by (auto split: option.splits)
        with IH [OF Cons.prems(2)] show ?thesis by simp
      next
        case True
        then obtain c where c: "le_load_task_cursor ?E q = Some c" "cu_phase c \<noteq> client_phase.Terminal" by blast
        let ?s = "exit_summary ?E (ids i) q c at process"
        let ?a = "normalize_record sha (Task ?s)"
          and ?b = "normalize_record sha (TaskTransition (summary_transition transition_cause.ProcessExited ?s))"
        obtain st1 x where a: "apply_record st ?a = (st1, x)" by (cases "apply_record st ?a")
        obtain st2 y where b: "apply_record st1 ?b = (st2, y)" by (cases "apply_record st1 ?b")
        have "find_task (fst (apply_record st ?a)) ?ref = find_task st ?ref"
          by (rule apply_other_task) (use other in simp)
        moreover have "find_task (fst (apply_record st1 ?b)) ?ref = find_task st1 ?ref"
          by (rule apply_other_task) (use other in \<open>simp add: summary_transition_def\<close>)
        ultimately have "find_task st2 ?ref = Some r" using Cons.prems(2) a b by simp
        from IH [OF this] c a b show ?thesis
          by (cases x; cases y) (simp_all add: Let_def del: apply_record.simps)
      qed
    qed
  qed
qed simp

section \<open>Properties\<close>

text \<open>
  C21. No task outlives its process: when the lane takes in the exit of a process and the store accepts
  the records, every task the lane tracks for the process (through any of its flows, now or before)
  that the store knows is terminal in the store.
\<close>

theorem process_exit_ends_tasks:
  assumes "ingest_input X S D ids clk (lane, files) (ProcessExit process) = ((lane', files'), Inr (Some out))"
    and "lists_all (ll_task_order X)"
    and "tracked lane (ps_process_instance_id process) k"
    and "load_task_cursor (lv_store lane) k = Some c" and "cu_sequence c \<noteq> - 1"
  shows "\<exists>c'. load_task_cursor (lv_store lane') k = Some c' \<and> cu_phase c' = client_phase.Terminal"
proof -
  let ?E = "store_env (ll_env X) (lv_store lane)" and ?st = "lv_store lane"
  let ?ks = "exit_tasks X lane (ps_process_instance_id process)"
  let ?b = "project_process_exit ?E (dw_ids D 0) (dw_now D) process ?ks"
  let ?loop = "exit_tasks_loop ?E (dw_ids D 0) 0 (unwrap_or (ps_exited_at process) (dw_now D)) process ?ks"
  have b: "cb_records ?b = Process process # ?loop" "cb_contents ?b = []"
    by (simp_all add: project_process_exit_def Let_def)
  then have "batch_some ?b = Some ?b" "\<not> is_empty_batch ?b"
    by (simp_all add: batch_some_def is_empty_batch_def)
  with assms(1) b obtain st where p: "persist_ingress S ids clk (?st, files) (Process process # ?loop) [] =
      ((st, files'), Inr out)" and lane': "lane' = lane\<lparr>lv_store := st,
        lv_process_tasks := map_del (lv_process_tasks lane) (ps_process_instance_id process)\<rparr>"
    by (auto simp: ingest_input_def case_prod_unfold mapr_eq_Inr map_err_eq_Inr Let_def prod_eq_iff)
  from assms(4) obtain r where r: "find_task ?st (key_task_ref k) = Some r" "c = cursor_of r"
    by (auto simp: load_task_cursor_def)
  have k: "k \<in> set ?ks" using tracked_exit_tasks [OF assms(2)] assms(3) by blast
  from p obtain st1 acc n where
    a: "apply_records ?st [] 0 (map (normalize_record (store_sha S)) (Process process # ?loop)) = (st1, acc, n)"
      and "st_tasks st = st_tasks st1"
    by (rule persist_ingress_cases) (auto dest!: store_contents_frame enqueue_records_frame)
  moreover have "row_phase st1 (key_task_ref k) = Some client_phase.Terminal"
  proof -
    obtain st0 x where s: "apply_record ?st (Process process) = (st0, x)"
      by (cases "apply_record ?st (Process process)")
    have "find_task (fst (apply_record ?st (Process process))) (key_task_ref k) = find_task ?st (key_task_ref k)"
      by (rule apply_other_task) simp
    then have "find_task st0 (key_task_ref k) = Some r" using s r(1) by simp
    note ends = exit_loop_ends [OF r(1) k this]
    have "\<exists>acc0 n0. fst (apply_records st0 acc0 n0 (map (normalize_record (store_sha S)) ?loop)) = st1"
      using a s by (cases x) (auto simp: prod_eq_iff simp del: apply_record.simps)
    then show ?thesis using ends assms(5) r(2) by (auto simp: cursor_of_def)
  qed
  ultimately show ?thesis
    by (auto simp: lane' row_phase_def load_task_cursor_def find_task_def cursor_of_def)
qed

definition exit_lane :: "nat live_lane" where
  "exit_lane = \<lparr>lv_store = fst (upsert_task_summary (empty_store sample_client) (sample_summary 5)),
     lv_flows = [], lv_process_tasks = [(Uuid 7 20, [sample_key])]\<rparr>"

definition exit_store_lib :: "unit store_lib" where
  "exit_store_lib = sample_store_lib\<lparr>sl_wire := sample_lib\<lparr>wl_into_writer := (\<lambda>_. Inr [1, 2, 3])\<rparr>\<rparr>"

definition exit_run where
  "exit_run = ingest_input sample_lane_lib exit_store_lib sample_draws (\<lambda>j i. Uuid 7 (1000 * j + i))
     (\<lambda>j i. 0) (exit_lane, []) (ProcessExit sample_process)"

lemma exit_run_ok: "case snd exit_run of Inr (Some x) \<Rightarrow> True | _ \<Rightarrow> False"
  by code_simp

lemma exit_lane_cursor:
  "case load_task_cursor (lv_store exit_lane) sample_key of None \<Rightarrow> False | Some c \<Rightarrow> cu_sequence c \<noteq> - 1"
  by code_simp

theorem process_exit_ends_tasks_witness:
  "\<exists>c'. load_task_cursor (lv_store (fst (fst exit_run))) sample_key = Some c' \<and> cu_phase c' = client_phase.Terminal"
proof -
  from exit_run_ok obtain out where "snd exit_run = Inr (Some out)" by (auto split: sum.splits option.splits)
  then have run: "ingest_input sample_lane_lib exit_store_lib sample_draws (\<lambda>j i. Uuid 7 (1000 * j + i))
      (\<lambda>j i. 0) (exit_lane, []) (ProcessExit sample_process)
      = ((fst (fst exit_run), snd (fst exit_run)), Inr (Some out))"
    by (simp add: exit_run_def prod_eq_iff)
  from exit_lane_cursor obtain c where c: "load_task_cursor (lv_store exit_lane) sample_key = Some c"
    "cu_sequence c \<noteq> - 1" by (auto split: option.splits)
  have "lists_all (ll_task_order sample_lane_lib)" by (simp add: lists_all_def sample_lane_lib_def)
  moreover have "tracked exit_lane (ps_process_instance_id sample_process) sample_key"
    by (simp add: tracked_def exit_lane_def sample_process_def)
  ultimately show ?thesis using process_exit_ends_tasks [OF run] c by blast
qed

end
