(* ===== verification/Client_Discovery.thy ===== *)
theory Client_Discovery
  imports Client_Lane "HOL-Library.Multiset"
begin

text \<open>
  The processes the client watches (\<open>crates/client/src/capture_lane.rs\<close>): the index of their sockets
  shared between the tasks of the daemon (\<open>SharedProcessIndex\<close>), and the scan of \<open>/proc\<close> that fills it
  (\<open>ProcfsProcessDiscovery\<close>). A hash map is the list of its entries; the order in which it is walked is
  a parameter. What \<open>/proc\<close> and the files hold during one scan is a \<open>proc_view\<close>.
\<close>

section \<open>The shared index\<close>

record tracked_process =
  tk_process_instance_id :: uuid
  tk_client_instance_id :: uuid
  tk_executable_sha256 :: string
  tk_codex_version :: "string option"
  tk_started_at :: datetime

record indexed_process =
  ip_process_instance_id :: uuid
  ip_index :: process_flow_index
  ip_tracked :: tracked_process

type_synonym process_index = "(u32 \<times> indexed_process) list"

definition index_upsert ::
  "process_index \<Rightarrow> u32 \<Rightarrow> uuid \<Rightarrow> process_flow_index \<Rightarrow> tracked_process \<Rightarrow> process_index" where
  "index_upsert ix pid process flows tracked =
     map_put ix pid \<lparr>ip_process_instance_id = process, ip_index = flows, ip_tracked = tracked\<rparr>"

definition index_remove :: "process_index \<Rightarrow> u32 \<Rightarrow> process_index" where
  "index_remove ix pid = map_del ix pid"

text \<open>\<open>order\<close> is the order in which the values of the map are walked.\<close>

definition index_match ::
  "(indexed_process list \<Rightarrow> indexed_process list) \<Rightarrow> process_index \<Rightarrow> captured_segment
     \<Rightarrow> (uuid \<times> process_flow_direction) option" where
  "index_match order ix s =
     find_map (\<lambda>p. map_option (\<lambda>d. (ip_process_instance_id p, d)) (direction_for_segment (ip_index p) s))
       (order (map snd ix))"

definition index_process :: "process_index \<Rightarrow> u32 \<Rightarrow> tracked_process option" where
  "index_process ix pid = map_option ip_tracked (map_get ix pid)"

section \<open>The scan\<close>

record observed_process =
  ob_pid :: u32
  ob_process_instance_id :: uuid
  ob_executable_sha256 :: string
  ob_codex_version :: "string option"
  ob_executable_path :: string
  ob_started_at :: datetime

record discovery_config =
  dc_client_instance_id :: uuid
  dc_codex_pid :: "u32 option"
  dc_process_name :: string

record discovery =
  dy_observed :: "(u32 \<times> observed_process) list"
  dy_hashes :: "(string \<times> string) list"
  dy_index :: process_index

text \<open>
  The entries of \<open>/proc\<close> with their \<open>comm\<close> files, the links to the executables, the executables, and
  what the index of a process is made from.
\<close>

record proc_view =
  pv_entries :: "(string \<times> string option) list"
  pv_exe :: "u32 \<Rightarrow> string option"
  pv_read :: "string \<Rightarrow> string + byte list"
  pv_fds :: "u32 \<Rightarrow> string + dir_entry list"
  pv_tcp :: "u32 \<Rightarrow> string + string"
  pv_tcp6 :: "u32 \<Rightarrow> string + string"

definition discovery_new :: "(byte list \<Rightarrow> string) \<Rightarrow> (string \<times> (string + byte list)) option \<Rightarrow> discovery" where
  "discovery_new sha codex_binary =
     \<lparr>dy_observed = [], dy_hashes = (case codex_binary of
        Some (path, Inr bytes) \<Rightarrow> [(path, sha bytes)] | _ \<Rightarrow> []), dy_index = []\<rparr>"

definition parse_u32 :: "string \<Rightarrow> u32 option" where
  "parse_u32 s = map_option word_of_nat (parse_unsigned 10 (2 ^ 32) s)"

definition discover_pids :: "discovery_config \<Rightarrow> proc_view \<Rightarrow> u32 list" where
  "discover_pids cfg V =
     (case dc_codex_pid cfg of
        Some pid \<Rightarrow> [pid]
      | None \<Rightarrow> List.map_filter (\<lambda>(name, comm).
          Option.bind (parse_u32 name) (\<lambda>pid.
            if map_option trim comm = Some (dc_process_name cfg) then Some pid else None)) (pv_entries V))"

text \<open>\<open>Path::file_name\<close>, and \<open>str::split\<close> on a class of characters.\<close>

definition file_name :: "string \<Rightarrow> string option" where
  "file_name path =
     (case rev (filter (\<lambda>p. p \<noteq> [] \<and> p \<noteq> ''.'') (split_on CHR ''/'' path)) of
        [] \<Rightarrow> None
      | p # _ \<Rightarrow> if p = ''..'' then None else Some p)"

fun split_where :: "(char \<Rightarrow> bool) \<Rightarrow> string \<Rightarrow> string list" where
  "split_where p [] = [[]]"
| "split_where p (c # cs) =
     (if p c then [] # split_where p cs
      else case split_where p cs of [] \<Rightarrow> [[c]] | w # ws \<Rightarrow> (c # w) # ws)"

definition detect_codex_version :: "string \<Rightarrow> string option" where
  "detect_codex_version path =
     Option.bind (file_name path) (\<lambda>name.
     Option.bind (from_utf8 (str_bytes name)) (\<lambda>name.
       find (\<lambda>part. 2 \<le> length (filter (\<lambda>c. c = CHR ''.'') part))
         (split_where (\<lambda>c. \<not> (is_ascii_alphanumeric c \<or> c = CHR ''.'')) name)))"

text \<open>\<open>Display\<close> of the errors of the socket tables.\<close>

definition show_lookup_error :: "proc_lookup_error \<Rightarrow> string" where
  "show_lookup_error e =
     (case e of
        ProcIo s \<Rightarrow> ''I/O failed: '' @ s
      | MissingInterface i \<Rightarrow> ''interface index '' @ show_int i @ '' was not found''
      | InvalidProcLine s \<Rightarrow> ''invalid /proc table line: '' @ s)"

definition gap_event :: "uuid \<Rightarrow> datetime \<Rightarrow> string \<Rightarrow> capture_input" where
  "gap_event flow_id now reason = GapInput flow_id None now reason None"

definition summary_of_process :: "discovery_config \<Rightarrow> observed_process \<Rightarrow> u32 \<Rightarrow> datetime option \<Rightarrow> process_summary" where
  "summary_of_process cfg p pid exited_at =
     \<lparr>ps_process_instance_id = ob_process_instance_id p, ps_client_instance_id = dc_client_instance_id cfg,
      ps_pid = pid, ps_executable_sha256 = ob_executable_sha256 p, ps_codex_version = ob_codex_version p,
      ps_started_at = ob_started_at p, ps_exited_at = exited_at, ps_exit_code = None, ps_signal = None\<rparr>"

definition tracked_of :: "discovery_config \<Rightarrow> observed_process \<Rightarrow> tracked_process" where
  "tracked_of cfg p =
     \<lparr>tk_process_instance_id = ob_process_instance_id p, tk_client_instance_id = dc_client_instance_id cfg,
      tk_executable_sha256 = ob_executable_sha256 p, tk_codex_version = ob_codex_version p,
      tk_started_at = ob_started_at p\<rparr>"

text \<open>The digest of an executable, read once for each path.\<close>

definition executable_hash ::
  "(byte list \<Rightarrow> string) \<Rightarrow> proc_view \<Rightarrow> (string \<times> string) list \<Rightarrow> string
     \<Rightarrow> string + string \<times> (string \<times> string) list" where
  "executable_hash sha V hashes path =
     (case map_get hashes path of
        Some hash \<Rightarrow> Inr (hash, hashes)
      | None \<Rightarrow> mapr (\<lambda>bytes. (sha bytes, map_put hashes path (sha bytes))) (pv_read V path))"

definition existing_process :: "discovery \<Rightarrow> u32 \<Rightarrow> string \<Rightarrow> observed_process option" where
  "existing_process d pid path =
     (case map_get (dy_observed d) pid of
        Some p \<Rightarrow> if ob_executable_path p = path then Some p else None
      | None \<Rightarrow> None)"

text \<open>
  The process of a pid, whether it is new, and the state with its digest. \<open>ids 0\<close> is the identifier
  drawn for a gap, \<open>ids 1\<close> the one drawn for a process.
\<close>

definition observe_process ::
  "(byte list \<Rightarrow> string) \<Rightarrow> proc_view \<Rightarrow> (nat \<Rightarrow> uuid) \<Rightarrow> datetime \<Rightarrow> discovery \<Rightarrow> u32 \<Rightarrow> string
     \<Rightarrow> string + observed_process \<times> bool \<times> discovery" where
  "observe_process sha V ids now d pid path =
     (case existing_process d pid path of
        Some p \<Rightarrow> Inr (p, False, d)
      | None \<Rightarrow>
          mapr (\<lambda>(hash, hashes).
              (\<lparr>ob_pid = pid, ob_process_instance_id = ids 1, ob_executable_sha256 = hash,
                ob_codex_version = detect_codex_version path, ob_executable_path = path,
                ob_started_at = now\<rparr>, True, d\<lparr>dy_hashes := hashes\<rparr>))
            (executable_hash sha V (dy_hashes d) path))"

definition poll_pid ::
  "(byte list \<Rightarrow> string) \<Rightarrow> discovery_config \<Rightarrow> proc_view \<Rightarrow> (nat \<Rightarrow> uuid) \<Rightarrow> datetime \<Rightarrow> u32
     \<Rightarrow> discovery \<times> u32 list \<times> capture_input list \<Rightarrow> discovery \<times> u32 list \<times> capture_input list" where
  "poll_pid sha cfg V ids now pid w =
     (let (d, active, events) = w in
      case pv_exe V pid of
        None \<Rightarrow>
          (d, active, events @ [gap_event (ids 0) now (''proc_exe_unavailable:'' @ show_nat (unat pid))])
      | Some path \<Rightarrow>
          (case observe_process sha V ids now d pid path of
             Inl error \<Rightarrow>
               (d, active, events @ [gap_event (ids 0) now
                  (''proc_exe_read_failed:'' @ show_nat (unat pid) @ '':'' @ error)])
           | Inr (p, is_new, d1) \<Rightarrow>
               let d2 = d1\<lparr>dy_observed := map_put (dy_observed d1) pid p\<rparr>; active' = active @ [pid] in
               (case from_proc_root pid (pv_fds V pid) (pv_tcp V pid) (pv_tcp6 V pid) of
                  Inl error \<Rightarrow>
                    (d2, active', events @ [gap_event (ids 0) now
                       (''attribution_index_unavailable:'' @ show_lookup_error error)])
                | Inr flows \<Rightarrow>
                    (d2\<lparr>dy_index := index_upsert (dy_index d2) pid (ob_process_instance_id p) flows
                        (tracked_of cfg p)\<rparr>, active',
                     if is_new then events @ [ProcessObserved (summary_of_process cfg p pid None)]
                     else events))))"

fun poll_pids_loop ::
  "(byte list \<Rightarrow> string) \<Rightarrow> discovery_config \<Rightarrow> proc_view \<Rightarrow> (nat \<Rightarrow> nat \<Rightarrow> uuid) \<Rightarrow> datetime \<Rightarrow> nat
     \<Rightarrow> u32 list \<Rightarrow> discovery \<times> u32 list \<times> capture_input list
     \<Rightarrow> discovery \<times> u32 list \<times> capture_input list" where
  "poll_pids_loop sha cfg V ids now j [] w = w"
| "poll_pids_loop sha cfg V ids now j (pid # pids) w =
     poll_pids_loop sha cfg V ids now (Suc j) pids (poll_pid sha cfg V (ids j) now pid w)"

fun exits_loop ::
  "discovery_config \<Rightarrow> datetime \<Rightarrow> u32 list \<Rightarrow> discovery \<times> capture_input list
     \<Rightarrow> discovery \<times> capture_input list" where
  "exits_loop cfg now [] w = w"
| "exits_loop cfg now (pid # pids) (d, events) =
     (case map_get (dy_observed d) pid of
        None \<Rightarrow> exits_loop cfg now pids (d, events)
      | Some p \<Rightarrow>
          exits_loop cfg now pids
            (d\<lparr>dy_observed := map_del (dy_observed d) pid, dy_index := index_remove (dy_index d) pid\<rparr>,
             events @ [ProcessExit (summary_of_process cfg p (ob_pid p) (Some now))]))"

definition discovery_poll ::
  "(u32 list \<Rightarrow> u32 list) \<Rightarrow> (byte list \<Rightarrow> string) \<Rightarrow> discovery_config \<Rightarrow> proc_view
     \<Rightarrow> (nat \<Rightarrow> nat \<Rightarrow> uuid) \<Rightarrow> datetime \<Rightarrow> discovery \<Rightarrow> discovery \<times> capture_input list" where
  "discovery_poll order sha cfg V ids now d =
     (let (d1, active, events) = poll_pids_loop sha cfg V ids now 0 (discover_pids cfg V) (d, [], []) in
      exits_loop cfg now (order (filter (\<lambda>pid. pid \<notin> set active) (map fst (dy_observed d1)))) (d1, events))"

section \<open>Facts of a scan\<close>

text \<open>The scan finds the process of a pid: its executable is known, and its digest or it can be read.\<close>

definition proc_visible :: "proc_view \<Rightarrow> discovery \<Rightarrow> u32 \<Rightarrow> bool" where
  "proc_visible V d pid \<longleftrightarrow>
     (case pv_exe V pid of
        None \<Rightarrow> False
      | Some path \<Rightarrow> existing_process d pid path \<noteq> None \<or> map_get (dy_hashes d) path \<noteq> None
          \<or> is_ok (pv_read V path))"

definition exited :: "capture_input list \<Rightarrow> process_summary list" where
  "exited events = List.map_filter (\<lambda>e. case e of capture_input.ProcessExit p \<Rightarrow> Some p | _ \<Rightarrow> None) events"

text \<open>Every indexed process is an observed one.\<close>

definition discovery_ok :: "discovery \<Rightarrow> bool" where
  "discovery_ok d \<longleftrightarrow> distinct (map fst (dy_observed d))
     \<and> fst ` set (dy_index d) \<subseteq> fst ` set (dy_observed d)"

lemma exited_simps [simp]:
  "exited [] = []" "exited (xs @ ys) = exited xs @ exited ys"
  "exited [gap_event i now r] = []" "exited [ProcessObserved p] = []" "exited [capture_input.ProcessExit p] = [p]"
  by (simp_all add: exited_def List.map_filter_def gap_event_def)

lemma executable_hash_ok:
  "is_ok (executable_hash sha V hashes path) \<longleftrightarrow> map_get hashes path \<noteq> None \<or> is_ok (pv_read V path)"
  by (cases "pv_read V path") (auto simp: executable_hash_def split: option.splits)

lemma executable_hash_keys:
  assumes "executable_hash sha V hashes path = Inr (h, hashes')"
  shows "map_get hashes' q \<noteq> None \<or> is_ok (pv_read V q) \<longleftrightarrow> map_get hashes q \<noteq> None \<or> is_ok (pv_read V q)"
  using assms by (auto simp: executable_hash_def mapr_eq_Inr is_ok_iff split: option.splits if_splits)

text \<open>What the scan of one pid changes.\<close>

lemma observe_process_facts:
  assumes "observe_process sha V ids now d pid path = Inr (p, is_new, d1)"
  shows "dy_observed d1 = dy_observed d" and "dy_index d1 = dy_index d" and "ob_executable_path p = path"
    and "map_get (dy_hashes d1) q \<noteq> None \<or> is_ok (pv_read V q)
       \<longleftrightarrow> map_get (dy_hashes d) q \<noteq> None \<or> is_ok (pv_read V q)"
  using assms executable_hash_keys
  by (auto simp: observe_process_def existing_process_def mapr_eq_Inr split: option.splits if_splits)

lemma observe_process_ok:
  assumes "pv_exe V pid = Some path"
  shows "is_ok (observe_process sha V ids now d pid path) \<longleftrightarrow> proc_visible V d pid"
  using assms executable_hash_ok [of sha V "dy_hashes d" path]
  by (cases "executable_hash sha V (dy_hashes d) path")
    (auto simp: observe_process_def proc_visible_def split: option.splits)

lemma poll_pid_cases:
  assumes "poll_pid sha cfg V ids now pid (d, active, events) = (d', active', events')"
  obtains
    (unseen) "\<not> proc_visible V d pid" "d' = d" "active' = active" "exited events' = exited events"
  | (seen) path p is_new d1 where "proc_visible V d pid" "pv_exe V pid = Some path"
      "observe_process sha V ids now d pid path = Inr (p, is_new, d1)"
      "dy_observed d' = map_put (dy_observed d) pid p" "dy_hashes d' = dy_hashes d1"
      "dy_index d' = dy_index d \<or> (\<exists>v. dy_index d' = map_put (dy_index d) pid v)"
      "active' = active @ [pid]" "exited events' = exited events"
proof (cases "pv_exe V pid")
  case None
  with assms have "\<not> proc_visible V d pid" "d' = d" "active' = active" "exited events' = exited events"
    by (auto simp: poll_pid_def proc_visible_def)
  then show thesis by (rule unseen)
next
  case (Some path)
  show thesis
  proof (cases "observe_process sha V ids now d pid path")
    case (Inl e)
    with observe_process_ok [OF Some, of sha ids now d] have "\<not> proc_visible V d pid" by simp
    moreover from assms Some Inl have "d' = d" "active' = active" "exited events' = exited events"
      by (auto simp: poll_pid_def)
    ultimately show thesis by (rule unseen)
  next
    case (Inr r)
    obtain p is_new d1 where r: "r = (p, is_new, d1)" by (cases r)
    with observe_process_ok [OF Some, of sha ids now d] Inr have v: "proc_visible V d pid" by simp
    note o = observe_process_facts [OF Inr [unfolded r]]
    show thesis
    proof (cases "from_proc_root pid (pv_fds V pid) (pv_tcp V pid) (pv_tcp6 V pid)")
      case (Inl e)
      with assms Some \<open>observe_process sha V ids now d pid path = Inr r\<close> r
      have "d' = d1\<lparr>dy_observed := map_put (dy_observed d1) pid p\<rparr>" "active' = active @ [pid]"
        "exited events' = exited events"
        by (auto simp: poll_pid_def Let_def)
      with o(1,2) show thesis
        by (intro seen [OF v Some \<open>observe_process sha V ids now d pid path = Inr r\<close> [unfolded r]]) simp_all
    next
      case (Inr flows)
      with assms Some \<open>observe_process sha V ids now d pid path = Inr r\<close> r
      have "dy_observed d' = map_put (dy_observed d1) pid p" "dy_hashes d' = dy_hashes d1"
        "\<exists>v. dy_index d' = map_put (dy_index d1) pid v" "active' = active @ [pid]"
        "exited events' = exited events"
        by (auto simp: poll_pid_def Let_def index_upsert_def split: if_splits)
      with o(1,2) show thesis
        by (intro seen [OF v Some \<open>observe_process sha V ids now d pid path = Inr r\<close> [unfolded r]]) simp_all
    qed
  qed
qed

lemma poll_pid_visible:
  assumes "poll_pid sha cfg V ids now pid (d, active, events) = (d', active', events')"
  shows "proc_visible V d' q = proc_visible V d q"
  using assms
proof (cases rule: poll_pid_cases)
  case (seen path p is_new d1)
  note o = observe_process_facts [OF seen(3)]
  show ?thesis
  proof (cases "q = pid")
    case True
    with seen o(3) show ?thesis by (simp add: proc_visible_def existing_process_def)
  next
    case False
    with seen o(4) show ?thesis by (auto simp: proc_visible_def existing_process_def split: option.splits)
  qed
qed simp

lemma poll_pid_ok:
  assumes "poll_pid sha cfg V ids now pid (d, active, events) = (d', active', events')" and "discovery_ok d"
  shows "discovery_ok d'"
  using assms(1)
proof (cases rule: poll_pid_cases)
  case (seen path p is_new d1)
  have "fst ` set (dy_index d') \<subseteq> insert pid (fst ` set (dy_index d))"
    using seen(6) by (elim disjE exE) (simp_all add: map_put_keys subset_insertI)
  with assms(2) seen(4) show ?thesis
    unfolding discovery_ok_def by (simp add: map_put_keys map_put_distinct) blast
qed (use assms(2) in simp)

text \<open>The processes a scan finds running.\<close>

definition running :: "proc_view \<Rightarrow> discovery \<Rightarrow> u32 list \<Rightarrow> u32 set" where
  "running V d pids = {pid \<in> set pids. proc_visible V d pid}"

lemma running_simps [simp]:
  "running V d [] = {}"
  "running V d (pid # pids) = (if proc_visible V d pid then insert pid (running V d pids) else running V d pids)"
  by (auto simp: running_def)

lemma poll_loop_facts:
  assumes "poll_pids_loop sha cfg V ids now j pids (d, active, events) = (d', active', events')"
  shows "set active' = set active \<union> running V d pids"
    and "fst ` set (dy_observed d') = fst ` set (dy_observed d) \<union> running V d pids"
    and "q \<notin> running V d pids \<Longrightarrow> map_get (dy_observed d') q = map_get (dy_observed d) q"
    and "exited events' = exited events" and "discovery_ok d \<Longrightarrow> discovery_ok d'"
proof -
  have "set active' = set active \<union> running V d pids
      \<and> fst ` set (dy_observed d') = fst ` set (dy_observed d) \<union> running V d pids
      \<and> (q \<notin> running V d pids \<longrightarrow> map_get (dy_observed d') q = map_get (dy_observed d) q)
      \<and> exited events' = exited events \<and> (discovery_ok d \<longrightarrow> discovery_ok d')"
    using assms
  proof (induction pids arbitrary: j d active events)
    case (Cons pid pids)
    obtain d1 active1 events1 where s: "poll_pid sha cfg V (ids j) now pid (d, active, events) = (d1, active1, events1)"
      by (cases "poll_pid sha cfg V (ids j) now pid (d, active, events)")
    have r: "running V d1 pids = running V d pids" by (simp add: running_def poll_pid_visible [OF s])
    from Cons.prems s have "poll_pids_loop sha cfg V ids now (Suc j) pids (d1, active1, events1) = (d', active', events')"
      by simp
    note ih = Cons.IH [OF this, unfolded r]
    from s show ?case
    proof (cases rule: poll_pid_cases)
      case unseen
      with ih show ?thesis by simp
    next
      case (seen path p is_new e)
      with ih poll_pid_ok [OF s] show ?thesis by (auto simp: map_put_keys)
    qed
  qed simp
  then show "set active' = set active \<union> running V d pids"
    and "fst ` set (dy_observed d') = fst ` set (dy_observed d) \<union> running V d pids"
    and "q \<notin> running V d pids \<Longrightarrow> map_get (dy_observed d') q = map_get (dy_observed d) q"
    and "exited events' = exited events" and "discovery_ok d \<Longrightarrow> discovery_ok d'"
    by blast+
qed

lemma map_filter_cong: "\<forall>x \<in> set xs. f x = g x \<Longrightarrow> List.map_filter f xs = List.map_filter g xs"
  by (induction xs) (auto simp: List.map_filter_simps split: option.splits)

lemma set_map_filter: "y \<in> set (List.map_filter f xs) \<longleftrightarrow> (\<exists>x \<in> set xs. f x = Some y)"
  by (induction xs) (auto simp: List.map_filter_simps split: option.splits)

lemma exits_loop_facts:
  assumes "exits_loop cfg now pids (d, events) = (d', events')" and "distinct pids"
  shows "exited events' = exited events @ List.map_filter (\<lambda>pid.
      map_option (\<lambda>p. summary_of_process cfg p (ob_pid p) (Some now)) (map_get (dy_observed d) pid)) pids"
    and "fst ` set (dy_observed d') = fst ` set (dy_observed d) - set pids"
    and "discovery_ok d \<Longrightarrow> discovery_ok d'"
proof -
  have "exited events' = exited events @ List.map_filter (\<lambda>pid.
      map_option (\<lambda>p. summary_of_process cfg p (ob_pid p) (Some now)) (map_get (dy_observed d) pid)) pids
    \<and> fst ` set (dy_observed d') = fst ` set (dy_observed d) - set pids
    \<and> (discovery_ok d \<longrightarrow> discovery_ok d')"
    using assms
  proof (induction pids arbitrary: d events)
    case (Cons pid pids)
    show ?case
    proof (cases "map_get (dy_observed d) pid")
      case None
      then have "pid \<notin> fst ` set (dy_observed d)" by (simp add: map_get_None)
      moreover from Cons.prems None have "exits_loop cfg now pids (d, events) = (d', events')" and "distinct pids"
        by simp_all
      note Cons.IH [OF this]
      ultimately show ?thesis using None by (simp add: List.map_filter_simps)
    next
      case (Some p)
      let ?s = "\<lambda>p. summary_of_process cfg p (ob_pid p) (Some now)"
      define e where "e = d\<lparr>dy_observed := map_del (dy_observed d) pid, dy_index := index_remove (dy_index d) pid\<rparr>"
      have keys: "fst ` set (map_del m k) = fst ` set m - {k}" for m :: "(u32 \<times> 'b) list" and k
        by (auto simp: map_del_def)
      have obs: "fst ` set (dy_observed e) = fst ` set (dy_observed d) - {pid}"
        by (simp add: e_def keys)
      have ok: "discovery_ok e" if "discovery_ok d"
        using that by (auto simp: e_def discovery_ok_def index_remove_def keys map_del_distinct)
      have same: "List.map_filter (\<lambda>q. map_option ?s (map_get (dy_observed e) q)) pids
          = List.map_filter (\<lambda>q. map_option ?s (map_get (dy_observed d) q)) pids"
        by (rule map_filter_cong) (use Cons.prems(2) in \<open>auto simp: e_def\<close>)
      from Cons.prems Some have "exits_loop cfg now pids (e, events @ [capture_input.ProcessExit (?s p)]) = (d', events')"
        and "distinct pids" by (simp_all add: e_def)
      note ih = Cons.IH [OF this, unfolded same obs]
      have "exited events' = exited events @ List.map_filter (\<lambda>q. map_option ?s (map_get (dy_observed d) q)) (pid # pids)"
        using ih Some by (simp add: List.map_filter_simps)
      with ih ok show ?thesis by auto
    qed
  qed (simp add: List.map_filter_simps)
  then show "exited events' = exited events @ List.map_filter (\<lambda>pid.
      map_option (\<lambda>p. summary_of_process cfg p (ob_pid p) (Some now)) (map_get (dy_observed d) pid)) pids"
    and "fst ` set (dy_observed d') = fst ` set (dy_observed d) - set pids"
    and "discovery_ok d \<Longrightarrow> discovery_ok d'" by blast+
qed

section \<open>Properties\<close>


definition sample_observed :: observed_process where
  "sample_observed = \<lparr>ob_pid = 7, ob_process_instance_id = Uuid 7 1, ob_executable_sha256 = ''d'',
     ob_codex_version = None, ob_executable_path = ''/usr/bin/codex'', ob_started_at = 0\<rparr>"

definition sample_discovery :: discovery where
  "sample_discovery = \<lparr>dy_observed = [(7, sample_observed), (8, sample_observed\<lparr>ob_pid := 8\<rparr>)],
     dy_hashes = [], dy_index = []\<rparr>"

definition sample_view :: proc_view where
  "sample_view = \<lparr>pv_entries = [(''8'', Some ''codex''), (''self'', None), (''9'', Some ''codex'')],
     pv_exe = (\<lambda>pid. if pid = 8 then Some ''/usr/bin/codex'' else None), pv_read = (\<lambda>_. Inl ''denied''),
     pv_fds = (\<lambda>_. Inr []), pv_tcp = (\<lambda>_. Inr []), pv_tcp6 = (\<lambda>_. Inr [])\<rparr>"

definition sample_config :: discovery_config where
  "sample_config = \<lparr>dc_client_instance_id = Uuid 7 3, dc_codex_pid = None, dc_process_name = ''codex''\<rparr>"

definition sample_scan :: "discovery \<times> capture_input list" where
  "sample_scan = discovery_poll id (\<lambda>_. []) sample_config sample_view (\<lambda>j i. Uuid 7 0) 5 sample_discovery"

lemma sample_pids: "discover_pids sample_config sample_view = [8, 9]"
  by code_simp


text \<open>
  A process whose sockets cannot be read in the scan that first sees it is never announced: it is
  observed from then on, and not new any more when its sockets can be read.
\<close>

lemma unreadable_first_scan_hides_process:
  "let failing = sample_view\<lparr>pv_read := \<lambda>_. Inr [], pv_fds := \<lambda>_. Inl ''denied''\<rparr>;
       (d, first) = discovery_poll id (\<lambda>_. []) sample_config failing (\<lambda>j i. Uuid 7 0) 5
         (discovery_new (\<lambda>_. []) None);
       (d', second) = discovery_poll id (\<lambda>_. []) sample_config (failing\<lparr>pv_fds := \<lambda>_. Inr []\<rparr>)
         (\<lambda>j i. Uuid 7 0) 6 d in
     list_ex (\<lambda>e. case e of ProcessObserved _ \<Rightarrow> True | _ \<Rightarrow> False) (first @ second) = False
   \<and> map fst (dy_index d') = [8]"
  by code_simp

text \<open>
  An executable that is replaced while it runs: the link of the process gets another name, the process
  gets a new instance, and the exit of the old one is never reported.
\<close>

lemma replaced_executable_loses_exit:
  "let V = sample_view\<lparr>pv_read := \<lambda>_. Inr [], pv_exe := \<lambda>pid. if pid = 8 then Some ''/opt/codex'' else None\<rparr>;
       (d, events) = discovery_poll id (\<lambda>_. []) sample_config V (\<lambda>j i. Uuid 7 9) 5
         (sample_discovery\<lparr>dy_observed := [(8, sample_observed\<lparr>ob_pid := 8\<rparr>)]\<rparr>) in
     exited events = [] \<and> map (ob_process_instance_id \<circ> snd) (dy_observed d) = [Uuid 7 9]"
  by code_simp

end
