(* ===== verification/Client_Tap.thy ===== *)
theory Client_Tap
  imports Client_Discovery
begin

text \<open>
  The source of the capture loop (\<open>PassiveTapSource\<close> in \<open>crates/client/src/capture_lane.rs\<close>): a segment
  is attributed to a process by the shared index; one that no process claims yet waits, bounded in
  number, size and age, until a scan finds its process. The shared index changes while the source runs,
  so each lookup has an index of its own; times are milliseconds.
\<close>

section \<open>Pending segments\<close>

record pending_segment =
  pn_received_at :: nat
  pn_segment :: captured_segment

record tap_source =
  tz_pending :: "pending_segment list"
  tz_pending_bytes :: nat
  tz_remote_ports :: "u16 list"

definition PENDING_SEGMENT_TTL :: nat where "PENDING_SEGMENT_TTL = 15000"

definition MAX_PENDING_SEGMENTS :: nat where "MAX_PENDING_SEGMENTS = 4096"

definition MAX_PENDING_BYTES :: nat where "MAX_PENDING_BYTES = 8 * 1024 * 1024"

definition MAX_CAPTURE_DRAIN_BATCH :: nat where "MAX_CAPTURE_DRAIN_BATCH = 256"

text \<open>\<open>usize::saturating_add\<close>; \<open>saturating_sub\<close> is the subtraction of natural numbers.\<close>

definition saturating_add_usize :: "nat \<Rightarrow> nat \<Rightarrow> nat" where
  "saturating_add_usize a b = min (a + b) (2 ^ 64 - 1)"

definition segment_size :: "captured_segment \<Rightarrow> nat" where
  "segment_size s = saturating_add_usize (length (cg_payload s)) 64"

definition tap_source_open :: "u16 list \<Rightarrow> tap_source" where
  "tap_source_open ports = \<lparr>tz_pending = [], tz_pending_bytes = 0, tz_remote_ports = ports\<rparr>"

definition is_candidate :: "tap_source \<Rightarrow> captured_segment \<Rightarrow> bool" where
  "is_candidate t s \<longleftrightarrow> tz_remote_ports t = [] \<or> cg_source_port s \<in> set (tz_remote_ports t)
     \<or> cg_destination_port s \<in> set (tz_remote_ports t)"

fun expire_loop :: "nat \<Rightarrow> pending_segment list \<Rightarrow> nat \<Rightarrow> pending_segment list \<times> nat" where
  "expire_loop now [] bytes = ([], bytes)"
| "expire_loop now (p # ps) bytes =
     (if PENDING_SEGMENT_TTL \<le> now - pn_received_at p
      then expire_loop now ps (bytes - segment_size (pn_segment p))
      else (p # ps, bytes))"

definition expire_pending :: "nat \<Rightarrow> tap_source \<Rightarrow> tap_source" where
  "expire_pending now t =
     (let (ps, bytes) = expire_loop now (tz_pending t) (tz_pending_bytes t) in
      t\<lparr>tz_pending := ps, tz_pending_bytes := bytes\<rparr>)"

fun make_room :: "nat \<Rightarrow> pending_segment list \<Rightarrow> nat \<Rightarrow> pending_segment list \<times> nat" where
  "make_room need [] bytes = ([], bytes)"
| "make_room need (p # ps) bytes =
     (if MAX_PENDING_SEGMENTS \<le> length (p # ps) \<or> MAX_PENDING_BYTES < saturating_add_usize bytes need
      then make_room need ps (bytes - segment_size (pn_segment p))
      else (p # ps, bytes))"

definition push_pending :: "nat \<Rightarrow> captured_segment \<Rightarrow> tap_source \<Rightarrow> tap_source" where
  "push_pending now s t =
     (let need = segment_size s; (ps, bytes) = make_room need (tz_pending t) (tz_pending_bytes t) in
      if need \<le> MAX_PENDING_BYTES
      then t\<lparr>tz_pending := ps @ [\<lparr>pn_received_at = now, pn_segment = s\<rparr>],
             tz_pending_bytes := saturating_add_usize bytes need\<rparr>
      else t\<lparr>tz_pending := ps, tz_pending_bytes := bytes\<rparr>)"

text \<open>\<open>look k\<close> is the \<open>k\<close>-th lookup in the shared index.\<close>

fun find_attributed :: "(nat \<Rightarrow> captured_segment \<Rightarrow> 'a option) \<Rightarrow> nat \<Rightarrow> pending_segment list \<Rightarrow> nat option" where
  "find_attributed look k [] = None"
| "find_attributed look k (p # ps) =
     (if is_some (look k (pn_segment p)) then Some k else find_attributed look (Suc k) ps)"

definition pop_attributed_pending ::
  "(nat \<Rightarrow> captured_segment \<Rightarrow> (uuid \<times> process_flow_direction) option) \<Rightarrow> nat \<Rightarrow> tap_source
     \<Rightarrow> tap_source \<times> capture_input option" where
  "pop_attributed_pending look now t =
     (let t1 = expire_pending now t in
      case find_attributed look 0 (tz_pending t1) of
        None \<Rightarrow> (t1, None)
      | Some i \<Rightarrow>
          let s = pn_segment (tz_pending t1 ! i) in
          (t1\<lparr>tz_pending := take i (tz_pending t1) @ drop (Suc i) (tz_pending t1),
              tz_pending_bytes := tz_pending_bytes t1 - segment_size s\<rparr>,
           map_option (\<lambda>(process, d). AttributedInput s process d) (look (Suc i) s)))"

section \<open>Receiving\<close>

datatype source_error = DecodeFailed | SourceIo string

text \<open>
  What one call of \<open>recv\<close> meets: the lookups and the time of its search among the pending segments, and
  for each read of the tap its outcome, the lookup of its segment and the time.
\<close>

record tap_draws =
  rv_look :: "nat \<Rightarrow> captured_segment \<Rightarrow> (uuid \<times> process_flow_direction) option"
  rv_now :: nat
  rv_read :: "nat \<Rightarrow> read_outcome"
  rv_match :: "nat \<Rightarrow> captured_segment \<Rightarrow> (uuid \<times> process_flow_direction) option"
  rv_at :: "nat \<Rightarrow> nat"

fun drain_loop ::
  "packet_lib \<Rightarrow> tap_draws \<Rightarrow> nat \<Rightarrow> nat \<Rightarrow> tap_source \<Rightarrow> tap_source \<times> (source_error + capture_input option)" where
  "drain_loop P W 0 k t = (t, Inr None)"
| "drain_loop P W (Suc n) k t =
     (case tap_recv P (rv_read W k) of
        Inl (TapDecode e) \<Rightarrow> (t, Inl DecodeFailed)
      | Inl (TapIo e) \<Rightarrow> (t, Inl (SourceIo e))
      | Inr None \<Rightarrow> (t, Inr None)
      | Inr (Some s) \<Rightarrow>
          (case rv_match W k s of
             Some (process, d) \<Rightarrow> (t, Inr (Some (AttributedInput s process d)))
           | None \<Rightarrow>
               drain_loop P W n (Suc k) (if is_candidate t s then push_pending (rv_at W k) s t else t)))"

definition tap_source_recv ::
  "packet_lib \<Rightarrow> tap_draws \<Rightarrow> tap_source \<Rightarrow> tap_source \<times> (source_error + capture_input option)" where
  "tap_source_recv P W t =
     (case pop_attributed_pending (rv_look W) (rv_now W) t of
        (t1, Some input) \<Rightarrow> (t1, Inr (Some input))
      | (t1, None) \<Rightarrow> drain_loop P W MAX_CAPTURE_DRAIN_BATCH 0 t1)"

section \<open>The pending segments are bounded\<close>

definition pending_sizes :: "pending_segment list \<Rightarrow> nat" where
  "pending_sizes ps = sum_list (map (\<lambda>p. segment_size (pn_segment p)) ps)"

text \<open>The counter is the size of the queue, both are bounded, and the queue is in order of arrival.\<close>

definition tap_ok :: "tap_source \<Rightarrow> bool" where
  "tap_ok t \<longleftrightarrow> tz_pending_bytes t = pending_sizes (tz_pending t)
     \<and> tz_pending_bytes t \<le> MAX_PENDING_BYTES \<and> length (tz_pending t) \<le> MAX_PENDING_SEGMENTS
     \<and> sorted (map pn_received_at (tz_pending t))"

lemma pending_sizes_simps [simp]:
  "pending_sizes [] = 0" "pending_sizes (p # ps) = segment_size (pn_segment p) + pending_sizes ps"
  "pending_sizes (ps @ qs) = pending_sizes ps + pending_sizes qs"
  by (simp_all add: pending_sizes_def)

lemma MAX_PENDING_BYTES_less: "MAX_PENDING_BYTES < 2 ^ 64 - 1"
  by (simp add: MAX_PENDING_BYTES_def)

lemma saturated_above: "MAX_PENDING_BYTES < saturating_add_usize a b \<longleftrightarrow> MAX_PENDING_BYTES < a + b"
  using MAX_PENDING_BYTES_less by (simp only: saturating_add_usize_def min_less_iff_conj) simp

lemma not_saturated: "a + b \<le> MAX_PENDING_BYTES \<Longrightarrow> saturating_add_usize a b = a + b"
  using MAX_PENDING_BYTES_less by (simp only: saturating_add_usize_def min_def) simp

lemma expire_loop_facts:
  assumes "expire_loop now ps (pending_sizes ps) = (qs, bytes)" and "sorted (map pn_received_at ps)"
  shows "bytes = pending_sizes qs" and "\<exists>rs. ps = rs @ qs"
    and "\<forall>q \<in> set qs. now - pn_received_at q < PENDING_SEGMENT_TTL"
  using assms
proof (induction ps)
  case (Cons p ps)
  {
    case 1
    with Cons.IH(1) show ?case by (auto split: if_splits)
  next
    case 2
    with Cons.IH(2) show ?case by (auto split: if_splits intro: exI [of _ "[]"])
  next
    case 3
    with Cons.IH(3) show ?case
      by (auto simp: not_le split: if_splits) (meson diff_le_mono2 le_less_trans)
  }
qed simp_all

lemma make_room_facts:
  assumes "make_room need ps (pending_sizes ps) = (qs, bytes)"
  shows "bytes = pending_sizes qs" and "\<exists>rs. ps = rs @ qs"
    and "qs \<noteq> [] \<Longrightarrow> length qs < MAX_PENDING_SEGMENTS \<and> pending_sizes qs + need \<le> MAX_PENDING_BYTES"
  using assms
proof (induction ps)
  case (Cons p ps)
  {
    case 1
    with Cons.IH(1) show ?case by (auto split: if_splits)
  next
    case 2
    with Cons.IH(2) show ?case by (auto split: if_splits intro: exI [of _ "[]"])
  next
    case 3
    with Cons.IH(3) show ?case by (auto simp: saturated_above not_le not_less split: if_splits)
  }
qed simp_all

lemma find_attributed_bounds: "find_attributed look k ps = Some i \<Longrightarrow> k \<le> i \<and> i < k + length ps"
  by (induction ps arbitrary: k) (auto split: if_splits, fastforce+)

text \<open>What was pending stays fresh and in order when elements at the front or one element are taken out.\<close>

definition within :: "nat \<Rightarrow> tap_source \<Rightarrow> bool" where
  "within now t \<longleftrightarrow> tap_ok t \<and> (\<forall>p \<in> set (tz_pending t). pn_received_at p \<le> now)"

definition fresh :: "nat \<Rightarrow> tap_source \<Rightarrow> bool" where
  "fresh now t \<longleftrightarrow> (\<forall>p \<in> set (tz_pending t). now - pn_received_at p < PENDING_SEGMENT_TTL)"

lemma expire_pending_within:
  assumes "within now t"
  shows "within now (expire_pending now t)" and "fresh now (expire_pending now t)"
proof -
  obtain qs bytes where e: "expire_loop now (tz_pending t) (tz_pending_bytes t) = (qs, bytes)"
    by (cases "expire_loop now (tz_pending t) (tz_pending_bytes t)")
  have t: "tz_pending_bytes t = pending_sizes (tz_pending t)" "sorted (map pn_received_at (tz_pending t))"
    using assms by (simp_all add: within_def tap_ok_def)
  note f = expire_loop_facts [OF e [unfolded t(1)] t(2)]
  from f(2) obtain rs where "tz_pending t = rs @ qs" by blast
  with assms e f(1) show "within now (expire_pending now t)"
    by (auto simp: within_def tap_ok_def expire_pending_def sorted_append)
  from f(3) e show "fresh now (expire_pending now t)" by (simp add: fresh_def expire_pending_def)
qed

lemma push_pending_within:
  assumes "within now t"
  shows "within now (push_pending now s t)"
    and "set (tz_pending (push_pending now s t)) \<subseteq> insert \<lparr>pn_received_at = now, pn_segment = s\<rparr> (set (tz_pending t))"
proof -
  obtain qs bytes where m: "make_room (segment_size s) (tz_pending t) (tz_pending_bytes t) = (qs, bytes)"
    by (cases "make_room (segment_size s) (tz_pending t) (tz_pending_bytes t)")
  have t: "tz_pending_bytes t = pending_sizes (tz_pending t)" using assms by (simp add: within_def tap_ok_def)
  note f = make_room_facts [OF m [unfolded t]]
  from f(2) obtain rs where rs: "tz_pending t = rs @ qs" by blast
  show "set (tz_pending (push_pending now s t)) \<subseteq> insert \<lparr>pn_received_at = now, pn_segment = s\<rparr> (set (tz_pending t))"
    using m rs by (auto simp: push_pending_def Let_def)
  show "within now (push_pending now s t)"
  proof (cases "segment_size s \<le> MAX_PENDING_BYTES")
    case True
    have room: "pending_sizes qs + segment_size s \<le> MAX_PENDING_BYTES" "length qs < MAX_PENDING_SEGMENTS"
      using f(3) True by (cases "qs = []"; simp add: MAX_PENDING_SEGMENTS_def)+
    with True m f(1) have "push_pending now s t = t\<lparr>tz_pending := qs @ [\<lparr>pn_received_at = now, pn_segment = s\<rparr>],
        tz_pending_bytes := pending_sizes qs + segment_size s\<rparr>"
      by (simp add: push_pending_def not_saturated)
    with assms rs room show ?thesis by (auto simp: within_def tap_ok_def sorted_append)
  next
    case False
    with assms m rs f(1) show ?thesis
      by (auto simp: push_pending_def within_def tap_ok_def sorted_append)
  qed
qed

lemma pop_pending_within:
  assumes "within now t" and "pop_attributed_pending look now t = (t', r)"
  shows "within now t'" and "fresh now t'"
proof -
  let ?t = "expire_pending now t"
  note e = expire_pending_within [OF assms(1)]
  have "within now t' \<and> fresh now t'"
  proof (cases "find_attributed look 0 (tz_pending ?t)")
    case None
    with assms(2) e show ?thesis by (simp add: pop_attributed_pending_def)
  next
    case (Some i)
    then have "i < length (tz_pending ?t)" using find_attributed_bounds by fastforce
    then have split: "tz_pending ?t = take i (tz_pending ?t) @ tz_pending ?t ! i # drop (Suc i) (tz_pending ?t)"
      by (rule id_take_nth_drop)
    let ?xs = "take i (tz_pending ?t)" and ?x = "tz_pending ?t ! i" and ?ys = "drop (Suc i) (tz_pending ?t)"
    have t': "tz_pending t' = ?xs @ ?ys" "tz_pending_bytes t' = tz_pending_bytes ?t - segment_size (pn_segment ?x)"
      using assms(2) Some by (auto simp: pop_attributed_pending_def Let_def)
    have tap: "tz_pending_bytes ?t = pending_sizes (?xs @ ?x # ?ys)" "tz_pending_bytes ?t \<le> MAX_PENDING_BYTES"
      "length (?xs @ ?x # ?ys) \<le> MAX_PENDING_SEGMENTS" "sorted (map pn_received_at (?xs @ ?x # ?ys))"
      "\<forall>p \<in> set (?xs @ ?x # ?ys). pn_received_at p \<le> now \<and> now - pn_received_at p < PENDING_SEGMENT_TTL"
      using e unfolding split [symmetric] within_def fresh_def tap_ok_def by simp_all
    have "tap_ok t'"
      unfolding tap_ok_def t' using tap(1-4) by (simp add: sorted_append)
    moreover have "\<forall>p \<in> set (tz_pending t'). pn_received_at p \<le> now \<and> now - pn_received_at p < PENDING_SEGMENT_TTL"
      unfolding t'(1) using tap(5) by auto
    ultimately show ?thesis by (simp add: within_def fresh_def)
  qed
  then show "within now t'" and "fresh now t'" by simp_all
qed

lemma within_later: "within now t \<Longrightarrow> now \<le> later \<Longrightarrow> within later t"
  by (auto simp: within_def)

lemma drain_loop_within:
  assumes "drain_loop P W n k t = (t', r)" and "within (rv_at W k) t" and "fresh now t"
    and "mono (rv_at W)" and "now \<le> rv_at W 0"
  shows "tap_ok t' \<and> fresh now t'"
  using assms(1-3)
proof (induction n arbitrary: k t)
  case 0
  then show ?case by (simp add: within_def)
next
  case (Suc n)
  have later: "rv_at W k \<le> rv_at W (Suc k)" and now: "now \<le> rv_at W k"
    using assms(4,5) by (simp_all add: monoD) (meson le0 monoD order_trans)
  show ?case
  proof (cases "tap_recv P (rv_read W k)")
    case (Inl e)
    with Suc.prems show ?thesis by (cases e) (auto simp: within_def)
  next
    case (Inr out)
    show ?thesis
    proof (cases out)
      case None
      with Inr Suc.prems show ?thesis by (simp add: within_def)
    next
      case (Some s)
      let ?t = "if is_candidate t s then push_pending (rv_at W k) s t else t"
      have w: "within (rv_at W k) ?t" using push_pending_within(1) Suc.prems(2) by simp
      have "fresh now ?t"
        using push_pending_within(2) [OF Suc.prems(2), of s] Suc.prems(3) now
        by (auto simp: fresh_def PENDING_SEGMENT_TTL_def)
      with Inr Some Suc.prems Suc.IH [OF _ within_later [OF w later]] show ?thesis
        by (cases "rv_match W k s") (auto simp: within_def)
    qed
  qed
qed

section \<open>Properties\<close>


definition sample_tap_segment :: captured_segment where
  "sample_tap_segment = \<lparr>cg_source_ip = ''10.0.0.1'', cg_source_port = 40000, cg_destination_ip = ''10.0.0.2'',
     cg_destination_port = 443, cg_sequence = 1, cg_ack = 0, cg_syn = False, cg_fin = False, cg_rst = False,
     cg_payload = [1, 2]\<rparr>"

definition sample_tap :: tap_source where
  "sample_tap = \<lparr>tz_pending = [\<lparr>pn_received_at = 1, pn_segment = sample_tap_segment\<rparr>,
     \<lparr>pn_received_at = 20000, pn_segment = sample_tap_segment\<rparr>], tz_pending_bytes = 132, tz_remote_ports = [443]\<rparr>"

definition sample_tap_draws :: tap_draws where
  "sample_tap_draws = \<lparr>rv_look = (\<lambda>_ _. None), rv_now = 20001, rv_read = (\<lambda>_. WouldBlock),
     rv_match = (\<lambda>_ _. None), rv_at = (\<lambda>k. 20001 + k)\<rparr>"

definition sample_packet_lib :: packet_lib where
  "sample_packet_lib = \<lparr>pk_from_ethernet = (\<lambda>_. Inl ''none''), pk_from_ip = (\<lambda>_. Inl ''none'')\<rparr>"


text \<open>
  A lookup that finds the process of a pending segment and finds it gone a moment later: the segment is
  taken out of the queue and delivered to nobody.
\<close>

lemma attributed_segment_lost:
  "let W = sample_tap_draws\<lparr>rv_look := \<lambda>k s. if k = 0 then Some (Uuid 7 1, LocalToRemote) else None\<rparr>;
       (t', r) = tap_source_recv sample_packet_lib W
         (sample_tap\<lparr>tz_pending := drop 1 (tz_pending sample_tap), tz_pending_bytes := 66\<rparr>) in
     r = Inr None \<and> tz_pending t' = []"
  by code_simp

text \<open>
  A segment read while its process was just found overtakes the earlier segments of the same connection
  that still wait.
\<close>

lemma pending_segment_overtaken:
  "let W = sample_tap_draws\<lparr>rv_look := \<lambda>_ _. None, rv_match := \<lambda>_ _. Some (Uuid 7 1, LocalToRemote),
         rv_read := \<lambda>_. ReadBytes []\<rparr>;
       P = sample_packet_lib\<lparr>pk_from_ethernet := \<lambda>_. Inr \<lparr>sp_net = Some (NetIpv4 [10, 0, 0, 1] [10, 0, 0, 2]),
         sp_transport = Some (TcpSlice \<lparr>tp_source_port = 40000, tp_destination_port = 443, tp_sequence = 3,
           tp_ack = 0, tp_syn = False, tp_fin = False, tp_rst = False, tp_payload = [3]\<rparr>)\<rparr>\<rparr>;
       (t', r) = tap_source_recv P W sample_tap in
     map (\<lambda>p. cg_sequence (pn_segment p)) (tz_pending t') = [1]
   \<and> (case r of Inr (Some (AttributedInput s _ _)) \<Rightarrow> cg_sequence s = 3 | _ \<Rightarrow> False)"
  by code_simp

end
