(* ===== verification/Client_Titles.thy ===== *)
theory Client_Titles
  imports Capture_Http1 "HOL-Library.Sublist"
begin

text \<open>
  The index of conversation titles (\<open>crates/client/src/conversation_titles.rs\<close>): a file of one JSON
  object a line that another program appends to, of which each refresh reads what is new. Reading the
  file is I/O: a refresh is given what \<open>stat\<close> and the read say. The JSON of a line is a parameter.
\<close>

record index_state =
  ix_titles :: "(string \<times> string) list"
  ix_inode :: u64
  ix_offset :: nat
  ix_partial_line :: "byte list"

definition index_state_new :: index_state where
  "index_state_new = \<lparr>ix_titles = [], ix_inode = 0, ix_offset = 0, ix_partial_line = []\<rparr>"

text \<open>\<open>serde_json::from_slice::<IndexEntry>\<close>: the identifier and the name of a line.\<close>

type_synonym entry_parser = "byte list \<Rightarrow> (string \<times> string) option"

definition LF_BYTE :: byte where "LF_BYTE = 10"

definition apply_line ::
  "entry_parser \<Rightarrow> (string \<times> string) list \<times> (string \<times> string) list \<Rightarrow> byte list
     \<Rightarrow> (string \<times> string) list \<times> (string \<times> string) list" where
  "apply_line parse w line =
     (let (titles, changes) = w in
      if line = [] then (titles, changes)
      else case parse line of
        None \<Rightarrow> (titles, changes)
      | Some (i, name) \<Rightarrow>
          if map_get titles i \<noteq> Some name then (map_put titles i name, changes @ [(i, name)])
          else (titles, changes))"

text \<open>The bytes up to and with the last line feed.\<close>

fun complete_bytes :: "byte list \<Rightarrow> nat" where
  "complete_bytes [] = 0"
| "complete_bytes (b # bs) =
     (if complete_bytes bs > 0 then Suc (complete_bytes bs) else if b = LF_BYTE then 1 else 0)"

definition apply_complete_lines :: "entry_parser \<Rightarrow> index_state \<Rightarrow> index_state \<times> (string \<times> string) list" where
  "apply_complete_lines parse s =
     (let n = complete_bytes (ix_partial_line s);
          (titles, changes) = foldl (apply_line parse) (ix_titles s, [])
            (split_on LF_BYTE (take n (ix_partial_line s))) in
      (s\<lparr>ix_titles := titles, ix_partial_line := drop n (ix_partial_line s)\<rparr>, changes))"

datatype stat_outcome = StatMissing | StatFailed string | StatFile u64 nat

datatype title_error = TitleIo string

text \<open>
  \<open>read n\<close> is what opening the file and reading it from offset \<open>n\<close> to its end gives.
\<close>

definition title_refresh ::
  "entry_parser \<Rightarrow> bool \<Rightarrow> stat_outcome \<Rightarrow> (nat \<Rightarrow> string + byte list) \<Rightarrow> index_state
     \<Rightarrow> index_state \<times> (title_error + (string \<times> string) list)" where
  "title_refresh parse has_path st read s =
     (if \<not> has_path then (s, Inr [])
      else case st of
        StatMissing \<Rightarrow> (s, Inr [])
      | StatFailed e \<Rightarrow> (s, Inl (TitleIo e))
      | StatFile inode len \<Rightarrow>
          let replaced = (ix_inode s \<noteq> 0 \<and> ix_inode s \<noteq> inode); truncated = (len < ix_offset s);
              s1 = (if ix_inode s = 0 \<or> replaced \<or> truncated
                    then s\<lparr>ix_titles := [], ix_partial_line := [], ix_offset := 0\<rparr> else s) in
          if len = ix_offset s1 then (s1\<lparr>ix_inode := inode\<rparr>, Inr [])
          else
            (case read (ix_offset s1) of
               Inl e \<Rightarrow> (s1, Inl (TitleIo e))
             | Inr appended \<Rightarrow>
                 let (s2, changes) = apply_complete_lines parse
                   (s1\<lparr>ix_offset := ix_offset s1 + length appended, ix_inode := inode,
                       ix_partial_line := ix_partial_line s1 @ appended\<rparr>) in
                 (s2, Inr changes)))"

definition conversation_title :: "index_state \<Rightarrow> string \<Rightarrow> string option" where
  "conversation_title s session = map_get (ix_titles s) session"

section \<open>Facts\<close>

text \<open>The titles of a whole file: its complete lines, one after the other.\<close>

definition file_titles :: "entry_parser \<Rightarrow> byte list \<Rightarrow> (string \<times> string) list" where
  "file_titles parse bs =
     fst (foldl (apply_line parse) ([], []) (split_on LF_BYTE (take (complete_bytes bs) bs)))"

text \<open>The state follows a file of which it has read \<open>bs\<close>.\<close>

definition follows_file :: "entry_parser \<Rightarrow> u64 \<Rightarrow> byte list \<Rightarrow> index_state \<Rightarrow> bool" where
  "follows_file parse inode bs s \<longleftrightarrow>
     ix_inode s = inode \<and> ix_offset s = length bs \<and> ix_titles s = file_titles parse bs
   \<and> ix_partial_line s = drop (complete_bytes bs) bs"

lemma complete_bytes_le: "complete_bytes bs \<le> length bs"
  by (induction bs) auto

lemma complete_bytes_append:
  "complete_bytes (xs @ ys) = (if complete_bytes ys > 0 then length xs + complete_bytes ys else complete_bytes xs)"
  by (induction xs) auto

lemma complete_bytes_drop: "complete_bytes (drop (complete_bytes bs) bs) = 0"
  by (induction bs) auto

lemma complete_bytes_last: "complete_bytes bs > 0 \<Longrightarrow> \<exists>ys. take (complete_bytes bs) bs = ys @ [LF_BYTE]"
  by (induction bs) (auto split: if_splits intro: exI [of _ "[]"])

lemma split_on_lf_append: "split_on c (xs @ c # ys) = split_on c xs @ split_on c ys"
  using split_on_nonempty [of c] by (induction xs) (auto split: list.splits)

text \<open>The titles do not depend on the changes collected so far, and an empty line changes nothing.\<close>

lemma apply_lines_titles:
  "fst (foldl (apply_line parse) (t, c) ls) = fst (foldl (apply_line parse) (t, []) ls)"
proof (induction ls arbitrary: t c)
  case (Cons l ls)
  have "fst (apply_line parse (t, c) l) = fst (apply_line parse (t, []) l)"
    by (auto simp: apply_line_def split: option.splits)
  then show ?case using Cons.IH
    by (metis foldl_Cons prod.collapse)
qed simp

lemma apply_empty_line [simp]: "apply_line parse w [] = w"
  by (simp add: apply_line_def case_prod_unfold)

lemma apply_lines_from:
  "fst (foldl (apply_line parse) (fst (foldl (apply_line parse) (t, c) ks), []) ls)
     = fst (foldl (apply_line parse) (t, c) (ks @ ls))"
  by (metis apply_lines_titles foldl_append prod.collapse)

lemma file_titles_step:
  "fst (foldl (apply_line parse) (file_titles parse xs, [])
      (split_on LF_BYTE (take (complete_bytes (drop (complete_bytes xs) xs @ ys)) (drop (complete_bytes xs) xs @ ys))))
    = file_titles parse (xs @ ys)"
proof -
  let ?n = "complete_bytes xs"
  let ?r = "drop ?n xs @ ys"
  have r: "complete_bytes ?r = complete_bytes ys + (if complete_bytes ys > 0 then length xs - ?n else 0)"
    by (simp add: complete_bytes_append complete_bytes_drop)
  have split: "take (complete_bytes (xs @ ys)) (xs @ ys) = take ?n xs @ take (complete_bytes ?r) ?r"
    using complete_bytes_le [of xs] by (auto simp: complete_bytes_append complete_bytes_drop)
  show ?thesis
  proof (cases "?n = 0")
    case True
    then show ?thesis using split by (simp add: file_titles_def)
  next
    case False
    then obtain zs where zs: "take ?n xs = zs @ [LF_BYTE]" using complete_bytes_last by blast
    have "split_on LF_BYTE (take (complete_bytes (xs @ ys)) (xs @ ys))
        = split_on LF_BYTE zs @ split_on LF_BYTE (take (complete_bytes ?r) ?r)"
      unfolding split zs by (simp only: append.assoc append_Cons append_Nil split_on_lf_append)
    moreover have "split_on LF_BYTE (take ?n xs) = split_on LF_BYTE zs @ [[]]"
      by (simp add: zs split_on_lf_append)
    ultimately show ?thesis
      by (simp add: file_titles_def apply_lines_from)
  qed
qed

lemma refresh_follows:
  assumes "follows_file parse inode bs s" and "inode \<noteq> 0" and "length bs \<le> len" and "length bs < len \<Longrightarrow> read (length bs) = Inr ys"
    and "title_refresh parse True (StatFile inode len) read s = (s', r)"
  shows "follows_file parse inode (if len = length bs then bs else bs @ ys) s'" and "is_ok r"
proof -
  have "follows_file parse inode (if len = length bs then bs else bs @ ys) s' \<and> is_ok r"
  proof (cases "len = length bs")
    case True
    with assms show ?thesis by (auto simp: title_refresh_def follows_file_def)
  next
    case False
    let ?p = "drop (complete_bytes bs) bs @ ys"
    let ?s = "s\<lparr>ix_offset := length bs + length ys, ix_inode := inode, ix_partial_line := ?p\<rparr>"
    have drop: "drop (complete_bytes ?p) ?p = drop (complete_bytes (bs @ ys)) (bs @ ys)"
      using complete_bytes_le [of bs] by (auto simp: complete_bytes_append complete_bytes_drop)
    have "title_refresh parse True (StatFile inode len) read s
        = (let (s2, changes) = apply_complete_lines parse ?s in (s2, Inr changes))"
    proof -
      have "ix_inode s = inode" "ix_offset s = length bs" "ix_partial_line s = drop (complete_bytes bs) bs"
        and "\<not> len < length bs" and "len \<noteq> length bs" and "read (length bs) = Inr ys"
        using assms(1,3,4) False by (simp_all add: follows_file_def)
      then show ?thesis using assms(2) by (simp add: title_refresh_def)
    qed
    with assms(5) have "s' = fst (apply_complete_lines parse ?s)" and "is_ok r"
      by (auto simp: case_prod_unfold Let_def)
    moreover have "ix_titles (fst (apply_complete_lines parse ?s)) = file_titles parse (bs @ ys)"
      using file_titles_step [of parse bs ys] assms(1)
      by (simp add: apply_complete_lines_def Let_def case_prod_unfold follows_file_def)
    moreover have "ix_partial_line (fst (apply_complete_lines parse ?s)) = drop (complete_bytes (bs @ ys)) (bs @ ys)"
      and "ix_inode (fst (apply_complete_lines parse ?s)) = inode"
      and "ix_offset (fst (apply_complete_lines parse ?s)) = length (bs @ ys)"
      using drop by (simp_all add: apply_complete_lines_def Let_def case_prod_unfold)
    ultimately show ?thesis using False by (simp add: follows_file_def)
  qed
  then show "follows_file parse inode (if len = length bs then bs else bs @ ys) s'" and "is_ok r" by auto
qed

text \<open>
  A run of refreshes of a file that only grows: at each one the file is \<open>b\<close> when it is examined and
  \<open>c\<close> when it is read.
\<close>

fun refresh_all :: "entry_parser \<Rightarrow> u64 \<Rightarrow> index_state \<Rightarrow> (byte list \<times> byte list) list \<Rightarrow> index_state" where
  "refresh_all parse inode s [] = s"
| "refresh_all parse inode s ((b, c) # rest) =
     refresh_all parse inode
       (fst (title_refresh parse True (StatFile inode (length b)) (\<lambda>n. Inr (drop n c)) s)) rest"

fun growing :: "byte list \<Rightarrow> (byte list \<times> byte list) list \<Rightarrow> bool" where
  "growing p [] = True"
| "growing p ((b, c) # rest) = (prefix p b \<and> prefix b c \<and> growing c rest)"

lemma growing_from: "growing c rest \<Longrightarrow> prefix p c \<Longrightarrow> growing p rest"
  by (cases rest) (auto intro: prefix_order.trans)

lemma refresh_all_follows:
  assumes "growing p rest" and "follows_file parse inode p s" and "inode \<noteq> 0" and "rest \<noteq> []"
  shows "\<exists>bs. prefix (fst (last rest)) bs \<and> prefix bs (snd (last rest))
    \<and> follows_file parse inode bs (refresh_all parse inode s rest)"
  using assms
proof (induction rest arbitrary: p s)
  case (Cons e rest)
  obtain b c where e: "e = (b, c)" by (cases e)
  let ?r = "title_refresh parse True (StatFile inode (length b)) (\<lambda>n. Inr (drop n c)) s"
  from Cons.prems e obtain u v where b: "b = p @ u" and c: "c = b @ v" and g: "growing c rest"
    by (auto simp: prefix_def)
  have "follows_file parse inode (if length b = length p then p else p @ drop (length p) c) (fst ?r)"
    by (rule refresh_follows(1) [OF Cons.prems(2,3)]) (auto simp: b prod_eq_iff)
  then have "follows_file parse inode (if u = [] then b else c) (fst ?r)" by (simp add: b c split: if_splits)
  then obtain q where q: "prefix b q" "prefix q c" "follows_file parse inode q (fst ?r)"
    using that [of b] that [of c] by (cases "u = []") (simp_all add: b c)
  show ?case
  proof (cases "rest = []")
    case True
    with q e show ?thesis by auto
  next
    case False
    from Cons.IH [OF growing_from [OF g q(2)] q(3) Cons.prems(3) False] e False show ?thesis by simp
  qed
qed simp

lemma follows_first:
  assumes "inode \<noteq> 0" and "growing [] ((b, c) # rest)"
  shows "\<exists>bs. prefix b bs \<and> prefix bs c
    \<and> follows_file parse inode bs
        (fst (title_refresh parse True (StatFile inode (length b)) (\<lambda>n. Inr (drop n c)) index_state_new))"
proof (cases "b = []")
  case True
  then show ?thesis using assms
    by (intro exI [of _ "[]"]) (auto simp: title_refresh_def index_state_new_def follows_file_def file_titles_def)
next
  case False
  have "fst (foldl (apply_line parse) ([], []) (split_on LF_BYTE (take (complete_bytes c) c))) = file_titles parse c"
    by (simp add: file_titles_def)
  with False assms show ?thesis
    by (intro exI [of _ c]) (auto simp: title_refresh_def index_state_new_def follows_file_def Let_def
        apply_complete_lines_def case_prod_unfold)
qed

section \<open>Properties\<close>

text \<open>
  Reading the titles piece by piece is reading the whole file: while the index file only grows,
  however its growth is cut by the refreshes and also when it grows during one, the titles after the last
  refresh are those of all complete lines of the file as it was at that refresh.
\<close>

theorem titles_follow_file:
  assumes "growing [] sizes" and "sizes \<noteq> []" and "inode \<noteq> 0"
  shows "\<exists>content. prefix (fst (last sizes)) content \<and> prefix content (snd (last sizes))
    \<and> (\<forall>session. conversation_title (refresh_all parse inode index_state_new sizes) session
        = map_get (file_titles parse content) session)"
proof -
  obtain b c rest where sizes: "sizes = (b, c) # rest" using assms(2) by (cases sizes) auto
  from follows_first [OF assms(3)] assms(1) sizes obtain bs where bs: "prefix b bs" "prefix bs c"
    "follows_file parse inode bs
       (fst (title_refresh parse True (StatFile inode (length b)) (\<lambda>n. Inr (drop n c)) index_state_new))"
    by blast
  have "\<exists>bs. prefix (fst (last sizes)) bs \<and> prefix bs (snd (last sizes))
    \<and> follows_file parse inode bs (refresh_all parse inode index_state_new sizes)"
  proof (cases "rest = []")
    case True
    with bs sizes show ?thesis by auto
  next
    case False
    have "growing bs rest" using assms(1) sizes bs(2) by (auto intro: growing_from)
    from refresh_all_follows [OF this bs(3) assms(3) False] sizes False show ?thesis by simp
  qed
  then show ?thesis by (auto simp: follows_file_def conversation_title_def)
qed

definition sample_parse :: entry_parser where
  "sample_parse line = (case line of a # b # _ \<Rightarrow> Some ([char_of (unat a)], [char_of (unat b)]) | _ \<Rightarrow> None)"

theorem titles_follow_file_witness:
  "\<exists>content. prefix [65, 66, 10, 65] content \<and> prefix content [65, 66, 10, 65, 67, 10]
    \<and> (\<forall>session. conversation_title (refresh_all sample_parse 7 index_state_new
            [([65], [65, 66]), ([65, 66, 10, 65], [65, 66, 10, 65, 67, 10])]) session
        = map_get (file_titles sample_parse content) session)"
  using titles_follow_file [of "[([65], [65, 66]), ([65, 66, 10, 65], [65, 66, 10, 65, 67, 10])]" 7 sample_parse]
  by simp

text \<open>
  A file that is written anew in place and is not shorter than before is taken for one that grew: the
  old title stays and the new first line is never read.
\<close>

lemma rewritten_file_not_read:
  "ix_titles (refresh_all sample_parse 7 index_state_new
      [([65, 66, 10], [65, 66, 10]), ([67, 68, 10, 69, 70, 10], [67, 68, 10, 69, 70, 10])])
    = [(''A'', ''B''), (''E'', ''F'')]"
  by code_simp

end
