(* ===== verification/Build_Profile.thy ===== *)
theory Build_Profile
  imports Rust_Text
begin

text \<open>
  The probe profiles: \<open>crates/profile/src/lib.rs\<close> (which probe sites of a build may be attached) and
  \<open>crates/capture-ebpf/src/profile.rs\<close> (which profile a build has). A profile is attached only to the
  very executable it was made for: the digest of the file and the masked bytes at every site are
  checked first. A \<open>BTreeMap\<close> is the list of its entries in the order of the keys; SHA-256 is a
  parameter.
\<close>

unbundle bit_operations_syntax

section \<open>Data\<close>

datatype attach_kind = Uprobe | Uretprobe | Kprobe | Kretprobe | Tracepoint

datatype field_encoding =
  StringPtrLenCap | OptionStringPtrLenCap | OptionI64 | U8Discriminant | CodexErrorInfoOption

datatype return_encoding = NoReturn | ResultUsizeRaxRdx | RustSretOutPointer

record probe_signature =
  pg_file_offset :: u64
  pg_mask_hex :: string
  pg_bytes_hex :: string

record field_offset =
  fo_name :: string
  fo_offset :: u64
  fo_encoding :: field_encoding

record probe_layout =
  pl_fields :: "field_offset list"
  pl_self_argument :: "u8 option"
  pl_buf_argument :: "u8 option"
  pl_len_argument :: "u8 option"
  pl_out_pointer_argument :: "u8 option"
  pl_return_tag_register :: "string option"
  pl_return_len_register :: "string option"
  pl_return_encoding :: "return_encoding option"

record probe_definition =
  pd_program :: string
  pd_attach_kind :: attach_kind
  pd_symbol :: string
  pd_file_offset :: u64
  pd_signature :: probe_signature
  pd_argument_abi :: string
  pd_layout :: probe_layout

record kernel_hook =
  kh_program :: string
  kh_attach_kind :: attach_kind
  kh_target :: string
  kh_target_detail :: "string option"

record probe_profile =
  pp_profile_id :: string
  pp_codex_version :: string
  pp_elf_sha256 :: string
  pp_architecture :: string
  pp_debuglink_name :: string
  pp_debuglink_crc32 :: u32
  pp_validated :: bool
  pp_kernel_hooks :: "kernel_hook list"
  pp_probes :: "(string \<times> probe_definition list) list"
  pp_evidence :: "string list"

record attach_plan =
  an_profile_id :: string
  an_kernel_hooks :: "kernel_hook list"
  an_probes :: "(string \<times> probe_definition) list"

datatype profile_error =
  UnsupportedCodexBuild | HashMismatch | ZeroOffset string | SignatureMismatch string

section \<open>Signatures\<close>

fun pairs_of :: "'a list \<Rightarrow> 'a list list" where
  "pairs_of [] = []"
| "pairs_of [a] = [[a]]"
| "pairs_of (a # b # xs) = [a, b] # pairs_of xs"

definition hex_byte :: "byte list \<Rightarrow> byte option" where
  "hex_byte chunk =
     Option.bind (from_utf8 chunk) (\<lambda>s. map_option word_of_nat (parse_unsigned 16 256 s))"

text \<open>Pairs that are no hexadecimal byte are dropped.\<close>

definition decode_hex :: "string \<Rightarrow> byte list" where
  "decode_hex value = List.map_filter hex_byte (pairs_of (str_bytes value))"

definition masked_equal :: "byte list \<Rightarrow> byte list \<Rightarrow> byte list \<Rightarrow> bool" where
  "masked_equal actual expected msk =
     list_all (\<lambda>(a, e, m). a AND m = e AND m) (zip actual (zip expected msk))"

definition matches_signature :: "byte list \<Rightarrow> probe_signature \<Rightarrow> bool" where
  "matches_signature elf s =
     (let expected = decode_hex (pg_bytes_hex s); msk = decode_hex (pg_mask_hex s);
          start = unat (pg_file_offset s); stop = min (start + length expected) (2 ^ 64 - 1) in
      if length expected \<noteq> length msk then False
      else if length elf < stop \<or> stop < start then False
      else masked_equal (take (stop - start) (drop start elf)) expected msk)"

section \<open>The attach plan\<close>

definition check_site ::
  "byte list \<Rightarrow> string \<Rightarrow> (string \<times> probe_definition) list \<Rightarrow> probe_definition
     \<Rightarrow> profile_error + (string \<times> probe_definition) list" where
  "check_site elf name probes site =
     (if pd_file_offset site = 0 \<or> pg_file_offset (pd_signature site) = 0 then Inl (ZeroOffset name)
      else if \<not> matches_signature elf (pd_signature site)
      then Inl (SignatureMismatch (name @ ''@0x'' @ show_hex (unat (pd_file_offset site))))
      else Inr (probes @ [(name, site)]))"

definition resolve_attach_plan ::
  "(byte list \<Rightarrow> string) \<Rightarrow> probe_profile \<Rightarrow> byte list \<Rightarrow> profile_error + attach_plan" where
  "resolve_attach_plan sha256 profile elf =
     (if \<not> pp_validated profile then Inl UnsupportedCodexBuild
      else if sha256 elf \<noteq> pp_elf_sha256 profile then Inl HashMismatch
      else
        mapr (\<lambda>probes. \<lparr>an_profile_id = pp_profile_id profile,
            an_kernel_hooks = pp_kernel_hooks profile, an_probes = probes\<rparr>)
          (foldr_m (\<lambda>probes (name, sites). foldr_m (check_site elf name) probes sites) []
            (pp_probes profile)))"

section \<open>The registry\<close>

record build_fingerprint =
  bf_executable_sha256 :: string
  bf_architecture :: string
  bf_codex_version_hint :: "string option"

record loaded_profile =
  lp_profile :: probe_profile
  lp_verified :: bool

datatype attachment_decision = Attach loaded_profile | UnsupportedBuild build_fingerprint

text \<open>A \<open>ProfileRegistry\<close> is the list of its profiles.\<close>

definition registry_resolve :: "probe_profile list \<Rightarrow> build_fingerprint \<Rightarrow> attachment_decision" where
  "registry_resolve profiles fingerprint =
     (case find (\<lambda>p. pp_elf_sha256 p = bf_executable_sha256 fingerprint
             \<and> pp_architecture p = bf_architecture fingerprint) profiles of
        None \<Rightarrow> UnsupportedBuild fingerprint
      | Some p \<Rightarrow> Attach \<lparr>lp_profile = p, lp_verified = pp_validated p\<rparr>)"

section \<open>Facts\<close>

text \<open>A site that may be attached to a file.\<close>

definition site_ok :: "byte list \<Rightarrow> probe_definition \<Rightarrow> bool" where
  "site_ok elf site \<longleftrightarrow> pd_file_offset site \<noteq> 0 \<and> pg_file_offset (pd_signature site) \<noteq> 0
     \<and> matches_signature elf (pd_signature site)"

definition all_sites :: "probe_profile \<Rightarrow> (string \<times> probe_definition) list" where
  "all_sites profile = concat (map (\<lambda>(name, sites). map (Pair name) sites) (pp_probes profile))"

lemma check_sites_ok:
  "foldr_m (check_site elf name) probes sites = Inr ps \<longleftrightarrow>
     list_all (site_ok elf) sites \<and> ps = probes @ map (Pair name) sites"
  by (induction sites arbitrary: probes) (auto simp: check_site_def site_ok_def)

lemma check_all_sites_ok:
  "foldr_m (\<lambda>probes (name, sites). foldr_m (check_site elf name) probes sites) probes entries = Inr ps \<longleftrightarrow>
     list_all (\<lambda>(name, sites). list_all (site_ok elf) sites) entries
     \<and> ps = probes @ concat (map (\<lambda>(name, sites). map (Pair name) sites) entries)"
  by (induction entries arbitrary: probes) (auto simp add: split_beta bindr_eq_Inr check_sites_ok simp del: split_paired_All split_paired_Ex)

text \<open>What a signature says of a file: every byte under the mask is the expected one.\<close>

definition signature_holds :: "byte list \<Rightarrow> probe_signature \<Rightarrow> bool" where
  "signature_holds elf s \<longleftrightarrow>
     (let e = decode_hex (pg_bytes_hex s); m = decode_hex (pg_mask_hex s); start = unat (pg_file_offset s) in
      length e = length m \<and> start + length e \<le> length elf
    \<and> (\<forall>i < length e. elf ! (start + i) AND m ! i = e ! i AND m ! i))"

lemma masked_equal_nth:
  assumes "length a = length e" and "length m = length e"
  shows "masked_equal a e m \<longleftrightarrow> (\<forall>i < length e. a ! i AND m ! i = e ! i AND m ! i)"
  using assms by (auto simp: masked_equal_def list_all_length)

lemma window_matches:
  assumes "length elf < limit"
  shows "(let stop = min (start + length e) limit in
      if length e \<noteq> length m then False
      else if length elf < stop \<or> stop < start then False
      else masked_equal (take (stop - start) (drop start elf)) e m) \<longleftrightarrow>
    length e = length m \<and> start + length e \<le> length elf
    \<and> (\<forall>i < length e. elf ! (start + i) AND m ! i = e ! i AND m ! i)"
proof (cases "length e = length m \<and> start + length e \<le> length elf")
  case True
  then have "min (start + length e) limit = start + length e" using assms by simp
  moreover have "masked_equal (take (length e) (drop start elf)) e m \<longleftrightarrow>
      (\<forall>i < length e. take (length e) (drop start elf) ! i AND m ! i = e ! i AND m ! i)"
    by (rule masked_equal_nth) (use True in auto)
  then have "masked_equal (take (length e) (drop start elf)) e m \<longleftrightarrow>
      (\<forall>i < length e. elf ! (start + i) AND m ! i = e ! i AND m ! i)"
    using True by (simp del: length_take)
  ultimately show ?thesis using True by (simp only: Let_def) simp
next
  case False
  with assms show ?thesis by (auto simp: Let_def)
qed

lemma matches_signature_iff:
  assumes "length elf < 2 ^ 63"
  shows "matches_signature elf s \<longleftrightarrow> signature_holds elf s"
proof -
  have "length elf < 2 ^ 64 - 1" using assms by simp
  from window_matches [OF this] show ?thesis
    unfolding matches_signature_def signature_holds_def Let_def .
qed

lemma resolve_attach_plan_iff:
  "resolve_attach_plan sha256 profile elf = Inr plan \<longleftrightarrow>
     pp_validated profile \<and> sha256 elf = pp_elf_sha256 profile
   \<and> list_all (\<lambda>(name, site). site_ok elf site) (all_sites profile)
   \<and> plan = \<lparr>an_profile_id = pp_profile_id profile, an_kernel_hooks = pp_kernel_hooks profile,
        an_probes = all_sites profile\<rparr>"
proof -
  have "list_all (\<lambda>(name, sites). list_all (site_ok elf) sites) entries \<longleftrightarrow>
      list_all (\<lambda>(name, site). site_ok elf site) (concat (map (\<lambda>(name, sites). map (Pair name) sites) entries))"
    for entries by (induction entries) (simp_all add: split_beta list.pred_map o_def)
  then show ?thesis
    by (auto simp: resolve_attach_plan_def mapr_eq_Inr check_all_sites_ok all_sites_def)
qed

section \<open>Properties\<close>

text \<open>
  A profile is attached exactly to the executable it was made for: the plan is the profile's hooks
  and all its sites in order, and there is one exactly when the profile is validated, the file has its
  digest, and at every site both offsets are not zero and the file holds the expected bytes under the
  mask.
\<close>

theorem attach_plan_iff:
  assumes "length elf < 2 ^ 63"
  shows "resolve_attach_plan sha256 profile elf = Inr plan \<longleftrightarrow>
     pp_validated profile \<and> sha256 elf = pp_elf_sha256 profile
   \<and> list_all (\<lambda>(name, site). pd_file_offset site \<noteq> 0 \<and> pg_file_offset (pd_signature site) \<noteq> 0
        \<and> signature_holds elf (pd_signature site)) (all_sites profile)
   \<and> plan = \<lparr>an_profile_id = pp_profile_id profile, an_kernel_hooks = pp_kernel_hooks profile,
        an_probes = all_sites profile\<rparr>"
  by (simp add: resolve_attach_plan_iff site_ok_def matches_signature_iff [OF assms])

definition sample_profile :: probe_profile where
  "sample_profile = \<lparr>pp_profile_id = ''p'', pp_codex_version = ''0.144.1'', pp_elf_sha256 = ''d'',
     pp_architecture = ''x86_64'', pp_debuglink_name = [], pp_debuglink_crc32 = 0, pp_validated = True,
     pp_kernel_hooks = [], pp_probes = [(''plaintext_write'', [\<lparr>pd_program = ''plaintext_write_enter'',
       pd_attach_kind = Uprobe, pd_symbol = ''rustls::write'', pd_file_offset = 1,
       pd_signature = \<lparr>pg_file_offset = 1, pg_mask_hex = ''ff0f'', pg_bytes_hex = ''90cc''\<rparr>,
       pd_argument_abi = [], pd_layout = \<lparr>pl_fields = [], pl_self_argument = Some 0,
         pl_buf_argument = Some 1, pl_len_argument = Some 2, pl_out_pointer_argument = None,
         pl_return_tag_register = None, pl_return_len_register = None, pl_return_encoding = None\<rparr>\<rparr>])],
     pp_evidence = []\<rparr>"

lemma sample_hex: "decode_hex ''ff0f'' = [0xff, 0x0f]" "decode_hex ''90cc'' = [0x90, 0xcc]"
  by code_simp+

lemma all_less_two: "(\<forall>i < Suc (Suc 0). P i) \<longleftrightarrow> P 0 \<and> P (Suc 0)"
  by (auto simp: less_Suc_eq)

lemma sample_site_holds:
  "list_all (\<lambda>(name, site). pd_file_offset site \<noteq> 0 \<and> pg_file_offset (pd_signature site) \<noteq> 0
     \<and> signature_holds [0x7f, 0x90, 0x3c] (pd_signature site)) (all_sites sample_profile)"
  by (simp add: sample_profile_def all_sites_def signature_holds_def sample_hex Let_def all_less_two)

theorem attach_plan_iff_witness:
  "resolve_attach_plan (\<lambda>b. if b = [0x7f, 0x90, 0x3c] then ''d'' else ''e'') sample_profile [0x7f, 0x90, 0x3c]
     = Inr \<lparr>an_profile_id = ''p'', an_kernel_hooks = [], an_probes = all_sites sample_profile\<rparr>"
  using attach_plan_iff [of "[0x7f, 0x90, 0x3c]" "\<lambda>b. if b = [0x7f, 0x90, 0x3c] then ''d'' else ''e''"
      sample_profile] sample_site_holds by (simp add: sample_profile_def)

end
