(* ===== verification/Ebpf_Loader.thy ===== *)
theory Ebpf_Loader
  imports Build_Profile Capture_Stream
begin

text \<open>
  The records of the eBPF probes (\<open>crates/capture-ebpf/src/abi.rs\<close>) and their loader
  (\<open>crates/capture-ebpf/src/loader.rs\<close>): which probes it attaches to an executable, and how it reads a
  record of the ring buffer. Attaching is a call of the aya crate, so its outcome is a parameter; the
  machine is little-endian, as \<open>from_ne_bytes\<close> finds it on the supported architecture.
\<close>

section \<open>Records\<close>

definition ABI_VERSION :: u16 where "ABI_VERSION = 1"

definition MAX_CAPTURE_BYTES :: nat where "MAX_CAPTURE_BYTES = 256"

datatype probe_direction = NoDirection | ReadDirection | WriteDirection

datatype probe_kind =
    ProcessExec | ProcessExit | TcpStateChange | ConnectionCreate | ConnectionDrop | PlaintextWrite
  | PlaintextRead | TurnComplete | TurnAbort | TerminalError

record connection_identity =
  cn_boot_id :: "byte list"
  cn_tgid :: u32
  cn_pid :: u32
  cn_start_ticks :: u64
  cn_connection_ptr :: u64
  cn_epoch :: u64
  cn_call_sequence :: u64

record capture_record_header =
  rh_abi_version :: u16
  rh_header_len :: u16
  rh_kind :: probe_kind
  rh_direction :: probe_direction
  rh_cpu :: u16
  rh_pad0 :: u16
  rh_connection :: connection_identity
  rh_file_offset :: u64
  rh_data_offset :: u64
  rh_data_length :: u32
  rh_aux_value :: u32
  rh_aux_value2 :: u64

text \<open>
  \<open>size_of::<CaptureRecordHeader>()\<close>: ten bytes of integers, six of padding before the
  \<open>ConnectionIdentity\<close> (whose alignment is eight), its 56 bytes and the 32 of the last five fields.
\<close>

definition HEADER_SIZE :: nat where "HEADER_SIZE = 104"

record owned_capture_record =
  oc_header :: capture_record_header
  oc_payload :: "byte list"

section \<open>Reading a record\<close>

text \<open>The readers take the rest of the bytes and give what is left of it.\<close>

definition read_bytes :: "nat \<Rightarrow> byte list \<Rightarrow> (byte list \<times> byte list) option" where
  "read_bytes n bs = (if length bs < n then None else Some (take n bs, drop n bs))"

definition le_nat :: "byte list \<Rightarrow> nat" where
  "le_nat bs = be_nat (rev bs)"

definition read_word :: "nat \<Rightarrow> byte list \<Rightarrow> ('w::len word \<times> byte list) option" where
  "read_word n bs = map_option (\<lambda>(x, r). (word_of_nat (le_nat x), r)) (read_bytes n bs)"

definition decode_probe_kind :: "u8 \<Rightarrow> probe_kind option" where
  "decode_probe_kind value =
     (let kinds = [ProcessExec, ProcessExit, TcpStateChange, ConnectionCreate, ConnectionDrop,
        PlaintextWrite, PlaintextRead, TurnComplete, TurnAbort, TerminalError] in
      if unat value < length kinds then Some (kinds ! unat value) else None)"

definition decode_probe_direction :: "u8 \<Rightarrow> probe_direction option" where
  "decode_probe_direction value =
     (if value = 0 then Some NoDirection else if value = 1 then Some ReadDirection
      else if value = 2 then Some WriteDirection else None)"

definition decode_identity :: "byte list \<Rightarrow> (connection_identity \<times> byte list) option" where
  "decode_identity bs =
     Option.bind (read_bytes 16 bs) (\<lambda>(boot_id, bs).
     Option.bind (read_word 4 bs) (\<lambda>(tgid, bs).
     Option.bind (read_word 4 bs) (\<lambda>(pid, bs).
     Option.bind (read_word 8 bs) (\<lambda>(start_ticks, bs).
     Option.bind (read_word 8 bs) (\<lambda>(connection_ptr, bs).
     Option.bind (read_word 8 bs) (\<lambda>(epoch, bs).
     Option.bind (read_word 8 bs) (\<lambda>(call_sequence, bs).
       Some (\<lparr>cn_boot_id = boot_id, cn_tgid = tgid, cn_pid = pid, cn_start_ticks = start_ticks,
         cn_connection_ptr = connection_ptr, cn_epoch = epoch, cn_call_sequence = call_sequence\<rparr>, bs))))))))"

definition decode_header :: "byte list \<Rightarrow> (capture_record_header \<times> byte list) option" where
  "decode_header bs =
     Option.bind (read_word 2 bs) (\<lambda>(abi_version, bs).
     Option.bind (read_word 2 bs) (\<lambda>(header_size, bs).
     Option.bind (read_word 1 bs) (\<lambda>(k, bs).
     Option.bind (decode_probe_kind k) (\<lambda>kind.
     Option.bind (read_word 1 bs) (\<lambda>(d, bs).
     Option.bind (decode_probe_direction d) (\<lambda>direction.
     Option.bind (read_word 2 bs) (\<lambda>(cpu, bs).
     Option.bind (read_word 2 bs) (\<lambda>(pad0, bs).
     Option.bind (decode_identity bs) (\<lambda>(connection, bs).
     Option.bind (read_word 8 bs) (\<lambda>(file_offset, bs).
     Option.bind (read_word 8 bs) (\<lambda>(data_offset, bs).
     Option.bind (read_word 4 bs) (\<lambda>(data_length, bs).
     Option.bind (read_word 4 bs) (\<lambda>(aux_value, bs).
     Option.bind (read_word 8 bs) (\<lambda>(aux_value2, bs).
       Some (\<lparr>rh_abi_version = abi_version, rh_header_len = header_size, rh_kind = kind,
         rh_direction = direction, rh_cpu = cpu, rh_pad0 = pad0, rh_connection = connection,
         rh_file_offset = file_offset, rh_data_offset = data_offset, rh_data_length = data_length,
         rh_aux_value = aux_value, rh_aux_value2 = aux_value2\<rparr>, bs)))))))))))))))"

definition decode_capture_record :: "byte list \<Rightarrow> owned_capture_record option" where
  "decode_capture_record bytes =
     (if length bytes < HEADER_SIZE then None
      else
        Option.bind (decode_header bytes) (\<lambda>(h, bs).
        Option.bind (read_bytes MAX_CAPTURE_BYTES bs) (\<lambda>(payload, _).
          Some \<lparr>oc_header = h,
            oc_payload = take (min (unat (rh_data_length h)) MAX_CAPTURE_BYTES) payload\<rparr>)))"

section \<open>Loading\<close>

datatype loader_event = Capture owned_capture_record | UnsupportedBuildEvent build_fingerprint

datatype attach_op =
    AttachTracepoint string string string
  | AttachKprobe string string
  | AttachUprobe string u64

datatype loader_error =
    LoaderUnsupportedBuild | UnsupportedAttachKind string | MissingDetail | AttachFailed string

definition default_hooks :: "attach_op list" where
  "default_hooks = [AttachTracepoint ''process_exec'' ''sched'' ''sched_process_exec'',
     AttachTracepoint ''process_exit'' ''sched'' ''sched_process_exit'',
     AttachKprobe ''tcp_state'' ''tcp_set_state'']"

definition hook_op :: "kernel_hook \<Rightarrow> loader_error + attach_op" where
  "hook_op h =
     (case kh_attach_kind h of
        Tracepoint \<Rightarrow>
          mapr (AttachTracepoint (kh_program h) (kh_target h)) (ok_or (kh_target_detail h) MissingDetail)
      | Kprobe \<Rightarrow> Inr (AttachKprobe (kh_program h) (kh_target h))
      | _ \<Rightarrow> Inl (UnsupportedAttachKind (kh_program h)))"

text \<open>
  \<open>attach attached op\<close> is what loading and attaching a program gives after the attachments so far.
  The errors are not told apart by the client: a missing detail is found before the program is loaded
  here and after it there.
\<close>

definition run_op ::
  "(attach_op list \<Rightarrow> attach_op \<Rightarrow> string + unit) \<Rightarrow> attach_op list \<Rightarrow> attach_op
     \<Rightarrow> loader_error + attach_op list" where
  "run_op attach attached op = mapr (\<lambda>_. attached @ [op]) (map_err AttachFailed (attach attached op))"

definition attach_kernel_hooks ::
  "(attach_op list \<Rightarrow> attach_op \<Rightarrow> string + unit) \<Rightarrow> kernel_hook list \<Rightarrow> loader_error + attach_op list" where
  "attach_kernel_hooks attach hooks =
     (if hooks = [] then foldr_m (run_op attach) [] default_hooks
      else foldr_m (\<lambda>attached h. bindr (hook_op h) (run_op attach attached)) [] hooks)"

definition attach_uprobes ::
  "(attach_op list \<Rightarrow> attach_op \<Rightarrow> string + unit) \<Rightarrow> attach_op list \<Rightarrow> attach_plan
     \<Rightarrow> loader_error + attach_op list" where
  "attach_uprobes attach attached plan =
     foldr_m (\<lambda>attached (_, probe).
         run_op attach attached (AttachUprobe (pd_program probe) (pd_file_offset probe)))
       attached (an_probes plan)"

definition fingerprint_of :: "(byte list \<Rightarrow> string) \<Rightarrow> string \<Rightarrow> byte list \<Rightarrow> build_fingerprint" where
  "fingerprint_of sha256 architecture bytes =
     \<lparr>bf_executable_sha256 = sha256 bytes, bf_architecture = architecture, bf_codex_version_hint = None\<rparr>"

record running_capture =
  rn_attached :: "attach_op list"
  rn_attached_profile :: "loaded_profile option"
  rn_pending_event :: "loader_event option"

text \<open>\<open>first\<close> and \<open>second\<close> are the two reads of the executable.\<close>

definition load_capture ::
  "(byte list \<Rightarrow> string) \<Rightarrow> string \<Rightarrow> probe_profile list
     \<Rightarrow> (attach_op list \<Rightarrow> attach_op \<Rightarrow> string + unit) \<Rightarrow> byte list \<Rightarrow> byte list \<Rightarrow> loader_error + running_capture" where
  "load_capture sha256 architecture registry attach first_read second_read =
     (let fingerprint = fingerprint_of sha256 architecture first_read in
      case registry_resolve registry fingerprint of
        UnsupportedBuild f \<Rightarrow>
          mapr (\<lambda>ops. \<lparr>rn_attached = ops, rn_attached_profile = None,
              rn_pending_event = Some (UnsupportedBuildEvent f)\<rparr>) (attach_kernel_hooks attach [])
      | Attach p \<Rightarrow>
          bindr (attach_kernel_hooks attach (pp_kernel_hooks (lp_profile p))) (\<lambda>hooks.
            if lp_verified p then
              bindr (map_err (\<lambda>_. LoaderUnsupportedBuild)
                  (resolve_attach_plan sha256 (lp_profile p) second_read)) (\<lambda>plan.
                mapr (\<lambda>ops. \<lparr>rn_attached = ops, rn_attached_profile = Some p,
                    rn_pending_event = None\<rparr>) (attach_uprobes attach hooks plan))
            else
              Inr \<lparr>rn_attached = hooks, rn_attached_profile = Some p,
                rn_pending_event = Some (UnsupportedBuildEvent fingerprint)\<rparr>))"

text \<open>\<open>next_event\<close>; \<open>item\<close> is the next item of the ring buffer.\<close>

definition next_event ::
  "running_capture \<Rightarrow> byte list option \<Rightarrow> running_capture \<times> loader_event option" where
  "next_event r item =
     (case rn_pending_event r of
        Some e \<Rightarrow> (r\<lparr>rn_pending_event := None\<rparr>, Some e)
      | None \<Rightarrow> (r, map_option Capture (Option.bind item decode_capture_record)))"

text \<open>The boot identifier: \<open>hex_decode\<close> is the hex crate, a text shorter than 16 bytes a panic.\<close>

datatype boot_id_error = BootIdIo string | BootIdHex | BootIdPanic

definition parse_boot_id ::
  "(string \<Rightarrow> byte list option) \<Rightarrow> string + string \<Rightarrow> boot_id_error + byte list" where
  "parse_boot_id hex_decode text =
     bindr (map_err BootIdIo text) (\<lambda>t.
     bindr (ok_or (hex_decode (filter (\<lambda>c. c \<noteq> CHR ''-'') (trim t))) BootIdHex) (\<lambda>bytes.
       if length bytes < 16 then Inl BootIdPanic else Inr (take 16 bytes)))"

section \<open>The two layouts\<close>

definition le_word :: "nat \<Rightarrow> 'w::len word \<Rightarrow> byte list" where
  "le_word n w = rev (nat_be n (unat w))"

definition probe_kind_byte :: "probe_kind \<Rightarrow> u8" where
  "probe_kind_byte k =
     (case k of ProcessExec \<Rightarrow> 0 | ProcessExit \<Rightarrow> 1 | TcpStateChange \<Rightarrow> 2 | ConnectionCreate \<Rightarrow> 3
      | ConnectionDrop \<Rightarrow> 4 | PlaintextWrite \<Rightarrow> 5 | PlaintextRead \<Rightarrow> 6 | TurnComplete \<Rightarrow> 7
      | TurnAbort \<Rightarrow> 8 | TerminalError \<Rightarrow> 9)"

definition probe_direction_byte :: "probe_direction \<Rightarrow> u8" where
  "probe_direction_byte d = (case d of NoDirection \<Rightarrow> 0 | ReadDirection \<Rightarrow> 1 | WriteDirection \<Rightarrow> 2)"

definition identity_bytes :: "connection_identity \<Rightarrow> byte list" where
  "identity_bytes c =
     cn_boot_id c @ le_word 4 (cn_tgid c) @ le_word 4 (cn_pid c) @ le_word 8 (cn_start_ticks c)
     @ le_word 8 (cn_connection_ptr c) @ le_word 8 (cn_epoch c) @ le_word 8 (cn_call_sequence c)"

definition header_head :: "capture_record_header \<Rightarrow> byte list" where
  "header_head h =
     le_word 2 (rh_abi_version h) @ le_word 2 (rh_header_len h) @ [probe_kind_byte (rh_kind h)]
     @ [probe_direction_byte (rh_direction h)] @ le_word 2 (rh_cpu h) @ le_word 2 (rh_pad0 h)"

definition header_rest :: "capture_record_header \<Rightarrow> byte list" where
  "header_rest h =
     identity_bytes (rh_connection h) @ le_word 8 (rh_file_offset h) @ le_word 8 (rh_data_offset h)
     @ le_word 4 (rh_data_length h) @ le_word 4 (rh_aux_value h) @ le_word 8 (rh_aux_value2 h)"

text \<open>
  The header without padding, as the reader expects it, and as \<open>repr(C)\<close> lays it out in the memory
  the probes write to the ring buffer: \<open>pad\<close> are the six bytes before the identity.
\<close>

definition packed_record :: "capture_record_header \<Rightarrow> byte list \<Rightarrow> byte list" where
  "packed_record h payload = header_head h @ header_rest h @ payload"

definition repr_c_record :: "byte list \<Rightarrow> capture_record_header \<Rightarrow> byte list \<Rightarrow> byte list" where
  "repr_c_record pad h payload = header_head h @ pad @ header_rest h @ payload"

lemma length_le_word [simp]: "length (le_word n w) = n"
  by (simp add: le_word_def)

lemma read_word_le_word:
  fixes w :: "'w::len word"
  assumes "LENGTH('w) = 8 * n"
  shows "read_word n (le_word n w @ r) = Some (w, r)"
proof -
  have "unat w < 2 ^ LENGTH('w)" by (rule unsigned_less)
  then have "unat w < 256 ^ n" by (simp add: assms power_mult)
  then show ?thesis
    by (simp add: read_word_def read_bytes_def le_word_def le_nat_def be_nat_nat_be)
qed

lemma read_byte [simp]: "read_word (Suc 0) (b # r) = Some (b, r)" for b :: byte
  by (simp add: read_word_def read_bytes_def le_nat_def be_nat_def)

lemmas read_words = read_word_le_word [where 'w = 16 and n = 2, simplified]
  read_word_le_word [where 'w = 32 and n = 4, simplified] read_word_le_word [where 'w = 64 and n = 8, simplified]

lemma decode_kind_byte [simp]: "decode_probe_kind (probe_kind_byte k) = Some k"
  by (cases k) (simp_all add: decode_probe_kind_def probe_kind_byte_def)

lemma decode_direction_byte [simp]: "decode_probe_direction (probe_direction_byte d) = Some d"
  by (cases d) (simp_all add: decode_probe_direction_def probe_direction_byte_def)

lemma decode_identity_bytes:
  assumes "length (cn_boot_id c) = 16"
  shows "decode_identity (identity_bytes c @ r) = Some (c, r)"
  using assms by (simp add: decode_identity_def identity_bytes_def read_bytes_def read_words)

lemma decode_packed_header:
  assumes "length (cn_boot_id (rh_connection h)) = 16"
  shows "decode_header (header_head h @ header_rest h @ r) = Some (h, r)"
  using assms by (simp add: decode_header_def header_head_def header_rest_def decode_identity_bytes read_words)

lemma length_identity_bytes [simp]: "length (identity_bytes c) = length (cn_boot_id c) + 40"
  by (simp add: identity_bytes_def)

lemma length_header_bytes [simp]:
  "length (header_head h) = 10" "length (header_rest h) = length (cn_boot_id (rh_connection h)) + 72"
  by (simp_all add: header_head_def header_rest_def)

section \<open>What is attached\<close>

definition is_uprobe :: "attach_op \<Rightarrow> bool" where
  "is_uprobe op = (case op of AttachUprobe _ _ \<Rightarrow> True | _ \<Rightarrow> False)"

lemma run_op_eq_Inr: "run_op attach attached op = Inr ops \<longleftrightarrow> attach attached op = Inr () \<and> ops = attached @ [op]"
  by (auto simp: run_op_def mapr_eq_Inr map_err_eq_Inr)

lemma hook_op_no_uprobe: "hook_op h = Inr op \<Longrightarrow> \<not> is_uprobe op"
  by (auto simp: hook_op_def is_uprobe_def mapr_eq_Inr split: attach_kind.splits)

lemma kernel_hooks_no_uprobe:
  assumes "attach_kernel_hooks attach hooks = Inr ops" and "op \<in> set ops"
  shows "\<not> is_uprobe op"
proof -
  have "list_all (\<lambda>op. \<not> is_uprobe op) ops"
  proof (cases "hooks = []")
    case True
    with assms have "foldr_m (run_op attach) [] default_hooks = Inr ops" by (simp add: attach_kernel_hooks_def)
    then show ?thesis
      by (rule foldr_m_invariant) (auto simp: run_op_eq_Inr default_hooks_def is_uprobe_def)
  next
    case False
    with assms have "foldr_m (\<lambda>attached h. bindr (hook_op h) (run_op attach attached)) [] hooks = Inr ops"
      by (simp add: attach_kernel_hooks_def)
    then show ?thesis
      by (rule foldr_m_invariant) (auto simp: bindr_eq_Inr run_op_eq_Inr dest: hook_op_no_uprobe)
  qed
  with assms(2) show ?thesis by (simp add: list_all_iff)
qed

lemma attach_uprobes_ops:
  assumes "attach_uprobes attach attached plan = Inr ops"
  shows "ops = attached @ map (\<lambda>(_, probe). AttachUprobe (pd_program probe) (pd_file_offset probe)) (an_probes plan)"
proof -
  have "ops = before @ map (\<lambda>(_, probe). AttachUprobe (pd_program probe) (pd_file_offset probe)) probes"
    if "foldr_m (\<lambda>attached (_, probe).
         run_op attach attached (AttachUprobe (pd_program probe) (pd_file_offset probe))) before probes = Inr ops"
    for before probes
    using that
  proof (induction probes arbitrary: before)
    case (Cons e probes)
    from Cons.IH [of "before @ [AttachUprobe (pd_program (snd e)) (pd_file_offset (snd e))]"] Cons.prems
    show ?case by (auto simp: bindr_eq_Inr run_op_eq_Inr split_beta)
  qed simp
  with assms show ?thesis by (simp add: attach_uprobes_def)
qed

lemma registry_resolve_Attach:
  assumes "registry_resolve registry f = Attach p"
  shows "lp_profile p \<in> set registry" and "lp_verified p = pp_validated (lp_profile p)"
    and "pp_elf_sha256 (lp_profile p) = bf_executable_sha256 f"
    and "pp_architecture (lp_profile p) = bf_architecture f"
  using assms by (auto simp: registry_resolve_def find_Some_iff split: option.splits)

section \<open>Properties\<close>

text \<open>
  A record without padding is read back: the header as it was written, and of the payload as many
  bytes as the header counts, at most 256.
\<close>

theorem packed_record_round_trip:
  assumes "length (cn_boot_id (rh_connection h)) = 16" and "256 \<le> length payload"
  shows "decode_capture_record (packed_record h payload) =
    Some \<lparr>oc_header = h, oc_payload = take (min (unat (rh_data_length h)) 256) payload\<rparr>"
  using assms
  by (simp add: decode_capture_record_def packed_record_def HEADER_SIZE_def MAX_CAPTURE_BYTES_def
      decode_packed_header read_bytes_def min_def)

definition sample_identity :: connection_identity where
  "sample_identity = \<lparr>cn_boot_id = replicate 16 7, cn_tgid = 42, cn_pid = 43, cn_start_ticks = 5,
     cn_connection_ptr = 4096, cn_epoch = 1, cn_call_sequence = 9\<rparr>"

definition sample_header :: capture_record_header where
  "sample_header = \<lparr>rh_abi_version = ABI_VERSION, rh_header_len = 104, rh_kind = PlaintextWrite,
     rh_direction = WriteDirection, rh_cpu = 0, rh_pad0 = 0, rh_connection = sample_identity,
     rh_file_offset = 41891504, rh_data_offset = 0, rh_data_length = 3, rh_aux_value = 0, rh_aux_value2 = 3\<rparr>"

theorem packed_record_round_trip_witness:
  "decode_capture_record (packed_record sample_header ([1, 2, 3] @ replicate 253 0)) =
    Some \<lparr>oc_header = sample_header, oc_payload = [1, 2, 3]\<rparr>"
  using packed_record_round_trip [of sample_header "[1, 2, 3] @ replicate 253 0"]
  by (simp add: sample_header_def sample_identity_def)

text \<open>
  The probes write the structure as it is in memory, with the six bytes before the identity. What the
  loader reads from it is another record: the padding is taken for the beginning of the boot identifier,
  and bytes of the boot identifier for the process.
\<close>

lemma repr_c_record_misread:
  fixes h :: capture_record_header
  assumes "length pad = 6" and "cn_boot_id (rh_connection h) = first @ p @ q" and "length first = 10"
    and "length p = 4" and "length q = 2"
    and "decode_capture_record (repr_c_record pad h payload) = Some r"
  shows "cn_boot_id (rh_connection (oc_header r)) = pad @ first"
    and "cn_tgid (rh_connection (oc_header r)) = word_of_nat (le_nat p)"
proof -
  have "decode_identity (pad @ first @ p @ rest) = Some (c, bs) \<Longrightarrow>
      cn_boot_id c = pad @ first \<and> cn_tgid c = word_of_nat (le_nat p)" for rest c bs
    using assms(1,3,4) by (auto simp: decode_identity_def read_bytes_def read_word_def split: option.splits bind_splits)
  then show "cn_boot_id (rh_connection (oc_header r)) = pad @ first"
    and "cn_tgid (rh_connection (oc_header r)) = word_of_nat (le_nat p)"
    using assms(2,6)
    by (auto simp: decode_capture_record_def decode_header_def repr_c_record_def header_head_def
        header_rest_def identity_bytes_def read_words bind_eq_Some_conv split: if_splits prod.splits)
qed

text \<open>
  C26. No probe is attached to code it was not made for: every uprobe of a running capture belongs to a
  site of a validated profile of the registry with the architecture of the machine, and the file that
  was read before attaching has that profile's digest and holds the expected bytes at the site.
\<close>

theorem uprobes_only_on_verified_build:
  assumes "load_capture sha256 architecture registry attach first_read second_read = Inr r"
    and "AttachUprobe program offset \<in> set (rn_attached r)" and "length second_read < 2 ^ 63"
  shows "\<exists>profile name site. profile \<in> set registry \<and> pp_validated profile
    \<and> pp_architecture profile = architecture
    \<and> sha256 first_read = pp_elf_sha256 profile \<and> sha256 second_read = pp_elf_sha256 profile
    \<and> (name, site) \<in> set (all_sites profile) \<and> pd_program site = program
    \<and> pd_file_offset site = offset \<and> offset \<noteq> 0 \<and> signature_holds second_read (pd_signature site)"
proof -
  let ?f = "fingerprint_of sha256 architecture first_read"
  from assms(1,2) obtain p hooks plan where p: "registry_resolve registry ?f = Attach p" "lp_verified p"
    and hooks: "attach_kernel_hooks attach (pp_kernel_hooks (lp_profile p)) = Inr hooks"
    and plan: "resolve_attach_plan sha256 (lp_profile p) second_read = Inr plan"
    and ops: "attach_uprobes attach hooks plan = Inr (rn_attached r)"
    by (auto simp: load_capture_def Let_def bindr_eq_Inr mapr_eq_Inr map_err_eq_Inr is_uprobe_def
        dest: kernel_hooks_no_uprobe split: attachment_decision.splits if_splits)
  have "AttachUprobe program offset \<notin> set hooks"
    using kernel_hooks_no_uprobe [OF hooks, of "AttachUprobe program offset"] by (auto simp: is_uprobe_def)
  with assms(2) attach_uprobes_ops [OF ops] obtain name site where site: "(name, site) \<in> set (an_probes plan)"
    "pd_program site = program" "pd_file_offset site = offset" by auto
  from plan have ok: "pp_validated (lp_profile p)" "sha256 second_read = pp_elf_sha256 (lp_profile p)"
    "list_all (\<lambda>(name, site). site_ok second_read site) (all_sites (lp_profile p))"
    "an_probes plan = all_sites (lp_profile p)" by (auto simp: resolve_attach_plan_iff)
  with site have "site_ok second_read site" by (auto simp: list_all_iff)
  then have "offset \<noteq> 0 \<and> signature_holds second_read (pd_signature site)"
    using site(3) by (auto simp: site_ok_def matches_signature_iff [OF assms(3)])
  with registry_resolve_Attach [OF p(1)] ok site show ?thesis
    by (intro exI [of _ "lp_profile p"] exI [of _ name] exI [of _ site]) (auto simp: fingerprint_of_def)
qed

definition sample_digest :: "byte list \<Rightarrow> string" where
  "sample_digest b = (if b = [0x7f, 0x90, 0x3c] then ''d'' else ''e'')"

theorem uprobes_only_on_verified_build_witness:
  "\<exists>profile name site. profile \<in> set [sample_profile] \<and> pp_validated profile
    \<and> pp_architecture profile = ''x86_64''
    \<and> sample_digest [0x7f, 0x90, 0x3c] = pp_elf_sha256 profile
    \<and> sample_digest [0x7f, 0x90, 0x3c] = pp_elf_sha256 profile
    \<and> (name, site) \<in> set (all_sites profile) \<and> pd_program site = ''plaintext_write_enter''
    \<and> pd_file_offset site = 1 \<and> (1 :: u64) \<noteq> 0 \<and> signature_holds [0x7f, 0x90, 0x3c] (pd_signature site)"
proof -
  have plan: "resolve_attach_plan sample_digest sample_profile [0x7f, 0x90, 0x3c]
      = Inr \<lparr>an_profile_id = ''p'', an_kernel_hooks = [], an_probes = all_sites sample_profile\<rparr>"
    by (simp add: resolve_attach_plan_iff site_ok_def matches_signature_iff sample_site_holds)
      (simp add: sample_profile_def sample_digest_def)
  then have "load_capture sample_digest ''x86_64'' [sample_profile] (\<lambda>_ _. Inr ()) [0x7f, 0x90, 0x3c] [0x7f, 0x90, 0x3c]
      = Inr \<lparr>rn_attached = default_hooks @ [AttachUprobe ''plaintext_write_enter'' 1],
          rn_attached_profile = Some \<lparr>lp_profile = sample_profile, lp_verified = True\<rparr>, rn_pending_event = None\<rparr>"
    by (simp add: load_capture_def fingerprint_of_def sample_digest_def registry_resolve_def Let_def
        attach_kernel_hooks_def attach_uprobes_def run_op_def default_hooks_def)
      (simp add: sample_profile_def all_sites_def run_op_def)
  then show ?thesis
    by (rule uprobes_only_on_verified_build [where offset = 1]) simp_all
qed

end
