(* ===== verification/Client_Ebpf.thy ===== *)
theory Client_Ebpf
  imports Client_Discovery Ebpf_Loader
begin

text \<open>
  The eBPF lane of the client (\<open>crates/client/src/ebpf_lane.rs\<close>): the health it shares with the
  heartbeat, the loop that starts the loader, reads its events and starts it again after an error, and
  the inputs it makes of the records. Starting the loader and reading the ring buffer are I/O, whose
  outcomes are the inputs of a step of the loop; times are milliseconds.
\<close>

section \<open>Health\<close>

record runtime_health =
  rt_af_packet_active :: bool
  rt_uprobe_active :: bool
  rt_profile_supported :: bool
  rt_ring_buffer_drops :: u64
  rt_last_error :: "structured_error option"

definition runtime_health_new :: runtime_health where
  "runtime_health_new = \<lparr>rt_af_packet_active = False, rt_uprobe_active = False,
     rt_profile_supported = True, rt_ring_buffer_drops = 0, rt_last_error = None\<rparr>"

definition set_af_packet_active :: "bool \<Rightarrow> runtime_health \<Rightarrow> runtime_health" where
  "set_af_packet_active active h = h\<lparr>rt_af_packet_active := active\<rparr>"

definition set_unsupported_build :: "build_fingerprint \<Rightarrow> runtime_health \<Rightarrow> runtime_health" where
  "set_unsupported_build f h =
     h\<lparr>rt_uprobe_active := False, rt_profile_supported := False,
       rt_last_error := Some (structured_error.UnsupportedCodexBuild \<lparr>ub_executable_sha256 = bf_executable_sha256 f,
         ub_architecture = bf_architecture f, ub_codex_version = bf_codex_version_hint f\<rparr>)\<rparr>"

definition set_ebpf_runtime_state ::
  "bool \<Rightarrow> bool \<Rightarrow> structured_error option \<Rightarrow> runtime_health \<Rightarrow> runtime_health" where
  "set_ebpf_runtime_state uprobe_active profile_supported last_error h =
     h\<lparr>rt_uprobe_active := uprobe_active, rt_profile_supported := profile_supported,
       rt_last_error := last_error\<rparr>"

definition runtime_snapshot :: "runtime_health \<Rightarrow> u32 \<Rightarrow> u64 \<Rightarrow> capture_health" where
  "runtime_snapshot h active_flows outbox_bytes =
     \<lparr>ch_af_packet_active = rt_af_packet_active h, ch_uprobe_active = rt_uprobe_active h,
      ch_profile_supported = rt_profile_supported h, ch_ring_buffer_drops = rt_ring_buffer_drops h,
      ch_active_flows = active_flows, ch_outbox_bytes = outbox_bytes, ch_last_error = rt_last_error h\<rparr>"

section \<open>The runtime\<close>

definition runtime_uprobe_active :: "running_capture \<Rightarrow> bool" where
  "runtime_uprobe_active r = is_some_and (rn_attached_profile r) lp_verified"

definition runtime_profile_supported :: "running_capture \<Rightarrow> bool" where
  "runtime_profile_supported r = is_some_and (rn_attached_profile r) lp_verified"

datatype ebpf_config_error = ObjectWithoutBinary | BinaryWithoutObject

definition validate_ebpf_config :: "string option \<Rightarrow> string option \<Rightarrow> ebpf_config_error + unit" where
  "validate_ebpf_config object_path codex_binary_path =
     (case (object_path, codex_binary_path) of
        (Some _, None) \<Rightarrow> Inl ObjectWithoutBinary
      | (None, Some _) \<Rightarrow> Inl BinaryWithoutObject
      | _ \<Rightarrow> Inr ())"

text \<open>A factory is the two paths it loads.\<close>

definition ebpf_factory_from_config ::
  "string option \<Rightarrow> string option \<Rightarrow> ebpf_config_error + (string \<times> string) option" where
  "ebpf_factory_from_config object_path codex_binary_path =
     mapr (\<lambda>_. case (object_path, codex_binary_path) of
         (Some p, Some b) \<Rightarrow> Some (p, b) | _ \<Rightarrow> None)
       (validate_ebpf_config object_path codex_binary_path)"

definition process_of_tracked :: "tracked_process \<Rightarrow> u32 \<Rightarrow> datetime option \<Rightarrow> process_summary" where
  "process_of_tracked t pid exited_at =
     \<lparr>ps_process_instance_id = tk_process_instance_id t, ps_client_instance_id = tk_client_instance_id t,
      ps_pid = pid, ps_executable_sha256 = tk_executable_sha256 t, ps_codex_version = tk_codex_version t,
      ps_started_at = tk_started_at t, ps_exited_at = exited_at, ps_exit_code = None, ps_signal = None\<rparr>"

definition map_loader_record :: "datetime \<Rightarrow> process_index \<Rightarrow> owned_capture_record \<Rightarrow> capture_input option" where
  "map_loader_record now ix record =
     (let pid = cn_tgid (rh_connection (oc_header record)) in
      case index_process ix pid of
        None \<Rightarrow> None
      | Some t \<Rightarrow>
          (case rh_kind (oc_header record) of
             probe_kind.ProcessExec \<Rightarrow> Some (ProcessObserved (process_of_tracked t pid None))
           | probe_kind.ProcessExit \<Rightarrow> Some (capture_input.ProcessExit (process_of_tracked t pid (Some now)))
           | _ \<Rightarrow> None))"

section \<open>The loop\<close>

record ebpf_state =
  es_runtime :: "running_capture option"
  es_backoff :: nat
  es_health :: runtime_health
  es_ended :: bool

text \<open>What the loop waits for: the start of the loader, or an item of the ring buffer.\<close>

datatype ebpf_outcome = Started "string + running_capture" | Polled "string + byte list option"

datatype ebpf_effect = Sleep nat | SendInput capture_input

definition MAX_EBPF_BACKOFF :: nat where "MAX_EBPF_BACKOFF = 30000"

definition EBPF_IDLE :: nat where "EBPF_IDLE = 50"

definition ebpf_start :: "nat \<Rightarrow> runtime_health \<Rightarrow> ebpf_state" where
  "ebpf_start retry h = \<lparr>es_runtime = None, es_backoff = retry, es_health = h, es_ended = False\<rparr>"

definition ebpf_lost :: "string \<Rightarrow> ebpf_state \<Rightarrow> ebpf_state \<times> ebpf_effect list" where
  "ebpf_lost reason s =
     (s\<lparr>es_runtime := None, es_backoff := min (2 * es_backoff s) MAX_EBPF_BACKOFF,
        es_health := set_ebpf_runtime_state False False
          (Some (CaptureLost \<lparr>cl_reason = reason, cl_lost_bytes = None\<rparr>)) (es_health s)\<rparr>,
      [Sleep (es_backoff s)])"

definition ebpf_event ::
  "datetime \<Rightarrow> process_index \<Rightarrow> bool \<Rightarrow> loader_event option \<Rightarrow> ebpf_state \<Rightarrow> ebpf_state \<times> ebpf_effect list" where
  "ebpf_event now ix closed e s =
     (case e of
        None \<Rightarrow> (s, [Sleep EBPF_IDLE])
      | Some (UnsupportedBuildEvent f) \<Rightarrow> (s\<lparr>es_health := set_unsupported_build f (es_health s)\<rparr>, [])
      | Some (Capture record) \<Rightarrow>
          (case map_loader_record now ix record of
             None \<Rightarrow> (s, [])
           | Some input \<Rightarrow> if closed then (s\<lparr>es_ended := True\<rparr>, []) else (s, [SendInput input])))"

text \<open>\<open>closed\<close>: the receiver of the inputs is gone. An ended loop does nothing.\<close>

definition ebpf_step ::
  "nat \<Rightarrow> datetime \<Rightarrow> process_index \<Rightarrow> bool \<Rightarrow> ebpf_outcome \<Rightarrow> ebpf_state
     \<Rightarrow> ebpf_state \<times> ebpf_effect list" where
  "ebpf_step retry now ix closed outcome s =
     (if es_ended s then (s, [])
      else case (es_runtime s, outcome) of
        (None, Started (Inr r)) \<Rightarrow>
          (s\<lparr>es_runtime := Some r, es_backoff := retry,
             es_health := set_ebpf_runtime_state (runtime_uprobe_active r) (runtime_profile_supported r)
               None (es_health s)\<rparr>, [])
      | (None, Started (Inl error)) \<Rightarrow> ebpf_lost (''ebpf_loader_error:'' @ error) s
      | (Some r, Polled (Inl error)) \<Rightarrow> ebpf_lost (''ebpf_runtime_error:'' @ error) s
      | (Some r, Polled (Inr item)) \<Rightarrow>
          (let (r', e) = next_event r item in ebpf_event now ix closed e (s\<lparr>es_runtime := Some r'\<rparr>))
      | _ \<Rightarrow> (s, []))"

section \<open>What the loop can reach\<close>

inductive ebpf_reaches :: "nat \<Rightarrow> runtime_health \<Rightarrow> ebpf_state \<Rightarrow> bool" for retry h where
  begins: "ebpf_reaches retry h (ebpf_start retry h)"
| steps: "ebpf_reaches retry h s \<Longrightarrow> ebpf_reaches retry h (fst (ebpf_step retry now ix closed outcome s))"

text \<open>The health never shows uprobes that are not attached, and the waiting time has its bounds.\<close>

definition ebpf_ok :: "nat \<Rightarrow> runtime_health \<Rightarrow> ebpf_state \<Rightarrow> bool" where
  "ebpf_ok retry h s \<longleftrightarrow>
     retry \<le> es_backoff s \<and> es_backoff s \<le> MAX_EBPF_BACKOFF
   \<and> rt_af_packet_active (es_health s) = rt_af_packet_active h
   \<and> (rt_uprobe_active (es_health s) \<longrightarrow>
        (\<exists>r p. es_runtime s = Some r \<and> rn_attached_profile r = Some p \<and> lp_verified p))"

lemma next_event_attached: "rn_attached_profile (fst (next_event r item)) = rn_attached_profile r"
  by (simp add: next_event_def split: option.splits)

lemma ebpf_lost_ok: "ebpf_ok retry h s \<Longrightarrow> ebpf_ok retry h (fst (ebpf_lost reason s))"
  by (auto simp: ebpf_ok_def ebpf_lost_def set_ebpf_runtime_state_def)

lemma ebpf_event_ok: "ebpf_ok retry h s \<Longrightarrow> ebpf_ok retry h (fst (ebpf_event now ix closed e s))"
  by (auto simp: ebpf_ok_def ebpf_event_def set_unsupported_build_def
      split: option.splits loader_event.splits)

lemma ebpf_ok_runtime:
  "ebpf_ok retry h s \<Longrightarrow> es_runtime s = Some r \<Longrightarrow> rn_attached_profile r' = rn_attached_profile r
     \<Longrightarrow> ebpf_ok retry h (s\<lparr>es_runtime := Some r'\<rparr>)"
  by (auto simp: ebpf_ok_def)

lemma ebpf_step_ok:
  assumes "ebpf_ok retry h s"
  shows "ebpf_ok retry h (fst (ebpf_step retry now ix closed outcome s))"
proof (cases "es_runtime s")
  case None
  with assms ebpf_lost_ok [OF assms] show ?thesis
    by (auto simp: ebpf_step_def ebpf_ok_def set_ebpf_runtime_state_def runtime_uprobe_active_def
        is_some_and_iff split: ebpf_outcome.splits sum.splits)
next
  case (Some r)
  show ?thesis
  proof (cases outcome)
    case (Started x)
    with Some assms show ?thesis by (simp add: ebpf_step_def)
  next
    case (Polled x)
    with Some assms ebpf_lost_ok [OF assms] ebpf_event_ok ebpf_ok_runtime [OF assms Some next_event_attached]
    show ?thesis by (cases x) (auto simp: ebpf_step_def case_prod_unfold Let_def)
  qed
qed

section \<open>Properties\<close>

text \<open>
  C27. The health of the eBPF lane is true: whatever starts, fails and arrives, it shows uprobes as active
  only while a capture with a verified profile runs, it leaves the flag of the packet tap alone, and the
  loop waits at least the retry time and at most 30 seconds after an error.
\<close>

theorem ebpf_health_is_true:
  assumes "ebpf_reaches retry h s" and "retry \<le> 30000" and "\<not> rt_uprobe_active h"
  shows "retry \<le> es_backoff s \<and> es_backoff s \<le> 30000
    \<and> rt_af_packet_active (es_health s) = rt_af_packet_active h
    \<and> (rt_uprobe_active (es_health s) \<longrightarrow>
         (\<exists>r p. es_runtime s = Some r \<and> rn_attached_profile r = Some p \<and> lp_verified p))"
proof -
  from assms(1) have "ebpf_ok retry h s"
  proof induction
    case begins
    then show ?case using assms(2,3) by (simp add: ebpf_ok_def ebpf_start_def MAX_EBPF_BACKOFF_def)
  next
    case (steps s now ix closed outcome)
    then show ?case by (simp add: ebpf_step_ok)
  qed
  then show ?thesis by (simp add: ebpf_ok_def MAX_EBPF_BACKOFF_def)
qed

definition sample_running :: running_capture where
  "sample_running = \<lparr>rn_attached = [], rn_attached_profile =
     Some \<lparr>lp_profile = sample_profile, lp_verified = True\<rparr>, rn_pending_event = None\<rparr>"

definition sample_ebpf_state :: ebpf_state where
  "sample_ebpf_state =
     fst (ebpf_step 1000 0 [] False (Started (Inr sample_running))
       (fst (ebpf_step 1000 0 [] False (Started (Inl ''busy'')) (ebpf_start 1000 runtime_health_new))))"

theorem ebpf_health_is_true_witness:
  "rt_uprobe_active (es_health sample_ebpf_state) \<and>
   (\<exists>r p. es_runtime sample_ebpf_state = Some r \<and> rn_attached_profile r = Some p \<and> lp_verified p)"
proof -
  have "ebpf_reaches 1000 runtime_health_new sample_ebpf_state"
    unfolding sample_ebpf_state_def by (intro ebpf_reaches.intros)
  moreover have "rt_uprobe_active (es_health sample_ebpf_state)"
    by (simp add: sample_ebpf_state_def ebpf_step_def ebpf_start_def ebpf_lost_def set_ebpf_runtime_state_def
        runtime_uprobe_active_def sample_running_def)
  ultimately show ?thesis
    using ebpf_health_is_true [of 1000 runtime_health_new sample_ebpf_state] by (simp add: runtime_health_new_def)
qed

text \<open>
  The tracepoint of exits fires for every thread, with its own \<open>pid\<close>; the lane looks at the thread group
  only, so the end of any thread is taken for the end of the process.
\<close>

lemma thread_exit_ends_process:
  assumes "index_process ix (cn_tgid c) = Some t" and "rh_kind h = probe_kind.ProcessExit" and "rh_connection h = c"
    and "cn_pid c \<noteq> cn_tgid c"
  shows "map_loader_record now ix \<lparr>oc_header = h, oc_payload = p\<rparr>
    = Some (capture_input.ProcessExit (process_of_tracked t (cn_tgid c) (Some now)))"
  using assms by (simp add: map_loader_record_def)

text \<open>The plaintext that the probes capture ends here: no record but that of a process becomes an input.\<close>

lemma plaintext_is_discarded:
  assumes "rh_kind (oc_header record) \<notin> {probe_kind.ProcessExec, probe_kind.ProcessExit}"
  shows "map_loader_record now ix record = None"
  using assms by (auto simp: map_loader_record_def Let_def split: option.splits probe_kind.splits)

end
