(* ===== verification/Client_Config.thy ===== *)
theory Client_Config
  imports Rust_Text Protocol_Types
begin

text \<open>
  The client's configuration (\<open>crates/client/src/config.rs\<close>): the defaults, where the file is looked
  for, and the lookup of the capture interface. The TOML reader is an argument that gives the fields of
  the file; environment, password database and file system are arguments. \<open>{:?}\<close> texts are left out.
\<close>

section \<open>Paths\<close>

text \<open>\<open>Path::join\<close>, and whether a path has the components of \<open>/\<close>.\<close>

definition path_join :: "string \<Rightarrow> string \<Rightarrow> string" where
  "path_join p q =
     (if starts_with q ''/'' then q
      else if p = [] \<or> ends_with p ''/'' then p @ q
      else p @ ''/'' @ q)"

fun slash_split :: "string \<Rightarrow> string list" where
  "slash_split [] = [[]]"
| "slash_split (c # cs) =
     (if c = CHR ''/'' then [] # slash_split cs
      else case slash_split cs of [] \<Rightarrow> [[c]] | w # ws \<Rightarrow> (c # w) # ws)"

definition is_root_path :: "string \<Rightarrow> bool" where
  "is_root_path p \<longleftrightarrow> starts_with p ''/'' \<and> list_all (\<lambda>w. w = [] \<or> w = ''.'') (slash_split p)"

section \<open>The file\<close>

record client_file_config =
  cf_client_id :: string
  cf_client_instance_id :: "uuid option"
  cf_server_url :: string
  cf_api_token :: string
  cf_data_dir :: "string option"
  cf_database_path :: "string option"
  cf_blob_dir :: "string option"
  cf_poll_wait_seconds :: "u32 option"
  cf_cleanup_interval_seconds :: "u64 option"
  cf_flush_interval_millis :: "u64 option"
  cf_heartbeat_interval_seconds :: "u64 option"
  cf_process_scan_interval_seconds :: "u64 option"
  cf_capture_poll_interval_millis :: "u64 option"
  cf_capture_interface :: "string option"
  cf_capture_interface_index :: "int option"
  cf_capture_codex_pid :: "u32 option"
  cf_capture_process_name :: "string option"
  cf_capture_remote_ports :: "u16 list"
  cf_ebpf_object_path :: "string option"
  cf_codex_binary_path :: "string option"
  cf_codex_home :: "string option"
  cf_client_version :: "string option"

record client_config =
  cg_client_id :: string
  cg_client_instance_id :: uuid
  cg_data_dir :: string
  cg_database_path :: string
  cg_blob_dir :: string
  cg_server_url :: string
  cg_api_token :: string
  cg_poll_wait_seconds :: u32
  cg_cleanup_interval_seconds :: u64
  cg_flush_interval_millis :: u64
  cg_heartbeat_interval_seconds :: u64
  cg_process_scan_interval_seconds :: u64
  cg_capture_poll_interval_millis :: u64
  cg_capture_interface_index :: "int option"
  cg_capture_codex_pid :: "u32 option"
  cg_capture_process_name :: string
  cg_capture_remote_ports :: "u16 list"
  cg_ebpf_object_path :: "string option"
  cg_codex_binary_path :: "string option"
  cg_codex_home :: "string option"
  cg_client_version :: string

datatype config_error =
    NotToml string | BothInterfaces | InvalidInterface string | ReadInterface string | ParseInterface string
  | LookupUser string | NoSuchUser string | ReadConfig string

section \<open>The capture interface\<close>

text \<open>\<open>str::parse\<close> to an \<open>i32\<close>: a sign, then digits, within range.\<close>

definition parse_ifindex :: "string \<Rightarrow> int option" where
  "parse_ifindex s =
     (if starts_with s ''-''
      then if tl s = [] then None else map_option (\<lambda>n. - int n) (digits_val 10 (2 ^ 31 + 1) 0 (tl s))
      else map_option int (parse_unsigned 10 (2 ^ 31) s))"

text \<open>\<open>files\<close> is what reading a file as text gives, \<open>None\<close> when that fails.\<close>

definition resolve_interface_index :: "(string \<Rightarrow> string option) \<Rightarrow> string \<Rightarrow> config_error + int" where
  "resolve_interface_index files name =
     (if name = [] \<or> CHR ''/'' \<in> set name \<or> name \<in> {''.'', ''..''} then Inl (InvalidInterface name)
      else
        let path = path_join (path_join ''/sys/class/net'' name) ''ifindex'' in
        case files path of
          None \<Rightarrow> Inl (ReadInterface name)
        | Some text \<Rightarrow> ok_or (parse_ifindex (trim text)) (ParseInterface path))"

section \<open>Defaults\<close>

text \<open>\<open>fresh\<close> is the identifier drawn when the file gives none, \<open>version\<close> the package's version.\<close>

definition config_interface ::
  "(string \<Rightarrow> string option) \<Rightarrow> client_file_config \<Rightarrow> config_error + int option" where
  "config_interface files f =
     (case (cf_capture_interface f, cf_capture_interface_index f) of
        (Some _, Some _) \<Rightarrow> Inl BothInterfaces
      | (Some name, None) \<Rightarrow> mapr Some (resolve_interface_index files name)
      | (None, index) \<Rightarrow> Inr index)"

definition config_of_file ::
  "(string \<Rightarrow> string option) \<Rightarrow> uuid \<Rightarrow> string \<Rightarrow> client_file_config \<Rightarrow> config_error + client_config" where
  "config_of_file files fresh version f =
     (let data_dir = unwrap_or (cf_data_dir f) ''./var/client'' in
      mapr (\<lambda>index.
        \<lparr>cg_client_id = cf_client_id f,
         cg_client_instance_id = unwrap_or (cf_client_instance_id f) fresh,
         cg_data_dir = data_dir,
         cg_database_path = unwrap_or (cf_database_path f) (path_join data_dir ''client.db''),
         cg_blob_dir = unwrap_or (cf_blob_dir f) (path_join data_dir ''blobs''),
         cg_server_url = cf_server_url f,
         cg_api_token = cf_api_token f,
         cg_poll_wait_seconds = unwrap_or (cf_poll_wait_seconds f) 30,
         cg_cleanup_interval_seconds = unwrap_or (cf_cleanup_interval_seconds f) 300,
         cg_flush_interval_millis = unwrap_or (cf_flush_interval_millis f) 2000,
         cg_heartbeat_interval_seconds = unwrap_or (cf_heartbeat_interval_seconds f) 60,
         cg_process_scan_interval_seconds = unwrap_or (cf_process_scan_interval_seconds f) 1,
         cg_capture_poll_interval_millis = unwrap_or (cf_capture_poll_interval_millis f) 50,
         cg_capture_interface_index = index,
         cg_capture_codex_pid = cf_capture_codex_pid f,
         cg_capture_process_name = unwrap_or (cf_capture_process_name f) ''codex'',
         cg_capture_remote_ports = cf_capture_remote_ports f,
         cg_ebpf_object_path = cf_ebpf_object_path f,
         cg_codex_binary_path = cf_codex_binary_path f,
         cg_codex_home = cf_codex_home f,
         cg_client_version = unwrap_or (cf_client_version f) version\<rparr>)
       (config_interface files f))"

definition config_from_toml ::
  "(string \<Rightarrow> string + client_file_config) \<Rightarrow> (string \<Rightarrow> string option) \<Rightarrow> uuid \<Rightarrow> string \<Rightarrow> string
     \<Rightarrow> config_error + client_config" where
  "config_from_toml read files fresh version source =
     bindr (map_err NotToml (read source)) (config_of_file files fresh version)"

definition capture_enabled :: "client_config \<Rightarrow> bool" where
  "capture_enabled cfg \<longleftrightarrow> cg_capture_interface_index cfg \<noteq> None"

definition ebpf_enabled :: "client_config \<Rightarrow> bool" where
  "ebpf_enabled cfg \<longleftrightarrow> cg_ebpf_object_path cfg \<noteq> None \<and> cg_codex_binary_path cfg \<noteq> None"

definition codex_session_index_path :: "client_config \<Rightarrow> string option" where
  "codex_session_index_path cfg = map_option (\<lambda>home. path_join home ''session_index.jsonl'') (cg_codex_home cfg)"

text \<open>\<open>display\<close> is \<open>Path::display\<close>, which alters only what is no UTF-8.\<close>

definition sqlite_url :: "(string \<Rightarrow> string) \<Rightarrow> string \<Rightarrow> string" where
  "sqlite_url display path = ''sqlite://'' @ display path"

definition database_url :: "(string \<Rightarrow> string) \<Rightarrow> client_config \<Rightarrow> string" where
  "database_url display cfg = sqlite_url display (cg_database_path cfg)"

section \<open>Where the file is\<close>

definition usable_config_root :: "string option \<Rightarrow> string option" where
  "usable_config_root path =
     (case path of None \<Rightarrow> None | Some p \<Rightarrow> if p \<noteq> [] \<and> \<not> is_root_path p then Some p else None)"

definition home_config :: "string \<Rightarrow> string" where
  "home_config home = path_join (path_join (path_join home ''.config'') ''codexwatch'') ''client.toml''"

definition resolve_config_path :: "bool \<Rightarrow> string option \<Rightarrow> string option \<Rightarrow> string option \<Rightarrow> string" where
  "resolve_config_path effective_root sudo_home xdg_config_home home =
     (case sudo_home of
        Some h \<Rightarrow> home_config h
      | None \<Rightarrow>
          if effective_root then ''/etc/codexwatch/client.toml''
          else case usable_config_root xdg_config_home of
            Some config_home \<Rightarrow> path_join (path_join config_home ''codexwatch'') ''client.toml''
          | None \<Rightarrow>
              (case usable_config_root home of
                 Some h \<Rightarrow> home_config h
               | None \<Rightarrow> ''/etc/codexwatch/client.toml''))"

text \<open>\<open>sudo_user\<close> is the variable as text, \<open>users\<close> the lookup of a user's directory.\<close>

definition sudo_user_home ::
  "string option \<Rightarrow> (string \<Rightarrow> string + string option) \<Rightarrow> config_error + string option" where
  "sudo_user_home sudo_user users =
     (case sudo_user of
        None \<Rightarrow> Inr None
      | Some name \<Rightarrow>
          if name = [] \<or> name = ''root'' then Inr None
          else case users name of
            Inl e \<Rightarrow> Inl (LookupUser name)
          | Inr None \<Rightarrow> Inl (NoSuchUser name)
          | Inr (Some dir) \<Rightarrow> Inr (Some dir))"

definition default_config_path ::
  "bool \<Rightarrow> string option \<Rightarrow> (string \<Rightarrow> string + string option) \<Rightarrow> string option \<Rightarrow> string option
     \<Rightarrow> config_error + string" where
  "default_config_path effective_root sudo_user users xdg_config_home home =
     mapr (\<lambda>sudo_home. resolve_config_path effective_root sudo_home xdg_config_home home)
       (sudo_user_home sudo_user users)"

definition config_load ::
  "(string \<Rightarrow> string + client_file_config) \<Rightarrow> (string \<Rightarrow> string option) \<Rightarrow> uuid \<Rightarrow> string
     \<Rightarrow> config_error + string \<Rightarrow> config_error + client_config" where
  "config_load read files fresh version path =
     bindr path (\<lambda>path.
       bindr (ok_or (files path) (ReadConfig path)) (config_from_toml read files fresh version))"

section \<open>What holds\<close>

lemma show_nat_graphic: "c \<in> set (show_nat n) \<Longrightarrow> is_graphic c"
  using show_nat_digits [of c n] by (auto simp: is_ascii_digit_def is_graphic_def)

lemma trim_line:
  assumes "s \<noteq> []" and "is_graphic (hd s)" and "is_graphic (last s)"
  shows "trim (s @ [CHR 0x0A]) = s"
proof -
  obtain c cs where s: "s = c # cs" using assms(1) by (cases s) auto
  have "ws_prefix (map code (s @ [CHR 0x0A])) = 0"
    using assms(2) by (auto simp: s is_graphic_def split: list.splits)
  then have start: "trim_start (s @ [CHR 0x0A]) = s @ [CHR 0x0A]" by (subst trim_start.simps) simp
  obtain d ds where r: "rev s = d # ds" "is_graphic d"
    using assms(1,3) by (cases "rev s") (auto simp: last_rev hd_rev [symmetric])
  have "ws_suffix_rev (map code (rev s)) = 0"
    using r by (auto simp: is_graphic_def split: list.splits)
  then have "trim_end_rev (rev s) = rev s" by (subst trim_end_rev.simps) simp
  moreover have "ws_suffix_rev (map code (CHR 0x0A # rev s)) = 1" by (simp add: code_def)
  then have "trim_end_rev (CHR 0x0A # rev s) = trim_end_rev (rev s)"
    by (subst trim_end_rev.simps) simp
  ultimately show ?thesis by (simp add: trim_def trim_end_def start)
qed

lemma parse_ifindex_show_nat:
  assumes "n < 2 ^ 31"
  shows "parse_ifindex (show_nat n) = Some (int n)"
proof -
  obtain c cs where s: "show_nat n = c # cs"
    using show_nat_nonempty [of n] by (cases "show_nat n") auto
  then have "is_ascii_digit c" using show_nat_digits [of c n] by simp
  then have "c \<noteq> CHR ''+''" "c \<noteq> CHR ''-''" by (auto simp: is_ascii_digit_def code_def)
  then show ?thesis
    using s digits_val_show_nat [OF assms] by (simp add: parse_ifindex_def parse_unsigned_def del: digits_val.simps)
qed

text \<open>The index that the kernel writes for an interface, a number and a line feed, is the one captured on.\<close>

lemma interface_index_read_back:
  assumes "0 < i" and "i < 2 ^ 31" and "name \<noteq> []" and "CHR ''/'' \<notin> set name" and "name \<notin> {''.'', ''..''}"
    and "files (''/sys/class/net/'' @ name @ ''/ifindex'') = Some (show_nat i @ [CHR 0x0A])"
  shows "resolve_interface_index files name = Inr (int i)"
proof -
  have d: "is_graphic (hd (show_nat i))" "is_graphic (last (show_nat i))"
    by (rule show_nat_graphic [of _ i], simp add: show_nat_nonempty)+
  have n: "\<not> starts_with name ''/''" "\<not> ends_with (''/sys/class/net/'' @ name) ''/''"
    using assms(3,4) by (auto simp: starts_with_iff ends_with_iff append_eq_append_conv2 Cons_eq_append_conv)
  have p: "path_join (path_join ''/sys/class/net'' name) ''ifindex'' = ''/sys/class/net/'' @ name @ ''/ifindex''"
    using n by (simp add: path_join_def ends_with_def)
  show ?thesis
    using assms(3-6) trim_line [OF show_nat_nonempty d] parse_ifindex_show_nat [OF assms(2)]
    by (auto simp: resolve_interface_index_def p Let_def ok_or_def)
qed

text \<open>The defaults of a minimal file.\<close>

lemma minimal_config:
  assumes "cf_capture_interface f = None" and "cf_data_dir f = None" and "cf_database_path f = None"
    and "cf_process_scan_interval_seconds f = None"
  shows "\<exists>cfg. config_of_file files fresh version f = Inr cfg \<and> cg_data_dir cfg = ''./var/client''
    \<and> cg_database_path cfg = ''./var/client/client.db'' \<and> cg_process_scan_interval_seconds cfg = 1
    \<and> capture_enabled cfg = (cf_capture_interface_index f \<noteq> None)"
  using assms
  by (simp add: config_of_file_def config_interface_def Let_def path_join_def ends_with_def capture_enabled_def)

end
