(* ===== verification/Client_Service.thy ===== *)
theory Client_Service
  imports Client_Ebpf Client_Store_Facts Client_Framing Client_Config
begin

text \<open>
  The service of the client (\<open>crates/client/src/service.rs\<close>) and its calls of the server
  (\<open>crates/client/src/transport.rs\<close>): delivering the outbox, taking commands, uploading content,
  heartbeats, fixtures and the waiting times of the daemon's loops. Sending a request is I/O: the
  answer of the server is an argument, and the calls made are part of a result. One execution of a
  command is taken as one step.
\<close>

section \<open>Transport\<close>

datatype api_call =
    PostIngest string "byte list"
  | PollCommands u32
  | PostManifests uuid "content_object_manifest list"
  | PostChunk uuid content_upload_chunk
  | PostResult uuid content_upload_result

definition api_base_url :: "string \<Rightarrow> string" where
  "api_base_url server_url = trim_end_matches CHR ''/'' server_url"

definition call_url :: "(uuid \<Rightarrow> string) \<Rightarrow> string \<Rightarrow> api_call \<Rightarrow> string" where
  "call_url show_uuid base c = base @
     (case c of
        PostIngest _ _ \<Rightarrow> ''/api/v1/ingest''
      | PollCommands wait_seconds \<Rightarrow> ''/api/v1/client/commands/next?wait='' @ show_nat (unat wait_seconds)
      | PostManifests i _ \<Rightarrow> ''/api/v1/client/commands/'' @ show_uuid i @ ''/content/manifests''
      | PostChunk i _ \<Rightarrow> ''/api/v1/client/commands/'' @ show_uuid i @ ''/content/chunks''
      | PostResult i _ \<Rightarrow> ''/api/v1/client/commands/'' @ show_uuid i @ ''/result'')"

text \<open>
  An answer: its status and what its JSON body reads as. \<open>describe\<close> is the text of the error that
  \<open>error_for_status\<close> makes of a status from 400 on.
\<close>

record 'a http_reply =
  hr_status :: nat
  hr_json :: "string + 'a"

definition error_for_status :: "(nat \<Rightarrow> string) \<Rightarrow> 'a http_reply \<Rightarrow> string + 'a http_reply" where
  "error_for_status describe r = (if 400 \<le> hr_status r then Inl (describe (hr_status r)) else Inr r)"

definition post_ingest_reply ::
  "(nat \<Rightarrow> string) \<Rightarrow> string + ingest_ack http_reply \<Rightarrow> string + ingest_ack option" where
  "post_ingest_reply describe sent =
     bindr sent (\<lambda>r.
       if hr_status r = 204 then Inr None
       else bindr (error_for_status describe r) (\<lambda>r. mapr Some (hr_json r)))"

definition poll_commands_reply ::
  "(nat \<Rightarrow> string) \<Rightarrow> string + command_poll_response http_reply \<Rightarrow> string + command_poll_response" where
  "poll_commands_reply describe sent =
     bindr sent (\<lambda>r.
       if hr_status r = 204 then Inr \<lparr>cp_server_time_ms = 0, cp_commands = []\<rparr>
       else bindr (error_for_status describe r) hr_json)"

definition unit_reply :: "(nat \<Rightarrow> string) \<Rightarrow> string + 'a http_reply \<Rightarrow> string + unit" where
  "unit_reply describe sent = mapr (\<lambda>_. ()) (bindr sent (error_for_status describe))"

section \<open>Service\<close>

datatype 'l service_error =
    ApiFailed string | StoreFailed "'l store_error" | ChunksFailed blob_error | Base64Length | Base64Character

text \<open>\<open>post\<close> is the answer to the batch, \<open>now\<close> the clock when it is looked for, \<open>later\<close> after the answer.\<close>

definition flush_outbox_once ::
  "'l store_lib \<Rightarrow> (string \<Rightarrow> byte list \<Rightarrow> string + ingest_ack option) \<Rightarrow> datetime \<Rightarrow> datetime \<Rightarrow> client_store
     \<Rightarrow> client_store \<times> ('l service_error + unit)" where
  "flush_outbox_once S post now later st =
     (case next_due_batch st now of
        None \<Rightarrow> (st, Inr ())
      | Some batch \<Rightarrow>
          (case post (pb_payload_sha256 batch) (pb_body batch) of
             Inr (Some ack) \<Rightarrow> (mark_batch_acked st (ts later) ack, Inr ())
           | Inr None \<Rightarrow> (st, Inr ())
           | Inl error \<Rightarrow>
               (case mark_batch_retry S st later (pb_batch_id batch) error of
                  Inl e \<Rightarrow> (st, Inl (StoreFailed e))
                | Inr st' \<Rightarrow> (st', Inr ()))))"

definition poll_command_once ::
  "(nat \<Rightarrow> nat \<Rightarrow> i64) \<Rightarrow> string + command_poll_response \<Rightarrow> client_store
     \<Rightarrow> client_store \<times> ('l service_error + unit)" where
  "poll_command_once clk answer st =
     (case answer of
        Inl error \<Rightarrow> (st, Inl (ApiFailed error))
      | Inr response \<Rightarrow> (save_commands clk st response, Inr ()))"

text \<open>\<open>api n c\<close> is the answer to the call \<open>c\<close> when it is the \<open>n\<close>-th of the execution.\<close>

fun post_chunks ::
  "(nat \<Rightarrow> api_call \<Rightarrow> string + unit) \<Rightarrow> nat \<Rightarrow> uuid \<Rightarrow> content_upload_chunk list
     \<Rightarrow> api_call list \<times> (string + unit)" where
  "post_chunks api n command_id [] = ([], Inr ())"
| "post_chunks api n command_id (c # cs) =
     (case api n (PostChunk command_id c) of
        Inl error \<Rightarrow> ([PostChunk command_id c], Inl error)
      | Inr _ \<Rightarrow>
          (let (calls, r) = post_chunks api (Suc n) command_id cs in (PostChunk command_id c # calls, r)))"

datatype upload_failure = LoadChunks blob_error | ChunkRefused string

fun upload_loop ::
  "(nat \<Rightarrow> api_call \<Rightarrow> string + unit) \<Rightarrow> blob_lib \<Rightarrow> blob_files \<Rightarrow> nat \<Rightarrow> uuid \<Rightarrow> content_object_manifest list
     \<Rightarrow> api_call list \<times> (upload_failure + unit)" where
  "upload_loop api B files n command_id [] = ([], Inr ())"
| "upload_loop api B files n command_id (m # ms) =
     (case load_chunks B files (mf_object_sha256 m) (mf_request_id m) of
        Inl e \<Rightarrow> ([], Inl (LoadChunks e))
      | Inr chunks \<Rightarrow>
          (case post_chunks api n command_id chunks of
             (calls, Inl error) \<Rightarrow> (calls, Inl (ChunkRefused error))
           | (calls, Inr _) \<Rightarrow>
               (let (more, r) = upload_loop api B files (n + length calls) command_id ms in
                (calls @ more, r))))"

text \<open>The clock of an execution: when it begins, what preparing reads, when it ends or fails.\<close>

record command_clock =
  cl_now :: datetime
  cl_prepare :: "nat \<Rightarrow> i64"
  cl_completed :: i64
  cl_next :: i64
  cl_failed :: datetime

definition failed_command ::
  "'l store_lib \<Rightarrow> command_clock \<Rightarrow> client_store \<Rightarrow> uuid \<Rightarrow> string \<Rightarrow> client_store \<times> ('l service_error + unit)" where
  "failed_command S T st command_id error =
     (case fail_command S st (cl_failed T) command_id error True of
        Inl e \<Rightarrow> (st, Inl (StoreFailed e))
      | Inr st' \<Rightarrow> (st', Inr ()))"

definition posted_result ::
  "(nat \<Rightarrow> api_call \<Rightarrow> string + unit) \<Rightarrow> command_clock \<Rightarrow> nat \<Rightarrow> client_store \<Rightarrow> uuid \<Rightarrow> content_upload_result
     \<Rightarrow> client_store \<times> ('l service_error + unit)" where
  "posted_result api T n st command_id result =
     (case api n (PostResult command_id result) of
        Inl error \<Rightarrow> (st, Inl (ApiFailed error))
      | Inr _ \<Rightarrow> (complete_command st (cl_completed T) (cl_next T) command_id result False, Inr ()))"

definition run_upload ::
  "'l store_lib \<Rightarrow> (nat \<Rightarrow> api_call \<Rightarrow> string + unit) \<Rightarrow> command_clock \<Rightarrow> blob_files \<Rightarrow> client_store
     \<Rightarrow> upload_work \<Rightarrow> client_store \<times> api_call list \<times> ('l service_error + unit)" where
  "run_upload S api T files st work =
     (let command_id = uw_command_id work; first = PostManifests command_id (uw_manifests work);
          result = \<lparr>cu_request_id = uw_request_id work, cu_status = content_upload_status.Stored, cu_note = None\<rparr> in
      case api 0 first of
        Inl error \<Rightarrow> (let (st', r) = failed_command S T st command_id error in (st', [first], r))
      | Inr _ \<Rightarrow>
          (case upload_loop api (blob_lib_of S) files 1 command_id (uw_manifests work) of
             (calls, Inl (LoadChunks e)) \<Rightarrow> (st, first # calls, Inl (ChunksFailed e))
           | (calls, Inl (ChunkRefused error)) \<Rightarrow>
               (let (st', r) = failed_command S T st command_id error in (st', first # calls, r))
           | (calls, Inr _) \<Rightarrow>
               (let (st', r) = posted_result api T (Suc (length calls)) st command_id result in
                (st', first # calls @ [PostResult command_id result], r))))"

definition execute_due_command_once ::
  "'l store_lib \<Rightarrow> (nat \<Rightarrow> api_call \<Rightarrow> string + unit) \<Rightarrow> command_clock \<Rightarrow> client_store \<times> blob_files
     \<Rightarrow> client_store \<times> api_call list \<times> ('l service_error + unit)" where
  "execute_due_command_once S api T w =
     (let (st, files) = w in
      case next_due_command st (cl_now T) of
        None \<Rightarrow> (st, [], Inr ())
      | Some stored \<Rightarrow>
          (case prepare_upload st (cl_prepare T) (sd_command stored) of
             (st1, Expired command_id result) \<Rightarrow>
               (let (st', r) = posted_result api T 0 st1 command_id result in
                (st', [PostResult command_id result], r))
           | (st1, Ready work) \<Rightarrow> run_upload S api T files st1 work))"

definition heartbeat_record ::
  "uuid \<Rightarrow> string \<Rightarrow> datetime \<Rightarrow> runtime_health \<Rightarrow> client_store \<Rightarrow> summary_record" where
  "heartbeat_record client_instance_id client_version now health st =
     (let snapshot = health_snapshot_of st in
      Heartbeat \<lparr>hs_client_instance_id = client_instance_id, hs_observed_at = now,
        hs_client_version = client_version,
        hs_health = runtime_snapshot health (word_of_nat (hl_active_flows snapshot))
          (word_of_nat (hl_outbox_bytes snapshot))\<rparr>)"

definition emit_heartbeat_once ::
  "'l store_lib \<Rightarrow> (nat \<Rightarrow> nat \<Rightarrow> uuid) \<Rightarrow> (nat \<Rightarrow> nat \<Rightarrow> i64) \<Rightarrow> uuid \<Rightarrow> string \<Rightarrow> datetime \<Rightarrow> runtime_health
     \<Rightarrow> client_store \<times> blob_files \<Rightarrow> (client_store \<times> blob_files) \<times> ('l service_error + unit)" where
  "emit_heartbeat_once S ids clk client_instance_id client_version now health w =
     (let (w', r) = persist_ingress S ids clk w
        [heartbeat_record client_instance_id client_version now health (fst w)] [] in
      (w', mapr (\<lambda>_. ()) (map_err StoreFailed r)))"

text \<open>\<open>run_once\<close>: the four steps, up to the first that fails.\<close>

definition run_once ::
  "'l store_lib \<Rightarrow> (string \<Rightarrow> byte list \<Rightarrow> string + ingest_ack option) \<Rightarrow> string + command_poll_response
     \<Rightarrow> (nat \<Rightarrow> api_call \<Rightarrow> string + unit) \<Rightarrow> datetime \<Rightarrow> datetime \<Rightarrow> (nat \<Rightarrow> nat \<Rightarrow> i64) \<Rightarrow> command_clock \<Rightarrow> datetime
     \<Rightarrow> client_store \<times> blob_files \<Rightarrow> (client_store \<times> blob_files) \<times> ('l service_error + unit)" where
  "run_once S post answer api now later clk T at w =
     (let (st, files) = w in
      case flush_outbox_once S post now later st of
        (st1, Inl e) \<Rightarrow> ((st1, files), Inl e)
      | (st1, Inr _) \<Rightarrow>
          (case poll_command_once clk answer st1 of
             (st2, Inl e) \<Rightarrow> ((st2, files), Inl e)
           | (st2, Inr _) \<Rightarrow>
               (case execute_due_command_once S api T (st2, files) of
                  (st3, _, Inl e) \<Rightarrow> ((st3, files), Inl e)
                | (st3, _, Inr _) \<Rightarrow> (cleanup (st3, files) at, Inr ()))))"

text \<open>
  The waiting time of the loops for delivery, commands, cleaning, heartbeats and the scan, in seconds:
  what follows, and what is slept after an error.
\<close>

definition loop_backoff :: "nat \<Rightarrow> 'e + unit \<Rightarrow> nat \<times> nat option" where
  "loop_backoff backoff_seconds r =
     (case r of Inr _ \<Rightarrow> (1, None) | Inl _ \<Rightarrow> (min (backoff_seconds * 2) 30, Some backoff_seconds))"

text \<open>
  One turn of the loops that forward what a source gives: what was sent and the pause in milliseconds, or
  the end of the loop, because the receiver is gone or the source failed. \<open>alive\<close> tells whether the
  receiver still is there.
\<close>

datatype 'e source_turn = Forwarded "capture_input list" nat | ReceiverGone | SourceFailed 'e

definition capture_source_turn :: "nat \<Rightarrow> bool \<Rightarrow> 'e + capture_input option \<Rightarrow> 'e source_turn" where
  "capture_source_turn poll alive r =
     (case r of
        Inr (Some input) \<Rightarrow> if alive then Forwarded [input] 0 else ReceiverGone
      | Inr None \<Rightarrow> Forwarded [] poll
      | Inl e \<Rightarrow> SourceFailed e)"

definition process_source_turn ::
  "nat \<Rightarrow> nat \<Rightarrow> bool \<Rightarrow> 'e + capture_input list \<Rightarrow> 'e source_turn \<times> nat" where
  "process_source_turn interval backoff_seconds alive r =
     (case r of
        Inr events \<Rightarrow> (if alive \<or> events = [] then Forwarded events interval else ReceiverGone, 1)
      | Inl _ \<Rightarrow> (Forwarded [] (backoff_seconds * 1000), min (backoff_seconds * 2) 30))"

text \<open>Which sources \<open>run_daemon\<close> starts: the socket with its ports, the scan of \<open>/proc\<close>, the probes.\<close>

record daemon_sources =
  ds_tap :: "(int \<times> u16 list) option"
  ds_discovery :: bool
  ds_ebpf :: "(string \<times> string) option"

definition run_daemon_sources :: "client_config \<Rightarrow> ebpf_config_error + daemon_sources" where
  "run_daemon_sources cfg =
     bindr (validate_ebpf_config (cg_ebpf_object_path cfg) (cg_codex_binary_path cfg)) (\<lambda>_.
       mapr (\<lambda>factory.
         \<lparr>ds_tap = map_option (\<lambda>index. (index, cg_capture_remote_ports cfg)) (cg_capture_interface_index cfg),
          ds_discovery = (capture_enabled cfg \<or> cg_capture_codex_pid cfg \<noteq> None),
          ds_ebpf = factory\<rparr>)
       (ebpf_factory_from_config (cg_ebpf_object_path cfg) (cg_codex_binary_path cfg)))"

lemma probes_iff_enabled:
  "run_daemon_sources cfg = Inr d \<Longrightarrow> (ds_ebpf d \<noteq> None) = ebpf_enabled cfg"
  by (auto simp: run_daemon_sources_def ebpf_factory_from_config_def validate_ebpf_config_def ebpf_enabled_def
      bindr_eq_Inr mapr_eq_Inr split: option.splits)

section \<open>Fixtures\<close>

definition BASE64_TABLE :: "byte list" where
  "BASE64_TABLE = str_bytes ''ABCDEFGHIJKLMNOPQRSTUVWXYZabcdefghijklmnopqrstuvwxyz0123456789+/''"

fun position_from :: "nat \<Rightarrow> 'a \<Rightarrow> 'a list \<Rightarrow> nat option" where
  "position_from i x [] = None"
| "position_from i x (y # ys) = (if x = y then Some i else position_from (Suc i) x ys)"

definition base64_digit :: "byte \<Rightarrow> byte option" where
  "base64_digit b = map_option word_of_nat (position_from 0 b BASE64_TABLE)"

definition is_ascii_whitespace :: "byte \<Rightarrow> bool" where
  "is_ascii_whitespace b \<longleftrightarrow> b \<in> {9, 10, 12, 13, 32}"

fun base64_nums :: "byte list \<Rightarrow> 'l service_error + byte list \<times> nat" where
  "base64_nums [] = Inr ([], 0)"
| "base64_nums (b # bs) =
     (if b = 61 then mapr (\<lambda>(nums, padding). (0 # nums, Suc padding)) (base64_nums bs)
      else case base64_digit b of
        None \<Rightarrow> Inl Base64Character
      | Some n \<Rightarrow> mapr (\<lambda>(nums, padding). (n # nums, padding)) (base64_nums bs))"

definition base64_bytes :: "byte list \<Rightarrow> nat \<Rightarrow> byte list" where
  "base64_bytes nums padding =
     [or (push_bit 2 (nums ! 0)) (drop_bit 4 (nums ! 1))]
   @ (if padding < 2 then [or (push_bit 4 (nums ! 1)) (drop_bit 2 (nums ! 2))] else [])
   @ (if padding < 1 then [or (push_bit 6 (nums ! 2)) (nums ! 3)] else [])"

fun base64_chunks :: "byte list \<Rightarrow> 'l service_error + byte list" where
  "base64_chunks (a # b # c # d # rest) =
     bindr (base64_nums [a, b, c, d]) (\<lambda>(nums, padding).
       mapr (\<lambda>out. base64_bytes nums padding @ out) (base64_chunks rest))"
| "base64_chunks _ = Inr []"

definition base64_decode :: "string \<Rightarrow> 'l service_error + byte list" where
  "base64_decode value =
     (let filtered = filter (\<lambda>b. \<not> is_ascii_whitespace b) (str_bytes value) in
      if length filtered mod 4 \<noteq> 0 then Inl Base64Length else base64_chunks filtered)"

record fixture_content =
  fc_task :: task_key
  fc_part :: content_part
  fc_media_type :: string
  fc_body_base64 :: string
  fc_headers :: "(string \<times> string) list"
  fc_created_at :: datetime

record fixture_bundle =
  fx_records :: "summary_record list"
  fx_contents :: "fixture_content list"

definition fixture_input :: "fixture_content \<Rightarrow> 'l service_error + stored_content_input" where
  "fixture_input c =
     mapr (\<lambda>body. \<lparr>sc_task = fc_task c, sc_part = fc_part c, sc_media_type = fc_media_type c,
         sc_body = body, sc_headers = fc_headers c, sc_created_at = fc_created_at c\<rparr>)
       (base64_decode (fc_body_base64 c))"

definition ingest_fixture ::
  "'l store_lib \<Rightarrow> (nat \<Rightarrow> nat \<Rightarrow> uuid) \<Rightarrow> (nat \<Rightarrow> nat \<Rightarrow> i64) \<Rightarrow> client_store \<times> blob_files \<Rightarrow> fixture_bundle
     \<Rightarrow> (client_store \<times> blob_files) \<times> ('l service_error + persist_outcome)" where
  "ingest_fixture S ids clk w fixture =
     (case map_m fixture_input (fx_contents fixture) of
        Inl e \<Rightarrow> (w, Inl e)
      | Inr contents \<Rightarrow>
          (let (w', r) = persist_ingress S ids clk w (fx_records fixture) contents in
           (w', map_err StoreFailed r)))"

section \<open>Base64\<close>

text \<open>The encoder the fixtures are written with (RFC 4648).\<close>

definition base64_char :: "byte \<Rightarrow> byte" where
  "base64_char n = BASE64_TABLE ! unat n"

fun base64_encode :: "byte list \<Rightarrow> byte list" where
  "base64_encode [] = []"
| "base64_encode [a] = [base64_char (drop_bit 2 a), base64_char (push_bit 4 (take_bit 2 a)), 61, 61]"
| "base64_encode [a, b] = [base64_char (drop_bit 2 a),
     base64_char (or (push_bit 4 (take_bit 2 a)) (drop_bit 4 b)), base64_char (push_bit 2 (take_bit 4 b)), 61]"
| "base64_encode (a # b # c # rest) = [base64_char (drop_bit 2 a),
     base64_char (or (push_bit 4 (take_bit 2 a)) (drop_bit 4 b)),
     base64_char (or (push_bit 2 (take_bit 4 b)) (drop_bit 6 c)), base64_char (take_bit 6 c)]
     @ base64_encode rest"

lemma base64_table_bytes: "BASE64_TABLE = [65, 66, 67, 68, 69, 70, 71, 72, 73, 74, 75, 76, 77, 78, 79, 80, 81, 82, 83, 84, 85, 86, 87, 88, 89, 90, 97, 98, 99, 100, 101, 102, 103, 104, 105, 106, 107, 108, 109, 110, 111, 112, 113, 114, 115, 116, 117, 118, 119, 120, 121, 122, 48, 49, 50, 51, 52, 53, 54, 55, 56, 57, 43, 47]"
  by (simp add: BASE64_TABLE_def str_bytes_def)

lemma base64_table:
  "distinct BASE64_TABLE" "length BASE64_TABLE = 64" "61 \<notin> set BASE64_TABLE"
  "b \<in> set BASE64_TABLE \<Longrightarrow> \<not> is_ascii_whitespace b"
  by (simp_all add: base64_table_bytes is_ascii_whitespace_def) auto

lemma position_from_nth:
  "distinct xs \<Longrightarrow> i < length xs \<Longrightarrow> position_from k (xs ! i) xs = Some (k + i)"
  by (induction xs arbitrary: i k) (auto simp: nth_Cons' dest: nth_mem)

text \<open>A group of six bits: its two highest bits are clear.\<close>

definition sextet :: "byte \<Rightarrow> bool" where
  "sextet n \<longleftrightarrow> (\<forall>i. bit n i \<longrightarrow> i < 6)"

lemma sextet_bound:
  assumes "sextet n"
  shows "unat n < 64"
proof -
  have "n = take_bit 6 n"
    using assms by (intro bit_word_eqI) (auto simp: bit_simps sextet_def)
  then have "unat n = take_bit 6 (unat n)"
    by (metis unsigned_take_bit_eq)
  moreover have "take_bit 6 (unat n) < 2 ^ 6"
    by (rule take_bit_nat_less_exp)
  ultimately show ?thesis by simp
qed

lemma base64_char_facts:
  assumes "sextet n"
  shows "base64_digit (base64_char n) = Some n" and "base64_char n \<noteq> 61"
    and "\<not> is_ascii_whitespace (base64_char n)"
proof -
  have i: "unat n < length BASE64_TABLE"
    using sextet_bound [OF assms] by (simp add: base64_table)
  then have m: "base64_char n \<in> set BASE64_TABLE" by (simp add: base64_char_def)
  show "base64_digit (base64_char n) = Some n"
    using position_from_nth [OF base64_table(1) i, of 0] by (simp add: base64_digit_def base64_char_def)
  show "base64_char n \<noteq> 61" using m base64_table(3) by metis
  show "\<not> is_ascii_whitespace (base64_char n)" using m by (rule base64_table(4))
qed

lemma byte_bit: "bit b i \<Longrightarrow> i < 8" for b :: byte
  using bit_imp_le_length [of b i] by simp

lemma byte_eqI:
  fixes a b :: byte
  assumes "bit a 0 = bit b 0" "bit a 1 = bit b 1" "bit a 2 = bit b 2" "bit a 3 = bit b 3"
    "bit a 4 = bit b 4" "bit a 5 = bit b 5" "bit a 6 = bit b 6" "bit a 7 = bit b 7"
  shows "a = b"
proof (rule bit_word_eqI)
  fix n assume "n < LENGTH(8)"
  then have "n \<in> {0, 1, 2, 3, 4, 5, 6, 7}" by auto
  with assms show "bit a n = bit b n" by auto
qed

lemma sextets [simp]:
  "sextet (drop_bit 2 a)" "sextet (push_bit 4 (take_bit 2 a))"
  "sextet (or (push_bit 4 (take_bit 2 a)) (drop_bit 4 b))" "sextet (push_bit 2 (take_bit 4 b))"
  "sextet (or (push_bit 2 (take_bit 4 b)) (drop_bit 6 c))" "sextet (take_bit 6 c)"
  by (auto simp: sextet_def bit_simps dest: byte_bit)

lemma base64_group:
  fixes a b c :: byte
  shows "or (push_bit 2 (drop_bit 2 a)) (drop_bit 4 (or (push_bit 4 (take_bit 2 a)) (drop_bit 4 b))) = a"
    and "or (push_bit 2 (drop_bit 2 a)) (drop_bit 4 (push_bit 4 (take_bit 2 a))) = a"
    and "or (push_bit 4 (or (push_bit 4 (take_bit 2 a)) (drop_bit 4 b)))
     (drop_bit 2 (or (push_bit 2 (take_bit 4 b)) (drop_bit 6 c))) = b"
    and "or (push_bit 4 (or (push_bit 4 (take_bit 2 a)) (drop_bit 4 b))) (drop_bit 2 (push_bit 2 (take_bit 4 b))) = b"
    and "or (push_bit 6 (or (push_bit 2 (take_bit 4 b)) (drop_bit 6 c))) (take_bit 6 c) = c"
  by (rule byte_eqI; simp add: bit_simps)+

lemma base64_clean: "b \<in> set (base64_encode bs) \<Longrightarrow> \<not> is_ascii_whitespace b"
  by (induction bs rule: base64_encode.induct)
    (auto simp: base64_char_facts(3), simp_all add: is_ascii_whitespace_def)

lemma base64_length: "length (base64_encode bs) mod 4 = 0"
  by (induction bs rule: base64_encode.induct) auto

lemma base64_chunks_encode: "base64_chunks (base64_encode bs) = Inr bs"
proof (induction bs rule: base64_encode.induct)
  case (2 a)
  then show ?case
    by (simp add: base64_char_facts(1,2) base64_bytes_def base64_group(2) del: push_bit_or drop_bit_or)
next
  case (3 a b)
  then show ?case
    by (simp add: base64_char_facts(1,2) base64_bytes_def base64_group(1,4) del: push_bit_or drop_bit_or)
next
  case (4 a b c rest)
  then show ?case
    by (simp add: base64_char_facts(1,2) base64_bytes_def base64_group(1,3,5) del: push_bit_or drop_bit_or)
qed simp

lemma str_bytes_bytes_str: "str_bytes (bytes_str bs) = bs"
proof -
  have "of_char (char_of (unat b) :: char) = b" for b :: byte
  proof -
    have "(of_char (char_of (unat b) :: char) :: byte) = word_of_nat (of_char (char_of (unat b) :: char))"
      by (rule of_nat_of_char [symmetric])
    also have "\<dots> = word_of_nat (unat b mod 2 ^ 8)" by simp
    also have "\<dots> = b" using unsigned_less [of b, where 'a = nat] by (simp add: mod_less del: of_nat_mod)
    finally show ?thesis .
  qed
  then show ?thesis by (simp add: str_bytes_def bytes_str_def map_idI)
qed

section \<open>What an upload sends\<close>

text \<open>Every call of the list was answered well, the first of them as the \<open>n\<close>-th of the execution.\<close>

fun accepted :: "(nat \<Rightarrow> api_call \<Rightarrow> string + unit) \<Rightarrow> nat \<Rightarrow> api_call list \<Rightarrow> bool" where
  "accepted api n [] = True"
| "accepted api n (c # cs) = (api n c = Inr () \<and> accepted api (Suc n) cs)"

lemma accepted_append [simp]:
  "accepted api n (cs @ ds) = (accepted api n cs \<and> accepted api (n + length cs) ds)"
  by (induction cs arbitrary: n) auto

lemma post_chunks_accepted:
  "post_chunks api n i cs = (calls, Inr u) \<Longrightarrow> calls = map (PostChunk i) cs \<and> accepted api n calls"
  by (induction cs arbitrary: n calls) (auto split: sum.splits prod.splits)

definition chunks_of_manifests ::
  "blob_lib \<Rightarrow> blob_files \<Rightarrow> content_object_manifest list \<Rightarrow> content_upload_chunk list list \<Rightarrow> bool" where
  "chunks_of_manifests B files ms css =
     list_all2 (\<lambda>m cs. load_chunks B files (mf_object_sha256 m) (mf_request_id m) = Inr cs) ms css"

lemma upload_loop_accepted:
  assumes "upload_loop api B files n i ms = (calls, Inr u)"
  shows "\<exists>css. chunks_of_manifests B files ms css \<and> calls = map (PostChunk i) (concat css)
    \<and> accepted api n calls"
  using assms
proof (induction ms arbitrary: n calls)
  case Nil
  then show ?case by (intro exI [of _ "[]"]) (simp add: chunks_of_manifests_def)
next
  case (Cons m ms)
  from Cons.prems obtain cs sent more where
    l: "load_chunks B files (mf_object_sha256 m) (mf_request_id m) = Inr cs"
      "post_chunks api n i cs = (sent, Inr ())"
      "upload_loop api B files (n + length sent) i ms = (more, Inr u)" "calls = sent @ more"
    by (auto split: sum.splits prod.splits)
  from Cons.IH [OF l(3)] obtain css where
    c: "chunks_of_manifests B files ms css" "more = map (PostChunk i) (concat css)"
      "accepted api (n + length sent) more" by blast
  from post_chunks_accepted [OF l(2)] have "sent = map (PostChunk i) cs" "accepted api n sent" by auto
  with c l show ?case
    by (intro exI [of _ "cs # css"]) (simp add: chunks_of_manifests_def)
qed

lemma manifests_of_parts:
  "manifests_loop st clk i request ms parts = Inr ms' \<Longrightarrow> map mf_part ms' = map mf_part ms @ parts
     \<and> (\<forall>m \<in> set ms' - set ms. mf_request_id m = cr_request_id request)"
  by (induction parts arbitrary: i ms) (fastforce simp: manifest_of_def split: option.splits if_splits)+

text \<open>The status of a command after an execution: \<open>row_update\<close> on its rows.\<close>

lemma command_update:
  assumes "\<And>r. cw_command_id (f r) = cw_command_id r"
    and "row_find cw_command_id i (row_update (\<lambda>r. cw_command_id r = j) f rows) = Some row'"
    and "row_find cw_command_id i rows = Some row"
  shows "row' = (if i = j then f row else row)"
  using assms row_find_update [of cw_command_id f i j rows] by (auto split: if_splits)

lemma unpin_commands [simp]: "st_commands (unpin st i) = st_commands st"
  by (simp add: unpin_def)

definition completed_as :: "client_store \<Rightarrow> uuid \<Rightarrow> content_upload_result \<Rightarrow> bool" where
  "completed_as st i q =
     is_some_and (row_find cw_command_id i (st_commands st))
       (\<lambda>r. cw_status r = command_status.Completed \<and> cw_result r = Some q)"

definition not_completed :: "client_store \<Rightarrow> uuid \<Rightarrow> bool" where
  "not_completed st i =
     is_some_and (row_find cw_command_id i (st_commands st)) (\<lambda>r. cw_status r \<noteq> command_status.Completed)"

lemma not_completed_contra: "not_completed st i \<Longrightarrow> \<not> completed_as st i q"
  by (auto simp: not_completed_def completed_as_def is_some_and_def split: option.splits)

lemma completed_by_complete:
  "not_completed st i \<Longrightarrow> completed_as (complete_command st a b j result keep) i q \<Longrightarrow> i = j \<and> q = result"
  by (auto simp: not_completed_def completed_as_def is_some_and_def complete_command_def Let_def
      row_find_update split: option.splits if_splits)

lemma not_completed_fail:
  "not_completed st i \<Longrightarrow> fail_command S st now j e keep = Inr st' \<Longrightarrow> not_completed st' i"
  by (auto simp: not_completed_def is_some_and_def fail_command_def Let_def
      row_find_update split: option.splits if_splits)

lemma not_completed_prepare:
  "not_completed st i \<Longrightarrow> not_completed (fst (prepare_upload st clk command)) i"
  by (auto simp: not_completed_def is_some_and_def prepare_upload_def Let_def
      row_find_update split: option.splits if_splits sum.splits client_command.splits)

lemma not_completed_failed:
  "not_completed st i \<Longrightarrow> not_completed (fst (failed_command S T st j e)) i"
  by (auto simp: failed_command_def dest: not_completed_fail split: sum.splits)

lemma completed_by_post:
  assumes "not_completed st i" and "posted_result api T n st j result = (st', r)"
    and "completed_as st' i q"
  shows "i = j \<and> q = result \<and> r = Inr () \<and> api n (PostResult j result) = Inr ()"
  using assms by (auto simp: posted_result_def dest: completed_by_complete not_completed_contra
      split: sum.splits)

lemma prepared_ready:
  assumes "prepare_upload st clk (RequestContent content) = (st1, Ready work)"
  shows "uw_command_id work = cc_command_id content
    \<and> uw_request_id work = cr_request_id (cc_request content)
    \<and> map mf_part (uw_manifests work) = cr_parts (cc_request content)
    \<and> (\<forall>m \<in> set (uw_manifests work). mf_request_id m = cr_request_id (cc_request content))"
  using assms by (auto simp: prepare_upload_def Let_def expired_result_def dest!: manifests_of_parts
      split: if_splits sum.splits)

lemma prepared_expired:
  assumes "prepare_upload st clk (RequestContent content) = (st1, Expired j result)"
  shows "j = cc_command_id content \<and> cu_status result = content_upload_status.ContentExpired"
  using assms by (auto simp: prepare_upload_def Let_def expired_result_def split: if_splits sum.splits)

text \<open>The calls by which a command ends as stored.\<close>

definition upload_calls ::
  "blob_lib \<Rightarrow> blob_files \<Rightarrow> content_request_command \<Rightarrow> content_upload_result \<Rightarrow> api_call list \<Rightarrow> bool" where
  "upload_calls B files content q calls \<longleftrightarrow>
     (\<exists>ms css. map mf_part ms = cr_parts (cc_request content)
        \<and> (\<forall>m \<in> set ms. mf_request_id m = cr_request_id (cc_request content))
        \<and> chunks_of_manifests B files ms css
        \<and> calls = PostManifests (cc_command_id content) ms
            # map (PostChunk (cc_command_id content)) (concat css) @ [PostResult (cc_command_id content) q])"

lemma run_upload_completes:
  assumes "prepare_upload st0 clk (RequestContent content) = (st, Ready work)"
    and "run_upload S api T files st work = (st', calls, r)"
    and "not_completed st i" and "completed_as st' i q"
  shows "i = cc_command_id content \<and> accepted api 0 calls \<and> r = Inr ()
    \<and> upload_calls (blob_lib_of S) files content q calls"
proof -
  note w = prepared_ready [OF assms(1)]
  let ?res = "\<lparr>cu_request_id = uw_request_id work, cu_status = content_upload_status.Stored, cu_note = None\<rparr>"
  have f: "\<And>e a b. failed_command S T st (uw_command_id work) e = (a, b) \<Longrightarrow> \<not> completed_as a i q"
    using assms(3) by (metis fst_conv not_completed_failed not_completed_contra)
  have g: "\<not> completed_as st i q" using assms(3) by (rule not_completed_contra)
  obtain sent where
    a: "api 0 (PostManifests (uw_command_id work) (uw_manifests work)) = Inr ()"
      "upload_loop api (blob_lib_of S) files 1 (uw_command_id work) (uw_manifests work) = (sent, Inr ())"
      "posted_result api T (Suc (length sent)) st (uw_command_id work) ?res = (st', r)"
      "calls = PostManifests (uw_command_id work) (uw_manifests work) # sent
         @ [PostResult (uw_command_id work) ?res]"
    using assms(2,4) f g
    by (auto simp: run_upload_def Let_def split: sum.splits prod.splits upload_failure.splits)
  from upload_loop_accepted [OF a(2)] obtain css where
    c: "chunks_of_manifests (blob_lib_of S) files (uw_manifests work) css"
      "sent = map (PostChunk (uw_command_id work)) (concat css)" "accepted api 1 sent" by blast
  show ?thesis
    using completed_by_post [OF assms(3) a(3) assms(4)] a c w
    by (auto simp: upload_calls_def intro!: exI [of _ "uw_manifests work"] exI [of _ css])
qed

section \<open>Properties\<close>

text \<open>C12. A command ends as stored only after the whole content reached the server: whenever executing
  the due command completes a command that was not complete, every call of the execution was answered
  well, the last one posts the result the command was completed with, and when that result says the
  content is stored, the calls are the manifests of exactly the requested parts, then every chunk of
  every manifest in order, then the result. A command is therefore never completed by a failed upload.\<close>

theorem completed_only_after_upload:
  assumes "execute_due_command_once S api T (st, files) = (st', calls, r)"
    and "not_completed st i" and "completed_as st' i q"
  shows "accepted api 0 calls \<and> r = Inr () \<and> calls \<noteq> [] \<and> last calls = PostResult i q
    \<and> (cu_status q = content_upload_status.Stored \<longrightarrow>
        (\<exists>content. cc_command_id content = i
           \<and> upload_calls (blob_lib_of S) files content q calls))"
proof -
  from assms obtain stored where s: "next_due_command st (cl_now T) = Some stored"
    by (auto simp: execute_due_command_once_def dest: not_completed_contra split: option.splits)
  obtain content where c: "sd_command stored = RequestContent content" by (cases "sd_command stored")
  obtain st1 prepared where
    p: "prepare_upload st (cl_prepare T) (RequestContent content) = (st1, prepared)" by fastforce
  have n: "not_completed st1 i" using not_completed_prepare [OF assms(2)] p by (metis fst_conv)
  show ?thesis
  proof (cases prepared)
    case (Expired j result)
    then show ?thesis
      using assms s c p n prepared_expired [of st "cl_prepare T" content st1 j result]
      by (auto simp: execute_due_command_once_def dest: completed_by_post split: prod.splits)
  next
    case (Ready work)
    then have "run_upload S api T files st1 work = (st', calls, r)"
      using assms(1) s c p by (simp add: execute_due_command_once_def)
    from run_upload_completes [OF p [unfolded Ready] this n assms(3)] show ?thesis
      by (auto simp: upload_calls_def)
  qed
qed

definition sample_clock :: command_clock where
  "sample_clock = \<lparr>cl_now = 9000000, cl_prepare = (\<lambda>i. 5), cl_completed = 6, cl_next = 7, cl_failed = 0\<rparr>"

definition sample_due :: client_store where
  "sample_due = save_commands (\<lambda>i k. 0) (fst sample_stored)
     \<lparr>cp_server_time_ms = 0, cp_commands = [RequestContent sample_content]\<rparr>"

lemma post_chunks_all_accepted [simp]:
  "post_chunks (\<lambda>n c. Inr ()) n i cs = (map (PostChunk i) cs, Inr ())"
  by (induction cs arbitrary: n) auto

definition sample_execution where
  "sample_execution = execute_due_command_once sample_store_lib (\<lambda>n c. Inr ()) sample_clock
     (sample_due, snd sample_stored)"

definition sample_result :: content_upload_result where
  "sample_result = \<lparr>cu_request_id = Uuid 7 61, cu_status = content_upload_status.Stored, cu_note = None\<rparr>"

theorem completed_only_after_upload_witness:
  "last (fst (snd sample_execution)) = PostResult (Uuid 7 60) sample_result
   \<and> (\<exists>content. cc_command_id content = Uuid 7 60 \<and> upload_calls (blob_lib_of sample_store_lib)
        (snd sample_stored) content sample_result (fst (snd sample_execution)))"
proof -
  note e = sample_stored_def sample_content_def prepare_upload_def Let_def persist_ingress_def
        blob_store_def blob_lib_of_def store_raw_object_def raw_row_of_def latest_raw_def
        enqueue_records_def sample_store_lib_def empty_store_def sample_key_def key_task_ref_def
        trim_graphic is_graphic_def code_def ts_def RETENTION_HOURS_def is_some_and_def row_replace_def
        manifest_of_def sample_due_def save_commands_def row_insert_new_def sample_execution_def
        execute_due_command_once_def next_due_command_def sample_clock_def run_upload_def
        posted_result_def complete_command_def row_update_def load_chunks_def sample_result_def
  have a: "not_completed sample_due (Uuid 7 60)"
    by (simp add: not_completed_def e)
  have b: "completed_as (fst sample_execution) (Uuid 7 60) sample_result"
    by (simp add: completed_as_def unpin_commands e)
  obtain st' calls r where x: "sample_execution = (st', calls, r)" by (cases sample_execution)
  have "completed_as st' (Uuid 7 60) sample_result" using b by (simp add: x)
  from completed_only_after_upload [OF x [unfolded sample_execution_def] a this] show ?thesis
    by (simp add: x sample_result_def)
qed

text \<open>A body of a fixture that was written in base64 is read back byte for byte.\<close>

theorem base64_round_trip: "base64_decode (bytes_str (base64_encode bs)) = Inr bs"
proof -
  have "filter (\<lambda>b. \<not> is_ascii_whitespace b) (base64_encode bs) = base64_encode bs"
    using base64_clean by (simp add: filter_id_conv)
  then show ?thesis by (simp add: base64_decode_def base64_length base64_chunks_encode str_bytes_bytes_str)
qed

end
