(* ===== verification/Server_Tables.thy ===== *)
theory Server_Tables
  imports Protocol_Codec Sql_Rows
begin

text \<open>
  The tables of \<open>migrate\<close> in \<open>crates/server/src/lib.rs\<close>: one record for each row, one list of rows
  for each table, all of them in \<open>server_state\<close>. A JSON column holds the value it serialises, an
  \<open>INTEGER\<close> column filled from a \<open>u32\<close> keeps the word. The handlers answer with the status codes
  they use; \<open>server_lib\<close> holds the third-party functions they call.
\<close>

datatype status_code =
    BAD_REQUEST | UNAUTHORIZED | FORBIDDEN | NOT_FOUND | CONFLICT | PAYLOAD_TOO_LARGE
  | INTERNAL_SERVER_ERROR

record 'l server_lib =
  xl_wire :: "'l wire_lib"
  xl_decode_all :: "byte list \<Rightarrow> byte list option"
  xl_show_uuid :: "uuid \<Rightarrow> string"

definition CONTENT_CONVERSATION_LIMIT :: nat where
  "CONTENT_CONVERSATION_LIMIT = 30"

definition HEARTBEAT_RETENTION_MS :: i64 where
  "HEARTBEAT_RETENTION_MS = 30 * 24 * 60 * 60 * 1000"

definition EPHEMERA_RETENTION_MS :: i64 where
  "EPHEMERA_RETENTION_MS = 180 * 24 * 60 * 60 * 1000"

definition RECEIPT_RETENTION_MS :: i64 where
  "RECEIPT_RETENTION_MS = 400 * 24 * 60 * 60 * 1000"

section \<open>Rows\<close>

record client_entry =
  ce_client_id :: string
  ce_created_at_ms :: i64

record token_entry =
  tok_token_hash :: string
  tok_client_id :: string
  tok_role :: string
  tok_created_at_ms :: i64
  tok_revoked_at_ms :: "i64 option"

record instance_entry =
  ie_instance_id :: uuid
  ie_client_id :: string
  ie_hostname :: string
  ie_platform :: string
  ie_codex_version :: string
  ie_started_at_ms :: i64
  ie_last_seen_at_ms :: i64

record session_entry =
  ses_client_id :: string
  ses_provider :: string
  ses_session_id :: string
  ses_thread_id :: string
  ses_first_seen_at_ms :: i64
  ses_last_seen_at_ms :: i64

record task_entry =
  te_task_ref :: string
  te_client_id :: string
  te_provider :: string
  te_session_id :: string
  te_thread_id :: string
  te_turn_id :: string
  te_phase :: task_phase
  te_terminal :: "terminal_outcome option"
  te_updated_at_ms :: i64
  te_snapshot :: task_snapshot

record codex_entry =
  xe_task_ref :: string
  xe_request_kind :: string
  xe_parent_turn_id :: "string option"
  xe_root_turn_id :: "string option"

text \<open>The rows of \<open>attempts\<close>, \<open>task_events\<close>, \<open>errors\<close>, \<open>capture_gaps\<close> and \<open>http_exchanges\<close>.\<close>

record 'p payload_entry =
  pay_task_ref :: string
  pay_id :: uuid
  pay_at_ms :: i64
  pay_payload :: 'p

record receipt_entry =
  rc_client_id :: string
  rc_batch_id :: uuid
  rc_payload_sha256 :: string
  rc_received_at_ms :: i64

record command_entry =
  co_command_id :: uuid
  co_request_id :: uuid
  co_client_id :: string
  co_status :: string
  co_created_at_ms :: i64
  co_delivered_at_ms :: "i64 option"
  co_completed_at_ms :: "i64 option"
  co_payload :: client_command

record request_entry =
  rq_request_id :: uuid
  rq_client_id :: string
  rq_task_ref :: string
  rq_session_id :: string
  rq_thread_id :: string
  rq_parts :: "content_part list"
  rq_created_at_ms :: i64
  rq_expires_at_ms :: "i64 option"
  rq_completed_at_ms :: "i64 option"
  rq_status :: string
  rq_outcome :: "string option"

record manifest_entry =
  me_request_id :: uuid
  me_object_sha256 :: string
  me_client_id :: string
  me_manifest :: content_object_manifest
  me_created_at_ms :: i64

record chunk_entry =
  ck_request_id :: uuid
  ck_object_sha256 :: string
  ck_chunk_index :: u32
  ck_chunk_count :: u32
  ck_payload_sha256 :: string
  ck_payload_zstd :: "byte list"
  ck_is_last :: bool
  ck_received_at_ms :: i64

record object_entry =
  ob_object_sha256 :: string
  ob_content_zstd :: "byte list"
  ob_uncompressed_bytes :: i64
  ob_compressed_bytes :: i64
  ob_created_at_ms :: i64
  ob_last_accessed_at_ms :: i64

record link_entry =
  lk_request_id :: uuid
  lk_object_sha256 :: string
  lk_client_id :: string
  lk_session_id :: string
  lk_thread_id :: string
  lk_manifest :: content_object_manifest
  lk_created_at_ms :: i64
  lk_last_accessed_at_ms :: i64

record conversation_entry =
  cv_client_id :: string
  cv_session_id :: string
  cv_thread_id :: string
  cv_last_requested_at_ms :: i64

record server_state =
  sv_clients :: "client_entry list"
  sv_api_tokens :: "token_entry list"
  sv_client_instances :: "instance_entry list"
  sv_sessions :: "session_entry list"
  sv_tasks :: "task_entry list"
  sv_codex_tasks :: "codex_entry list"
  sv_attempts :: "attempt_record payload_entry list"
  sv_task_events :: "task_event payload_entry list"
  sv_errors :: "error_record payload_entry list"
  sv_capture_gaps :: "capture_gap_record payload_entry list"
  sv_http_exchanges :: "string payload_entry list"
  sv_heartbeats :: "heartbeat list"
  sv_ingest_receipts :: "receipt_entry list"
  sv_commands :: "command_entry list"
  sv_content_requests :: "request_entry list"
  sv_content_manifests :: "manifest_entry list"
  sv_content_chunks :: "chunk_entry list"
  sv_content_objects :: "object_entry list"
  sv_content_links :: "link_entry list"
  sv_content_conversations :: "conversation_entry list"

definition empty_server :: server_state where
  "empty_server = \<lparr>sv_clients = [], sv_api_tokens = [], sv_client_instances = [], sv_sessions = [],
     sv_tasks = [], sv_codex_tasks = [], sv_attempts = [], sv_task_events = [], sv_errors = [],
     sv_capture_gaps = [], sv_http_exchanges = [], sv_heartbeats = [], sv_ingest_receipts = [],
     sv_commands = [], sv_content_requests = [], sv_content_manifests = [], sv_content_chunks = [],
     sv_content_objects = [], sv_content_links = [], sv_content_conversations = []\<rparr>"

section \<open>Principals\<close>

datatype token_role = Client | Reader | Admin

fun role_as_str :: "token_role \<Rightarrow> string" where
  "role_as_str Client = ''client''"
| "role_as_str Reader = ''reader''"
| "role_as_str Admin = ''admin''"

definition role_from_db :: "string \<Rightarrow> token_role option" where
  "role_from_db value =
     (if value = ''client'' then Some Client
      else if value = ''reader'' then Some Reader
      else if value = ''admin'' then Some Admin
      else None)"

definition can_ingest :: "token_role \<Rightarrow> bool" where
  "can_ingest r = (r = Client)"

definition can_query :: "token_role \<Rightarrow> bool" where
  "can_query r = (r = Reader \<or> r = Admin)"

definition is_admin :: "token_role \<Rightarrow> bool" where
  "is_admin r = (r = Admin)"

record principal =
  pn_client_id :: string
  pn_role :: token_role

definition hash_token :: "'l server_lib \<Rightarrow> string \<Rightarrow> string" where
  "hash_token X token = sha256_hex (xl_wire X) (str_bytes token)"

text \<open>
  \<open>authorization\<close> is the value of the request's \<open>Authorization\<close> header when it has one that is
  text.
\<close>

definition authorize :: "'l server_lib \<Rightarrow> server_state \<Rightarrow> string option \<Rightarrow> status_code + principal" where
  "authorize X st authorization =
     bindr (ok_or (Option.bind authorization (\<lambda>v. strip_prefix v ''Bearer '')) UNAUTHORIZED)
       (\<lambda>token.
     bindr (ok_or (find (\<lambda>r. tok_token_hash r = hash_token X token \<and> tok_revoked_at_ms r = None)
                     (sv_api_tokens st)) UNAUTHORIZED) (\<lambda>row.
     bindr (ok_or (role_from_db (tok_role row)) FORBIDDEN) (\<lambda>role.
       Inr \<lparr>pn_client_id = tok_client_id row, pn_role = role\<rparr>)))"

definition ensure_client_role :: "principal \<Rightarrow> status_code + unit" where
  "ensure_client_role p = (if can_ingest (pn_role p) then Inr () else Inl FORBIDDEN)"

definition ensure_query_role :: "principal \<Rightarrow> status_code + unit" where
  "ensure_query_role p = (if can_query (pn_role p) then Inr () else Inl FORBIDDEN)"

definition ensure_admin_role :: "principal \<Rightarrow> status_code + unit" where
  "ensure_admin_role p = (if is_admin (pn_role p) then Inr () else Inl FORBIDDEN)"

text \<open>What the handlers of client requests begin with.\<close>

definition authorize_client :: "'l server_lib \<Rightarrow> server_state \<Rightarrow> string option \<Rightarrow> status_code + principal" where
  "authorize_client X st authorization =
     bindr (authorize X st authorization) (\<lambda>p. bindr (ensure_client_role p) (\<lambda>_. Inr p))"

definition ensure_client_exists :: "server_state \<Rightarrow> string \<Rightarrow> i64 \<Rightarrow> server_state" where
  "ensure_client_exists st client_id now =
     st\<lparr>sv_clients := row_insert_new ce_client_id
          \<lparr>ce_client_id = client_id, ce_created_at_ms = now\<rparr> (sv_clients st)\<rparr>"

definition upsert_token ::
  "'l server_lib \<Rightarrow> server_state \<Rightarrow> string \<Rightarrow> string \<Rightarrow> token_role \<Rightarrow> i64 \<Rightarrow> server_state" where
  "upsert_token X st client_id token role now =
     st\<lparr>sv_api_tokens := row_upsert tok_token_hash
          \<lparr>tok_token_hash = hash_token X token, tok_client_id = client_id,
           tok_role = role_as_str role, tok_created_at_ms = now, tok_revoked_at_ms = None\<rparr>
          (\<lambda>r. r\<lparr>tok_client_id := client_id, tok_role := role_as_str role, tok_revoked_at_ms := None\<rparr>)
          (sv_api_tokens st)\<rparr>"

text \<open>The state changes of \<open>issue_token\<close> and \<open>revoke_token\<close>; \<open>clk\<close> gives their clock reads.\<close>

definition issue_token ::
  "'l server_lib \<Rightarrow> server_state \<Rightarrow> (nat \<Rightarrow> i64) \<Rightarrow> string \<Rightarrow> string \<Rightarrow> token_role option \<Rightarrow> bool
     \<Rightarrow> server_state" where
  "issue_token X st clk client_id token role admin =
     (let r = if admin then Admin else unwrap_or role Client in
      upsert_token X (ensure_client_exists st client_id (clk 0)) client_id token r (clk 1))"

definition revoke_token :: "'l server_lib \<Rightarrow> server_state \<Rightarrow> i64 \<Rightarrow> string \<Rightarrow> server_state" where
  "revoke_token X st now token =
     st\<lparr>sv_api_tokens := row_update (\<lambda>r. tok_token_hash r = hash_token X token)
          (\<lambda>r. r\<lparr>tok_revoked_at_ms := Some now\<rparr>) (sv_api_tokens st)\<rparr>"

lemma role_round_trip [simp]: "role_from_db (role_as_str r) = Some r"
  by (cases r) (simp_all add: role_from_db_def)

lemma authorize_client_ok:
  "authorize_client X st a = Inr p \<longleftrightarrow> authorize X st a = Inr p \<and> pn_role p = Client"
  by (auto simp: authorize_client_def bindr_eq_Inr ensure_client_role_def can_ingest_def)

end
