(* ===== verification/Server_Ingest.thy ===== *)
theory Server_Ingest
  imports Server_Tables
begin

text \<open>
  The ingest handler of \<open>crates/server/src/lib.rs\<close> and the retention of what it stores. A handler
  is a function from the state to the state and the answer; one that fails has rolled its
  transaction back. The only statement of the ingest that can violate a constraint is the plain
  \<open>INSERT\<close> of a heartbeat.
\<close>

section \<open>Storing a batch\<close>

definition persist_client :: "server_state \<Rightarrow> ingest_batch \<Rightarrow> server_state" where
  "persist_client st b =
     (let c = ib_client b; now = ib_generated_at_ms b;
          st' = ensure_client_exists st (ci_client_id c) now in
      st'\<lparr>sv_client_instances := row_upsert ie_instance_id
            \<lparr>ie_instance_id = ci_instance_id c, ie_client_id = ci_client_id c,
             ie_hostname = ci_hostname c, ie_platform = ci_platform c,
             ie_codex_version = ci_codex_version c, ie_started_at_ms = ci_started_at_ms c,
             ie_last_seen_at_ms = now\<rparr>
            (\<lambda>r. r\<lparr>ie_hostname := ci_hostname c, ie_platform := ci_platform c,
               ie_codex_version := ci_codex_version c, ie_last_seen_at_ms := now\<rparr>)
            (sv_client_instances st')\<rparr>)"

text \<open>\<open>upsert_payloads\<close> on one table: \<open>id_fn\<close> and \<open>ts_fn\<close> read the key and the time of an item.\<close>

definition upsert_payloads ::
  "string \<Rightarrow> ('p \<Rightarrow> uuid) \<Rightarrow> ('p \<Rightarrow> i64) \<Rightarrow> 'p list \<Rightarrow> 'p payload_entry list \<Rightarrow> 'p payload_entry list" where
  "upsert_payloads task_ref id_fn ts_fn items rows =
     fold (\<lambda>item. row_upsert pay_id
         \<lparr>pay_task_ref = task_ref, pay_id = id_fn item, pay_at_ms = ts_fn item, pay_payload = item\<rparr>
         (\<lambda>r. r\<lparr>pay_task_ref := task_ref, pay_at_ms := ts_fn item, pay_payload := item\<rparr>))
       items rows"

definition task_entry_of :: "string \<Rightarrow> task_snapshot \<Rightarrow> task_entry" where
  "task_entry_of client_id s =
     \<lparr>te_task_ref = sn_task_ref s, te_client_id = client_id,
      te_provider = id_provider (sn_identity s), te_session_id = id_session_id (sn_identity s),
      te_thread_id = id_thread_id (sn_identity s), te_turn_id = id_turn_id (sn_identity s),
      te_phase = sn_phase s, te_terminal = sn_terminal s,
      te_updated_at_ms = sn_updated_at_ms s, te_snapshot = s\<rparr>"

definition persist_task_upload :: "server_state \<Rightarrow> string \<Rightarrow> task_upload \<Rightarrow> server_state" where
  "persist_task_upload st client_id u =
     (let s = up_snapshot u; i = sn_identity s; k = sn_task_ref s in
      st\<lparr>sv_sessions := row_upsert
           (\<lambda>r. (ses_client_id r, ses_provider r, ses_session_id r, ses_thread_id r))
           \<lparr>ses_client_id = client_id, ses_provider = id_provider i, ses_session_id = id_session_id i,
            ses_thread_id = id_thread_id i, ses_first_seen_at_ms = sn_started_at_ms s,
            ses_last_seen_at_ms = sn_updated_at_ms s\<rparr>
           (\<lambda>r. r\<lparr>ses_last_seen_at_ms := sn_updated_at_ms s\<rparr>) (sv_sessions st),
         sv_tasks := row_put te_task_ref (task_entry_of client_id s) (sv_tasks st),
         sv_codex_tasks := row_put xe_task_ref
           \<lparr>xe_task_ref = k, xe_request_kind = cm_request_kind (sn_codex s),
            xe_parent_turn_id = cm_parent_turn_id (sn_codex s),
            xe_root_turn_id = cm_root_turn_id (sn_codex s)\<rparr> (sv_codex_tasks st),
         sv_attempts := upsert_payloads k at_attempt_id at_started_at_ms (up_attempts u) (sv_attempts st),
         sv_task_events := upsert_payloads k ev_event_id ev_occurred_at_ms (up_events u)
           (sv_task_events st),
         sv_errors := upsert_payloads k er_error_id er_occurred_at_ms (up_errors u) (sv_errors st),
         sv_capture_gaps := upsert_payloads k gap_gap_id gap_occurred_at_ms (up_gaps u)
           (sv_capture_gaps st)\<rparr>)"

definition persist_heartbeat :: "server_state \<Rightarrow> heartbeat \<Rightarrow> status_code + server_state" where
  "persist_heartbeat st h =
     (if row_find hb_heartbeat_id (hb_heartbeat_id h) (sv_heartbeats st) \<noteq> None
      then Inl INTERNAL_SERVER_ERROR
      else Inr (st\<lparr>sv_heartbeats := sv_heartbeats st @ [h]\<rparr>))"

fun persist_heartbeats :: "server_state \<Rightarrow> heartbeat list \<Rightarrow> status_code + server_state" where
  "persist_heartbeats st [] = Inr st"
| "persist_heartbeats st (h # hs) = bindr (persist_heartbeat st h) (\<lambda>st'. persist_heartbeats st' hs)"

section \<open>The handler\<close>

datatype ingest_response = Ack ingest_ack | IngestConflict string string

definition find_receipt :: "server_state \<Rightarrow> string \<Rightarrow> uuid \<Rightarrow> receipt_entry option" where
  "find_receipt st client_id batch_id =
     row_find (\<lambda>r. (rc_client_id r, rc_batch_id r)) (client_id, batch_id) (sv_ingest_receipts st)"

definition store_batch :: "server_state \<Rightarrow> i64 \<Rightarrow> string \<Rightarrow> decoded_batch \<Rightarrow> status_code + server_state" where
  "store_batch st now client_id d =
     (let b = db_batch d;
          st1 = persist_client st b;
          st2 = fold (\<lambda>u s. persist_task_upload s (ci_client_id (ib_client b)) u) (ib_tasks b) st1 in
      bindr (persist_heartbeats st2 (ib_heartbeats b)) (\<lambda>st3.
        Inr (st3\<lparr>sv_ingest_receipts := sv_ingest_receipts st3 @
          [\<lparr>rc_client_id = client_id, rc_batch_id = ib_batch_id b,
            rc_payload_sha256 = db_payload_sha256 d, rc_received_at_ms = now\<rparr>]\<rparr>)))"

definition ingest_decode :: "'l server_lib \<Rightarrow> byte list \<Rightarrow> status_code + decoded_batch" where
  "ingest_decode X body =
     map_err (\<lambda>e. case e of PayloadTooLarge \<Rightarrow> PAYLOAD_TOO_LARGE | _ \<Rightarrow> BAD_REQUEST)
       (decode_batch_with_payload (xl_wire X) body)"

definition ingest_batch_of ::
  "'l server_lib \<Rightarrow> server_state \<Rightarrow> i64 \<Rightarrow> principal \<Rightarrow> decoded_batch
     \<Rightarrow> status_code + server_state \<times> ingest_response" where
  "ingest_batch_of X st now p d =
     (let b = db_batch d in
      case find_receipt st (pn_client_id p) (ib_batch_id b) of
        Some r \<Rightarrow>
          Inr (st, if rc_payload_sha256 r \<noteq> db_payload_sha256 d
               then IngestConflict ''ingest_conflict''
                 (''batch_id '' @ xl_show_uuid X (ib_batch_id b) @ '' reused with different payload'')
               else Ack \<lparr>ack_batch_id = ib_batch_id b, ack_payload_sha256 = rc_payload_sha256 r,
                      ack_accepted_tasks = 0, ack_accepted_heartbeats = 0, ack_duplicate = True\<rparr>)
      | None \<Rightarrow>
          bindr (store_batch st now (pn_client_id p) d) (\<lambda>st'.
            Inr (st', Ack \<lparr>ack_batch_id = ib_batch_id b, ack_payload_sha256 = db_payload_sha256 d,
                 ack_accepted_tasks = word_of_nat (length (ib_tasks b)),
                 ack_accepted_heartbeats = word_of_nat (length (ib_heartbeats b)),
                 ack_duplicate = False\<rparr>)))"

definition commit_or :: "server_state \<Rightarrow> status_code + server_state \<times> 'r \<Rightarrow> server_state \<times> (status_code + 'r)" where
  "commit_or st r = (case r of Inl e \<Rightarrow> (st, Inl e) | Inr (st', x) \<Rightarrow> (st', Inr x))"

definition ingest ::
  "'l server_lib \<Rightarrow> server_state \<Rightarrow> i64 \<Rightarrow> string option \<Rightarrow> byte list
     \<Rightarrow> server_state \<times> (status_code + ingest_response)" where
  "ingest X st now authorization body =
     commit_or st
       (bindr (authorize_client X st authorization) (\<lambda>p.
        bindr (ingest_decode X body) (\<lambda>d.
          if ci_client_id (ib_client (db_batch d)) \<noteq> pn_client_id p then Inl FORBIDDEN
          else ingest_batch_of X st now p d)))"

section \<open>Retention\<close>

definition cleanup_retention :: "server_state \<Rightarrow> i64 \<Rightarrow> server_state" where
  "cleanup_retention st now =
     st\<lparr>sv_heartbeats := filter (\<lambda>h. \<not> hb_observed_at_ms h < now - HEARTBEAT_RETENTION_MS)
          (sv_heartbeats st),
        sv_ingest_receipts := filter (\<lambda>r. \<not> rc_received_at_ms r < now - RECEIPT_RETENTION_MS)
          (sv_ingest_receipts st),
        sv_task_events := filter (\<lambda>r. \<not> pay_at_ms r < now - EPHEMERA_RETENTION_MS) (sv_task_events st),
        sv_errors := filter (\<lambda>r. \<not> pay_at_ms r < now - EPHEMERA_RETENTION_MS) (sv_errors st),
        sv_capture_gaps := filter (\<lambda>r. \<not> pay_at_ms r < now - EPHEMERA_RETENTION_MS)
          (sv_capture_gaps st),
        sv_http_exchanges := filter (\<lambda>r. \<not> pay_at_ms r < now - EPHEMERA_RETENTION_MS)
          (sv_http_exchanges st)\<rparr>"

end
