(* ===== verification/Server_Content.thy ===== *)
theory Server_Content
  imports Server_Ingest "HOL-Library.List_Lexorder" "HOL-Library.Char_ord" "HOL-Library.Product_Lexorder"
begin

text \<open>
  Content requests of \<open>crates/server/src/lib.rs\<close>: an administrator asks for the content of a task,
  the client polls the command, posts manifests, chunks and a result; a client keeps the content of
  at most 30 conversations.
\<close>

section \<open>Conversations and their eviction\<close>

definition cv_key :: "conversation_entry \<Rightarrow> string \<times> string \<times> string" where
  "cv_key r = (cv_client_id r, cv_session_id r, cv_thread_id r)"

definition touch_conversation ::
  "server_state \<Rightarrow> string \<Rightarrow> string \<Rightarrow> string \<Rightarrow> i64 \<Rightarrow> server_state" where
  "touch_conversation st client_id session_id thread_id now =
     st\<lparr>sv_content_conversations := row_put cv_key
          \<lparr>cv_client_id = client_id, cv_session_id = session_id, cv_thread_id = thread_id,
           cv_last_requested_at_ms = now\<rparr> (sv_content_conversations st)\<rparr>"

definition client_conversations :: "server_state \<Rightarrow> string \<Rightarrow> conversation_entry list" where
  "client_conversations st client_id =
     filter (\<lambda>r. cv_client_id r = client_id) (sv_content_conversations st)"

definition select_oldest_conversation :: "server_state \<Rightarrow> string \<Rightarrow> conversation_entry option" where
  "select_oldest_conversation st client_id =
     row_min (\<lambda>r. (cv_last_requested_at_ms r, cv_session_id r, cv_thread_id r))
       (client_conversations st client_id)"

text \<open>The loop over the requests of the conversation: their objects, and the rows that go.\<close>

fun evict_requests :: "server_state \<Rightarrow> string list \<Rightarrow> uuid list \<Rightarrow> server_state \<times> string list" where
  "evict_requests st shas [] = (st, shas)"
| "evict_requests st shas (i # ids) =
     evict_requests
       (st\<lparr>sv_content_manifests := filter (\<lambda>r. me_request_id r \<noteq> i) (sv_content_manifests st),
           sv_content_chunks := filter (\<lambda>r. ck_request_id r \<noteq> i) (sv_content_chunks st),
           sv_content_links := filter (\<lambda>r. lk_request_id r \<noteq> i) (sv_content_links st)\<rparr>)
       (shas @ map lk_object_sha256 (filter (\<lambda>r. lk_request_id r = i) (sv_content_links st)))
       ids"

fun evict_objects :: "server_state \<Rightarrow> string list \<Rightarrow> server_state" where
  "evict_objects st [] = st"
| "evict_objects st (k # ks) =
     evict_objects
       (if list_ex (\<lambda>r. lk_object_sha256 r = k) (sv_content_links st) then st
        else st\<lparr>sv_content_objects := filter (\<lambda>r. ob_object_sha256 r \<noteq> k) (sv_content_objects st)\<rparr>)
       ks"

definition evict_conversation ::
  "server_state \<Rightarrow> string \<Rightarrow> string \<Rightarrow> string \<Rightarrow> server_state" where
  "evict_conversation st client_id session_id thread_id =
     (let ids = map rq_request_id (filter (\<lambda>r. rq_client_id r = client_id
            \<and> rq_session_id r = session_id \<and> rq_thread_id r = thread_id) (sv_content_requests st));
          (st1, shas) = evict_requests st [] ids;
          st2 = evict_objects st1 (sort (remdups shas)) in
      st2\<lparr>sv_content_conversations := filter (\<lambda>r. cv_key r \<noteq> (client_id, session_id, thread_id))
            (sv_content_conversations st2)\<rparr>)"

lemma evict_requests_frame:
  "evict_requests st shas ids = (st', shas') \<Longrightarrow>
     sv_content_conversations st' = sv_content_conversations st
   \<and> sv_content_objects st' = sv_content_objects st \<and> sv_content_requests st' = sv_content_requests st
   \<and> sv_commands st' = sv_commands st \<and> sv_ingest_receipts st' = sv_ingest_receipts st"
  by (induction st shas ids rule: evict_requests.induct) auto

lemma evict_objects_frame:
  "sv_content_conversations (evict_objects st ks) = sv_content_conversations st"
  "sv_content_links (evict_objects st ks) = sv_content_links st"
  "sv_content_requests (evict_objects st ks) = sv_content_requests st"
  "sv_commands (evict_objects st ks) = sv_commands st"
  "sv_ingest_receipts (evict_objects st ks) = sv_ingest_receipts st"
  by (induction st ks rule: evict_objects.induct) auto

lemma evict_conversation_rows:
  "sv_content_conversations (evict_conversation st c s t) =
     filter (\<lambda>r. cv_key r \<noteq> (c, s, t)) (sv_content_conversations st)"
  by (auto simp: evict_conversation_def evict_objects_frame dest: evict_requests_frame split: prod.splits)

lemma evicted_fewer:
  assumes "select_oldest_conversation st c = Some v"
  shows "length (client_conversations (evict_conversation st c (cv_session_id v) (cv_thread_id v)) c)
       < length (client_conversations st c)"
proof -
  let ?p = "\<lambda>r. cv_key r \<noteq> (c, cv_session_id v, cv_thread_id v)"
  have v: "v \<in> set (client_conversations st c)"
    using assms row_min_Some by (fastforce simp: select_oldest_conversation_def)
  then have "\<not> ?p v" by (simp add: client_conversations_def cv_key_def)
  have "client_conversations (evict_conversation st c (cv_session_id v) (cv_thread_id v)) c =
      filter ?p (client_conversations st c)"
    by (simp add: client_conversations_def evict_conversation_rows conj_commute)
  moreover have "length (filter ?p (client_conversations st c)) < length (client_conversations st c)"
    by (rule length_filter_less [OF v]) (fact \<open>\<not> ?p v\<close>)
  ultimately show ?thesis by simp
qed

function evict_old_conversations :: "server_state \<Rightarrow> string \<Rightarrow> server_state" where
  "evict_old_conversations st client_id =
     (if length (client_conversations st client_id) \<le> CONTENT_CONVERSATION_LIMIT then st
      else
        case select_oldest_conversation st client_id of
          None \<Rightarrow> st
        | Some v \<Rightarrow>
            evict_old_conversations
              (evict_conversation st client_id (cv_session_id v) (cv_thread_id v)) client_id)"
  by pat_completeness auto
termination
  by (relation "measure (\<lambda>(st, c). length (client_conversations st c))") (auto intro: evicted_fewer)

declare evict_old_conversations.simps [simp del]

lemma evict_old_induct:
  assumes "P st" and "\<And>s v. P s \<Longrightarrow> CONTENT_CONVERSATION_LIMIT < length (client_conversations s c) \<Longrightarrow>
      select_oldest_conversation s c = Some v \<Longrightarrow>
      P (evict_conversation s c (cv_session_id v) (cv_thread_id v))"
  shows "P (evict_old_conversations st c)"
  using assms
  by (induction st c rule: evict_old_conversations.induct)
    (subst evict_old_conversations.simps, auto split: option.split)

section \<open>Asking for content\<close>

text \<open>\<open>ids\<close> and \<open>clk\<close> give the two identifiers drawn and the clock read.\<close>

definition create_content_request_inner ::
  "server_state \<Rightarrow> (nat \<Rightarrow> uuid) \<Rightarrow> i64 \<Rightarrow> principal \<Rightarrow> string \<Rightarrow> content_part list \<Rightarrow> i64 option
     \<Rightarrow> status_code + server_state \<times> unit" where
  "create_content_request_inner st ids now p task_ref parts expires_at_ms =
     bindr (ensure_admin_role p) (\<lambda>_.
     bindr (ok_or (row_find te_task_ref task_ref (sv_tasks st)) NOT_FOUND) (\<lambda>row.
       let request = \<lparr>cr_request_id = ids 0, cr_client_id = te_client_id row, cr_task_ref = task_ref,
             cr_session_id = te_session_id row, cr_thread_id = te_thread_id row,
             cr_created_at_ms = now, cr_expires_at_ms = expires_at_ms, cr_parts = parts\<rparr>;
           command = RequestContent \<lparr>cc_command_id = ids 1, cc_request = request\<rparr> in
       bindr (map_err (\<lambda>_. BAD_REQUEST) (validate_content_request request)) (\<lambda>_.
         let st1 = touch_conversation st (cr_client_id request) (cr_session_id request)
               (cr_thread_id request) (cr_created_at_ms request);
             st2 = evict_old_conversations st1 (cr_client_id request) in
         if row_find rq_request_id (ids 0) (sv_content_requests st2) \<noteq> None
           \<or> row_find co_command_id (ids 1) (sv_commands st2) \<noteq> None
         then Inl INTERNAL_SERVER_ERROR
         else
           Inr (st2\<lparr>sv_content_requests := sv_content_requests st2 @
                  [\<lparr>rq_request_id = ids 0, rq_client_id = cr_client_id request,
                    rq_task_ref = cr_task_ref request, rq_session_id = cr_session_id request,
                    rq_thread_id = cr_thread_id request, rq_parts = parts,
                    rq_created_at_ms = cr_created_at_ms request,
                    rq_expires_at_ms = cr_expires_at_ms request, rq_completed_at_ms = None,
                    rq_status = ''pending'', rq_outcome = None\<rparr>],
                  sv_commands := sv_commands st2 @
                  [\<lparr>co_command_id = ids 1, co_request_id = ids 0, co_client_id = cr_client_id request,
                    co_status = ''pending'', co_created_at_ms = cr_created_at_ms request,
                    co_delivered_at_ms = None, co_completed_at_ms = None, co_payload = command\<rparr>]\<rparr>,
                ()))))"

definition create_content_request ::
  "'l server_lib \<Rightarrow> server_state \<Rightarrow> (nat \<Rightarrow> uuid) \<Rightarrow> i64 \<Rightarrow> string option \<Rightarrow> string \<Rightarrow> content_part list
     \<Rightarrow> i64 option \<Rightarrow> server_state \<times> (status_code + unit)" where
  "create_content_request X st ids now authorization task_ref parts expires_at_ms =
     commit_or st
       (bindr (authorize X st authorization) (\<lambda>p.
          create_content_request_inner st ids now p task_ref parts expires_at_ms))"

end
