(* ===== verification/Server_Upload.thy ===== *)
theory Server_Upload
  imports Server_Content
begin

text \<open>
  The client's side of a content command in \<open>crates/server/src/lib.rs\<close>: polling, manifests, chunks
  and the result.
\<close>

section \<open>Polling\<close>

definition pending_commands :: "server_state \<Rightarrow> string \<Rightarrow> command_entry list" where
  "pending_commands st client_id =
     take 16 (sort_key co_created_at_ms
       (filter (\<lambda>r. co_client_id r = client_id \<and> co_status r = ''pending'') (sv_commands st)))"

definition dispatch :: "server_state \<Rightarrow> i64 \<Rightarrow> command_entry list \<Rightarrow> server_state" where
  "dispatch st now rows =
     st\<lparr>sv_commands := fold (\<lambda>row. row_update (\<lambda>r. co_command_id r = co_command_id row)
           (\<lambda>r. r\<lparr>co_status := ''dispatched'', co_delivered_at_ms := Some now\<rparr>)) rows (sv_commands st)\<rparr>"

text \<open>
  The polling loop. \<open>others i\<close> is what the other handlers do to the state while the \<open>i\<close>-th sleep
  lasts, \<open>instant i\<close> the monotonic clock at the \<open>i\<close>-th test of the deadline, in milliseconds.
\<close>

partial_function (option) poll_loop ::
  "(nat \<Rightarrow> server_state \<Rightarrow> server_state) \<Rightarrow> (nat \<Rightarrow> nat) \<Rightarrow> nat \<Rightarrow> i64 \<Rightarrow> string \<Rightarrow> nat \<Rightarrow> server_state
     \<Rightarrow> (server_state \<times> command_poll_response) option" where
  "poll_loop others instant deadline now client_id i st =
     (let rows = pending_commands st client_id in
      if rows \<noteq> [] then
        Some (dispatch st now rows, \<lparr>cp_server_time_ms = now, cp_commands = map co_payload rows\<rparr>)
      else if instant i \<ge> deadline then
        Some (st, \<lparr>cp_server_time_ms = now, cp_commands = []\<rparr>)
      else poll_loop others instant deadline now client_id (Suc i) (others i st))"

definition parse_u64 :: "string \<Rightarrow> nat option" where
  "parse_u64 = parse_unsigned 10 (2 ^ 64)"

definition wait_seconds :: "string option \<Rightarrow> nat" where
  "wait_seconds wait = min (unwrap_or (Option.bind wait parse_u64) 0) 30"

text \<open>\<open>start\<close> is the clock when the request arrives and \<open>wait\<close> its query parameter.\<close>

definition next_command ::
  "'l server_lib \<Rightarrow> (nat \<Rightarrow> server_state \<Rightarrow> server_state) \<Rightarrow> nat \<Rightarrow> (nat \<Rightarrow> nat) \<Rightarrow> i64 \<Rightarrow> server_state
     \<Rightarrow> string option \<Rightarrow> string option \<Rightarrow> (server_state \<times> (status_code + command_poll_response)) option" where
  "next_command X others start instant now st authorization wait =
     (case authorize_client X st authorization of
        Inl e \<Rightarrow> Some (st, Inl e)
      | Inr p \<Rightarrow>
          map_option (\<lambda>(st', r). (st', Inr r))
            (poll_loop others instant (start + wait_seconds wait * 1000) now (pn_client_id p) 0 st))"

section \<open>Rows of an upload\<close>

text \<open>\<open>load_command_request\<close>: the join of the command with its request.\<close>

definition load_command_request :: "server_state \<Rightarrow> uuid \<Rightarrow> string \<Rightarrow> content_request option" where
  "load_command_request st command_id client_id =
     Option.bind (find (\<lambda>c. co_command_id c = command_id \<and> co_client_id c = client_id) (sv_commands st))
       (\<lambda>c. map_option (\<lambda>r. \<lparr>cr_request_id = rq_request_id r, cr_client_id = client_id,
              cr_task_ref = rq_task_ref r, cr_session_id = rq_session_id r,
              cr_thread_id = rq_thread_id r, cr_created_at_ms = rq_created_at_ms r,
              cr_expires_at_ms = rq_expires_at_ms r, cr_parts = rq_parts r\<rparr>)
          (row_find rq_request_id (co_request_id c) (sv_content_requests st)))"

definition find_manifest :: "server_state \<Rightarrow> uuid \<Rightarrow> string \<Rightarrow> manifest_entry option" where
  "find_manifest st request_id sha =
     row_find (\<lambda>r. (me_request_id r, me_object_sha256 r)) (request_id, sha) (sv_content_manifests st)"

definition load_manifest :: "server_state \<Rightarrow> uuid \<Rightarrow> string \<Rightarrow> content_object_manifest option" where
  "load_manifest st request_id sha = map_option me_manifest (find_manifest st request_id sha)"

definition persist_manifest_row ::
  "server_state \<Rightarrow> content_object_manifest \<Rightarrow> string \<Rightarrow> i64 \<Rightarrow> status_code + server_state" where
  "persist_manifest_row st m client_id now =
     (case find_manifest st (mf_request_id m) (mf_object_sha256 m) of
        Some r \<Rightarrow> if me_manifest r \<noteq> m then Inl CONFLICT else Inr st
      | None \<Rightarrow>
          Inr (st\<lparr>sv_content_manifests := sv_content_manifests st @
            [\<lparr>me_request_id = mf_request_id m, me_object_sha256 = mf_object_sha256 m,
              me_client_id = client_id, me_manifest = m, me_created_at_ms = now\<rparr>]\<rparr>))"

definition object_chunks :: "server_state \<Rightarrow> uuid \<Rightarrow> string \<Rightarrow> chunk_entry list" where
  "object_chunks st request_id sha =
     filter (\<lambda>r. ck_request_id r = request_id \<and> ck_object_sha256 r = sha) (sv_content_chunks st)"

definition chunk_entry_of :: "content_upload_chunk \<Rightarrow> i64 \<Rightarrow> chunk_entry" where
  "chunk_entry_of c now =
     \<lparr>ck_request_id = ch_request_id c, ck_object_sha256 = ch_object_sha256 c,
      ck_chunk_index = ch_chunk_index c, ck_chunk_count = ch_chunk_count c,
      ck_payload_sha256 = ch_payload_sha256 c, ck_payload_zstd = ch_payload_zstd c,
      ck_is_last = ch_is_last c, ck_received_at_ms = now\<rparr>"

text \<open>The result tells whether the chunk was there before.\<close>

definition upsert_chunk_row ::
  "server_state \<Rightarrow> content_upload_chunk \<Rightarrow> i64 \<Rightarrow> status_code + server_state \<times> bool" where
  "upsert_chunk_row st c now =
     (let rows = object_chunks st (ch_request_id c) (ch_object_sha256 c) in
      case row_find ck_chunk_index (ch_chunk_index c) rows of
        Some r \<Rightarrow>
          if ck_chunk_count r \<noteq> ch_chunk_count c \<or> ck_payload_sha256 r \<noteq> ch_payload_sha256 c
             \<or> ck_is_last r \<noteq> ch_is_last c
          then Inl CONFLICT else Inr (st, True)
      | None \<Rightarrow>
          if list_ex (\<lambda>r. ck_chunk_count r \<noteq> ch_chunk_count c) rows then Inl CONFLICT
          else
            Inr (st\<lparr>sv_content_chunks := sv_content_chunks st @ [chunk_entry_of c now]\<rparr>, False))"

definition ordered_chunks :: "server_state \<Rightarrow> uuid \<Rightarrow> string \<Rightarrow> chunk_entry list" where
  "ordered_chunks st request_id sha = sort_key ck_chunk_index (object_chunks st request_id sha)"

text \<open>The loop over the enumerated rows.\<close>

fun indices_from :: "nat \<Rightarrow> chunk_entry list \<Rightarrow> bool" where
  "indices_from expected [] = True"
| "indices_from expected (r # rows) =
     (if unat (ck_chunk_index r) \<noteq> expected then False else indices_from (Suc expected) rows)"

definition is_object_complete :: "server_state \<Rightarrow> uuid \<Rightarrow> string \<Rightarrow> u32 \<Rightarrow> bool" where
  "is_object_complete st request_id sha chunk_count =
     (let rows = ordered_chunks st request_id sha in
      if length rows \<noteq> unat chunk_count then False else indices_from 0 rows)"

definition assemble_object :: "server_state \<Rightarrow> uuid \<Rightarrow> string \<Rightarrow> u32 \<Rightarrow> status_code + byte list" where
  "assemble_object st request_id sha chunk_count =
     (let rows = ordered_chunks st request_id sha in
      if length rows \<noteq> unat chunk_count then Inl BAD_REQUEST
      else Inr (concat (map ck_payload_zstd rows)))"

definition lk_key :: "link_entry \<Rightarrow> uuid \<times> string" where
  "lk_key r = (lk_request_id r, lk_object_sha256 r)"

definition upsert_content_object ::
  "server_state \<Rightarrow> content_request \<Rightarrow> content_object_manifest \<Rightarrow> byte list \<Rightarrow> byte list \<Rightarrow> i64
     \<Rightarrow> server_state" where
  "upsert_content_object st request m assembled uncompressed now =
     st\<lparr>sv_content_objects := row_upsert ob_object_sha256
          \<lparr>ob_object_sha256 = mf_object_sha256 m, ob_content_zstd = assembled,
           ob_uncompressed_bytes = int (length uncompressed),
           ob_compressed_bytes = int (length assembled), ob_created_at_ms = now,
           ob_last_accessed_at_ms = now\<rparr>
          (\<lambda>r. r\<lparr>ob_content_zstd := assembled, ob_uncompressed_bytes := int (length uncompressed),
             ob_compressed_bytes := int (length assembled), ob_last_accessed_at_ms := now\<rparr>)
          (sv_content_objects st),
        sv_content_links := row_upsert lk_key
          \<lparr>lk_request_id = cr_request_id request, lk_object_sha256 = mf_object_sha256 m,
           lk_client_id = cr_client_id request, lk_session_id = cr_session_id request,
           lk_thread_id = cr_thread_id request, lk_manifest = m, lk_created_at_ms = now,
           lk_last_accessed_at_ms = now\<rparr>
          (\<lambda>r. r\<lparr>lk_manifest := m, lk_last_accessed_at_ms := now\<rparr>) (sv_content_links st)\<rparr>"

definition linked_object_count :: "server_state \<Rightarrow> uuid \<Rightarrow> nat" where
  "linked_object_count st request_id =
     length (filter (\<lambda>r. lk_request_id r = request_id) (sv_content_links st))"

definition complete_request_and_command ::
  "server_state \<Rightarrow> uuid \<Rightarrow> string \<Rightarrow> string \<Rightarrow> i64 \<Rightarrow> server_state" where
  "complete_request_and_command st request_id status outcome now =
     st\<lparr>sv_content_requests := row_update (\<lambda>r. rq_request_id r = request_id)
          (\<lambda>r. r\<lparr>rq_status := status, rq_outcome := Some outcome, rq_completed_at_ms := Some now\<rparr>)
          (sv_content_requests st),
        sv_commands := row_update (\<lambda>r. co_request_id r = request_id)
          (\<lambda>r. r\<lparr>co_status := ''completed'', co_completed_at_ms := Some now\<rparr>) (sv_commands st)\<rparr>"

section \<open>The handlers\<close>

definition upload_result ::
  "'l server_lib \<Rightarrow> server_state \<Rightarrow> i64 \<Rightarrow> string option \<Rightarrow> uuid \<Rightarrow> content_upload_result
     \<Rightarrow> server_state \<times> (status_code + unit)" where
  "upload_result X st now authorization command_id result =
     commit_or st
       (bindr (authorize_client X st authorization) (\<lambda>p.
        bindr (ok_or (load_command_request st command_id (pn_client_id p)) NOT_FOUND) (\<lambda>request.
          if cr_request_id request \<noteq> cu_request_id result then Inl FORBIDDEN
          else
            let s = (case cu_status result of
                       content_upload_status.Stored \<Rightarrow> ''stored''
                     | content_upload_status.ContentExpired \<Rightarrow> ''content_expired''
                     | content_upload_status.Rejected \<Rightarrow> ''rejected'') in
            Inr (complete_request_and_command st (cu_request_id result) s s now, ()))))"

fun manifest_rows_loop ::
  "content_request \<Rightarrow> i64 \<Rightarrow> server_state \<Rightarrow> content_object_manifest list \<Rightarrow> status_code + server_state" where
  "manifest_rows_loop request now st [] = Inr st"
| "manifest_rows_loop request now st (m # ms) =
     bindr (map_err (\<lambda>_. BAD_REQUEST) (validate_manifest m)) (\<lambda>_.
       if mf_request_id m \<noteq> cr_request_id request \<or> mf_task_ref m \<noteq> cr_task_ref request
          \<or> mf_session_id m \<noteq> cr_session_id request \<or> mf_thread_id m \<noteq> cr_thread_id request
          \<or> mf_part m \<notin> set (cr_parts request)
       then Inl FORBIDDEN
       else
         bindr (persist_manifest_row st m (cr_client_id request) now) (\<lambda>st'.
           manifest_rows_loop request now st' ms))"

definition expire_request :: "server_state \<Rightarrow> content_request \<Rightarrow> i64 \<Rightarrow> server_state" where
  "expire_request st request now =
     complete_request_and_command st (cr_request_id request) ''content_expired'' ''content_expired'' now"

definition upload_manifests ::
  "'l server_lib \<Rightarrow> server_state \<Rightarrow> i64 \<Rightarrow> string option \<Rightarrow> uuid \<Rightarrow> content_object_manifest list
     \<Rightarrow> server_state \<times> (status_code + unit)" where
  "upload_manifests X st now authorization command_id manifests =
     commit_or st
       (bindr (authorize_client X st authorization) (\<lambda>p.
        bindr (ok_or (load_command_request st command_id (pn_client_id p)) NOT_FOUND) (\<lambda>request.
          if manifests = [] then Inl BAD_REQUEST
          else if is_some_and (cr_expires_at_ms request) (\<lambda>e. e \<le> now)
          then Inr (expire_request st request now, ())
          else mapr (\<lambda>st'. (st', ())) (manifest_rows_loop request now st manifests))))"

text \<open>The part of \<open>upload_chunk\<close> once every chunk of the object is there.\<close>

definition finish_object ::
  "'l server_lib \<Rightarrow> server_state \<Rightarrow> i64 \<Rightarrow> content_request \<Rightarrow> content_object_manifest
     \<Rightarrow> content_upload_chunk \<Rightarrow> status_code + server_state" where
  "finish_object X st now request m c =
     bindr (assemble_object st (ch_request_id c) (ch_object_sha256 c) (ch_chunk_count c)) (\<lambda>assembled.
     bindr (ok_or (xl_decode_all X assembled) BAD_REQUEST) (\<lambda>uncompressed.
       if sha256_hex (xl_wire X) uncompressed \<noteq> to_ascii_lowercase (ch_object_sha256 c)
       then Inl BAD_REQUEST
       else if word_of_nat (length assembled) \<noteq> mf_compressed_bytes m
          \<or> word_of_nat (length uncompressed) \<noteq> mf_uncompressed_bytes m
       then Inl BAD_REQUEST
       else
         let st1 = upsert_content_object st request m assembled uncompressed now;
             st2 = touch_conversation st1 (cr_client_id request) (cr_session_id request)
                     (cr_thread_id request) now in
         Inr (if linked_object_count st2 (cr_request_id request) \<ge> length (cr_parts request)
              then complete_request_and_command st2 (cr_request_id request) ''stored'' ''stored'' now
              else st2\<lparr>sv_content_requests := row_update (\<lambda>r. rq_request_id r = cr_request_id request)
                     (\<lambda>r. r\<lparr>rq_status := ''partial_upload''\<rparr>) (sv_content_requests st2)\<rparr>)))"

definition chunk_of_request ::
  "'l server_lib \<Rightarrow> server_state \<Rightarrow> i64 \<Rightarrow> content_request \<Rightarrow> content_upload_chunk
     \<Rightarrow> status_code + server_state \<times> content_upload_result" where
  "chunk_of_request X st now request c =
     bindr (ok_or (load_manifest st (cr_request_id request) (ch_object_sha256 c)) CONFLICT) (\<lambda>m.
       if mf_chunk_count m \<noteq> ch_chunk_count c then Inl CONFLICT
       else
         bindr (upsert_chunk_row st c now) (\<lambda>(st1, duplicate).
           if is_object_complete st1 (ch_request_id c) (ch_object_sha256 c) (ch_chunk_count c) then
             mapr (\<lambda>st2. (st2, \<lparr>cu_request_id = ch_request_id c,
                 cu_status = content_upload_status.Stored,
                 cu_note = if duplicate then Some ''duplicate_chunk_stored'' else None\<rparr>))
               (finish_object X st1 now request m c)
           else
             Inr (st1, \<lparr>cu_request_id = ch_request_id c, cu_status = content_upload_status.Stored,
               cu_note = Some (if duplicate then ''duplicate_chunk'' else ''partial_upload'')\<rparr>)))"

definition upload_chunk ::
  "'l server_lib \<Rightarrow> server_state \<Rightarrow> i64 \<Rightarrow> string option \<Rightarrow> uuid \<Rightarrow> content_upload_chunk
     \<Rightarrow> server_state \<times> (status_code + content_upload_result)" where
  "upload_chunk X st now authorization command_id c =
     commit_or st
       (bindr (authorize_client X st authorization) (\<lambda>p.
        bindr (map_err (\<lambda>_. BAD_REQUEST) (validate_chunk (sha256_hex (xl_wire X)) c)) (\<lambda>_.
        bindr (ok_or (load_command_request st command_id (pn_client_id p)) NOT_FOUND) (\<lambda>request.
          if cr_request_id request \<noteq> ch_request_id c then Inl FORBIDDEN
          else if is_some_and (cr_expires_at_ms request) (\<lambda>e. e \<le> now)
          then Inr (expire_request st request now,
            \<lparr>cu_request_id = cr_request_id request, cu_status = content_upload_status.ContentExpired,
             cu_note = Some ''content_expired''\<rparr>)
          else chunk_of_request X st now request c))))"

end
