(* ===== verification/Server_Facts.thy ===== *)
theory Server_Facts
  imports Server_Upload
begin

text \<open>
  The server as a step relation over its handlers, and what its states keep: a batch is stored once,
  a stored object is the one its digest names, a link never dangles, a conversation has one row.
\<close>

section \<open>The steps\<close>

text \<open>\<open>T\<close> bounds the clock of the retention runs; \<open>poll\<close> is the answer of one polling loop.\<close>

inductive server_step ::
  "'l server_lib \<Rightarrow> i64 \<Rightarrow> server_state \<Rightarrow> server_state \<Rightarrow> bool"
  for X :: "'l server_lib" and T :: i64 where
  issue: "server_step X T st (issue_token X st clk client_id token role admin)"
| revoke: "server_step X T st (revoke_token X st now token)"
| ingest: "server_step X T st (fst (ingest X st now a body))"
| poll: "server_step X T st (dispatch st now (pending_commands st client_id))"
| create: "server_step X T st (fst (create_content_request X st ids now a task_ref parts expires))"
| manifests: "server_step X T st (fst (upload_manifests X st now a command_id ms))"
| chunk: "server_step X T st (fst (upload_chunk X st now a command_id c))"
| result: "server_step X T st (fst (upload_result X st now a command_id r))"
| clean: "now \<le> T \<Longrightarrow> server_step X T st (cleanup_retention st now)"

text \<open>What a handler that succeeds has done, for the handlers that have a single change of state.\<close>

lemma fst_commit_or: "fst (commit_or st r) = (case r of Inl e \<Rightarrow> st | Inr (st', x) \<Rightarrow> st')"
  by (auto simp: commit_or_def split: sum.splits)

lemma commit_or_cases:
  assumes "\<And>st' x. r = Inr (st', x) \<Longrightarrow> P st'" and "P st"
  shows "P (fst (commit_or st r))"
  using assms by (auto simp: commit_or_def split: sum.splits)

lemma commit_or_Inr: "commit_or st r = (st', Inr x) \<longleftrightarrow> r = Inr (st', x)"
  by (auto simp: commit_or_def split: sum.splits)

section \<open>A batch is stored once\<close>

text \<open>The receipts a state keeps.\<close>

definition keeps_receipt :: "server_state \<Rightarrow> server_state \<Rightarrow> bool" where
  "keeps_receipt st st' \<longleftrightarrow> (\<forall>c b r. find_receipt st c b = Some r \<longrightarrow> find_receipt st' c b = Some r)"

lemma keeps_receipt_same: "sv_ingest_receipts st' = sv_ingest_receipts st \<Longrightarrow> keeps_receipt st st'"
  by (simp add: keeps_receipt_def find_receipt_def)

lemma persist_heartbeats_frame:
  "persist_heartbeats st hs = Inr st' \<Longrightarrow> \<exists>hb. st' = st\<lparr>sv_heartbeats := hb\<rparr>"
proof (induction hs arbitrary: st)
  case Nil
  then have "st' = st\<lparr>sv_heartbeats := sv_heartbeats st\<rparr>" by simp
  then show ?case by blast
next
  case (Cons h hs)
  then show ?case by (fastforce simp: bindr_eq_Inr persist_heartbeat_def split: if_splits)
qed

lemma persist_task_uploads_frame:
  "sv_ingest_receipts (fold (\<lambda>u s. persist_task_upload s c u) us st) = sv_ingest_receipts st"
  "sv_content_objects (fold (\<lambda>u s. persist_task_upload s c u) us st) = sv_content_objects st"
  "sv_content_links (fold (\<lambda>u s. persist_task_upload s c u) us st) = sv_content_links st"
  "sv_content_conversations (fold (\<lambda>u s. persist_task_upload s c u) us st) = sv_content_conversations st"
  "sv_commands (fold (\<lambda>u s. persist_task_upload s c u) us st) = sv_commands st"
  "sv_content_manifests (fold (\<lambda>u s. persist_task_upload s c u) us st) = sv_content_manifests st"
  by (induction us arbitrary: st) (simp_all add: persist_task_upload_def Let_def)

lemma persist_client_frame:
  "sv_ingest_receipts (persist_client st b) = sv_ingest_receipts st"
  "sv_content_objects (persist_client st b) = sv_content_objects st"
  "sv_content_links (persist_client st b) = sv_content_links st"
  "sv_content_conversations (persist_client st b) = sv_content_conversations st"
  "sv_commands (persist_client st b) = sv_commands st"
  "sv_content_manifests (persist_client st b) = sv_content_manifests st"
  by (simp_all add: persist_client_def Let_def ensure_client_exists_def)

lemma store_batch_frame:
  assumes "store_batch st now c d = Inr st'"
  shows "sv_ingest_receipts st' = sv_ingest_receipts st @
      [\<lparr>rc_client_id = c, rc_batch_id = ib_batch_id (db_batch d),
        rc_payload_sha256 = db_payload_sha256 d, rc_received_at_ms = now\<rparr>]"
    and "sv_content_objects st' = sv_content_objects st" and "sv_content_links st' = sv_content_links st"
    and "sv_content_conversations st' = sv_content_conversations st"
    and "sv_commands st' = sv_commands st" and "sv_content_manifests st' = sv_content_manifests st"
  using assms
  by (auto simp: store_batch_def Let_def bindr_eq_Inr persist_client_frame
      persist_task_uploads_frame dest!: persist_heartbeats_frame)

lemma ingest_batch_of_keeps:
  assumes "ingest_batch_of X st now p d = Inr (st', x)"
  shows "keeps_receipt st st'"
proof (cases "find_receipt st (pn_client_id p) (ib_batch_id (db_batch d))")
  case None
  then have "store_batch st now (pn_client_id p) d = Inr st'"
    using assms by (auto simp: ingest_batch_of_def Let_def bindr_eq_Inr)
  then show ?thesis
    by (auto simp: keeps_receipt_def find_receipt_def store_batch_frame(1) row_find_append)
next
  case (Some r)
  then have "st' = st" using assms by (auto simp: ingest_batch_of_def Let_def)
  then show ?thesis by (simp add: keeps_receipt_def)
qed

text \<open>The tables a handler of the content side leaves alone.\<close>

lemma evict_conversation_frame:
  "sv_ingest_receipts (evict_conversation st c s t) = sv_ingest_receipts st"
  "sv_commands (evict_conversation st c s t) = sv_commands st"
  by (auto simp: evict_conversation_def evict_objects_frame dest: evict_requests_frame split: prod.splits)

lemma evict_old_frame:
  "sv_ingest_receipts (evict_old_conversations st c) = sv_ingest_receipts st"
  "sv_commands (evict_old_conversations st c) = sv_commands st"
  by (rule evict_old_induct; simp add: evict_conversation_frame)+

lemma manifest_rows_frame:
  "manifest_rows_loop q now st ms = Inr st' \<Longrightarrow> \<exists>rows. st' = st\<lparr>sv_content_manifests := rows\<rparr>"
proof (induction ms arbitrary: st)
  case Nil
  then have "st' = st\<lparr>sv_content_manifests := sv_content_manifests st\<rparr>" by simp
  then show ?case by blast
next
  case (Cons m ms)
  then show ?case
    by (fastforce simp: bindr_eq_Inr map_err_eq_Inr persist_manifest_row_def
        split: if_splits option.splits)
qed

lemma create_request_receipts:
  "create_content_request_inner st ids now p k parts e = Inr (st', x) \<Longrightarrow>
     sv_ingest_receipts st' = sv_ingest_receipts st"
  by (auto simp: create_content_request_inner_def bindr_eq_Inr map_err_eq_Inr Let_def
      evict_old_frame touch_conversation_def split: if_splits)

lemma upsert_chunk_cases:
  assumes "upsert_chunk_row st c now = Inr (st', dup)"
  obtains "dup" "st' = st"
  | "\<not> dup" "row_find ck_chunk_index (ch_chunk_index c)
        (object_chunks st (ch_request_id c) (ch_object_sha256 c)) = None"
      "st' = st\<lparr>sv_content_chunks := sv_content_chunks st @ [chunk_entry_of c now]\<rparr>"
  using assms unfolding upsert_chunk_row_def Let_def by (auto split: option.splits if_splits)

lemma finish_object_cases:
  assumes "finish_object X st now request m c = Inr st'"
  obtains assembled uncompressed where
    "xl_decode_all X assembled = Some uncompressed"
    "sha256_hex (xl_wire X) uncompressed = to_ascii_lowercase (ch_object_sha256 c)"
    "assemble_object st (ch_request_id c) (ch_object_sha256 c) (ch_chunk_count c) = Inr assembled"
    "word_of_nat (length assembled) = mf_compressed_bytes m"
    "word_of_nat (length uncompressed) = mf_uncompressed_bytes m"
    "let st2 = touch_conversation (upsert_content_object st request m assembled uncompressed now)
         (cr_client_id request) (cr_session_id request) (cr_thread_id request) now in
       st' = complete_request_and_command st2 (cr_request_id request) ''stored'' ''stored'' now
     \<or> st' = st2\<lparr>sv_content_requests := row_update (\<lambda>r. rq_request_id r = cr_request_id request)
           (\<lambda>r. r\<lparr>rq_status := ''partial_upload''\<rparr>) (sv_content_requests st2)\<rparr>"
  using assms by (auto simp: finish_object_def bindr_eq_Inr ok_or_eq_Inr Let_def split: if_splits)

section \<open>Stored content\<close>

definition object_authentic :: "'l server_lib \<Rightarrow> object_entry \<Rightarrow> bool" where
  "object_authentic X ob =
     (case xl_decode_all X (ob_content_zstd ob) of
        None \<Rightarrow> False
      | Some u \<Rightarrow>
          sha256_hex (xl_wire X) u = to_ascii_lowercase (ob_object_sha256 ob)
        \<and> ob_uncompressed_bytes ob = int (length u)
        \<and> ob_compressed_bytes ob = int (length (ob_content_zstd ob)))"

definition links_backed :: "link_entry list \<Rightarrow> object_entry list \<Rightarrow> bool" where
  "links_backed links objects \<longleftrightarrow> lk_object_sha256 ` set links \<subseteq> ob_object_sha256 ` set objects"

text \<open>A manifest is stored under the digest it names.\<close>

definition manifest_keyed :: "manifest_entry \<Rightarrow> bool" where
  "manifest_keyed r \<longleftrightarrow> mf_object_sha256 (me_manifest r) = me_object_sha256 r"

definition server_ok :: "'l server_lib \<Rightarrow> server_state \<Rightarrow> bool" where
  "server_ok X st \<longleftrightarrow>
     list_all (object_authentic X) (sv_content_objects st)
   \<and> links_backed (sv_content_links st) (sv_content_objects st)
   \<and> distinct (map cv_key (sv_content_conversations st))
   \<and> list_all manifest_keyed (sv_content_manifests st)"

lemma server_ok_same:
  assumes "server_ok X st" and "sv_content_objects st' = sv_content_objects st"
    and "sv_content_links st' = sv_content_links st"
    and "sv_content_conversations st' = sv_content_conversations st"
    and "sv_content_manifests st' = sv_content_manifests st"
  shows "server_ok X st'"
  using assms by (simp add: server_ok_def)

lemma touch_ok: "server_ok X st \<Longrightarrow> server_ok X (touch_conversation st c s t now)"
  by (simp add: server_ok_def touch_conversation_def row_put_distinct)

lemma evict_requests_links:
  "evict_requests st shas ids = (st', shas') \<Longrightarrow>
     set (sv_content_links st') = {l \<in> set (sv_content_links st). lk_request_id l \<notin> set ids}
   \<and> set (sv_content_manifests st') \<subseteq> set (sv_content_manifests st)
   \<and> set shas' = set shas \<union> lk_object_sha256 ` {l \<in> set (sv_content_links st). lk_request_id l \<in> set ids}"
  by (induction st shas ids rule: evict_requests.induct) auto

lemma evict_objects_manifests:
  "sv_content_manifests (evict_objects st ks) = sv_content_manifests st"
  by (induction st ks rule: evict_objects.induct) auto

lemma evict_objects_rows:
  "set (sv_content_objects (evict_objects st ks)) =
     {ob \<in> set (sv_content_objects st).
        ob_object_sha256 ob \<in> set ks \<longrightarrow> ob_object_sha256 ob \<in> lk_object_sha256 ` set (sv_content_links st)}"
  by (induction st ks rule: evict_objects.induct) (auto simp: list_ex_iff)

lemma evict_conversation_tables:
  "set (sv_content_links (evict_conversation st c s t)) \<subseteq> set (sv_content_links st)"
  "set (sv_content_objects (evict_conversation st c s t)) \<subseteq> set (sv_content_objects st)"
  "links_backed (sv_content_links st) (sv_content_objects st) \<Longrightarrow>
     links_backed (sv_content_links (evict_conversation st c s t))
       (sv_content_objects (evict_conversation st c s t))"
  "set (sv_content_manifests (evict_conversation st c s t)) \<subseteq> set (sv_content_manifests st)"
proof -
  define ids where "ids = map rq_request_id (filter (\<lambda>r. rq_client_id r = c
      \<and> rq_session_id r = s \<and> rq_thread_id r = t) (sv_content_requests st))"
  obtain st1 shas where e: "evict_requests st [] ids = (st1, shas)" by fastforce
  note links = evict_requests_links [OF e] and frame = evict_requests_frame [OF e]
  have conv: "sv_content_links (evict_conversation st c s t) = sv_content_links st1"
    "sv_content_objects (evict_conversation st c s t) =
       sv_content_objects (evict_objects st1 (sort (remdups shas)))"
    "sv_content_manifests (evict_conversation st c s t) = sv_content_manifests st1"
    using e by (simp_all add: evict_conversation_def ids_def [symmetric] evict_objects_frame
        evict_objects_manifests)
  show "set (sv_content_links (evict_conversation st c s t)) \<subseteq> set (sv_content_links st)"
    "set (sv_content_objects (evict_conversation st c s t)) \<subseteq> set (sv_content_objects st)"
    "set (sv_content_manifests (evict_conversation st c s t)) \<subseteq> set (sv_content_manifests st)"
    using links frame by (auto simp: conv evict_objects_rows)
  assume backed: "links_backed (sv_content_links st) (sv_content_objects st)"
  have "lk_object_sha256 l \<in> ob_object_sha256 ` set (sv_content_objects (evict_objects st1 ks))"
    if l: "l \<in> set (sv_content_links st1)" for l ks
  proof -
    from l links backed obtain ob where "ob \<in> set (sv_content_objects st)"
      "ob_object_sha256 ob = lk_object_sha256 l"
      by (auto simp: links_backed_def)
    with l frame have "ob \<in> set (sv_content_objects (evict_objects st1 ks))"
      by (auto simp: evict_objects_rows)
    with \<open>ob_object_sha256 ob = lk_object_sha256 l\<close> show ?thesis by force
  qed
  then show "links_backed (sv_content_links (evict_conversation st c s t))
      (sv_content_objects (evict_conversation st c s t))"
    by (auto simp: links_backed_def conv)
qed

lemma evict_ok: "server_ok X st \<Longrightarrow> server_ok X (evict_conversation st c s t)"
  using evict_conversation_tables [of st c s t]
  by (auto simp: server_ok_def list_all_iff evict_conversation_rows distinct_map
      intro: inj_on_subset)

lemma upsert_content_ok:
  assumes "server_ok X st" and "xl_decode_all X z = Some u"
    and "sha256_hex (xl_wire X) u = to_ascii_lowercase (mf_object_sha256 m)"
  shows "server_ok X (upsert_content_object st q m z u now)"
proof -
  let ?st = "upsert_content_object st q m z u now"
  have objects: "list_all (object_authentic X) (sv_content_objects ?st)"
    unfolding list_all_iff
  proof
    fix ob assume "ob \<in> set (sv_content_objects ?st)"
    then have "ob \<in> set (sv_content_objects st) \<or> ob_object_sha256 ob = mf_object_sha256 m
        \<and> ob_content_zstd ob = z \<and> ob_uncompressed_bytes ob = int (length u)
        \<and> ob_compressed_bytes ob = int (length z)"
      unfolding upsert_content_object_def
      by (simp, elim set_row_upsert [THEN subsetD, THEN UnE] UnE) auto
    then show "object_authentic X ob"
      using assms by (auto simp: server_ok_def list_all_iff object_authentic_def)
  qed
  have keys: "ob_object_sha256 ` set (sv_content_objects ?st) =
      insert (mf_object_sha256 m) (ob_object_sha256 ` set (sv_content_objects st))"
    by (simp add: upsert_content_object_def row_upsert_keys)
  have linked: "lk_object_sha256 ` set (sv_content_links ?st) \<subseteq>
      insert (mf_object_sha256 m) (lk_object_sha256 ` set (sv_content_links st))"
    by (auto simp: upsert_content_object_def dest!: set_row_upsert [THEN subsetD])
  have "lk_object_sha256 ` set (sv_content_links st) \<subseteq>
      ob_object_sha256 ` set (sv_content_objects st)"
    using assms(1) by (simp add: server_ok_def links_backed_def)
  then have links: "links_backed (sv_content_links ?st) (sv_content_objects ?st)"
    unfolding links_backed_def keys by (rule order_trans [OF linked insert_mono])
  have frame: "sv_content_conversations ?st = sv_content_conversations st"
    "sv_content_manifests ?st = sv_content_manifests st"
    by (simp_all add: upsert_content_object_def)
  show ?thesis
    using assms(1) objects links unfolding server_ok_def frame by blast
qed

lemma keyed_manifest:
  assumes "server_ok X st" and "load_manifest st r sha = Some m"
  shows "mf_object_sha256 m = sha"
  using assms row_find_Some
  by (fastforce simp: server_ok_def load_manifest_def find_manifest_def list_all_iff manifest_keyed_def)

lemma manifest_rows_ok:
  "manifest_rows_loop q now st ms = Inr st' \<Longrightarrow> server_ok X st \<Longrightarrow> server_ok X st'"
proof (induction ms arbitrary: st)
  case (Cons m ms)
  then obtain s1 where s1: "persist_manifest_row st m (cr_client_id q) now = Inr s1"
    "manifest_rows_loop q now s1 ms = Inr st'"
    by (auto simp: bindr_eq_Inr split: if_splits)
  have "server_ok X s1"
    using s1(1) Cons.prems(2)
    by (auto simp: persist_manifest_row_def server_ok_def manifest_keyed_def split: option.splits if_splits)
  with Cons.IH s1(2) show ?case by blast
qed simp

lemma chunk_of_request_ok:
  assumes ok: "server_ok X st" and "chunk_of_request X st now q c = Inr (st', x)"
  shows "server_ok X st'"
proof -
  from assms(2) obtain m st1 dup where
    m: "load_manifest st (cr_request_id q) (ch_object_sha256 c) = Some m" and
    st1: "upsert_chunk_row st c now = Inr (st1, dup)" and
    fin: "st' = st1 \<or> finish_object X st1 now q m c = Inr st'"
    by (auto simp: chunk_of_request_def bindr_eq_Inr ok_or_eq_Inr mapr_eq_Inr split: if_splits prod.splits)
  have ok1: "server_ok X st1"
    using st1 by (cases rule: upsert_chunk_cases) (auto intro: server_ok_same [OF ok])
  from fin show ?thesis
  proof
    assume "finish_object X st1 now q m c = Inr st'"
    then show ?thesis
    proof (cases rule: finish_object_cases)
      case (1 z u)
      let ?s2 = "touch_conversation (upsert_content_object st1 q m z u now)
         (cr_client_id q) (cr_session_id q) (cr_thread_id q) now"
      have "sha256_hex (xl_wire X) u = to_ascii_lowercase (mf_object_sha256 m)"
        using 1(2) keyed_manifest [OF ok m] by simp
      then have "server_ok X ?s2"
        by (intro touch_ok upsert_content_ok [OF ok1 1(1)])
      with 1(6) show ?thesis
        by (auto simp: Let_def complete_request_and_command_def intro: server_ok_same [where st = ?s2])
    qed
  qed (use ok1 in simp)
qed

lemma create_request_cases:
  assumes "create_content_request_inner st ids now p k parts e = Inr (st', x)"
  obtains row requests commands where "row_find te_task_ref k (sv_tasks st) = Some row"
    "is_admin (pn_role p)"
    "st' = (evict_old_conversations (touch_conversation st (te_client_id row) (te_session_id row)
        (te_thread_id row) now) (te_client_id row))
        \<lparr>sv_content_requests := requests, sv_commands := commands\<rparr>"
  using assms
  by (auto simp: create_content_request_inner_def bindr_eq_Inr ok_or_eq_Inr Let_def
      ensure_admin_role_def split: if_splits)

lemma create_request_ok:
  assumes "server_ok X st" and "create_content_request_inner st ids now p k parts e = Inr (st', x)"
  shows "server_ok X st'"
proof -
  have "server_ok X (evict_old_conversations (touch_conversation st c s t now) d)" for c s t d
    by (rule evict_old_induct [where P = "server_ok X"])
      (rule touch_ok [OF assms(1)], rule evict_ok)
  note evicted = this
  show ?thesis
    by (rule create_request_cases [OF assms(2)]) (use evicted in \<open>simp add: server_ok_def\<close>)
qed

lemma server_step_ok:
  assumes "server_step X T st st'" and "server_ok X st"
  shows "server_ok X st'"
  using assms
proof cases
  case (ingest now a body)
  show ?thesis
    unfolding ingest(1) ingest_def
  proof (rule commit_or_cases)
    fix s x
    assume "bindr (authorize_client X st a) (\<lambda>p. bindr (ingest_decode X body) (\<lambda>d.
        if ci_client_id (ib_client (db_batch d)) \<noteq> pn_client_id p then Inl FORBIDDEN
        else ingest_batch_of X st now p d)) = Inr (s, x)"
    then obtain p d where "ingest_batch_of X st now p d = Inr (s, x)"
      by (auto simp: bindr_eq_Inr split: if_splits)
    then have "s = st \<or> store_batch st now (pn_client_id p) d = Inr s"
      by (auto simp: ingest_batch_of_def Let_def bindr_eq_Inr split: option.splits)
    then show "server_ok X s"
      using assms(2) by (auto intro: server_ok_same dest: store_batch_frame)
  qed (fact assms(2))
next
  case (create ids now a task_ref parts expires)
  show ?thesis
    unfolding create(1) create_content_request_def
    by (rule commit_or_cases) (auto simp: bindr_eq_Inr assms(2) intro: create_request_ok [OF assms(2)])
next
  case (manifests now a command_id ms)
  show ?thesis
    unfolding manifests(1) upload_manifests_def
    by (rule commit_or_cases) (auto simp: bindr_eq_Inr mapr_eq_Inr assms(2) expire_request_def
        complete_request_and_command_def split: if_splits
        intro: manifest_rows_ok [OF _ assms(2)] server_ok_same [OF assms(2)])
next
  case (chunk now a command_id c)
  show ?thesis
    unfolding chunk(1) upload_chunk_def
    by (rule commit_or_cases) (auto simp: bindr_eq_Inr assms(2) expire_request_def
        complete_request_and_command_def split: if_splits
        intro: chunk_of_request_ok [OF assms(2)] server_ok_same [OF assms(2)])
next
  case (result now a command_id r)
  show ?thesis
    unfolding result(1) upload_result_def
    by (rule commit_or_cases) (auto simp: bindr_eq_Inr assms(2) Let_def
        complete_request_and_command_def split: if_splits intro: server_ok_same [OF assms(2)])
qed (auto simp: issue_token_def Let_def upsert_token_def ensure_client_exists_def revoke_token_def
    dispatch_def cleanup_retention_def intro: server_ok_same [OF assms(2)])

end
