(* ===== verification/Server_Query.thy ===== *)
theory Server_Query
  imports Server_Ingest "HOL-Library.List_Lexorder" "HOL-Library.Char_ord" "HOL-Library.Product_Lexorder"
begin

text \<open>
  The read handlers of \<open>crates/server/src/lib.rs\<close>. SQL's binary collation of text is the
  lexicographic order of bytes, which is the order of HOL strings.
\<close>

definition ensure_task_visible :: "server_state \<Rightarrow> principal \<Rightarrow> string \<Rightarrow> status_code + unit" where
  "ensure_task_visible st p task_ref =
     (case row_find te_task_ref task_ref (sv_tasks st) of
        None \<Rightarrow> Inl NOT_FOUND
      | Some r \<Rightarrow>
          if \<not> is_admin (pn_role p) \<and> te_client_id r \<noteq> pn_client_id p then Inl FORBIDDEN
          else Inr ())"

definition fetch_snapshot :: "server_state \<Rightarrow> string \<Rightarrow> status_code + task_snapshot" where
  "fetch_snapshot st task_ref =
     mapr te_snapshot (ok_or (row_find te_task_ref task_ref (sv_tasks st)) INTERNAL_SERVER_ERROR)"

definition fetch_payloads :: "'p payload_entry list \<Rightarrow> string \<Rightarrow> 'p list" where
  "fetch_payloads table task_ref = map pay_payload (filter (\<lambda>r. pay_task_ref r = task_ref) table)"

text \<open>\<open>ORDER BY updated_at_ms DESC, task_ref DESC\<close>.\<close>

definition newest_first :: "task_entry list \<Rightarrow> task_entry list" where
  "newest_first rows = rev (sort_key (\<lambda>r. (te_updated_at_ms r, te_task_ref r)) rows)"

definition sql_matches :: "'a option \<Rightarrow> 'a \<Rightarrow> bool" where
  "sql_matches q v = (case q of None \<Rightarrow> True | Some x \<Rightarrow> v = x)"

definition list_limit :: "task_list_query \<Rightarrow> nat" where
  "list_limit q = min (unat (unwrap_or (tq_limit q) 100)) 500"

definition list_rows :: "server_state \<Rightarrow> task_list_query \<Rightarrow> task_entry list" where
  "list_rows st q =
     take (list_limit q) (newest_first (filter (\<lambda>r.
         sql_matches (tq_client_id q) (te_client_id r)
       \<and> sql_matches (tq_provider q) (te_provider r)
       \<and> sql_matches (tq_session_id q) (te_session_id r)
       \<and> sql_matches (tq_phase q) (te_phase r)
       \<and> (case tq_terminal q of None \<Rightarrow> True | Some x \<Rightarrow> te_terminal r = Some x)) (sv_tasks st)))"

definition list_tasks_inner ::
  "server_state \<Rightarrow> principal \<Rightarrow> task_list_query \<Rightarrow> status_code + task_list_response" where
  "list_tasks_inner st p query =
     bindr (ensure_query_role p) (\<lambda>_.
       if \<not> is_admin (pn_role p) \<and> is_some_and (tq_client_id query) (\<lambda>c. c \<noteq> pn_client_id p)
       then Inl FORBIDDEN
       else
         let q = (if is_admin (pn_role p) then query
                  else query\<lparr>tq_client_id := Some (pn_client_id p)\<rparr>);
             rows = list_rows st q; tasks = map te_snapshot rows in
         Inr \<lparr>tl_tasks = tasks,
           tl_next_cursor =
             (if length tasks = list_limit q \<and> rows \<noteq> []
              then Some (show_int (te_updated_at_ms (last rows)) @ '':'' @ te_task_ref (last rows))
              else None)\<rparr>)"

definition visible :: "server_state \<Rightarrow> principal \<Rightarrow> string \<Rightarrow> status_code + unit" where
  "visible st p task_ref = bindr (ensure_query_role p) (\<lambda>_. ensure_task_visible st p task_ref)"

definition task_detail_inner :: "server_state \<Rightarrow> principal \<Rightarrow> string \<Rightarrow> status_code + task_detail" where
  "task_detail_inner st p task_ref =
     bindr (visible st p task_ref) (\<lambda>_.
     bindr (fetch_snapshot st task_ref) (\<lambda>snapshot.
       Inr \<lparr>td_snapshot = snapshot, td_attempts = fetch_payloads (sv_attempts st) task_ref,
            td_events = fetch_payloads (sv_task_events st) task_ref,
            td_errors = fetch_payloads (sv_errors st) task_ref,
            td_gaps = fetch_payloads (sv_capture_gaps st) task_ref\<rparr>))"

definition task_attempts_inner ::
  "server_state \<Rightarrow> principal \<Rightarrow> string \<Rightarrow> status_code + attempt_record list" where
  "task_attempts_inner st p task_ref =
     mapr (\<lambda>_. fetch_payloads (sv_attempts st) task_ref) (visible st p task_ref)"

definition task_events_inner ::
  "server_state \<Rightarrow> principal \<Rightarrow> string \<Rightarrow> status_code + task_event list" where
  "task_events_inner st p task_ref =
     mapr (\<lambda>_. fetch_payloads (sv_task_events st) task_ref) (visible st p task_ref)"

definition task_errors_inner ::
  "server_state \<Rightarrow> principal \<Rightarrow> string \<Rightarrow> status_code + error_record list" where
  "task_errors_inner st p task_ref =
     mapr (\<lambda>_. fetch_payloads (sv_errors st) task_ref) (visible st p task_ref)"

definition capture_health_inner ::
  "server_state \<Rightarrow> principal \<Rightarrow> string \<Rightarrow> status_code + capture_health_response" where
  "capture_health_inner st p client_id =
     bindr (ensure_query_role p) (\<lambda>_.
       if \<not> is_admin (pn_role p) \<and> pn_client_id p \<noteq> client_id then Inl FORBIDDEN
       else
         bindr (ok_or (row_min (\<lambda>h. - hb_observed_at_ms h)
             (filter (\<lambda>h. hb_client_id h = client_id) (sv_heartbeats st))) NOT_FOUND) (\<lambda>h.
           Inr \<lparr>hr_client_id = client_id, hr_instance_id = hb_instance_id h,
                hr_observed_at_ms = hb_observed_at_ms h, hr_integrity = hb_capture_health h\<rparr>))"

text \<open>The providers and threads of the rows, as the \<open>BTreeSet\<close>s list them.\<close>

definition btree_set :: "string list \<Rightarrow> string list" where
  "btree_set xs = sort (remdups xs)"

fun find_title :: "task_snapshot list \<Rightarrow> string option" where
  "find_title [] = None"
| "find_title (t # ts) = or_else (sn_conversation_title t) (find_title ts)"

definition session_rows ::
  "server_state \<Rightarrow> string \<Rightarrow> string \<Rightarrow> string option \<Rightarrow> string option \<Rightarrow> task_entry list" where
  "session_rows st client_id session_id provider thread_id =
     newest_first (filter (\<lambda>r. te_client_id r = client_id \<and> te_session_id r = session_id
         \<and> sql_matches provider (te_provider r) \<and> sql_matches thread_id (te_thread_id r)) (sv_tasks st))"

definition session_detail_inner ::
  "server_state \<Rightarrow> principal \<Rightarrow> string \<Rightarrow> string \<Rightarrow> string option \<Rightarrow> string option
     \<Rightarrow> status_code + session_detail" where
  "session_detail_inner st p client_id session_id provider thread_id =
     bindr (ensure_query_role p) (\<lambda>_.
       if \<not> is_admin (pn_role p) \<and> pn_client_id p \<noteq> client_id then Inl FORBIDDEN
       else
         let rows = session_rows st client_id session_id provider thread_id;
             providers = btree_set (map te_provider rows); threads = btree_set (map te_thread_id rows);
             tasks = map te_snapshot rows in
         if rows = [] then Inl NOT_FOUND
         else if provider = None \<and> length providers > 1 then Inl BAD_REQUEST
         else if thread_id = None \<and> length threads > 1 then Inl BAD_REQUEST
         else Inr \<lparr>sd_client_id = client_id, sd_provider = unwrap_or provider (hd providers),
                sd_session_id = session_id, sd_thread_id = unwrap_or thread_id (hd threads),
                sd_conversation_title = find_title tasks, sd_tasks = tasks\<rparr>)"

section \<open>The handlers\<close>

text \<open>The routes that read: each authorizes the request and runs its inner function.\<close>

datatype query =
    ListTasks task_list_query | TaskDetailOf string | AttemptsOf string | EventsOf string
  | ErrorsOf string | HealthOf string | SessionOf string string "string option" "string option"

datatype query_response =
    Tasks task_list_response | Detail task_detail | Attempts "attempt_record list"
  | Events "task_event list" | Errors "error_record list" | Health capture_health_response
  | Session session_detail

fun query_inner :: "server_state \<Rightarrow> principal \<Rightarrow> query \<Rightarrow> status_code + query_response" where
  "query_inner st p (ListTasks q) = mapr Tasks (list_tasks_inner st p q)"
| "query_inner st p (TaskDetailOf k) = mapr Detail (task_detail_inner st p k)"
| "query_inner st p (AttemptsOf k) = mapr Attempts (task_attempts_inner st p k)"
| "query_inner st p (EventsOf k) = mapr Events (task_events_inner st p k)"
| "query_inner st p (ErrorsOf k) = mapr Errors (task_errors_inner st p k)"
| "query_inner st p (HealthOf c) = mapr Health (capture_health_inner st p c)"
| "query_inner st p (SessionOf c s provider thread_id) =
     mapr Session (session_detail_inner st p c s provider thread_id)"

definition handle_query ::
  "'l server_lib \<Rightarrow> server_state \<Rightarrow> string option \<Rightarrow> query \<Rightarrow> status_code + query_response" where
  "handle_query X st a q = bindr (authorize X st a) (\<lambda>p. query_inner st p q)"

end
