(* ===== verification/Server_Safety.thy ===== *)
theory Server_Safety
  imports Server_Facts Server_Query "HOL-Library.Code_Target_Nat"
begin

text \<open>
  The properties of the server's ingest and of its read side, over every interleaving of its
  handlers.
\<close>

section \<open>A batch is stored once\<close>

lemma keeps_receiptD:
  "keeps_receipt st st' \<Longrightarrow> find_receipt st c b = Some r \<Longrightarrow> find_receipt st' c b = Some r"
  by (simp add: keeps_receipt_def)

lemma create_request_receipt:
  "keeps_receipt st (fst (create_content_request X st ids now a k parts e))"
  unfolding create_content_request_def
  by (rule commit_or_cases)
    (auto simp: bindr_eq_Inr keeps_receipt_def find_receipt_def dest: create_request_receipts)

lemma manifests_receipt: "keeps_receipt st (fst (upload_manifests X st now a i ms))"
  unfolding upload_manifests_def
  by (rule commit_or_cases)
    (auto simp: bindr_eq_Inr mapr_eq_Inr expire_request_def complete_request_and_command_def
      intro: keeps_receipt_same dest!: manifest_rows_frame split: if_splits)

lemma finish_object_receipts:
  "finish_object X st now q m c = Inr st' \<Longrightarrow> sv_ingest_receipts st' = sv_ingest_receipts st"
  by (erule finish_object_cases) (auto simp: Let_def complete_request_and_command_def
      touch_conversation_def upsert_content_object_def)

lemma chunk_of_request_receipts:
  assumes "chunk_of_request X st now q c = Inr (st', x)"
  shows "sv_ingest_receipts st' = sv_ingest_receipts st"
proof -
  from assms obtain m st1 dup where st1: "upsert_chunk_row st c now = Inr (st1, dup)"
    and fin: "st' = st1 \<or> finish_object X st1 now q m c = Inr st'"
    by (auto simp: chunk_of_request_def bindr_eq_Inr mapr_eq_Inr split: if_splits prod.splits)
  from st1 have "sv_ingest_receipts st1 = sv_ingest_receipts st"
    by (cases rule: upsert_chunk_cases) auto
  with fin finish_object_receipts show ?thesis by metis
qed

lemma chunk_receipt: "keeps_receipt st (fst (upload_chunk X st now a i c))"
  unfolding upload_chunk_def
  by (rule commit_or_cases)
    (auto simp: bindr_eq_Inr expire_request_def complete_request_and_command_def
      intro: keeps_receipt_same dest: chunk_of_request_receipts split: if_splits)

lemma result_receipt: "keeps_receipt st (fst (upload_result X st now a i r))"
  unfolding upload_result_def
  by (rule commit_or_cases)
    (auto simp: bindr_eq_Inr Let_def complete_request_and_command_def
      intro: keeps_receipt_same split: if_splits)

lemma ingest_cases:
  assumes "ingest X st now a body = (st', Inr x)"
  obtains p d where "authorize_client X st a = Inr p" "ingest_decode X body = Inr d"
    "ci_client_id (ib_client (db_batch d)) = pn_client_id p"
    "ingest_batch_of X st now p d = Inr (st', x)"
  using assms by (auto simp: ingest_def commit_or_Inr bindr_eq_Inr split: if_splits)

lemma ingest_receipt: "keeps_receipt st (fst (ingest X st now a body))"
  unfolding ingest_def
  by (rule commit_or_cases) (auto simp: bindr_eq_Inr keeps_receipt_same
      intro: ingest_batch_of_keeps split: if_splits)

lemma server_step_receipt:
  assumes "server_step X T st st'" and "find_receipt st c b = Some r"
    and "T - RECEIPT_RETENTION_MS \<le> rc_received_at_ms r"
  shows "find_receipt st' c b = Some r"
  using assms(1)
proof cases
  case (clean now)
  have "row_find key k (filter P rows) = Some r" if "row_find key k rows = Some r" "P r"
    for key :: "receipt_entry \<Rightarrow> string \<times> uuid" and k P rows
    using that by (induction rows) (auto split: if_splits)
  with clean assms(2,3) show ?thesis
    by (simp add: cleanup_retention_def find_receipt_def)
next
  case (ingest now a body)
  then show ?thesis
    using keeps_receiptD [OF ingest_receipt assms(2)] by simp
next
  case create
  then show ?thesis using keeps_receiptD [OF create_request_receipt assms(2)] by simp
next
  case manifests
  then show ?thesis using keeps_receiptD [OF manifests_receipt assms(2)] by simp
next
  case chunk
  then show ?thesis using keeps_receiptD [OF chunk_receipt assms(2)] by simp
next
  case result
  then show ?thesis using keeps_receiptD [OF result_receipt assms(2)] by simp
qed (use assms(2) in \<open>auto simp: issue_token_def Let_def upsert_token_def ensure_client_exists_def
    revoke_token_def dispatch_def find_receipt_def\<close>)

lemma ingest_leaves_receipt:
  assumes "ingest X st now a body = (st', Inr (Ack k))" and "ack_duplicate k = False"
  obtains p d where "authorize_client X st a = Inr p" "ingest_decode X body = Inr d"
    "find_receipt st' (pn_client_id p) (ib_batch_id (db_batch d)) =
       Some \<lparr>rc_client_id = pn_client_id p, rc_batch_id = ib_batch_id (db_batch d),
         rc_payload_sha256 = db_payload_sha256 d, rc_received_at_ms = now\<rparr>"
    "ack_batch_id k = ib_batch_id (db_batch d)" "ack_payload_sha256 k = db_payload_sha256 d"
    "ci_client_id (ib_client (db_batch d)) = pn_client_id p"
proof -
  from assms(1) obtain p d where pd: "authorize_client X st a = Inr p" "ingest_decode X body = Inr d"
    "ci_client_id (ib_client (db_batch d)) = pn_client_id p"
    "ingest_batch_of X st now p d = Inr (st', Ack k)"
    by (rule ingest_cases)
  have none: "find_receipt st (pn_client_id p) (ib_batch_id (db_batch d)) = None"
    using pd(4) assms(2) by (auto simp: ingest_batch_of_def Let_def split: option.splits if_splits)
  then have "store_batch st now (pn_client_id p) d = Inr st'"
    and "ack_batch_id k = ib_batch_id (db_batch d)" "ack_payload_sha256 k = db_payload_sha256 d"
    using pd(4) by (auto simp: ingest_batch_of_def Let_def bindr_eq_Inr)
  with none pd show ?thesis
    by (intro that) (auto simp: find_receipt_def store_batch_frame(1) row_find_append)
qed


text \<open>A server with one token of each role for one client, which ingests the sample batch.\<close>

definition sample_server_lib :: "unit server_lib" where
  "sample_server_lib = \<lparr>xl_wire = sample_lib\<lparr>wl_sha256 := (\<lambda>b. replicate 31 0 @ [last b])\<rparr>,
     xl_decode_all = Some, xl_show_uuid = (\<lambda>u. ''u'')\<rparr>"

definition sample_server :: server_state where
  "sample_server =
     issue_token sample_server_lib
       (issue_token sample_server_lib
         (issue_token sample_server_lib empty_server (\<lambda>i. 0) ''c'' ''1'' None False)
         (\<lambda>i. 0) ''c'' ''2'' (Some Reader) False)
       (\<lambda>i. 0) ''c'' ''3'' None True"

definition sample_ingest :: "server_state \<times> (status_code + ingest_response)" where
  "sample_ingest = ingest sample_server_lib sample_server 0 (Some ''Bearer 1'') [0x28, 1, 2, 3]"


section \<open>What a reader sees\<close>

lemma newest_first_set [simp]: "set (newest_first rows) = set rows"
  by (simp add: newest_first_def)

lemma visible_reader:
  assumes "visible st p k = Inr ()" and "pn_role p = Reader"
  obtains row where "row \<in> set (sv_tasks st)" "te_task_ref row = k"
    "te_client_id row = pn_client_id p" "row_find te_task_ref k (sv_tasks st) = Some row"
proof -
  from assms obtain row where "row_find te_task_ref k (sv_tasks st) = Some row"
    "te_client_id row = pn_client_id p"
    by (auto simp: visible_def bindr_eq_Inr ensure_task_visible_def is_admin_def
        split: option.splits if_splits)
  with row_find_Some that show ?thesis by metis
qed

text \<open>The tasks of a client, and the payloads stored under them.\<close>

definition own_task :: "server_state \<Rightarrow> string \<Rightarrow> string \<Rightarrow> bool" where
  "own_task st client_id k \<longleftrightarrow> list_ex (\<lambda>r. te_task_ref r = k \<and> te_client_id r = client_id) (sv_tasks st)"

definition own_snapshot :: "server_state \<Rightarrow> string \<Rightarrow> task_snapshot \<Rightarrow> bool" where
  "own_snapshot st client_id s \<longleftrightarrow>
     list_ex (\<lambda>r. te_snapshot r = s \<and> te_client_id r = client_id) (sv_tasks st)"

definition own_payload :: "server_state \<Rightarrow> string \<Rightarrow> 'p payload_entry list \<Rightarrow> 'p \<Rightarrow> bool" where
  "own_payload st client_id table x \<longleftrightarrow>
     list_ex (\<lambda>r. pay_payload r = x \<and> own_task st client_id (pay_task_ref r)) table"

lemma fetched_own:
  "own_task st c k \<Longrightarrow> list_all (own_payload st c table) (fetch_payloads table k)"
  by (auto simp: list_all_iff own_payload_def fetch_payloads_def list_ex_iff)

lemma visible_own: "visible st p k = Inr () \<Longrightarrow> pn_role p = Reader \<Longrightarrow> own_task st (pn_client_id p) k"
  by (erule visible_reader) (auto simp: own_task_def list_ex_iff)

fun own_response :: "server_state \<Rightarrow> string \<Rightarrow> query_response \<Rightarrow> bool" where
  "own_response st c (Tasks l) = list_all (own_snapshot st c) (tl_tasks l)"
| "own_response st c (Detail d) = (own_snapshot st c (td_snapshot d)
     \<and> list_all (own_payload st c (sv_attempts st)) (td_attempts d)
     \<and> list_all (own_payload st c (sv_task_events st)) (td_events d)
     \<and> list_all (own_payload st c (sv_errors st)) (td_errors d)
     \<and> list_all (own_payload st c (sv_capture_gaps st)) (td_gaps d))"
| "own_response st c (Attempts l) = list_all (own_payload st c (sv_attempts st)) l"
| "own_response st c (Events l) = list_all (own_payload st c (sv_task_events st)) l"
| "own_response st c (Errors l) = list_all (own_payload st c (sv_errors st)) l"
| "own_response st c (Health h) = (hr_client_id h = c
     \<and> list_ex (\<lambda>b. hb_client_id b = c \<and> hb_instance_id b = hr_instance_id h) (sv_heartbeats st))"
| "own_response st c (Session d) = (sd_client_id d = c \<and> list_all (own_snapshot st c) (sd_tasks d))"

lemma list_tasks_own:
  assumes "list_tasks_inner st p q = Inr l" and "pn_role p = Reader"
  shows "list_all (own_snapshot st (pn_client_id p)) (tl_tasks l)"
proof -
  from assms have "tl_tasks l = map te_snapshot (list_rows st (q\<lparr>tq_client_id := Some (pn_client_id p)\<rparr>))"
    by (auto simp: list_tasks_inner_def bindr_eq_Inr Let_def is_admin_def split: if_splits)
  then show ?thesis
    by (auto simp: list_all_iff list_rows_def own_snapshot_def list_ex_iff sql_matches_def
        dest!: in_set_takeD)
qed



text \<open>The cursor a response offers is never read: asking with it gives the first page again.\<close>

lemma cursor_is_ignored: "list_tasks_inner st p (q\<lparr>tq_cursor := c\<rparr>) = list_tasks_inner st p q"
  by (simp add: list_tasks_inner_def list_rows_def list_limit_def)

end
