(* ===== verification/Client_Delivery.thy ===== *)
theory Client_Delivery
  imports Client_Service Server_Safety
begin

text \<open>
  The client's outbox and the server's ingest together: runs in which the client's loops and the
  server's handlers interleave and requests and answers are lost. Shown is that a batch leaves the
  outbox only when the server holds its receipt, and that a flush that reaches the server empties it.
\<close>

section \<open>The answer of the server on the wire\<close>

fun status_number :: "status_code \<Rightarrow> nat" where
  "status_number BAD_REQUEST = 400"
| "status_number UNAUTHORIZED = 401"
| "status_number FORBIDDEN = 403"
| "status_number NOT_FOUND = 404"
| "status_number CONFLICT = 409"
| "status_number PAYLOAD_TOO_LARGE = 413"
| "status_number INTERNAL_SERVER_ERROR = 500"

text \<open>An error has no body the client reads: what it would read as is irrelevant and left empty.\<close>

definition ingest_reply :: "status_code + ingest_response \<Rightarrow> ingest_ack http_reply" where
  "ingest_reply r =
     (case r of
        Inl e \<Rightarrow> \<lparr>hr_status = status_number e, hr_json = Inl []\<rparr>
      | Inr (Ack k) \<Rightarrow> \<lparr>hr_status = 200, hr_json = Inr k\<rparr>
      | Inr (IngestConflict _ _) \<Rightarrow> \<lparr>hr_status = 409, hr_json = Inl []\<rparr>)"

section \<open>Runs of a client and its server\<close>

text \<open>The steps of the client's loops other than the delivery.\<close>

inductive service_op ::
  "'l store_lib \<Rightarrow> client_store \<times> blob_files \<Rightarrow> client_store \<times> blob_files \<Rightarrow> bool"
  for S :: "'l store_lib" where
  capture: "service_op S w (fst (persist_ingress S ids clk w records contents))"
| titles: "service_op S w (fst (sync_conversation_title S ids clk w session_id t))"
| beat: "service_op S w (fst (emit_heartbeat_once S ids clk inst version now health w))"
| poll: "service_op S (st, files) (fst (poll_command_once clk answer st :: client_store \<times> ('l service_error + unit)), files)"
| execute: "service_op S (st, files) (fst (execute_due_command_once S api T (st, files)), files)"
| clean: "service_op S w (cleanup w now)"

text \<open>
  A run of the client and of the server. \<open>C\<close> is the client the token was issued for, \<open>T\<close> bounds the
  clock of the server's retention, and no receipt is older than what that retention keeps. The request
  of a flush arrives or is lost, and so does the answer.
\<close>

definition receipts_fresh :: "i64 \<Rightarrow> server_state \<Rightarrow> bool" where
  "receipts_fresh T s = list_all (\<lambda>r. T - RECEIPT_RETENTION_MS \<le> rc_received_at_ms r) (sv_ingest_receipts s)"

definition token_of :: "'l server_lib \<Rightarrow> server_state \<Rightarrow> string \<Rightarrow> string option \<Rightarrow> bool" where
  "token_of X s C a =
     (case authorize_client X s a of Inl _ \<Rightarrow> True | Inr p \<Rightarrow> pn_client_id p = C)"

inductive link_step ::
  "'l store_lib \<Rightarrow> 'l server_lib \<Rightarrow> i64 \<Rightarrow> string
     \<Rightarrow> (client_store \<times> blob_files) \<times> server_state \<Rightarrow> (client_store \<times> blob_files) \<times> server_state \<Rightarrow> bool"
  for S :: "'l store_lib" and X :: "'l server_lib" and T :: i64 and C :: string where
  local: "service_op S w w' \<Longrightarrow> link_step S X T C (w, s) (w', s)"
| server: "server_step X T s s' \<Longrightarrow> receipts_fresh T s' \<Longrightarrow> link_step S X T C (w, s) (w, s')"
| delivered: "token_of X s C a \<Longrightarrow> T - RECEIPT_RETENTION_MS \<le> received \<Longrightarrow>
    next_due_batch st now = Some batch \<Longrightarrow> ingest X s received a (pb_body batch) = (s', answer) \<Longrightarrow>
    link_step S X T C ((st, files), s)
      ((fst (flush_outbox_once S (\<lambda>sha body. post_ingest_reply describe (Inr (ingest_reply answer)))
         now later st), files), s')"
| lost_answer: "next_due_batch st now = Some batch \<Longrightarrow> T - RECEIPT_RETENTION_MS \<le> received \<Longrightarrow>
    ingest X s received a (pb_body batch) = (s', answer) \<Longrightarrow>
    link_step S X T C ((st, files), s)
      ((fst (flush_outbox_once S (\<lambda>sha body. post_ingest_reply describe (Inl error)) now later st), files), s')"
| lost_request: "link_step S X T C ((st, files), s)
      ((fst (flush_outbox_once S (\<lambda>sha body. post_ingest_reply describe (Inl error)) now later st), files), s)"

section \<open>What stays in the outbox\<close>

definition outbox_key :: "outbox_row \<Rightarrow> uuid \<times> string" where
  "outbox_key r = (ox_batch_id r, ox_payload_sha256 r)"

definition outbox_keys :: "client_store \<Rightarrow> (uuid \<times> string) set" where
  "outbox_keys st = outbox_key ` set (st_outbox st)"

lemma outbox_keys_same: "st_outbox st' = st_outbox st \<Longrightarrow> outbox_keys st' = outbox_keys st"
  by (simp add: outbox_keys_def)

lemma enqueue_loop_keys:
  "enqueue_loop S ids clk p j n st rss = Inr (st', m) \<Longrightarrow> outbox_keys st \<subseteq> outbox_keys st'"
proof (induction rss arbitrary: j n st)
  case (Cons rs rss)
  let ?b = "build_wire_batch (sl_show_uuid S) st (ids j) (clk j 0) rs"
  show ?case
  proof (cases "ib_tasks ?b = [] \<and> ib_heartbeats ?b = []")
    case True
    with Cons show ?thesis by (simp add: Let_def)
  next
    case False
    with Cons.prems obtain e where
      "enqueue_loop S ids clk p (Suc j) (Suc n)
         (st\<lparr>st_outbox := st_outbox st @ [outbox_row_of e ?b (clk j 1) (clk j 2) p]\<rparr>) rss = Inr (st', m)"
      by (auto simp: Let_def bindr_eq_Inr)
    from Cons.IH [OF this] show ?thesis by (auto simp: outbox_keys_def)
  qed
qed simp

lemma persist_keys:
  "outbox_keys (fst w) \<subseteq> outbox_keys (fst (fst (persist_ingress S ids clk w records contents)))"
proof -
  obtain st files where w: "w = (st, files)" by fastforce
  obtain st' files' res where p: "persist_ingress S ids clk (st, files) records contents =
      ((st', files'), res)" by (metis prod.exhaust)
  from p have "outbox_keys st \<subseteq> outbox_keys st'"
  proof (cases rule: persist_ingress_cases)
    case (stored st1 acc n st2 m)
    then obtain q where q: "enqueue_records S ids clk st2 acc = Inr (st', q)" by blast
    have "st_outbox st2 = st_outbox st"
      using apply_records_frame [OF stored(1)] store_contents_frame [OF stored(2)] by simp
    then have "outbox_keys st2 = outbox_keys st" by (rule outbox_keys_same)
    with q show ?thesis
      by (auto simp: enqueue_records_def dest: enqueue_loop_keys split: if_splits)
  qed simp
  with p w show ?thesis by simp
qed

lemma failed_command_outbox: "failed_command S T st i e = (st', r) \<Longrightarrow> st_outbox st' = st_outbox st"
  by (auto simp: failed_command_def fail_command_def Let_def split: sum.splits option.splits)

lemma posted_result_outbox: "posted_result api T n st i q = (st', r) \<Longrightarrow> st_outbox st' = st_outbox st"
  by (auto simp: posted_result_def complete_command_def Let_def split: sum.splits)

lemma run_upload_outbox: "run_upload S api T files st work = (st', calls, r) \<Longrightarrow> st_outbox st' = st_outbox st"
  by (auto simp: run_upload_def Let_def dest: failed_command_outbox posted_result_outbox
      split: sum.splits upload_failure.splits prod.splits)

lemma prepare_outbox: "prepare_upload st clk c = (st', p) \<Longrightarrow> st_outbox st' = st_outbox st"
  using prepare_upload_tasks(2) [of st clk c] by simp

lemma execute_outbox:
  "execute_due_command_once S api T (st, files) = (st', calls, r) \<Longrightarrow> st_outbox st' = st_outbox st"
  by (auto simp: execute_due_command_once_def Let_def
      dest!: prepare_outbox run_upload_outbox posted_result_outbox
      split: option.splits prod.splits upload_preparation.splits)

lemma service_op_keys:
  "service_op S w w' \<Longrightarrow> outbox_keys (fst w) \<subseteq> outbox_keys (fst w')"
proof (induction rule: service_op.induct)
  case (capture w ids clk records contents)
  show ?case by (rule persist_keys)
next
  case (titles w ids clk session_id t)
  obtain st files where w: "w = (st, files)" by fastforce
  let ?st = "st\<lparr>st_tasks := row_update (title_differs session_id t) (\<lambda>r. r\<lparr>tr_title := Some t\<rparr>) (st_tasks st)\<rparr>"
  have k: "outbox_keys ?st = outbox_keys st" by (simp add: outbox_keys_def)
  from sync_title_frame [of S ids clk st files session_id t] show ?case
  proof (elim disjE exE)
    fix records
    assume "fst (sync_conversation_title S ids clk (st, files) session_id t) =
      fst (persist_ingress S ids clk (?st, files) records [])"
    then show ?thesis
      using persist_keys [of "(?st, files)" S ids clk records "[]"] k by (simp add: w)
  qed (simp add: w)
next
  case (beat w ids clk inst version now health)
  show ?case
    using persist_keys [of w S ids clk "[heartbeat_record inst version now health (fst w)]" "[]"]
    by (simp add: emit_heartbeat_once_def split_def Let_def)
next
  case (poll st files clk answer)
  then show ?case by (auto simp: poll_command_once_def outbox_keys_def save_commands_frame split: sum.split)
next
  case (execute st files api T)
  obtain st' calls r where "execute_due_command_once S api T (st, files) = (st', calls, r)"
    by (cases "execute_due_command_once S api T (st, files)")
  then show ?case by (simp add: outbox_keys_same [OF execute_outbox])
next
  case (clean w now)
  then show ?case by (auto simp: outbox_keys_def cleanup_def Let_def split: prod.split)
qed

lemma retry_keys:
  assumes "mark_batch_retry S st now i e = Inr st'"
  shows "outbox_keys st' = outbox_keys st"
proof -
  from assms obtain p f where f: "st_outbox st' = row_update p f (st_outbox st)"
    "\<And>r. outbox_key (f r) = outbox_key r"
    by (auto simp: mark_batch_retry_def outbox_key_def split: option.splits)
  then have "map outbox_key (st_outbox st') = map outbox_key (st_outbox st)"
    by (simp add: row_update_keys)
  then show ?thesis by (metis list.set_map outbox_keys_def)
qed

lemma outbox_ok_row_sound: "outbox_ok S st \<Longrightarrow> r \<in> set (st_outbox st) \<Longrightarrow> row_sound S r"
  by (simp add: outbox_ok_def list_all_iff)

section \<open>What a flush does\<close>

definition receipt_of :: "server_state \<Rightarrow> string \<Rightarrow> uuid \<times> string \<Rightarrow> bool" where
  "receipt_of s C key =
     is_some_and (find_receipt s C (fst key)) (\<lambda>r. rc_payload_sha256 r = snd key)"

lemma due_batch_row:
  assumes "next_due_batch st now = Some batch"
  obtains row where "row \<in> set (st_outbox st)" "pb_batch_id batch = ox_batch_id row"
    "pb_payload_sha256 batch = ox_payload_sha256 row" "pb_body batch = ox_body row"
  using assms by (auto simp: next_due_batch_def dest!: row_min_Some)

lemma ingest_ack_receipt:
  assumes "ingest X s at' a body = (s', Inr (Ack k))" and "token_of X s C a"
  shows "receipt_of s' C (ack_batch_id k, ack_payload_sha256 k)"
proof -
  from assms(1) obtain p d where pd: "authorize_client X s a = Inr p"
    "ingest_batch_of X s at' p d = Inr (s', Ack k)"
    by (rule ingest_cases)
  have C: "pn_client_id p = C" using assms(2) pd(1) by (simp add: token_of_def)
  show ?thesis
  proof (cases "find_receipt s (pn_client_id p) (ib_batch_id (db_batch d))")
    case None
    with pd(2) have st: "store_batch s at' (pn_client_id p) d = Inr s'"
      "ack_batch_id k = ib_batch_id (db_batch d)" "ack_payload_sha256 k = db_payload_sha256 d"
      by (auto simp: ingest_batch_of_def Let_def bindr_eq_Inr)
    with None C show ?thesis
      by (simp add: receipt_of_def find_receipt_def store_batch_frame(1) [OF st(1)] row_find_append is_some_and_def)
  next
    case (Some r)
    with pd(2) C show ?thesis
      by (auto simp: ingest_batch_of_def Let_def receipt_of_def is_some_and_def split: if_splits)
  qed
qed

lemma ingest_reply_Inr:
  "post_ingest_reply describe (Inr (ingest_reply answer)) = Inr x \<longleftrightarrow>
     (\<exists>k. answer = Inr (Ack k) \<and> x = Some k)"
proof (cases answer)
  case (Inl e)
  have "400 \<le> status_number e" by (cases e) simp_all
  with Inl show ?thesis
    by (auto simp: post_ingest_reply_def ingest_reply_def error_for_status_def)
next
  case (Inr y)
  then show ?thesis
    by (cases y) (auto simp: post_ingest_reply_def ingest_reply_def error_for_status_def)
qed

lemma lost_flush_keys:
  "outbox_keys (fst (flush_outbox_once S (\<lambda>sha body. post_ingest_reply describe (Inl error)) now later st))
     = outbox_keys st"
  by (auto simp: flush_outbox_once_def post_ingest_reply_def split: option.split sum.split
      dest!: retry_keys)

lemma mark_acked_keys:
  "outbox_keys st \<subseteq> insert (ack_batch_id k, ack_payload_sha256 k) (outbox_keys (mark_batch_acked st now k))"
  by (auto simp: outbox_keys_def outbox_key_def mark_batch_acked_def image_iff)

lemma delivered_flush_keys:
  assumes "ingest X s received a (pb_body batch) = (s', answer)" and "token_of X s C a"
    and "key \<in> outbox_keys st"
  shows "key \<in> outbox_keys (fst (flush_outbox_once S
      (\<lambda>sha body. post_ingest_reply describe (Inr (ingest_reply answer))) now later st))
    \<or> receipt_of s' C key"
proof (cases "next_due_batch st now")
  case None
  then show ?thesis using assms(3) by (simp add: flush_outbox_once_def)
next
  case (Some b)
  show ?thesis
  proof (cases "post_ingest_reply describe (Inr (ingest_reply answer))")
    case (Inl e)
    with Some assms(3) show ?thesis
      by (auto simp: flush_outbox_once_def split: sum.split dest: retry_keys)
  next
    case (Inr x)
    then obtain k where k: "answer = Inr (Ack k)" "x = Some k" by (auto simp: ingest_reply_Inr)
    with Inr Some have "fst (flush_outbox_once S (\<lambda>sha body. post_ingest_reply describe
        (Inr (ingest_reply answer))) now later st) = mark_batch_acked st (ts later) k"
      by (simp add: flush_outbox_once_def)
    moreover have "receipt_of s' C (ack_batch_id k, ack_payload_sha256 k)"
      using assms(1,2) k(1) by (auto intro: ingest_ack_receipt)
    ultimately show ?thesis using mark_acked_keys [of st k "ts later"] assms(3) by auto
  qed
qed

section \<open>Receipts stay\<close>

lemma fresh_receipt: "receipts_fresh T s \<Longrightarrow> find_receipt s C b = Some r \<Longrightarrow>
    T - RECEIPT_RETENTION_MS \<le> rc_received_at_ms r"
  by (auto simp: receipts_fresh_def list_all_iff find_receipt_def dest: row_find_Some)

lemma server_step_receipt_of:
  "server_step X T s s' \<Longrightarrow> receipts_fresh T s \<Longrightarrow> receipt_of s C key \<Longrightarrow> receipt_of s' C key"
  by (auto simp: receipt_of_def is_some_and_def split: option.splits
      dest: server_step_receipt fresh_receipt)

lemma ingest_fresh:
  assumes "ingest X s received a body = (s', answer)" and "receipts_fresh T s"
    and "T - RECEIPT_RETENTION_MS \<le> received"
  shows "receipts_fresh T s'"
proof (cases answer)
  case (Inl e)
  with assms show ?thesis by (auto simp: ingest_def commit_or_def split: sum.splits)
next
  case (Inr x)
  with assms(1) obtain p d where "ingest_batch_of X s received p d = Inr (s', x)"
    by (auto elim: ingest_cases)
  then have "s' = s \<or> store_batch s received (pn_client_id p) d = Inr s'"
    by (auto simp: ingest_batch_of_def Let_def bindr_eq_Inr split: option.splits)
  with assms(2,3) show ?thesis by (auto simp: receipts_fresh_def store_batch_frame(1))
qed

lemma ingest_keeps:
  "ingest X s received a body = (s', answer) \<Longrightarrow> receipt_of s C key \<Longrightarrow> receipt_of s' C key"
  using ingest_receipt [of s X received a body]
  by (auto simp: receipt_of_def keeps_receipt_def is_some_and_def split: option.splits)

section \<open>Nothing is lost on the way\<close>

definition kept :: "string \<Rightarrow> uuid \<times> string \<Rightarrow> (client_store \<times> blob_files) \<times> server_state \<Rightarrow> bool" where
  "kept C key z \<longleftrightarrow> key \<in> outbox_keys (fst (fst z)) \<or> receipt_of (snd z) C key"

lemma link_step_fresh: "link_step S X T C z z' \<Longrightarrow> receipts_fresh T (snd z) \<Longrightarrow> receipts_fresh T (snd z')"
  by (induction rule: link_step.induct) (auto intro: ingest_fresh)

lemma link_step_kept:
  "link_step S X T C z z' \<Longrightarrow> receipts_fresh T (snd z) \<Longrightarrow> kept C key z \<Longrightarrow> kept C key z'"
proof (induction rule: link_step.induct)
  case (local w w' s)
  then show ?case using service_op_keys [OF local(1)] by (auto simp: kept_def)
next
  case (server s s' w)
  then show ?case by (auto simp: kept_def intro: server_step_receipt_of)
next
  case (delivered s a received st now batch s' answer files describe later)
  then show ?case
    using delivered_flush_keys [OF delivered(4,1), of key st S describe now later]
      ingest_keeps [OF delivered(4), of C key] by (auto simp: kept_def)
next
  case (lost_answer st now batch received s a s' answer files describe error later)
  then show ?case
    using ingest_keeps [OF lost_answer(3), of C key] by (auto simp: kept_def lost_flush_keys)
qed (simp add: kept_def lost_flush_keys)

text \<open>
  No batch is lost between the client and the server. In every run in which the client captures,
  polls, executes commands, cleans and flushes its outbox, the server runs any of its handlers for
  anyone and its retention, and any request or answer of a flush is lost, a batch that was queued is
  still in the outbox, or the server holds a receipt for it, for the client of the token and with the
  batch's digest. So a batch is given up only once it is stored, however the network behaves.
\<close>

theorem queued_batch_is_never_lost:
  assumes "(link_step S X T C)\<^sup>*\<^sup>* ((w, s)) (w', s')" and "receipts_fresh T s"
    and "(i, sha) \<in> outbox_keys (fst w)"
  shows "(i, sha) \<in> outbox_keys (fst w') \<or> receipt_of s' C (i, sha)"
proof -
  from assms(1,2) have "kept C (i, sha) (w, s) \<longrightarrow> kept C (i, sha) (w', s') \<and> receipts_fresh T s'"
    by (induction "(w', s')" arbitrary: w' s' rule: rtranclp_induct)
      (auto dest: link_step_kept link_step_fresh)
  with assms(3) show ?thesis by (simp add: kept_def)
qed

text \<open>A client with one batch to deliver, and the server of the sample ingest.\<close>

definition link_lib :: "unit store_lib" where
  "link_lib = \<lparr>sl_wire = xl_wire sample_server_lib, sl_zstd = Inr, sl_show_uuid = (\<lambda>u. ''u'')\<rparr>"

definition link_row :: outbox_row where
  "link_row = \<lparr>ox_batch_id = ib_batch_id sample_batch,
     ox_payload_sha256 = sha256_hex (sl_wire link_lib) [1, 2, 3], ox_body = [0x28, 1, 2, 3],
     ox_record_count = 1, ox_created_at = 0, ox_next_attempt_at = 0, ox_attempt_count = 0,
     ox_last_error = None, ox_is_priority = False\<rparr>"

definition link_client :: client_store where
  "link_client = empty_store sample_client\<lparr>st_outbox := [link_row]\<rparr>"

definition link_due :: pending_batch where
  "link_due = \<lparr>pb_batch_id = ox_batch_id link_row, pb_payload_sha256 = ox_payload_sha256 link_row,
     pb_body = ox_body link_row\<rparr>"

definition link_flushed :: client_store where
  "link_flushed = fst (flush_outbox_once link_lib (\<lambda>sha body. post_ingest_reply (\<lambda>n. [])
     (Inr (ingest_reply (snd sample_ingest)))) 0 0 link_client)"

lemma link_due: "next_due_batch link_client 0 = Some link_due"
  by (simp add: next_due_batch_def link_client_def link_due_def link_row_def ts_def)

lemma link_token: "authorize_client sample_server_lib sample_server (Some ''Bearer 1'') =
    Inr \<lparr>pn_client_id = ''c'', pn_role = Client\<rparr>"
  by code_simp

theorem queued_batch_is_never_lost_witness:
  "outbox_keys link_flushed = {} \<and> receipt_of (fst sample_ingest) ''c'' (outbox_key link_row)"
proof -
  have e: "st_outbox link_flushed = []" by code_simp
  have "link_step link_lib sample_server_lib 0 ''c'' ((link_client, []), sample_server)
      ((link_flushed, []), fst sample_ingest)"
    unfolding link_flushed_def
    by (rule link_step.delivered [where a = "Some ''Bearer 1''" and received = 0 and batch = link_due])
      (simp_all add: link_token token_of_def RECEIPT_RETENTION_MS_def link_due sample_ingest_def,
       simp add: link_due_def link_row_def)
  then have run: "(link_step link_lib sample_server_lib 0 ''c'')\<^sup>*\<^sup>* ((link_client, []), sample_server)
      ((link_flushed, []), fst sample_ingest)" by (rule r_into_rtranclp)
  have "receipts_fresh 0 sample_server" by code_simp
  moreover have "(ox_batch_id link_row, ox_payload_sha256 link_row) \<in> outbox_keys (fst (link_client, []))"
    by (simp add: outbox_keys_def outbox_key_def link_client_def)
  ultimately show ?thesis
    using queued_batch_is_never_lost [OF run] e by (simp add: outbox_keys_def outbox_key_def)
qed

section \<open>A flush that arrives delivers\<close>

lemma persist_heartbeats_fresh:
  "distinct (map hb_heartbeat_id hs) \<Longrightarrow>
     set (map hb_heartbeat_id hs) \<inter> set (map hb_heartbeat_id (sv_heartbeats st)) = {} \<Longrightarrow>
     \<exists>st'. persist_heartbeats st hs = Inr st'"
proof (induction hs arbitrary: st)
  case (Cons h hs)
  then have "persist_heartbeat st h = Inr (st\<lparr>sv_heartbeats := sv_heartbeats st @ [h]\<rparr>)"
    by (simp add: persist_heartbeat_def row_find_None)
  with Cons show ?case by simp
qed simp

lemma stored_heartbeats:
  "sv_heartbeats (fold (\<lambda>u s. persist_task_upload s c u) us (persist_client st b)) = sv_heartbeats st"
proof -
  have "sv_heartbeats (fold (\<lambda>u s. persist_task_upload s c u) us st) = sv_heartbeats st" for st
    by (induction us arbitrary: st) (simp_all add: persist_task_upload_def Let_def)
  then show ?thesis by (simp add: persist_client_def Let_def ensure_client_exists_def)
qed

lemma ingest_acknowledges:
  assumes "authorize_client X s a = Inr p" and "decode_batch_with_payload (xl_wire X) body = Inr d"
    and "ci_client_id (ib_client (db_batch d)) = pn_client_id p"
    and "case find_receipt s (pn_client_id p) (ib_batch_id (db_batch d)) of
           None \<Rightarrow> distinct (map hb_heartbeat_id (ib_heartbeats (db_batch d)))
             \<and> set (map hb_heartbeat_id (ib_heartbeats (db_batch d)))
                 \<inter> set (map hb_heartbeat_id (sv_heartbeats s)) = {}
         | Some r \<Rightarrow> rc_payload_sha256 r = db_payload_sha256 d"
  shows "\<exists>k. snd (ingest X s received a body) = Inr (Ack k) \<and> ack_batch_id k = ib_batch_id (db_batch d)
    \<and> ack_payload_sha256 k = db_payload_sha256 d"
proof (cases "find_receipt s (pn_client_id p) (ib_batch_id (db_batch d))")
  case None
  let ?st = "fold (\<lambda>u t. persist_task_upload t (ci_client_id (ib_client (db_batch d))) u)
      (ib_tasks (db_batch d)) (persist_client s (db_batch d))"
  have "\<exists>st'. persist_heartbeats ?st (ib_heartbeats (db_batch d)) = Inr st'"
    using assms(4) None by (intro persist_heartbeats_fresh) (simp_all add: stored_heartbeats)
  with None assms(1-3) show ?thesis
    by (auto simp: ingest_def ingest_decode_def ingest_batch_of_def store_batch_def Let_def commit_or_def)
next
  case (Some r)
  with assms show ?thesis
    by (auto simp: ingest_def ingest_decode_def ingest_batch_of_def Let_def commit_or_def)
qed

text \<open>What a batch needs to be acknowledged: a token of its client, no other payload under its
  identifier, and fresh heartbeats unless the server knows it already.\<close>

definition deliverable ::
  "'l server_lib \<Rightarrow> server_state \<Rightarrow> string option \<Rightarrow> pending_batch \<Rightarrow> decoded_batch \<Rightarrow> string \<Rightarrow> bool" where
  "deliverable X s a batch d C \<longleftrightarrow>
     (case authorize_client X s a of Inl _ \<Rightarrow> False | Inr p \<Rightarrow> pn_client_id p = C)
     \<and> decode_batch_with_payload (xl_wire X) (pb_body batch) = Inr d
     \<and> ci_client_id (ib_client (db_batch d)) = C
     \<and> (case find_receipt s C (pb_batch_id batch) of
           None \<Rightarrow> distinct (map hb_heartbeat_id (ib_heartbeats (db_batch d)))
             \<and> set (map hb_heartbeat_id (ib_heartbeats (db_batch d)))
                 \<inter> set (map hb_heartbeat_id (sv_heartbeats s)) = {}
         | Some r \<Rightarrow> rc_payload_sha256 r = pb_payload_sha256 batch)"

text \<open>
  C11. A flush that reaches the server delivers. When the outbox is sound and the due batch is
  deliverable (also when an earlier answer to it was lost and the server knows it already), then
  flushing it takes it off the outbox, the server holds its receipt, and every other batch stays.
\<close>

theorem flush_delivers:
  assumes "outbox_ok S st" and "xl_wire X = sl_wire S" and "next_due_batch st now = Some batch"
    and "deliverable X s a batch d C" and "ingest X s received a (pb_body batch) = (s', answer)"
    and "flush_outbox_once S (\<lambda>sha body. post_ingest_reply describe (Inr (ingest_reply answer)))
           now later st = (st', r)"
  shows "r = Inr () \<and> receipt_of s' C (pb_batch_id batch, pb_payload_sha256 batch)
    \<and> outbox_keys st' = outbox_keys st - {(pb_batch_id batch, pb_payload_sha256 batch)}"
proof -
  from due_batch_row [OF assms(3)] obtain row where row: "row \<in> set (st_outbox st)"
    "pb_batch_id batch = ox_batch_id row" "pb_payload_sha256 batch = ox_payload_sha256 row"
    "pb_body batch = ox_body row" .
  from assms(4) obtain p where p: "authorize_client X s a = Inr p" "pn_client_id p = C"
    by (auto simp: deliverable_def split: sum.splits)
  from assms(4) have d: "decode_batch_with_payload (xl_wire X) (pb_body batch) = Inr d"
    and c: "ci_client_id (ib_client (db_batch d)) = pn_client_id p"
    by (simp_all add: deliverable_def p)
  from outbox_ok_row_sound [OF assms(1) row(1)] d assms(2) row have
    k: "ib_batch_id (db_batch d) = pb_batch_id batch" "db_payload_sha256 d = pb_payload_sha256 batch"
    by (auto simp: row_sound_def)
  have "case find_receipt s (pn_client_id p) (ib_batch_id (db_batch d)) of
           None \<Rightarrow> distinct (map hb_heartbeat_id (ib_heartbeats (db_batch d)))
             \<and> set (map hb_heartbeat_id (ib_heartbeats (db_batch d)))
                 \<inter> set (map hb_heartbeat_id (sv_heartbeats s)) = {}
         | Some r \<Rightarrow> rc_payload_sha256 r = db_payload_sha256 d"
    using assms(4) by (simp add: deliverable_def p k split: option.splits)
  from ingest_acknowledges [OF p(1) d c this, of received] assms(5) obtain ack where
    ack: "answer = Inr (Ack ack)" "ack_batch_id ack = pb_batch_id batch"
      "ack_payload_sha256 ack = pb_payload_sha256 batch" by (auto simp: k)
  have "token_of X s C a" by (simp add: token_of_def p)
  with ingest_ack_receipt assms(5) ack have "receipt_of s' C (pb_batch_id batch, pb_payload_sha256 batch)"
    by metis
  moreover have "post_ingest_reply describe (Inr (ingest_reply answer)) = Inr (Some ack)"
    by (simp add: ingest_reply_Inr ack)
  then have "r = Inr ()" "st' = mark_batch_acked st (ts later) ack"
    using assms(3,6) by (simp_all add: flush_outbox_once_def)
  moreover from this(2) have
    "outbox_keys st' = outbox_keys st - {(pb_batch_id batch, pb_payload_sha256 batch)}"
    by (auto simp: outbox_keys_def outbox_key_def mark_batch_acked_def ack)
  ultimately show ?thesis by simp
qed

theorem flush_delivers_witness:
  "receipt_of (fst sample_ingest) ''c'' (outbox_key link_row) \<and> outbox_keys link_flushed = {}"
proof -
  let ?d = "\<lparr>db_batch = sample_batch, db_payload_sha256 = ox_payload_sha256 link_row, db_payload = [1, 2, 3]\<rparr>"
  have dec: "decode_batch_with_payload (sl_wire link_lib) [0x28, 1, 2, 3] = Inr ?d" by code_simp
  have ok: "outbox_ok link_lib link_client"
    by (simp add: outbox_ok_def link_client_def row_sound_def dec link_row_def [symmetric]
        OUTBOX_HARD_CAP_BYTES_def OUTBOX_PRIORITY_RESERVE_BYTES_def) (simp add: link_row_def dec)
  have del: "deliverable sample_server_lib sample_server (Some ''Bearer 1'') link_due ?d ''c''"
    by code_simp
  have run: "ingest sample_server_lib sample_server 0 (Some ''Bearer 1'') (pb_body link_due) =
      (fst sample_ingest, snd sample_ingest)"
    by (simp add: sample_ingest_def link_due_def link_row_def)
  obtain st' r where f: "flush_outbox_once link_lib (\<lambda>sha body. post_ingest_reply (\<lambda>n. [])
     (Inr (ingest_reply (snd sample_ingest)))) 0 0 link_client = (st', r)" by fastforce
  have "xl_wire sample_server_lib = sl_wire link_lib" by (simp add: link_lib_def)
  from flush_delivers [OF ok this link_due del run f] f show ?thesis
    by (simp add: link_flushed_def link_due_def outbox_key_def outbox_keys_def link_client_def)
qed

end
