(* ===== verification/Client_Daemon.thy ===== *)
theory Client_Daemon
  imports Client_Delivery
begin

text \<open>
  The daemon of the client (\<open>run_daemon_with_components\<close> and \<open>run_cli\<close> in
  \<open>crates/client/src/service.rs\<close>): its loops, which interleave between the operations of the store,
  and the server, which the request of a flush reaches while the other loops go on. Shown is that no
  batch is lost although the store changes while a batch is on the way, and what a failed delivery does.
\<close>

section \<open>The loops\<close>

text \<open>
  The loop of the outbox: it waits for its next turn, a batch was sent, or the answer has come. What
  the loop does with the answer is the second half of \<open>flush_outbox_once\<close>.
\<close>

datatype flush_phase =
    FlushIdle
  | FlushSent pending_batch
  | FlushAnswered pending_batch "string + ingest_ack option"

definition flush_finish ::
  "'l store_lib \<Rightarrow> string + ingest_ack option \<Rightarrow> datetime \<Rightarrow> pending_batch \<Rightarrow> client_store
     \<Rightarrow> client_store \<times> ('l service_error + unit)" where
  "flush_finish S answer later batch st =
     (case answer of
        Inr (Some ack) \<Rightarrow> (mark_batch_acked st (ts later) ack, Inr ())
      | Inr None \<Rightarrow> (st, Inr ())
      | Inl error \<Rightarrow>
          (case mark_batch_retry S st later (pb_batch_id batch) error of
             Inl e \<Rightarrow> (st, Inl (StoreFailed e))
           | Inr st' \<Rightarrow> (st', Inr ())))"

lemma flush_outbox_once_halves:
  "flush_outbox_once S post now later st =
     (case next_due_batch st now of
        None \<Rightarrow> (st, Inr ())
      | Some batch \<Rightarrow> flush_finish S (post (pb_payload_sha256 batch) (pb_body batch)) later batch st)"
  by (simp add: flush_outbox_once_def flush_finish_def split: option.split sum.split)

text \<open>
  The store, the phase of the flush loop, the seconds each loop would wait after its next error, whether
  the command loop polled and has to execute, and whether the daemon ended: an error of the capture or
  the title loop ends it.
\<close>

record daemon =
  dm_world :: "client_store \<times> blob_files"
  dm_flush :: flush_phase
  dm_polled :: bool
  dm_flush_backoff :: nat
  dm_command_backoff :: nat
  dm_cleanup_backoff :: nat
  dm_heartbeat_backoff :: nat
  dm_ended :: bool

definition daemon_init :: "client_store \<times> blob_files \<Rightarrow> daemon" where
  "daemon_init w = \<lparr>dm_world = w, dm_flush = FlushIdle, dm_polled = False, dm_flush_backoff = 1,
     dm_command_backoff = 1, dm_cleanup_backoff = 1, dm_heartbeat_backoff = 1, dm_ended = False\<rparr>"

definition is_err :: "'e + 'a \<Rightarrow> bool" where
  "is_err r = (case r of Inl _ \<Rightarrow> True | Inr _ \<Rightarrow> False)"

definition next_wait :: "nat \<Rightarrow> 'e + unit \<Rightarrow> nat" where
  "next_wait n r = fst (loop_backoff n r)"

inductive daemon_step :: "'l store_lib \<Rightarrow> daemon \<Rightarrow> daemon \<Rightarrow> bool" for S :: "'l store_lib" where
  capture: "persist_ingress S ids clk (dm_world d) records contents = (w, r) \<Longrightarrow> \<not> dm_ended d \<Longrightarrow>
    daemon_step S d (d\<lparr>dm_world := w, dm_ended := is_err r\<rparr>)"
| title: "sync_conversation_title S ids clk (dm_world d) session_id t = (w, r) \<Longrightarrow> \<not> dm_ended d \<Longrightarrow>
    daemon_step S d (d\<lparr>dm_world := w, dm_ended := is_err r\<rparr>)"
| flush_idle: "dm_flush d = FlushIdle \<Longrightarrow> next_due_batch (fst (dm_world d)) now = None \<Longrightarrow> \<not> dm_ended d \<Longrightarrow>
    daemon_step S d (d\<lparr>dm_flush_backoff := 1\<rparr>)"
| flush_start: "dm_flush d = FlushIdle \<Longrightarrow> next_due_batch (fst (dm_world d)) now = Some batch \<Longrightarrow>
    \<not> dm_ended d \<Longrightarrow> daemon_step S d (d\<lparr>dm_flush := FlushSent batch\<rparr>)"
| flush_end: "dm_flush d = FlushAnswered batch answer \<Longrightarrow>
    flush_finish S answer later batch (fst (dm_world d)) = (st, r) \<Longrightarrow> \<not> dm_ended d \<Longrightarrow>
    daemon_step S d (d\<lparr>dm_world := (st, snd (dm_world d)), dm_flush := FlushIdle,
      dm_flush_backoff := next_wait (dm_flush_backoff d) r\<rparr>)"
| poll: "poll_command_once clk answer (fst (dm_world d)) = (st, r :: 'l service_error + unit) \<Longrightarrow>
    \<not> dm_polled d \<Longrightarrow> \<not> dm_ended d \<Longrightarrow>
    daemon_step S d (d\<lparr>dm_world := (st, snd (dm_world d)), dm_polled := \<not> is_err r,
      dm_command_backoff := next_wait (dm_command_backoff d) r\<rparr>)"
| execute: "execute_due_command_once S api T (dm_world d) = (st, calls, r) \<Longrightarrow> dm_polled d \<Longrightarrow>
    \<not> dm_ended d \<Longrightarrow>
    daemon_step S d (d\<lparr>dm_world := (st, snd (dm_world d)), dm_polled := False\<rparr>)"
| clean: "\<not> dm_ended d \<Longrightarrow>
    daemon_step S d (d\<lparr>dm_world := cleanup (dm_world d) now, dm_cleanup_backoff := 1\<rparr>)"
| beat: "emit_heartbeat_once S ids clk inst version now health (dm_world d) = (w, r) \<Longrightarrow> \<not> dm_ended d \<Longrightarrow>
    daemon_step S d (d\<lparr>dm_world := w, dm_heartbeat_backoff := next_wait (dm_heartbeat_backoff d) r\<rparr>)"

inductive_cases daemon_stepE: "daemon_step S d d'"

text \<open>
  The daemon and its server. While a batch is on the way the loops and the server's handlers, a late
  arrival of an earlier request among them, go on; then the answer comes, or an error of the transport.
\<close>

inductive net_step ::
  "'l store_lib \<Rightarrow> 'l server_lib \<Rightarrow> i64 \<Rightarrow> string \<Rightarrow> daemon \<times> server_state \<Rightarrow> daemon \<times> server_state \<Rightarrow> bool"
  for S :: "'l store_lib" and X :: "'l server_lib" and T :: i64 and C :: string where
  client: "daemon_step S d d' \<Longrightarrow> net_step S X T C (d, s) (d', s)"
| server: "server_step X T s s' \<Longrightarrow> receipts_fresh T s' \<Longrightarrow> net_step S X T C (d, s) (d, s')"
| answered: "dm_flush d = FlushSent batch \<Longrightarrow> token_of X s C a \<Longrightarrow> T - RECEIPT_RETENTION_MS \<le> received \<Longrightarrow>
    ingest X s received a (pb_body batch) = (s', answer) \<Longrightarrow>
    net_step S X T C (d, s)
      (d\<lparr>dm_flush := FlushAnswered batch (post_ingest_reply describe (Inr (ingest_reply answer)))\<rparr>, s')"
| failed: "dm_flush d = FlushSent batch \<Longrightarrow>
    net_step S X T C (d, s) (d\<lparr>dm_flush := FlushAnswered batch (post_ingest_reply describe (Inl error))\<rparr>, s)"

section \<open>What holds while a batch is on the way\<close>

definition batch_key :: "pending_batch \<Rightarrow> uuid \<times> string" where
  "batch_key b = (pb_batch_id b, pb_payload_sha256 b)"

fun phase_ok :: "string \<Rightarrow> client_store \<Rightarrow> server_state \<Rightarrow> flush_phase \<Rightarrow> bool" where
  "phase_ok C st s FlushIdle \<longleftrightarrow> True"
| "phase_ok C st s (FlushSent b) \<longleftrightarrow> batch_key b \<in> outbox_keys st"
| "phase_ok C st s (FlushAnswered b answer) \<longleftrightarrow> batch_key b \<in> outbox_keys st
     \<and> (case answer of Inr (Some k) \<Rightarrow> receipt_of s C (ack_batch_id k, ack_payload_sha256 k) | _ \<Rightarrow> True)"

definition daemon_ok :: "i64 \<Rightarrow> string \<Rightarrow> daemon \<times> server_state \<Rightarrow> bool" where
  "daemon_ok T C z \<longleftrightarrow> receipts_fresh T (snd z)
     \<and> phase_ok C (fst (dm_world (fst z))) (snd z) (dm_flush (fst z))
     \<and> dm_flush_backoff (fst z) = 1"

lemma phase_ok_mono:
  "phase_ok C st s p \<Longrightarrow> outbox_keys st \<subseteq> outbox_keys st' \<Longrightarrow>
     (\<And>key. receipt_of s C key \<Longrightarrow> receipt_of s' C key) \<Longrightarrow> phase_ok C st' s' p"
  by (cases p) (auto split: sum.splits option.splits)

lemma due_batch_key: "next_due_batch st now = Some b \<Longrightarrow> batch_key b \<in> outbox_keys st"
  by (auto elim!: due_batch_row simp: batch_key_def outbox_keys_def outbox_key_def image_iff)

text \<open>A batch that is in the outbox can be put off: the error of a missing row does not occur.\<close>

lemma retry_succeeds:
  assumes "key \<in> outbox_keys st" and "fst key = i"
  obtains row where "row \<in> set (st_outbox st)" "ox_batch_id row = i"
    "mark_batch_retry S st now i e = Inr (st\<lparr>st_outbox := row_update (\<lambda>r. ox_batch_id r = i)
       (\<lambda>r. r\<lparr>ox_attempt_count := ox_attempt_count r + 1,
          ox_next_attempt_at := ts (now + seconds (backoff_delay (ox_attempt_count row))),
          ox_last_error := Some (truncate_message (store_sha S) e)\<rparr>) (st_outbox st)\<rparr>)"
proof (cases "row_find ox_batch_id i (st_outbox st)")
  case None
  from assms have "i \<in> ox_batch_id ` set (st_outbox st)"
    by (fastforce simp: outbox_keys_def outbox_key_def)
  with None show ?thesis by (simp add: row_find_None)
next
  case (Some row)
  from row_find_Some [OF this] have "row \<in> set (st_outbox st)" "ox_batch_id row = i" by simp_all
  then show ?thesis by (rule that) (simp add: mark_batch_retry_def Some)
qed

lemma flush_finish_ok:
  assumes "batch_key b \<in> outbox_keys st" and "flush_finish S answer later b st = (st', r)"
  shows "r = Inr ()"
proof (cases answer)
  case (Inl e)
  have "fst (batch_key b) = pb_batch_id b" by (simp add: batch_key_def)
  with assms(1) obtain st2 where "mark_batch_retry S st later (pb_batch_id b) e = Inr st2"
    by (rule retry_succeeds)
  with assms(2) Inl show ?thesis by (simp add: flush_finish_def)
next
  case (Inr x)
  with assms(2) show ?thesis by (auto simp: flush_finish_def split: option.splits)
qed

lemma flush_finish_keys:
  assumes "flush_finish S answer later b st = (st', r)"
  shows "outbox_keys st \<subseteq> outbox_keys st' \<union>
    (case answer of Inr (Some k) \<Rightarrow> {(ack_batch_id k, ack_payload_sha256 k)} | _ \<Rightarrow> {})"
  using assms mark_acked_keys [of st]
  by (auto simp: flush_finish_def split: sum.splits option.splits dest: retry_keys)

lemma answered_ack_receipt:
  assumes "ingest X s received a (pb_body b) = (s', answer)" and "token_of X s C a"
    and "post_ingest_reply describe (Inr (ingest_reply answer)) = Inr (Some k)"
  shows "receipt_of s' C (ack_batch_id k, ack_payload_sha256 k)"
  using assms by (auto simp: ingest_reply_Inr intro: ingest_ack_receipt)

text \<open>What a step of the daemon takes from the outbox: the row of an acknowledgement, if anything.\<close>

lemma service_keys: "service_op S w w' \<Longrightarrow> fst w' = st' \<Longrightarrow> outbox_keys (fst w) \<subseteq> outbox_keys st'"
  using service_op_keys by blast

lemma daemon_step_keys:
  assumes "daemon_step S d d'"
  shows "outbox_keys (fst (dm_world d)) \<subseteq> outbox_keys (fst (dm_world d')) \<union>
    (case dm_flush d of FlushAnswered b (Inr (Some k)) \<Rightarrow>
       if dm_flush d' = FlushIdle then {(ack_batch_id k, ack_payload_sha256 k)} else {} | _ \<Rightarrow> {})"
  using assms
proof (induction rule: daemon_step.induct)
  case (capture ids clk d records contents w r)
  from service_op.capture [of S "dm_world d" ids clk records contents] capture
  show ?case by (auto dest!: service_keys)
next
  case (title ids clk d session_id t w r)
  from service_op.titles [of S "dm_world d" ids clk session_id t] title
  show ?case by (auto dest!: service_keys)
next
  case (flush_end d batch answer later st r)
  from flush_finish_keys [OF flush_end(2)] flush_end(1) show ?case
    by (auto split: sum.splits option.splits)
next
  case (poll clk answer d st r)
  from service_op.poll [of S "fst (dm_world d)" "snd (dm_world d)" clk answer] poll
  show ?case by (auto dest!: service_keys)
next
  case (execute api T d st calls r)
  from service_op.execute [of S "fst (dm_world d)" "snd (dm_world d)" api T] execute
  show ?case by (auto dest!: service_keys)
next
  case (clean d now)
  from service_op.clean [of S "dm_world d" now] show ?case by (auto dest!: service_keys)
next
  case (beat ids clk inst version now health d w r)
  from service_op.beat [of S "dm_world d" ids clk inst version now health] beat
  show ?case by (auto dest!: service_keys)
qed auto

lemma daemon_step_phase:
  assumes "daemon_step S d d'"
  shows "dm_flush d' = dm_flush d \<or> dm_flush d' = FlushIdle
    \<or> (\<exists>b. dm_flush d' = FlushSent b \<and> batch_key b \<in> outbox_keys (fst (dm_world d')))"
  using assms by (induction rule: daemon_step.induct) (auto dest: due_batch_key)

lemma next_wait_simps [simp]: "next_wait n (Inr u) = 1" "next_wait n (Inl e) = min (n * 2) 30"
  by (simp_all add: next_wait_def loop_backoff_def)

lemma daemon_step_backoff:
  assumes "daemon_step S d d'" and "phase_ok C (fst (dm_world d)) s (dm_flush d)"
  shows "dm_flush_backoff d' = dm_flush_backoff d \<or> dm_flush_backoff d' = 1"
  using assms
proof (induction rule: daemon_step.induct)
  case (flush_end d batch answer later st r)
  then have "r = Inr ()" by (auto dest: flush_finish_ok)
  then show ?case by simp
qed auto

lemma daemon_step_ok:
  assumes "daemon_step S d d'" and "daemon_ok T C (d, s)"
  shows "daemon_ok T C (d', s)"
proof -
  have ok: "phase_ok C (fst (dm_world d)) s (dm_flush d)" using assms(2) by (simp add: daemon_ok_def)
  from daemon_step_phase [OF assms(1)] consider (same) "dm_flush d' = dm_flush d" "dm_flush d \<noteq> FlushIdle"
    | (idle) "dm_flush d' = FlushIdle"
    | (sent) b where "dm_flush d' = FlushSent b" "batch_key b \<in> outbox_keys (fst (dm_world d'))"
    by fastforce
  then have "phase_ok C (fst (dm_world d')) s (dm_flush d')"
  proof cases
    case same
    then have "outbox_keys (fst (dm_world d)) \<subseteq> outbox_keys (fst (dm_world d'))"
      using daemon_step_keys [OF assms(1)] by (auto split: flush_phase.splits sum.splits option.splits)
    with ok same(1) show ?thesis by (auto intro: phase_ok_mono)
  qed simp_all
  with assms(2) daemon_step_backoff [OF assms(1) ok] show ?thesis by (auto simp: daemon_ok_def)
qed

lemma net_step_ok:
  "net_step S X T C z z' \<Longrightarrow> daemon_ok T C z \<Longrightarrow> daemon_ok T C z'"
proof (induction rule: net_step.induct)
  case (client d d' s)
  then show ?case by (rule daemon_step_ok)
next
  case (server s s' d)
  then show ?case
    using phase_ok_mono [of C "fst (dm_world d)" s "dm_flush d" "fst (dm_world d)" s']
    by (auto simp: daemon_ok_def intro: server_step_receipt_of)
next
  case (answered d batch s a received s' answer describe)
  then have "receipts_fresh T s'" by (auto simp: daemon_ok_def intro: ingest_fresh)
  moreover have "phase_ok C (fst (dm_world d)) s'
      (FlushAnswered batch (post_ingest_reply describe (Inr (ingest_reply answer))))"
    using answered answered_ack_receipt [OF answered(4,2)]
    by (auto simp: daemon_ok_def split: sum.splits option.splits)
  ultimately show ?case using answered(5) by (simp add: daemon_ok_def)
next
  case (failed d batch s describe error)
  then show ?case by (simp add: daemon_ok_def post_ingest_reply_def)
qed

lemma net_run_ok: "(net_step S X T C)\<^sup>*\<^sup>* z z' \<Longrightarrow> daemon_ok T C z \<Longrightarrow> daemon_ok T C z'"
  by (induction rule: rtranclp_induct) (auto intro: net_step_ok)

lemma daemon_init_ok: "receipts_fresh T s \<Longrightarrow> daemon_ok T C (daemon_init w, s)"
  by (simp add: daemon_ok_def daemon_init_def)

definition safe_with :: "string \<Rightarrow> uuid \<times> string \<Rightarrow> daemon \<times> server_state \<Rightarrow> bool" where
  "safe_with C key z \<longleftrightarrow> kept C key (dm_world (fst z), snd z)"

lemma net_step_safe:
  "net_step S X T C z z' \<Longrightarrow> daemon_ok T C z \<Longrightarrow> safe_with C key z \<Longrightarrow> safe_with C key z'"
proof (induction rule: net_step.induct)
  case (client d d' s)
  then show ?case using daemon_step_keys [OF client(1)]
    by (auto simp: safe_with_def kept_def daemon_ok_def split: flush_phase.splits sum.splits option.splits
        if_splits)
next
  case (server s s' d)
  then show ?case by (auto simp: safe_with_def kept_def daemon_ok_def intro: server_step_receipt_of)
next
  case (answered d batch s a received s' answer describe)
  then show ?case using ingest_keeps [OF answered(4), of C key] by (auto simp: safe_with_def kept_def)
qed (simp add: safe_with_def kept_def)

lemma net_run_safe:
  "(net_step S X T C)\<^sup>*\<^sup>* z z' \<Longrightarrow> daemon_ok T C z \<Longrightarrow> safe_with C key z \<Longrightarrow> safe_with C key z'"
  by (induction rule: rtranclp_induct) (auto intro: net_step_safe net_run_ok)

section \<open>What the daemon promises\<close>

text \<open>
  C9. No batch is lost between the client and the server, however their work interleaves. In every run of
  the daemon, in which it captures, sets titles, polls, executes commands, cleans and beats while a batch
  is on the way, the server runs any of its handlers for anyone and its retention, and requests and
  answers are lost, a batch queued at the start is still in the outbox, or the server holds a
  receipt for it, for the client of the token and with the batch's digest.
\<close>

theorem queued_batch_survives_interleaving:
  assumes "(net_step S X T C)\<^sup>*\<^sup>* (daemon_init w, s) (d, s')" and "receipts_fresh T s"
    and "(i, sha) \<in> outbox_keys (fst w)"
  shows "(i, sha) \<in> outbox_keys (fst (dm_world d)) \<or> receipt_of s' C (i, sha)"
proof -
  have "safe_with C (i, sha) (daemon_init w, s)"
    using assms(3) by (simp add: safe_with_def kept_def daemon_init_def)
  from net_run_safe [OF assms(1) daemon_init_ok [OF assms(2)] this] show ?thesis
    by (simp add: safe_with_def kept_def)
qed

text \<open>The client of the sample delivery, whose batch is sent, while a poll fails.\<close>

definition sent_daemon :: daemon where
  "sent_daemon = (daemon_init (link_client, []))\<lparr>dm_flush := FlushSent link_due, dm_command_backoff := 2\<rparr>"

lemma sent_daemon_reached:
  "(net_step link_lib sample_server_lib 0 ''c'')\<^sup>*\<^sup>* (daemon_init (link_client, []), sample_server)
     (sent_daemon, sample_server)"
proof -
  let ?step = "net_step link_lib sample_server_lib 0 ''c''"
  let ?sent = "(daemon_init (link_client, []))\<lparr>dm_flush := FlushSent link_due\<rparr>"
  have "daemon_step link_lib (daemon_init (link_client, [])) ?sent"
    by (rule daemon_step.flush_start [where now = 0]) (simp_all add: daemon_init_def link_due)
  moreover have "daemon_step link_lib ?sent sent_daemon"
    using daemon_step.poll [of clk "Inl ''offline''" ?sent link_client "Inl (ApiFailed ''offline'')" link_lib]
    by (simp add: poll_command_once_def daemon_init_def sent_daemon_def is_err_def)
  ultimately have "?step (daemon_init (link_client, []), sample_server) (?sent, sample_server)"
    "?step (?sent, sample_server) (sent_daemon, sample_server)" by (auto intro: net_step.client)
  then show ?thesis by (rule converse_rtranclp_into_rtranclp [OF _ r_into_rtranclp])
qed

lemma sample_receipts_fresh: "receipts_fresh 0 sample_server"
  by code_simp

theorem queued_batch_survives_interleaving_witness:
  "outbox_key link_row \<in> outbox_keys link_client \<and> (outbox_key link_row \<in> outbox_keys (fst (dm_world sent_daemon))
     \<or> receipt_of sample_server ''c'' (outbox_key link_row))"
proof -
  have k: "outbox_key link_row \<in> outbox_keys link_client" by (simp add: outbox_keys_def link_client_def)
  then have "(ox_batch_id link_row, ox_payload_sha256 link_row) \<in> outbox_keys (fst (link_client, []))"
    by (simp add: outbox_key_def)
  from queued_batch_survives_interleaving [OF sent_daemon_reached sample_receipts_fresh this] k
  show ?thesis by (simp add: outbox_key_def)
qed

section \<open>A failed delivery\<close>

lemma backoff_delay_bounds: "5 \<le> backoff_delay n" "backoff_delay n \<le> 600"
  by (simp_all add: backoff_delay_def)

lemma ts_later: "ts (v + seconds n) = ts v + int n * 1000"
  by (simp add: ts_def seconds_def)

lemma put_off_rows:
  assumes "batch_key b \<in> outbox_keys st" and "flush_finish S (Inl e) later b st = (st', r)"
  obtains row where "row \<in> set (st_outbox st)" "ox_batch_id row = pb_batch_id b"
    "st' = st\<lparr>st_outbox := row_update (\<lambda>r. ox_batch_id r = pb_batch_id b)
       (\<lambda>r. r\<lparr>ox_attempt_count := ox_attempt_count r + 1,
          ox_next_attempt_at := ts later + int (backoff_delay (ox_attempt_count row)) * 1000,
          ox_last_error := Some (truncate_message (store_sha S) e)\<rparr>) (st_outbox st)\<rparr>"
proof -
  have "fst (batch_key b) = pb_batch_id b" by (simp add: batch_key_def)
  with assms(1) show ?thesis
    using assms(2) that by (elim retry_succeeds [of _ _ _ S later e]) (auto simp: flush_finish_def ts_later)
qed

lemma put_off_keys:
  "batch_key b \<in> outbox_keys st \<Longrightarrow> flush_finish S (Inl e) later b st = (st', r) \<Longrightarrow>
     outbox_keys st' = outbox_keys st"
  by (auto simp: flush_finish_def split: sum.splits dest: retry_keys)

lemma others_untouched:
  "(\<And>q. k (f q) = k q) \<Longrightarrow>
     filter (\<lambda>q. k q \<noteq> i) (row_update (\<lambda>q. k q = i) f rows) = filter (\<lambda>q. k q \<noteq> i) rows"
  by (induction rows) (auto simp: row_update_def)

text \<open>What is due has a row whose time has come, and conversely.\<close>

lemma due_row_time:
  assumes "next_due_batch st t = Some b"
  obtains row where "row \<in> set (st_outbox st)" "ox_batch_id row = pb_batch_id b" "ox_next_attempt_at row \<le> ts t"
  using assms by (auto simp: next_due_batch_def dest!: row_min_Some)

lemma next_due_None: "next_due_batch st t = None \<longleftrightarrow> (\<forall>row \<in> set (st_outbox st). ts t < ox_next_attempt_at row)"
  by (auto simp: next_due_batch_def filter_empty_conv not_le)

text \<open>
  C10. A failed delivery is put off and disturbs nothing. When the answer to a batch is an error, whatever
  ran while it was on the way, the loop goes on without an error of its own, no batch leaves
  the outbox and every other row is as it was; the batch waits for exactly the delay of its attempts, which
  is between 5 and 600 seconds: it is not offered before, and from then on some batch is.
\<close>

theorem failed_delivery_backs_off:
  assumes "(net_step S X T C)\<^sup>*\<^sup>* (daemon_init w, s) (d, s')" and "receipts_fresh T s"
    and "dm_flush d = FlushAnswered b (Inl e)"
    and "flush_finish S (Inl e) later b (fst (dm_world d)) = (st', r)"
  shows "r = Inr () \<and> outbox_keys st' = outbox_keys (fst (dm_world d))
    \<and> filter (\<lambda>q. ox_batch_id q \<noteq> pb_batch_id b) (st_outbox st') =
        filter (\<lambda>q. ox_batch_id q \<noteq> pb_batch_id b) (st_outbox (fst (dm_world d)))
    \<and> (\<exists>row \<in> set (st_outbox (fst (dm_world d))). \<exists>wait.
         ox_batch_id row = pb_batch_id b \<and> wait = int (backoff_delay (ox_attempt_count row)) * 1000
         \<and> 5000 \<le> wait \<and> wait \<le> 600000
         \<and> (\<forall>t b'. ts t < ts later + wait \<longrightarrow> next_due_batch st' t = Some b' \<longrightarrow> pb_batch_id b' \<noteq> pb_batch_id b)
         \<and> (\<forall>t. ts later + wait \<le> ts t \<longrightarrow> next_due_batch st' t \<noteq> None))"
proof -
  let ?st = "fst (dm_world d)"
  from net_run_ok [OF assms(1) daemon_init_ok [OF assms(2)]] have key: "batch_key b \<in> outbox_keys ?st"
    using assms(3) by (simp add: daemon_ok_def)
  obtain row where row: "row \<in> set (st_outbox ?st)" "ox_batch_id row = pb_batch_id b"
    and st': "st' = ?st\<lparr>st_outbox := row_update (\<lambda>r. ox_batch_id r = pb_batch_id b)
       (\<lambda>r. r\<lparr>ox_attempt_count := ox_attempt_count r + 1,
          ox_next_attempt_at := ts later + int (backoff_delay (ox_attempt_count row)) * 1000,
          ox_last_error := Some (truncate_message (store_sha S) e)\<rparr>) (st_outbox ?st)\<rparr>"
    using key assms(4) by (rule put_off_rows)
  let ?wait = "int (backoff_delay (ox_attempt_count row)) * 1000"
  have time: "q \<in> set (st_outbox st') \<Longrightarrow> ox_batch_id q = pb_batch_id b \<Longrightarrow>
      ox_next_attempt_at q = ts later + ?wait" for q
    by (auto simp: st' row_update_def split: if_splits)
  from key have "batch_key b \<in> outbox_keys st'" by (simp add: put_off_keys [OF key assms(4)])
  then have there: "\<exists>q \<in> set (st_outbox st'). ox_batch_id q = pb_batch_id b"
    by (auto simp: outbox_keys_def outbox_key_def batch_key_def)
  have "5000 \<le> ?wait" "?wait \<le> 600000"
    using backoff_delay_bounds [of "ox_attempt_count row"] by linarith+
  moreover have "pb_batch_id b' \<noteq> pb_batch_id b"
    if "ts t < ts later + ?wait" "next_due_batch st' t = Some b'" for t b'
    using that time by (elim due_row_time) fastforce
  moreover have "next_due_batch st' t \<noteq> None" if "ts later + ?wait \<le> ts t" for t
  proof -
    from there time have "\<exists>q \<in> set (st_outbox st'). ox_next_attempt_at q = ts later + ?wait" by blast
    with that show ?thesis by (auto simp only: next_due_None not_less [symmetric])
  qed
  moreover have "filter (\<lambda>q. ox_batch_id q \<noteq> pb_batch_id b) (st_outbox st') =
      filter (\<lambda>q. ox_batch_id q \<noteq> pb_batch_id b) (st_outbox ?st)"
    by (simp add: st' others_untouched)
  moreover have "outbox_keys st' = outbox_keys ?st"
    using key assms(4) by (rule put_off_keys)
  ultimately show ?thesis using row flush_finish_ok [OF key assms(4)] by blast
qed

theorem failed_delivery_backs_off_witness:
  "\<exists>st'. flush_finish link_lib (Inl ''offline'') 0 link_due link_client = (st', Inr ())
     \<and> outbox_keys st' = outbox_keys link_client \<and> next_due_batch st' (seconds 600) \<noteq> None"
proof -
  let ?d = "sent_daemon\<lparr>dm_flush := FlushAnswered link_due (post_ingest_reply (\<lambda>n. []) (Inl ''offline''))\<rparr>"
  let ?step = "net_step link_lib sample_server_lib 0 ''c''"
  have "?step (sent_daemon, sample_server) (?d, sample_server)"
    by (rule net_step.failed) (simp add: sent_daemon_def)
  with sent_daemon_reached have run: "?step\<^sup>*\<^sup>* (daemon_init (link_client, []), sample_server) (?d, sample_server)"
    by (rule rtranclp.rtrancl_into_rtrancl)
  have d: "dm_flush ?d = FlushAnswered link_due (Inl ''offline'')" "fst (dm_world ?d) = link_client"
    by (simp_all add: post_ingest_reply_def sent_daemon_def daemon_init_def)
  obtain st' r where f: "flush_finish link_lib (Inl ''offline'') 0 link_due link_client = (st', r)" by fastforce
  have "ts 0 + wait \<le> ts (seconds 600)" if "wait \<le> 600000" for wait
    using that ts_later [of 0 600] by simp
  with failed_delivery_backs_off [OF run sample_receipts_fresh d(1), unfolded d(2), OF f] f
  show ?thesis by blast
qed

section \<open>The command line\<close>

text \<open>
  The commands of the client and what \<open>run_cli\<close> does for each. \<open>read\<close> is the fixture that the file, or the
  standard input, holds; \<open>E\<close> is what the operations meet outside: answers, clocks and identifiers.
\<close>

datatype client_cli_command = Daemon bool | FixtureIngest "string option" bool | Health | Cleanup

datatype cli_end = RunsDaemon | Finished | Printed health_snapshot

datatype 'l client_cli_error = FixtureUnreadable string | ServiceFailed "'l service_error"

record cli_env =
  ce_post :: "string \<Rightarrow> byte list \<Rightarrow> string + ingest_ack option"
  ce_commands :: "string + command_poll_response"
  ce_api :: "nat \<Rightarrow> api_call \<Rightarrow> string + unit"
  ce_now :: datetime
  ce_later :: datetime
  ce_clean :: datetime
  ce_clock :: "nat \<Rightarrow> nat \<Rightarrow> i64"
  ce_execution :: command_clock
  ce_ids :: "nat \<Rightarrow> nat \<Rightarrow> uuid"

definition client_cli_command_of :: "client_cli_command option \<Rightarrow> client_cli_command" where
  "client_cli_command_of command = (case command of None \<Rightarrow> Daemon False | Some c \<Rightarrow> c)"

definition run_cli_fixture ::
  "'l store_lib \<Rightarrow> cli_env \<Rightarrow> string + fixture_bundle \<Rightarrow> bool \<Rightarrow> client_store \<times> blob_files
     \<Rightarrow> (client_store \<times> blob_files) \<times> ('l client_cli_error + cli_end)" where
  "run_cli_fixture S E fixture flush w =
     (case fixture of
        Inl e \<Rightarrow> (w, Inl (FixtureUnreadable e))
      | Inr bundle \<Rightarrow>
          (case ingest_fixture S (ce_ids E) (ce_clock E) w bundle of
             (w1, Inl e) \<Rightarrow> (w1, Inl (ServiceFailed e))
           | (w1, Inr _) \<Rightarrow>
               if flush
               then (let (st, r) = flush_outbox_once S (ce_post E) (ce_now E) (ce_later E) (fst w1) in
                     ((st, snd w1), mapr (\<lambda>_. Finished) (map_err ServiceFailed r)))
               else (w1, Inr Finished)))"

definition run_cli ::
  "'l store_lib \<Rightarrow> cli_env \<Rightarrow> (string option \<Rightarrow> string + fixture_bundle) \<Rightarrow> client_cli_command option
     \<Rightarrow> client_store \<times> blob_files \<Rightarrow> (client_store \<times> blob_files) \<times> ('l client_cli_error + cli_end)" where
  "run_cli S E read command w =
     (case client_cli_command_of command of
        Daemon once \<Rightarrow>
          (if once
           then (let (w', r) = run_once S (ce_post E) (ce_commands E) (ce_api E) (ce_now E) (ce_later E)
                    (ce_clock E) (ce_execution E) (ce_clean E) w in
                 (w', mapr (\<lambda>_. Finished) (map_err ServiceFailed r)))
           else (w, Inr RunsDaemon))
      | FixtureIngest input flush \<Rightarrow> run_cli_fixture S E (read input) flush w
      | Health \<Rightarrow> (w, Inr (Printed (health_snapshot_of (fst w))))
      | Cleanup \<Rightarrow> (cleanup w (ce_clean E), Inr Finished))"

lemma no_arguments_select_daemon_mode: "run_cli S E read None w = (w, Inr RunsDaemon)"
  by (simp add: run_cli_def client_cli_command_of_def)

end
