(* ===== verification/Server_Retrieval.thy ===== *)
theory Server_Retrieval
  imports Server_Safety Client_Blob "HOL-Library.Multiset" "HOL-Library.Code_Target_Nat"
begin

text \<open>
  The content side end to end: what is stored is what its digest names, eviction keeps the newest
  conversations, and the chunks a client cuts a blob into are put together again by the server.
\<close>

section \<open>Reachable states\<close>

lemma empty_server_ok: "server_ok X empty_server"
  by (simp add: server_ok_def empty_server_def links_backed_def)

lemma steps_ok:
  assumes "server_ok X st0" and "(server_step X T)\<^sup>*\<^sup>* st0 st"
  shows "server_ok X st"
  using assms(2,1) by (induction rule: rtranclp_induct) (auto intro: server_step_ok)

lemmas reachable_ok = steps_ok [OF empty_server_ok]

text \<open>
  C13. Whatever requests are made from a state that keeps the invariant, such as the empty one, the
  server never serves a wrong body: every object it holds decompresses to bytes of the recorded size whose SHA-256 is the digest it is stored under, and every
  content link of a request points to such an object.
\<close>

theorem stored_content_authentic:
  assumes "server_ok X st0" and "(server_step X T)\<^sup>*\<^sup>* st0 st"
  shows "list_all (object_authentic X) (sv_content_objects st)
    \<and> list_all (\<lambda>l. list_ex (\<lambda>ob. ob_object_sha256 ob = lk_object_sha256 l \<and> object_authentic X ob)
        (sv_content_objects st)) (sv_content_links st)"
proof -
  have ok: "server_ok X st" by (rule steps_ok [OF assms])
  have "\<exists>ob \<in> set (sv_content_objects st). ob_object_sha256 ob = lk_object_sha256 l \<and> object_authentic X ob"
    if "l \<in> set (sv_content_links st)" for l
  proof -
    from that ok have "lk_object_sha256 l \<in> ob_object_sha256 ` set (sv_content_objects st)"
      by (auto simp: server_ok_def links_backed_def)
    with ok show ?thesis by (auto simp: server_ok_def list_all_iff)
  qed
  with ok show ?thesis by (auto simp: server_ok_def list_all_iff list_ex_iff)
qed

section \<open>The newest conversations stay\<close>

text \<open>\<open>rows\<close> are the conversations before the eviction for client \<open>c\<close>, \<open>kept\<close> those after it.\<close>

definition evicts_oldest :: "string \<Rightarrow> conversation_entry list \<Rightarrow> conversation_entry list \<Rightarrow> bool" where
  "evicts_oldest c rows kept \<longleftrightarrow>
     set kept \<subseteq> set rows
   \<and> list_all (\<lambda>r. r \<in> set kept \<or> cv_client_id r = c
        \<and> list_all (\<lambda>q. cv_client_id q = c \<longrightarrow> cv_last_requested_at_ms r \<le> cv_last_requested_at_ms q) kept)
      rows"

lemma evicts_oldest_step:
  assumes "evicts_oldest c rows (sv_content_conversations st)" and "distinct (map cv_key rows)"
    and "select_oldest_conversation st c = Some v"
  shows "evicts_oldest c rows
    (sv_content_conversations (evict_conversation st c (cv_session_id v) (cv_thread_id v)))"
proof -
  let ?kept = "sv_content_conversations st"
  have v: "v \<in> set (client_conversations st c)"
    "\<forall>q \<in> set (client_conversations st c).
       (cv_last_requested_at_ms v, cv_session_id v, cv_thread_id v)
         \<le> (cv_last_requested_at_ms q, cv_session_id q, cv_thread_id q)"
    using assms(3) row_min_Some unfolding select_oldest_conversation_def by fast+
  then have vk: "v \<in> set ?kept" "cv_client_id v = c"
    and least: "\<And>q. q \<in> set ?kept \<Longrightarrow> cv_client_id q = c \<Longrightarrow>
      cv_last_requested_at_ms v \<le> cv_last_requested_at_ms q"
    by (auto simp: client_conversations_def less_eq_prod_simp)
  have sub: "set ?kept \<subseteq> set rows"
    using assms(1) by (simp add: evicts_oldest_def)
  have only_v: "r = v" if "r \<in> set ?kept" "cv_key r = (c, cv_session_id v, cv_thread_id v)" for r
    using that vk sub assms(2) by (auto simp: distinct_map cv_key_def inj_on_def)
  show ?thesis
    using assms(1) only_v vk least unfolding evicts_oldest_def evict_conversation_rows
    by (fastforce simp: list_all_iff)
qed

lemma evict_old_oldest:
  assumes "distinct (map cv_key (sv_content_conversations st))"
  shows "evicts_oldest c (sv_content_conversations st)
    (sv_content_conversations (evict_old_conversations st c))"
  by (rule evict_old_induct)
    (auto simp: evicts_oldest_def [of _ "sv_content_conversations st" "sv_content_conversations st"]
      list_all_iff intro: evicts_oldest_step assms)

lemma evict_old_nonempty:
  assumes "distinct (map cv_key (sv_content_conversations st))" and "client_conversations st c \<noteq> []"
  shows "client_conversations (evict_old_conversations st c) c \<noteq> []"
proof -
  let ?P = "\<lambda>s. distinct (map cv_key (sv_content_conversations s)) \<and> client_conversations s c \<noteq> []"
  have "?P (evict_old_conversations st c)"
  proof (rule evict_old_induct)
    fix s v
    assume s: "?P s" "CONTENT_CONVERSATION_LIMIT < length (client_conversations s c)"
    let ?k = "(c, cv_session_id v, cv_thread_id v)"
    have "distinct (map cv_key (client_conversations s c))"
      using s(1) by (simp add: client_conversations_def distinct_map_filter)
    from distinct_card [OF this]
    have "30 < card (cv_key ` set (client_conversations s c))"
      using s(2) by (simp add: CONTENT_CONVERSATION_LIMIT_def)
    then have "\<not> cv_key ` set (client_conversations s c) \<subseteq> {?k}"
      using card_mono [of "{?k}" "cv_key ` set (client_conversations s c)"] by auto
    then have "\<exists>r \<in> set (client_conversations s c). cv_key r \<noteq> ?k" by blast
    then have "client_conversations (evict_conversation s c (cv_session_id v) (cv_thread_id v)) c \<noteq> []"
      by (auto simp: client_conversations_def evict_conversation_rows filter_empty_conv)
    moreover have "distinct (map cv_key (sv_content_conversations
        (evict_conversation s c (cv_session_id v) (cv_thread_id v))))"
      using s(1) by (simp add: evict_conversation_rows distinct_map_filter)
    ultimately show "?P (evict_conversation s c (cv_session_id v) (cv_thread_id v))" by blast
  qed (use assms in simp)
  then show ?thesis by blast
qed

lemma evict_old_limit:
  "length (client_conversations (evict_old_conversations st c) c) \<le> CONTENT_CONVERSATION_LIMIT"
proof (induction st c rule: evict_old_conversations.induct)
  case (1 st c)
  show ?case
  proof (cases "select_oldest_conversation st c")
    case None
    then show ?thesis
      by (subst evict_old_conversations.simps) (simp add: select_oldest_conversation_def)
  next
    case (Some v)
    then show ?thesis
      using 1 by (subst evict_old_conversations.simps) simp
  qed
qed

text \<open>
  C18. In every state that keeps the invariant, so in every reachable one, asking for content keeps a
  client at its 30 newest conversations: afterwards the client of the
  task has at most 30, a conversation that is gone was its own and last asked for no later than any it
  kept, and a conversation asked for later than every other is kept.
\<close>

theorem newest_conversations_kept:
  assumes "server_ok X st"
    and "create_content_request X st ids now a k parts expires = (st', Inr ())"
  shows "\<exists>row. row_find te_task_ref k (sv_tasks st) = Some row
    \<and> length (client_conversations st' (te_client_id row)) \<le> 30
    \<and> evicts_oldest (te_client_id row)
        (sv_content_conversations (touch_conversation st (te_client_id row) (te_session_id row)
          (te_thread_id row) now)) (sv_content_conversations st')
    \<and> (list_all (\<lambda>r. cv_last_requested_at_ms r < now) (client_conversations st (te_client_id row)) \<longrightarrow>
        (te_client_id row, te_session_id row, te_thread_id row)
          \<in> cv_key ` set (sv_content_conversations st'))"
proof -
  from assms(2) obtain p where "create_content_request_inner st ids now p k parts expires = Inr (st', ())"
    by (auto simp: create_content_request_def commit_or_Inr bindr_eq_Inr)
  then obtain row requests commands where row: "row_find te_task_ref k (sv_tasks st) = Some row"
    and st': "st' = (evict_old_conversations (touch_conversation st (te_client_id row) (te_session_id row)
        (te_thread_id row) now) (te_client_id row))
        \<lparr>sv_content_requests := requests, sv_commands := commands\<rparr>"
    by (rule create_request_cases)
  let ?c = "te_client_id row"
  let ?t = "touch_conversation st ?c (te_session_id row) (te_thread_id row) now"
  let ?new = "\<lparr>cv_client_id = ?c, cv_session_id = te_session_id row, cv_thread_id = te_thread_id row,
       cv_last_requested_at_ms = now\<rparr>"
  have ok: "server_ok X ?t" by (rule touch_ok [OF assms(1)])
  then have oldest: "evicts_oldest ?c (sv_content_conversations ?t) (sv_content_conversations st')"
    using evict_old_oldest [of ?t ?c] by (simp add: st' server_ok_def)
  have limit: "length (client_conversations st' ?c) \<le> 30"
    using evict_old_limit [of ?t ?c]
    by (simp add: st' client_conversations_def CONTENT_CONVERSATION_LIMIT_def)
  have new: "?new \<in> set (sv_content_conversations ?t)"
    by (simp add: touch_conversation_def row_put_in)
  have kept: "?new \<in> set (sv_content_conversations st')"
    if "list_all (\<lambda>r. cv_last_requested_at_ms r < now) (client_conversations st ?c)"
  proof (rule ccontr)
    assume gone: "?new \<notin> set (sv_content_conversations st')"
    then have "list_all (\<lambda>q. cv_client_id q = ?c \<longrightarrow> now \<le> cv_last_requested_at_ms q)
        (sv_content_conversations st')"
      using oldest new by (force simp: evicts_oldest_def list_all_iff)
    moreover have "cv_last_requested_at_ms q < now" if "q \<in> set (sv_content_conversations st')"
      "cv_client_id q = ?c" for q
      using that oldest gone \<open>list_all (\<lambda>r. cv_last_requested_at_ms r < now) (client_conversations st ?c)\<close>
      by (auto simp: evicts_oldest_def touch_conversation_def client_conversations_def list_all_iff dest!: subsetD set_row_put [THEN subsetD])
    ultimately have "client_conversations st' ?c = []"
      by (fastforce simp: client_conversations_def list_all_iff filter_empty_conv)
    moreover have "client_conversations ?t ?c \<noteq> []"
      using new by (force simp: client_conversations_def filter_empty_conv)
    ultimately show False
      using evict_old_nonempty [of ?t ?c] ok by (simp add: st' client_conversations_def server_ok_def)
  qed
  have "cv_key ?new = (?c, te_session_id row, te_thread_id row)" by (simp add: cv_key_def)
  with row limit oldest kept show ?thesis by (metis imageI)
qed

section \<open>A blob arrives whole\<close>

text \<open>The chunks a client posts, each with the time at which the server handles it.\<close>

fun post_all ::
  "'l server_lib \<Rightarrow> string option \<Rightarrow> uuid \<Rightarrow> server_state \<Rightarrow> (i64 \<times> content_upload_chunk) list
     \<Rightarrow> server_state \<times> (status_code + content_upload_result) list" where
  "post_all X a i st [] = (st, [])"
| "post_all X a i st ((now, c) # posts) =
     (let (st1, r) = upload_chunk X st now a i c; (st2, rs) = post_all X a i st1 posts in (st2, r # rs))"

lemma post_all_append:
  "post_all X a i st (ps @ qs) =
     (let (st1, rs) = post_all X a i st ps; (st2, ss) = post_all X a i st1 qs in (st2, rs @ ss))"
  by (induction ps arbitrary: st) (auto split: prod.splits)

text \<open>What \<open>load_chunks\<close> gives for a file that is not empty.\<close>

lemma loaded_chunks:
  assumes "load_chunks B files sha rid = Inr cs" and "map_get files sha = Some z" and "z \<noteq> []"
    and "length z < 2 ^ 50" and "is_hex64 sha" and "is_uuid_v7 rid" and "sha_ok (bl_sha256_hex B)"
  shows "map ch_chunk_index cs = map word_of_nat [0..<length cs]" and "0 < length cs"
    and "length cs < 2 ^ 32" and "concat (map ch_payload_zstd cs) = z"
    and "c \<in> set cs \<Longrightarrow> ch_request_id c = rid \<and> ch_object_sha256 c = sha
      \<and> ch_chunk_count c = word_of_nat (length cs) \<and> validate_chunk (bl_sha256_hex B) c = Inr ()"
proof -
  let ?ps = "chunks_of MAX_CONTENT_CHUNK_BYTES z"
  note n = chunk_count_chunks [OF assms(3,4)]
  have cs: "cs = load_chunks_loop B rid sha (word_of_nat (length ?ps)) 0 ?ps"
    using assms(1,2) by (simp add: load_chunks_def n(1))
  show "map ch_chunk_index cs = map word_of_nat [0..<length cs]"
    by (rule nth_equalityI) (simp_all add: cs load_chunks_loop_payloads load_chunks_loop_nth)
  show "0 < length cs" "length cs < 2 ^ 32" "concat (map ch_payload_zstd cs) = z"
    using n(2,3) by (simp_all add: cs load_chunks_loop_payloads concat_chunks_of MAX_CONTENT_CHUNK_BYTES_def)
  assume c: "c \<in> set cs"
  then have "validate_chunk (bl_sha256_hex B) c = Inr ()"
    using load_chunks_loop_valid [of c B rid sha ?ps] n(3) chunks_of_length assms(5-7)
    by (fastforce simp: cs)
  moreover from c obtain j where "j < length ?ps" "c = cs ! j"
    by (auto simp: in_set_conv_nth cs load_chunks_loop_payloads)
  ultimately show "ch_request_id c = rid \<and> ch_object_sha256 c = sha
      \<and> ch_chunk_count c = word_of_nat (length cs) \<and> validate_chunk (bl_sha256_hex B) c = Inr ()"
    by (simp add: cs load_chunks_loop_nth load_chunks_loop_payloads)
qed

text \<open>The server is ready for the object: the request is open and the manifest is there.\<close>

definition awaiting_object ::
  "'l server_lib \<Rightarrow> server_state \<Rightarrow> string option \<Rightarrow> uuid \<Rightarrow> content_request \<Rightarrow> string
     \<Rightarrow> content_object_manifest \<Rightarrow> bool" where
  "awaiting_object X st a i q sha m =
     (case authorize_client X st a of
        Inl e \<Rightarrow> False
      | Inr p \<Rightarrow> load_command_request st i (pn_client_id p) = Some q
          \<and> load_manifest st (cr_request_id q) sha = Some m)"

definition entry_of_post :: "i64 \<times> content_upload_chunk \<Rightarrow> chunk_entry" where
  "entry_of_post x = chunk_entry_of (snd x) (fst x)"

definition with_posts :: "server_state \<Rightarrow> (i64 \<times> content_upload_chunk) list \<Rightarrow> server_state" where
  "with_posts st posts = st\<lparr>sv_content_chunks := sv_content_chunks st @ map entry_of_post posts\<rparr>"

lemma awaiting_with_posts: "awaiting_object X (with_posts st posts) a i q sha m = awaiting_object X st a i q sha m"
  by (simp add: awaiting_object_def with_posts_def authorize_client_def authorize_def
      load_command_request_def load_manifest_def find_manifest_def split: sum.split)

lemma upload_chunk_open:
  assumes "awaiting_object X st a i q sha m" and "validate_chunk (sha256_hex (xl_wire X)) c = Inr ()"
    and "ch_request_id c = cr_request_id q" and "\<not> is_some_and (cr_expires_at_ms q) (\<lambda>e. e \<le> now)"
  shows "upload_chunk X st now a i c = commit_or st (chunk_of_request X st now q c)"
  using assms by (auto simp: upload_chunk_def awaiting_object_def split: sum.splits)

lemma object_chunks_posts:
  assumes "object_chunks st rid sha = []"
    and "\<And>x. x \<in> set posts \<Longrightarrow> ch_request_id (snd x) = rid \<and> ch_object_sha256 (snd x) = sha"
  shows "object_chunks (with_posts st posts) rid sha = map entry_of_post posts"
proof -
  have "filter (\<lambda>r. ck_request_id r = rid \<and> ck_object_sha256 r = sha) (map entry_of_post posts) =
      map entry_of_post posts"
    using assms(2) by (auto simp: entry_of_post_def chunk_entry_of_def filter_id_conv)
  with assms(1) show ?thesis by (simp add: object_chunks_def with_posts_def)
qed

text \<open>One more chunk of an object, none of whose posts so far has its index.\<close>

lemma upsert_posted:
  assumes "object_chunks st rid sha = []"
    and "\<And>x. x \<in> set (posts @ [(now, c)]) \<Longrightarrow> ch_request_id (snd x) = rid
      \<and> ch_object_sha256 (snd x) = sha \<and> ch_chunk_count (snd x) = k"
    and "distinct (map (\<lambda>x. ch_chunk_index (snd x)) (posts @ [(now, c)]))"
  shows "upsert_chunk_row (with_posts st posts) c now = Inr (with_posts st (posts @ [(now, c)]), False)"
proof -
  have rows: "object_chunks (with_posts st posts) (ch_request_id c) (ch_object_sha256 c) =
      map entry_of_post posts"
    using object_chunks_posts [OF assms(1), of posts] assms(2) assms(2) [of "(now, c)"] by simp
  have "row_find ck_chunk_index (ch_chunk_index c) (map entry_of_post posts) = None"
    using assms(3) by (force simp: row_find_None entry_of_post_def chunk_entry_of_def)
  moreover have "\<not> list_ex (\<lambda>r. ck_chunk_count r \<noteq> ch_chunk_count c) (map entry_of_post posts)"
    using assms(2) by (fastforce simp: list_ex_iff entry_of_post_def chunk_entry_of_def)
  ultimately show ?thesis
    unfolding upsert_chunk_row_def rows Let_def
    by (simp add: with_posts_def entry_of_post_def)
qed

lemma post_prefix:
  assumes "awaiting_object X st a i q sha m" and "object_chunks st (cr_request_id q) sha = []"
    and "mf_chunk_count m = word_of_nat n" and "n < 2 ^ 32" and "length posts < n"
    and "\<And>x. x \<in> set posts \<Longrightarrow> ch_request_id (snd x) = cr_request_id q
      \<and> ch_object_sha256 (snd x) = sha \<and> ch_chunk_count (snd x) = word_of_nat n
      \<and> validate_chunk (sha256_hex (xl_wire X)) (snd x) = Inr ()
      \<and> \<not> is_some_and (cr_expires_at_ms q) (\<lambda>e. e \<le> fst x)"
    and "distinct (map (\<lambda>x. ch_chunk_index (snd x)) posts)"
  shows "fst (post_all X a i st posts) = with_posts st posts
    \<and> list_all is_ok (snd (post_all X a i st posts))"
  using assms(5-7)
proof (induction posts rule: rev_induct)
  case Nil
  then show ?case by (simp add: with_posts_def)
next
  case (snoc x posts)
  obtain now c where x: "x = (now, c)" by fastforce
  let ?s = "with_posts st posts"
  have c: "ch_request_id c = cr_request_id q" "ch_object_sha256 c = sha"
    "ch_chunk_count c = word_of_nat n" "validate_chunk (sha256_hex (xl_wire X)) c = Inr ()"
    "\<not> is_some_and (cr_expires_at_ms q) (\<lambda>e. e \<le> now)"
    using snoc.prems(2) [of x] by (simp_all add: x)
  have IH: "fst (post_all X a i st posts) = ?s" "list_all is_ok (snd (post_all X a i st posts))"
    using snoc.IH snoc.prems by auto
  have "awaiting_object X ?s a i q sha m" by (simp add: awaiting_with_posts assms(1))
  then have up: "upload_chunk X ?s now a i c = commit_or ?s (chunk_of_request X ?s now q c)"
    by (rule upload_chunk_open) (fact c)+
  have ups: "upsert_chunk_row ?s c now = Inr (with_posts st (posts @ [(now, c)]), False)"
    by (rule upsert_posted [OF assms(2), where k = "word_of_nat n"])
      (use snoc.prems(2,3) in \<open>simp_all add: x\<close>)
  have man: "load_manifest ?s (cr_request_id q) sha = Some m"
    using assms(1) awaiting_with_posts [of X st posts a i q sha m]
    by (auto simp: awaiting_object_def split: sum.splits)
  have "object_chunks (with_posts st (posts @ [x])) (cr_request_id q) sha = map entry_of_post (posts @ [x])"
    by (rule object_chunks_posts [OF assms(2)]) (use snoc.prems(2) in auto)
  then have "\<not> is_object_complete (with_posts st (posts @ [x])) (cr_request_id q) sha (word_of_nat n)"
    using snoc.prems(1) assms(4)
    by (simp add: is_object_complete_def ordered_chunks_def unat_of_nat)
  then have "upload_chunk X ?s now a i c = (with_posts st (posts @ [x]),
      Inr \<lparr>cu_request_id = ch_request_id c, cu_status = content_upload_status.Stored,
        cu_note = Some ''partial_upload''\<rparr>)"
    using ups man c(1-3) assms(3)
    by (simp add: up chunk_of_request_def commit_or_def x)
  with IH show ?case
    by (simp add: post_all_append x split_beta Let_def)
qed

lemma map_sort_key: "map g (sort_key (\<lambda>x. f (g x)) xs) = sort_key f (map g xs)"
proof -
  have ins: "map g (insort_key (\<lambda>x. f (g x)) x ys) = insort_key f (g x) (map g ys)" for x ys
    by (induction ys) simp_all
  show ?thesis by (induction xs) (simp_all add: ins)
qed

lemma finish_object_stores:
  assumes "assemble_object st (ch_request_id c) (ch_object_sha256 c) (ch_chunk_count c) = Inr z"
    and "xl_decode_all X z = Some u" and "sha256_hex (xl_wire X) u = to_ascii_lowercase (ch_object_sha256 c)"
    and "word_of_nat (length z) = mf_compressed_bytes m" "word_of_nat (length u) = mf_uncompressed_bytes m"
    and "mf_object_sha256 m = sha"
  shows "\<exists>st' ob. finish_object X st now q m c = Inr st'
    \<and> row_find ob_object_sha256 sha (sv_content_objects st') = Some ob \<and> ob_content_zstd ob = z
    \<and> (cr_request_id q, sha) \<in> lk_key ` set (sv_content_links st')"
proof -
  let ?s = "touch_conversation (upsert_content_object st q m z u now)
    (cr_client_id q) (cr_session_id q) (cr_thread_id q) now"
  obtain ob where ob: "row_find ob_object_sha256 sha (sv_content_objects ?s) = Some ob" "ob_content_zstd ob = z"
    using assms(6) by (fastforce simp: upsert_content_object_def touch_conversation_def
        row_upsert_find split: option.splits)
  have link: "(cr_request_id q, sha) \<in> lk_key ` set (sv_content_links ?s)"
  proof -
    have "lk_key (r\<lparr>lk_manifest := m, lk_last_accessed_at_ms := now\<rparr>) = lk_key r" for r
      by (simp add: lk_key_def)
    then show ?thesis
      using assms(6) by (simp add: upsert_content_object_def touch_conversation_def row_upsert_keys)
        (simp add: lk_key_def)
  qed
  show ?thesis
    using assms ob link
    by (simp add: finish_object_def Let_def complete_request_and_command_def)
qed

lemma sort_posts:
  assumes "mset (map snd posts) = mset cs" and "map ch_chunk_index cs = map word_of_nat [0..<length cs]"
    and "length cs < 2 ^ 32"
  shows "map snd (sort_key (\<lambda>x. ch_chunk_index (snd x)) posts) = cs"
proof -
  have "map snd (sort_key (\<lambda>x. ch_chunk_index (snd x)) posts) = sort_key ch_chunk_index (map snd posts)"
    by (rule map_sort_key)
  also have "\<dots> = cs"
  proof (rule sort_key_inj_key_eq [OF assms(1)])
    have d: "distinct (map ch_chunk_index cs)"
      using assms(2,3) by (auto simp: distinct_map inj_on_def word_of_nat_eq_iff)
    then show "inj_on ch_chunk_index (set (map snd posts))"
      using assms(1) by (metis distinct_map mset_eq_setD)
    show "sorted (map ch_chunk_index cs)"
      using assms(3) by (auto simp: assms(2) sorted_iff_nth_mono word_le_nat_alt unat_of_nat)
  qed
  finally show ?thesis .
qed

lemma indices_from_iff:
  "indices_from k rows \<longleftrightarrow> map (\<lambda>r. unat (ck_chunk_index r)) rows = [k..<k + length rows]"
proof (induction rows arbitrary: k)
  case (Cons r rows)
  have "[k..<k + length (r # rows)] = k # [Suc k..<Suc k + length rows]"
    by (subst upt_conv_Cons) simp_all
  then show ?case by (simp only: Cons.IH indices_from.simps) auto
qed simp

lemma posts_distinct:
  assumes "mset (map snd posts) = mset cs" and "map ch_chunk_index cs = map word_of_nat [0..<length cs]"
    and "length cs < 2 ^ 32"
  shows "distinct (map (\<lambda>x. ch_chunk_index (snd x)) posts)"
proof -
  have "distinct (map ch_chunk_index cs)"
    using assms(2,3) by (auto simp: distinct_map inj_on_def word_of_nat_eq_iff)
  moreover have "mset (map ch_chunk_index (map snd posts)) = mset (map ch_chunk_index cs)"
    by (simp only: mset_map [of ch_chunk_index] assms(1))
  ultimately have "distinct (map ch_chunk_index (map snd posts))"
    using mset_eq_imp_distinct_iff by blast
  then show ?thesis by (simp add: comp_def)
qed

text \<open>Once every chunk is posted, the object is complete and put together in the order of the chunks.\<close>

lemma posted_object:
  assumes "object_chunks (with_posts st posts) rid sha = map entry_of_post posts"
    and "mset (map snd posts) = mset cs" and "map ch_chunk_index cs = map word_of_nat [0..<length cs]"
    and "length cs < 2 ^ 32"
  shows "is_object_complete (with_posts st posts) rid sha (word_of_nat (length cs))"
    and "assemble_object (with_posts st posts) rid sha (word_of_nat (length cs)) =
      Inr (concat (map ch_payload_zstd cs))"
proof -
  let ?sorted = "sort_key (\<lambda>x. ch_chunk_index (snd x)) posts"
  have snd: "map snd ?sorted = cs" by (rule sort_posts [OF assms(2-4)])
  have "entry_of_post x = chunk_entry_of (snd x) (fst x)" for x by (simp add: entry_of_post_def)
  then have rows: "ordered_chunks (with_posts st posts) rid sha = map entry_of_post ?sorted"
    unfolding ordered_chunks_def assms(1) map_sort_key [of entry_of_post ck_chunk_index, symmetric]
    by (simp add: chunk_entry_of_def)
  have len: "length ?sorted = length cs" using snd by (metis length_map)
  have idx: "map (\<lambda>r. unat (ck_chunk_index r)) (map entry_of_post ?sorted) = [0..<length cs]"
  proof -
    have "map (\<lambda>r. unat (ck_chunk_index r)) (map entry_of_post ?sorted) =
        map unat (map ch_chunk_index (map snd ?sorted))"
      by (simp add: entry_of_post_def chunk_entry_of_def)
    also have "\<dots> = map unat (map (word_of_nat :: nat \<Rightarrow> u32) [0..<length cs])"
      by (simp only: snd assms(3))
    also have "\<dots> = [0..<length cs]"
      using assms(4) by (intro nth_equalityI) (simp_all add: unat_of_nat)
    finally show ?thesis .
  qed
  have n: "unat (word_of_nat (length cs) :: u32) = length cs" using assms(4) by (simp add: unat_of_nat)
  show "is_object_complete (with_posts st posts) rid sha (word_of_nat (length cs))"
    using len idx by (simp add: is_object_complete_def Let_def rows n indices_from_iff)
  have "map ck_payload_zstd (map entry_of_post ?sorted) = map ch_payload_zstd (map snd ?sorted)"
    by (simp add: entry_of_post_def chunk_entry_of_def)
  then show "assemble_object (with_posts st posts) rid sha (word_of_nat (length cs)) =
      Inr (concat (map ch_payload_zstd cs))"
    using len by (simp only: assemble_object_def Let_def rows n snd) simp
qed


section \<open>A concrete retrieval\<close>

text \<open>The administrator asks for a task of the sample batch and the client uploads one blob.\<close>

definition sample_body :: "byte list" where
  "sample_body = [1, 2, 3]"

definition sample_sha :: string where
  "sample_sha = sha256_hex (xl_wire sample_server_lib) sample_body"

definition sample_query :: content_request where
  "sample_query = \<lparr>cr_request_id = Uuid 7 70, cr_client_id = ''c'',
     cr_task_ref = sn_task_ref sample_snapshot, cr_session_id = id_session_id (sn_identity sample_snapshot),
     cr_thread_id = id_thread_id (sn_identity sample_snapshot), cr_created_at_ms = 5,
     cr_expires_at_ms = None, cr_parts = [content_part.Request]\<rparr>"

definition sample_manifest :: content_object_manifest where
  "sample_manifest = \<lparr>mf_request_id = Uuid 7 70, mf_task_ref = cr_task_ref sample_query,
     mf_session_id = cr_session_id sample_query, mf_thread_id = cr_thread_id sample_query,
     mf_part = content_part.Request, mf_object_sha256 = sample_sha, mf_media_type = ''text/plain'',
     mf_uncompressed_bytes = 3, mf_compressed_bytes = 3, mf_chunk_count = 1, mf_created_at_ms = 1\<rparr>"

definition sample_open :: server_state where
  "sample_open = sample_server\<lparr>
     sv_tasks := [task_entry_of ''c'' sample_snapshot],
     sv_content_requests := [\<lparr>rq_request_id = Uuid 7 70, rq_client_id = ''c'',
       rq_task_ref = cr_task_ref sample_query, rq_session_id = cr_session_id sample_query,
       rq_thread_id = cr_thread_id sample_query, rq_parts = [content_part.Request],
       rq_created_at_ms = 5, rq_expires_at_ms = None, rq_completed_at_ms = None,
       rq_status = ''pending'', rq_outcome = None\<rparr>],
     sv_commands := [\<lparr>co_command_id = Uuid 7 71, co_request_id = Uuid 7 70, co_client_id = ''c'',
       co_status = ''dispatched'', co_created_at_ms = 5, co_delivered_at_ms = Some 6,
       co_completed_at_ms = None, co_payload = RequestContent \<lparr>cc_command_id = Uuid 7 71,
         cc_request = sample_query\<rparr>\<rparr>],
     sv_content_manifests := [\<lparr>me_request_id = Uuid 7 70, me_object_sha256 = sample_sha,
       me_client_id = ''c'', me_manifest = sample_manifest, me_created_at_ms = 6\<rparr>]\<rparr>"

definition sample_blob_lib :: blob_lib where
  "sample_blob_lib = \<lparr>bl_sha256_hex = sha256_hex (xl_wire sample_server_lib), bl_encode_all = Inr\<rparr>"

lemma sample_awaits:
  "awaiting_object sample_server_lib sample_open (Some ''Bearer 1'') (Uuid 7 71)
     sample_query sample_sha sample_manifest"
  "object_chunks sample_open (Uuid 7 70) sample_sha = []"
  "server_ok sample_server_lib sample_open"
proof -
  show "awaiting_object sample_server_lib sample_open (Some ''Bearer 1'') (Uuid 7 71)
     sample_query sample_sha sample_manifest"
    by code_simp
  show "object_chunks sample_open (Uuid 7 70) sample_sha = []"
    by code_simp
  have "sv_content_objects sample_server = []" "sv_content_links sample_server = []"
    "sv_content_conversations sample_server = []"
    by code_simp+
  then show "server_ok sample_server_lib sample_open"
    by (simp add: server_ok_def sample_open_def links_backed_def manifest_keyed_def sample_manifest_def)
qed

lemma sample_sha_ok: "sha_ok (sha256_hex (xl_wire sample_server_lib))"
  by (simp add: sha_ok_def sample_server_lib_def sha256_hex_valid hex_encode_lower sha256_hex_def [symmetric])
    (simp add: sha256_hex_def hex_encode_lower)

text \<open>One chunk posted, in a state that keeps the invariant.\<close>

definition sample_posted :: server_state where
  "sample_posted = fst (upload_chunk sample_server_lib sample_open 7 (Some ''Bearer 1'') (Uuid 7 71)
     \<lparr>ch_request_id = Uuid 7 70, ch_chunk_index = 0, ch_chunk_count = 1, ch_object_sha256 = sample_sha,
      ch_payload_sha256 = sample_sha, ch_payload_zstd = sample_body, ch_is_last = True\<rparr>)"

theorem stored_content_authentic_witness:
  "sv_content_objects sample_posted \<noteq> []
   \<and> list_all (object_authentic sample_server_lib) (sv_content_objects sample_posted)"
proof -
  have "(server_step sample_server_lib 0)\<^sup>*\<^sup>* sample_open sample_posted"
    unfolding sample_posted_def by (intro r_into_rtranclp server_step.chunk)
  moreover have "sv_content_objects sample_posted \<noteq> []" by code_simp
  ultimately show ?thesis
    using stored_content_authentic [OF sample_awaits(3)] by blast
qed

definition sample_asked :: "server_state \<times> (status_code + unit)" where
  "sample_asked = create_content_request sample_server_lib sample_open (\<lambda>i. Uuid 7 (80 + i)) 5
     (Some ''Bearer 3'') (sn_task_ref sample_snapshot) [content_part.Request] None"

theorem newest_conversations_kept_witness:
  "client_conversations (fst sample_asked) ''c'' \<noteq> [] \<and> length (client_conversations (fst sample_asked) ''c'') \<le> 30"
proof -
  have "snd sample_asked = Inr ()" by code_simp
  then have run: "create_content_request sample_server_lib sample_open (\<lambda>i. Uuid 7 (80 + i)) 5
     (Some ''Bearer 3'') (sn_task_ref sample_snapshot) [content_part.Request] None = (fst sample_asked, Inr ())"
    by (metis sample_asked_def prod.collapse)
  have task: "row_find te_task_ref (sn_task_ref sample_snapshot) (sv_tasks sample_open) =
      Some (task_entry_of ''c'' sample_snapshot)"
    by (simp add: sample_open_def task_entry_of_def)
  have "client_conversations sample_open ''c'' = []" by code_simp
  with newest_conversations_kept [OF sample_awaits(3) run] task
  show ?thesis
    by (auto simp: client_conversations_def filter_empty_conv cv_key_def task_entry_of_def)
qed


end
