(* ===== verification/Server_Polling.thy ===== *)
theory Server_Polling
  imports Server_Facts "HOL-Library.Code_Target_Nat"
begin

text \<open>
  What the polling of commands guarantees: the loop returns within the time it was given, and a
  command is handed out once.
\<close>

section \<open>The loop returns\<close>

text \<open>The state before the \<open>n\<close>-th poll, when the polls before found nothing.\<close>

fun seen :: "(nat \<Rightarrow> server_state \<Rightarrow> server_state) \<Rightarrow> nat \<Rightarrow> server_state \<Rightarrow> server_state" where
  "seen others 0 st = st"
| "seen others (Suc n) st = others n (seen others n st)"

lemma dispatch_nothing [simp]: "dispatch st now [] = st"
  by (simp add: dispatch_def)

lemma poll_loop_returns:
  assumes "\<And>i. instant i + 1000 \<le> instant (Suc i)" and "deadline \<le> instant i + 1000 * k"
  shows "\<exists>n \<le> k. poll_loop others instant deadline now c i (seen others i st) =
      Some (dispatch (seen others (i + n) st) now (pending_commands (seen others (i + n) st) c),
        \<lparr>cp_server_time_ms = now,
         cp_commands = map co_payload (pending_commands (seen others (i + n) st) c)\<rparr>)
    \<and> (\<forall>m < n. pending_commands (seen others (i + m) st) c = [])
    \<and> (pending_commands (seen others (i + n) st) c \<noteq> [] \<or> deadline \<le> instant (i + n))"
  using assms(2)
proof (induction k arbitrary: i)
  case 0
  then show ?case by (subst poll_loop.simps) (simp add: Let_def)
next
  case (Suc k)
  show ?case
  proof (cases "pending_commands (seen others i st) c = [] \<and> instant i < deadline")
    case False
    then show ?thesis
      by (intro exI [of _ 0]) (subst poll_loop.simps, auto simp: Let_def not_less)
  next
    case True
    have "deadline \<le> instant (Suc i) + 1000 * k" using Suc.prems assms(1) [of i] by simp
    from Suc.IH [OF this] obtain n where n: "n \<le> k"
      "poll_loop others instant deadline now c (Suc i) (seen others (Suc i) st) =
        Some (dispatch (seen others (Suc i + n) st) now (pending_commands (seen others (Suc i + n) st) c),
          \<lparr>cp_server_time_ms = now,
           cp_commands = map co_payload (pending_commands (seen others (Suc i + n) st) c)\<rparr>)"
      "\<forall>m < n. pending_commands (seen others (Suc i + m) st) c = []"
      "pending_commands (seen others (Suc i + n) st) c \<noteq> [] \<or> deadline \<le> instant (Suc i + n)"
      by blast
    have "\<forall>m < Suc n. pending_commands (seen others (i + m) st) c = []"
    proof (intro allI impI)
      fix m assume "m < Suc n"
      with n(3) True show "pending_commands (seen others (i + m) st) c = []" by (cases m) auto
    qed
    with n True show ?thesis
      by (intro exI [of _ "Suc n"]) (subst poll_loop.simps, simp add: Let_def)
  qed
qed


text \<open>
  A server with a client's token and one pending command; the poll waits for two seconds and finds a
  command that arrives while it sleeps.
\<close>

definition polled_command :: command_entry where
  "polled_command = \<lparr>co_command_id = Uuid 7 1, co_request_id = Uuid 7 2, co_client_id = ''c'',
     co_status = ''pending'', co_created_at_ms = 0, co_delivered_at_ms = None,
     co_completed_at_ms = None, co_payload = RequestContent \<lparr>cc_command_id = Uuid 7 1,
       cc_request = \<lparr>cr_request_id = Uuid 7 2, cr_client_id = ''c'', cr_task_ref = ''k'',
         cr_session_id = ''s'', cr_thread_id = ''t'', cr_created_at_ms = 0, cr_expires_at_ms = None,
         cr_parts = [content_part.Request]\<rparr>\<rparr>\<rparr>"

definition polling_lib :: "unit server_lib" where
  "polling_lib = \<lparr>xl_wire = sample_lib, xl_decode_all = Some, xl_show_uuid = (\<lambda>u. ''u'')\<rparr>"

definition polling_server :: server_state where
  "polling_server = issue_token polling_lib empty_server (\<lambda>i. 0) ''c'' ''1'' None False"

definition command_arrives :: "nat \<Rightarrow> server_state \<Rightarrow> server_state" where
  "command_arrives i st = (if i = 0 then st\<lparr>sv_commands := [polled_command]\<rparr> else st)"


section \<open>A command is handed out once\<close>

definition handed_out :: "uuid \<Rightarrow> command_entry list \<Rightarrow> bool" where
  "handed_out i rows \<longleftrightarrow> i \<in> co_command_id ` set rows
     \<and> list_all (\<lambda>r. co_command_id r = i \<longrightarrow> co_status r \<noteq> ''pending'') rows"

lemma handed_out_update:
  assumes "handed_out i rows" and "\<And>r. co_command_id (f r) = co_command_id r"
    and "\<And>r. co_status (f r) \<noteq> ''pending''"
  shows "handed_out i (row_update P f rows)"
proof -
  have "map co_command_id (row_update P f rows) = map co_command_id rows"
    by (rule row_update_keys) (fact assms(2))
  then have "co_command_id ` set (row_update P f rows) = co_command_id ` set rows"
    by (metis list.set_map)
  with assms show ?thesis
    unfolding handed_out_def by (auto simp: list_all_iff row_update_def)
qed

lemma handed_out_dispatch:
  "handed_out i (sv_commands st) \<Longrightarrow> handed_out i (sv_commands (dispatch st now rows))"
proof -
  have "handed_out i (fold (\<lambda>row. row_update (\<lambda>r. co_command_id r = co_command_id row)
      (\<lambda>r. r\<lparr>co_status := ''dispatched'', co_delivered_at_ms := Some now\<rparr>)) rows cs)"
    if "handed_out i cs" for cs
    using that
  proof (induction rows arbitrary: cs)
    case (Cons row rows)
    have "handed_out i (row_update (\<lambda>r. co_command_id r = co_command_id row)
        (\<lambda>r. r\<lparr>co_status := ''dispatched'', co_delivered_at_ms := Some now\<rparr>) cs)"
      by (rule handed_out_update [OF Cons.prems]) simp_all
    with Cons.IH show ?case by simp
  qed simp
  then show "handed_out i (sv_commands st) \<Longrightarrow> ?thesis" by (simp add: dispatch_def)
qed

lemma handed_out_complete:
  "handed_out i (sv_commands st) \<Longrightarrow>
     handed_out i (sv_commands (complete_request_and_command st q s t now))"
  by (auto simp: complete_request_and_command_def intro: handed_out_update)

lemma handed_out_chunk:
  assumes "handed_out i (sv_commands st)" and "chunk_of_request X st now q c = Inr (st', x)"
  shows "handed_out i (sv_commands st')"
proof -
  from assms(2) obtain m st1 dup where st1: "upsert_chunk_row st c now = Inr (st1, dup)"
    and fin: "st' = st1 \<or> finish_object X st1 now q m c = Inr st'"
    by (auto simp: chunk_of_request_def bindr_eq_Inr mapr_eq_Inr split: if_splits prod.splits)
  from st1 have "sv_commands st1 = sv_commands st"
    by (cases rule: upsert_chunk_cases) auto
  with assms(1) have ok: "handed_out i (sv_commands st1)" by simp
  from fin show ?thesis
  proof
    assume "finish_object X st1 now q m c = Inr st'"
    then show ?thesis
    proof (cases rule: finish_object_cases)
      case (1 z u)
      let ?s2 = "touch_conversation (upsert_content_object st1 q m z u now)
         (cr_client_id q) (cr_session_id q) (cr_thread_id q) now"
      have "handed_out i (sv_commands ?s2)"
        using ok by (simp add: touch_conversation_def upsert_content_object_def)
      with 1(6) show ?thesis
        by (auto simp: Let_def intro: handed_out_complete)
    qed
  qed (use ok in simp)
qed

lemma handed_out_create:
  assumes "handed_out i (sv_commands st)"
    and "create_content_request_inner st ids now p k parts e = Inr (st', x)"
  shows "handed_out i (sv_commands st')"
proof -
  from assms(2) obtain row where new: "row_find co_command_id (ids 1) (sv_commands st) = None"
    "sv_commands st' = sv_commands st @ [row]" "co_command_id row = ids 1"
    by (auto simp: create_content_request_inner_def bindr_eq_Inr Let_def evict_old_frame
        touch_conversation_def split: if_splits)
  then have "i \<noteq> ids 1" using assms(1) unfolding handed_out_def row_find_None by metis
  with new assms(1) show ?thesis by (simp add: handed_out_def)
qed

lemma server_step_handed_out:
  assumes "server_step X T st st'" and ho: "handed_out i (sv_commands st)"
  shows "handed_out i (sv_commands st')"
  using assms(1)
proof cases
  case (ingest now a body)
  show ?thesis
    unfolding ingest ingest_def
  proof (rule commit_or_cases)
    fix s x
    assume "bindr (authorize_client X st a) (\<lambda>p. bindr (ingest_decode X body) (\<lambda>d.
        if ci_client_id (ib_client (db_batch d)) \<noteq> pn_client_id p then Inl FORBIDDEN
        else ingest_batch_of X st now p d)) = Inr (s, x)"
    then obtain p d where "ingest_batch_of X st now p d = Inr (s, x)"
      by (auto simp: bindr_eq_Inr split: if_splits)
    then have "s = st \<or> store_batch st now (pn_client_id p) d = Inr s"
      by (auto simp: ingest_batch_of_def Let_def bindr_eq_Inr split: option.splits)
    then show "handed_out i (sv_commands s)"
      using ho by (auto dest: store_batch_frame)
  qed (fact ho)
next
  case (create ids now a k parts e)
  show ?thesis
    unfolding create create_content_request_def
    by (rule commit_or_cases) (auto simp: bindr_eq_Inr ho intro: handed_out_create [OF ho])
next
  case (manifests now a c ms)
  show ?thesis
    unfolding manifests upload_manifests_def
    by (rule commit_or_cases) (auto simp: bindr_eq_Inr mapr_eq_Inr ho expire_request_def
        intro: handed_out_complete dest!: manifest_rows_frame split: if_splits)
next
  case (chunk now a k c)
  show ?thesis
    unfolding chunk upload_chunk_def
    by (rule commit_or_cases) (auto simp: bindr_eq_Inr ho expire_request_def
        intro: handed_out_complete handed_out_chunk [OF ho] split: if_splits)
next
  case (result now a k r)
  show ?thesis
    unfolding result upload_result_def
    by (rule commit_or_cases) (auto simp: bindr_eq_Inr ho Let_def
        intro: handed_out_complete split: if_splits)
next
  case poll
  then show ?thesis using handed_out_dispatch [OF ho] by simp
qed (use ho in \<open>auto simp: issue_token_def Let_def upsert_token_def ensure_client_exists_def
    revoke_token_def cleanup_retention_def\<close>)

lemma dispatched_handed_out:
  assumes "row \<in> set rows" and "co_command_id row \<in> co_command_id ` set (sv_commands st)"
  shows "handed_out (co_command_id row) (sv_commands (dispatch st now rows))"
proof -
  let ?f = "\<lambda>row. row_update (\<lambda>r. co_command_id r = co_command_id row)
      (\<lambda>r. r\<lparr>co_status := ''dispatched'', co_delivered_at_ms := Some now\<rparr>)"
  have keys: "map co_command_id (fold ?f xs cs) = map co_command_id cs" for xs cs
    by (induction xs arbitrary: cs) (simp_all add: row_update_keys)
  from assms(1) obtain xs ys where rows: "rows = xs @ row # ys" by (auto simp: in_set_conv_decomp)
  let ?cs = "fold ?f xs (sv_commands st)"
  have "co_command_id row \<in> co_command_id ` set ?cs"
    using assms(2) arg_cong [OF keys [of xs "sv_commands st"], of set] by simp
  moreover have "co_command_id ` set (?f row ?cs) = co_command_id ` set ?cs"
    using arg_cong [OF keys [of "[row]" ?cs], of set] by simp
  moreover have "list_all (\<lambda>r. co_command_id r = co_command_id row \<longrightarrow> co_status r \<noteq> ''pending'') (?f row ?cs)"
    by (auto simp: list_all_iff row_update_def)
  ultimately have "handed_out (co_command_id row) (?f row ?cs)"
    unfolding handed_out_def by blast
  from handed_out_dispatch [of _ "st\<lparr>sv_commands := ?f row ?cs\<rparr>" now ys] this
  show ?thesis by (simp add: rows dispatch_def)
qed

text \<open>
  C16. A command is handed out at most once: what one poll delivered is in no later poll, of this or
  any client, whatever handlers, token changes and retention runs happen in between.
\<close>

theorem command_delivered_once:
  assumes "(server_step X T)\<^sup>*\<^sup>* (dispatch st now (pending_commands st c)) st'"
  shows "co_command_id ` set (pending_commands st c) \<inter> co_command_id ` set (pending_commands st' c') = {}"
proof -
  have "co_command_id row \<noteq> co_command_id row'"
    if row: "row \<in> set (pending_commands st c)" and row': "row' \<in> set (pending_commands st' c')" for row row'
  proof -
    have "row \<in> set (sv_commands st)"
      using row by (auto simp: pending_commands_def dest!: in_set_takeD)
    then have "handed_out (co_command_id row) (sv_commands (dispatch st now (pending_commands st c)))"
      using row by (intro dispatched_handed_out) auto
    with assms have "handed_out (co_command_id row) (sv_commands st')"
      by (induction rule: rtranclp_induct) (auto intro: server_step_handed_out)
    moreover have "row' \<in> set (sv_commands st')" "co_status row' = ''pending''"
      using row' by (auto simp: pending_commands_def dest!: in_set_takeD)
    ultimately show ?thesis by (auto simp: handed_out_def list_all_iff)
  qed
  then show ?thesis by blast
qed

theorem command_delivered_once_witness:
  "pending_commands (dispatch (command_arrives 0 polling_server) 9
     (pending_commands (command_arrives 0 polling_server) ''c'')) ''c'' = []"
proof -
  let ?st = "command_arrives 0 polling_server"
  have c: "pending_commands ?st ''c'' = [polled_command]"
    by (simp add: command_arrives_def pending_commands_def polled_command_def)
  have sub: "row \<in> set (pending_commands (dispatch ?st 9 (pending_commands ?st ''c'')) ''c'') \<Longrightarrow>
      co_command_id row = co_command_id polled_command" for row
    unfolding c by (auto simp: pending_commands_def dispatch_def command_arrives_def row_update_def
        dest!: in_set_takeD split: if_splits)
  from command_delivered_once [of polling_lib 0 ?st 9 "''c''" _ "''c''", OF rtranclp.rtrancl_refl]
  have "co_command_id polled_command \<notin> co_command_id ` set (pending_commands
      (dispatch ?st 9 (pending_commands ?st ''c'')) ''c'')"
    by (simp add: c)
  with sub show ?thesis by (metis imageI last_in_set)
qed

end
