(* ===== verification/Server_Reading.thy ===== *)
theory Server_Reading
  imports Server_Query Server_Safety
begin

text \<open>
  From ingest to query (\<open>crates/server/src/lib.rs\<close>): what a batch that was just stored shows to a reader
  of its client.
\<close>

section \<open>The tables of payloads\<close>

text \<open>An item of an upload is found under its identifier, and nothing else is touched.\<close>

definition payload_row :: "string \<Rightarrow> ('p \<Rightarrow> uuid) \<Rightarrow> ('p \<Rightarrow> i64) \<Rightarrow> 'p \<Rightarrow> 'p payload_entry" where
  "payload_row k id_fn ts_fn x =
     \<lparr>pay_task_ref = k, pay_id = id_fn x, pay_at_ms = ts_fn x, pay_payload = x\<rparr>"

lemma upsert_payload_find:
  "row_find pay_id i (upsert_payloads k id_fn ts_fn [x] rows) =
     (if id_fn x = i then Some (payload_row k id_fn ts_fn x) else row_find pay_id i rows)"
  by (auto simp: upsert_payloads_def row_upsert_find payload_row_def dest: row_find_Some split: option.split)

lemma upsert_payloads_Cons:
  "upsert_payloads k id_fn ts_fn (x # xs) rows =
     upsert_payloads k id_fn ts_fn xs (upsert_payloads k id_fn ts_fn [x] rows)"
  by (simp add: upsert_payloads_def)

lemma upsert_payloads_other:
  "i \<notin> id_fn ` set xs \<Longrightarrow>
     row_find pay_id i (upsert_payloads k id_fn ts_fn xs rows) = row_find pay_id i rows"
proof (induction xs arbitrary: rows)
  case (Cons x xs)
  then show ?case by (auto simp: upsert_payloads_Cons [of _ _ _ x xs] upsert_payload_find)
qed (simp add: upsert_payloads_def)

lemma upsert_payloads_own:
  "x \<in> set xs \<Longrightarrow> distinct (map id_fn xs) \<Longrightarrow>
     row_find pay_id (id_fn x) (upsert_payloads k id_fn ts_fn xs rows) =
       Some (payload_row k id_fn ts_fn x)"
proof (induction xs arbitrary: rows)
  case (Cons y ys)
  then show ?case
    by (auto simp: upsert_payloads_Cons [of _ _ _ y ys] upsert_payloads_other upsert_payload_find)
qed simp

text \<open>The same for the uploads of a batch, one after the other.\<close>

definition upserts ::
  "('u \<Rightarrow> string) \<Rightarrow> ('u \<Rightarrow> 'p list) \<Rightarrow> ('p \<Rightarrow> uuid) \<Rightarrow> ('p \<Rightarrow> i64) \<Rightarrow> 'u list
     \<Rightarrow> 'p payload_entry list \<Rightarrow> 'p payload_entry list" where
  "upserts ref items id_fn ts_fn us rows =
     fold (\<lambda>u. upsert_payloads (ref u) id_fn ts_fn (items u)) us rows"

definition ids_distinct :: "('u \<Rightarrow> 'p list) \<Rightarrow> ('p \<Rightarrow> uuid) \<Rightarrow> 'u list \<Rightarrow> bool" where
  "ids_distinct items id_fn us = distinct (concat (map (\<lambda>u. map id_fn (items u)) us))"

lemma upserts_other:
  "(\<And>u. u \<in> set us \<Longrightarrow> i \<notin> id_fn ` set (items u)) \<Longrightarrow>
     row_find pay_id i (upserts ref items id_fn ts_fn us rows) = row_find pay_id i rows"
  by (induction us arbitrary: rows) (simp_all add: upserts_def upsert_payloads_other)

lemma upserts_own:
  assumes "ids_distinct items id_fn us" and "u \<in> set us" and "x \<in> set (items u)"
  shows "row_find pay_id (id_fn x) (upserts ref items id_fn ts_fn us rows) =
    Some (payload_row (ref u) id_fn ts_fn x)"
  using assms(1,2)
proof (induction us arbitrary: rows)
  case (Cons v us)
  have step: "upserts ref items id_fn ts_fn (v # us) rows =
      upserts ref items id_fn ts_fn us (upsert_payloads (ref v) id_fn ts_fn (items v) rows)"
    by (simp add: upserts_def)
  from Cons.prems(1) have d: "ids_distinct items id_fn us" "distinct (map id_fn (items v))"
    and apart: "id_fn ` set (items v) \<inter> (\<Union>w \<in> set us. id_fn ` set (items w)) = {}"
    by (simp_all add: ids_distinct_def)
  show ?case
  proof (cases "u \<in> set us")
    case True
    then show ?thesis using Cons.IH [OF d(1)] by (simp add: step)
  next
    case False
    then have u: "u = v" using Cons.prems(2) by simp
    have "id_fn x \<notin> id_fn ` set (items w)" if "w \<in> set us" for w
      using apart that assms(3) u by blast
    then show ?thesis using assms(3) d(2) u by (simp add: step upserts_other upsert_payloads_own)
  qed
qed simp

lemma fetched:
  "row_find pay_id i rows = Some (payload_row k id_fn ts_fn x) \<Longrightarrow> x \<in> set (fetch_payloads rows k)"
  by (force simp: fetch_payloads_def payload_row_def dest: row_find_Some)

lemma upserts_fetched:
  "ids_distinct items id_fn us \<Longrightarrow> u \<in> set us \<Longrightarrow>
     set (items u) \<subseteq> set (fetch_payloads (upserts ref items id_fn ts_fn us rows) (ref u))"
  by (auto intro: fetched upserts_own)

section \<open>A stored batch can be read\<close>

abbreviation task_of :: "task_upload \<Rightarrow> string" where
  "task_of u \<equiv> sn_task_ref (up_snapshot u)"

lemma stored_payloads:
  "sv_attempts (fold (\<lambda>u s. persist_task_upload s c u) us st) =
     upserts task_of up_attempts at_attempt_id at_started_at_ms us (sv_attempts st)"
  "sv_task_events (fold (\<lambda>u s. persist_task_upload s c u) us st) =
     upserts task_of up_events ev_event_id ev_occurred_at_ms us (sv_task_events st)"
  "sv_errors (fold (\<lambda>u s. persist_task_upload s c u) us st) =
     upserts task_of up_errors er_error_id er_occurred_at_ms us (sv_errors st)"
  "sv_capture_gaps (fold (\<lambda>u s. persist_task_upload s c u) us st) =
     upserts task_of up_gaps gap_gap_id gap_occurred_at_ms us (sv_capture_gaps st)"
  by (induction us arbitrary: st) (simp_all add: upserts_def persist_task_upload_def Let_def)

lemma stored_tasks:
  "sv_tasks (fold (\<lambda>u s. persist_task_upload s c u) us st) =
     fold (\<lambda>u. row_put te_task_ref (task_entry_of c (up_snapshot u))) us (sv_tasks st)"
  by (induction us arbitrary: st) (simp_all add: persist_task_upload_def Let_def)

lemma task_entry_ref [simp]: "te_task_ref (task_entry_of c s) = sn_task_ref s"
  by (simp add: task_entry_of_def)

lemma put_tasks_find:
  "k \<notin> task_of ` set us \<Longrightarrow>
     row_find te_task_ref k (fold (\<lambda>u. row_put te_task_ref (task_entry_of c (up_snapshot u))) us rows) =
       row_find te_task_ref k rows"
  by (induction us arbitrary: rows) auto

lemma stored_task_find:
  "u \<in> set us \<Longrightarrow> distinct (map task_of us) \<Longrightarrow>
     row_find te_task_ref (task_of u)
       (fold (\<lambda>u. row_put te_task_ref (task_entry_of c (up_snapshot u))) us rows) =
         Some (task_entry_of c (up_snapshot u))"
proof (induction us arbitrary: rows)
  case (Cons v us)
  then show ?case by (auto simp: put_tasks_find)
qed simp

lemma stored_tokens:
  "sv_api_tokens (fold (\<lambda>u s. persist_task_upload s c u) us st) = sv_api_tokens st"
  by (induction us arbitrary: st) (simp_all add: persist_task_upload_def Let_def)

text \<open>Whose identifiers a batch must not repeat for every item to be kept under its own.\<close>

definition own_ids :: "task_upload list \<Rightarrow> bool" where
  "own_ids us \<longleftrightarrow> ids_distinct up_attempts at_attempt_id us \<and> ids_distinct up_events ev_event_id us
     \<and> ids_distinct up_errors er_error_id us \<and> ids_distinct up_gaps gap_gap_id us"

definition shows_upload :: "task_detail \<Rightarrow> task_upload \<Rightarrow> bool" where
  "shows_upload t u \<longleftrightarrow> td_snapshot t = up_snapshot u
     \<and> set (up_attempts u) \<subseteq> set (td_attempts t) \<and> set (up_events u) \<subseteq> set (td_events t)
     \<and> set (up_errors u) \<subseteq> set (td_errors t) \<and> set (up_gaps u) \<subseteq> set (td_gaps t)"

lemma store_batch_tables:
  assumes "store_batch st now c d = Inr st'"
  defines "after \<equiv> fold (\<lambda>u s. persist_task_upload s (ci_client_id (ib_client (db_batch d))) u)
    (ib_tasks (db_batch d)) (persist_client st (db_batch d))"
  shows "sv_tasks st' = sv_tasks after" "sv_attempts st' = sv_attempts after"
    "sv_task_events st' = sv_task_events after" "sv_errors st' = sv_errors after"
    "sv_capture_gaps st' = sv_capture_gaps after" "sv_api_tokens st' = sv_api_tokens st"
  using assms
  by (auto simp: store_batch_def Let_def bindr_eq_Inr stored_tokens persist_client_def ensure_client_exists_def
      dest!: persist_heartbeats_frame)

lemma decoded_tasks_distinct:
  "decode_batch_with_payload W body = Inr d \<Longrightarrow> distinct (map task_of (ib_tasks (db_batch d)))"
  by (auto simp: decode_batch_ok validate_batch_def batch_tasks_loop_ok bindr_eq_Inr)

lemma stored_upload_shown:
  assumes "store_batch st now c d = Inr st'" and "u \<in> set (ib_tasks (db_batch d))"
    and "distinct (map task_of (ib_tasks (db_batch d)))" and "own_ids (ib_tasks (db_batch d))"
    and "can_query (pn_role p)" and "is_admin (pn_role p) \<or> pn_client_id p = ci_client_id (ib_client (db_batch d))"
  shows "\<exists>t. task_detail_inner st' p (task_of u) = Inr t \<and> shows_upload t u"
proof -
  note tables = store_batch_tables [OF assms(1), unfolded stored_tasks stored_payloads]
  have row: "row_find te_task_ref (task_of u) (sv_tasks st') =
      Some (task_entry_of (ci_client_id (ib_client (db_batch d))) (up_snapshot u))"
    using stored_task_find [OF assms(2,3)] by (simp add: tables)
  have "visible st' p (task_of u) = Inr ()"
    using assms(5,6) by (auto simp: visible_def ensure_query_role_def ensure_task_visible_def row task_entry_of_def)
  moreover have "fetch_snapshot st' (task_of u) = Inr (up_snapshot u)"
    by (simp add: fetch_snapshot_def row task_entry_of_def)
  ultimately show ?thesis
    using assms(2,4) by (simp add: task_detail_inner_def shows_upload_def own_ids_def tables
        upserts_fetched [where ref = task_of])
qed



end
