(* ===== verification/Notifier.thy ===== *)
theory Notifier
  imports Protocol_Validation Rust_Text
begin

text \<open>
  The notifier (\<open>crates/notifier/src/main.rs\<close>): the daemon that polls the task list and sends a chat
  message for a task that ended or went wrong, its state file, and the requests of its commands.
  Texts in Chinese are given by their UTF-8 bytes. The chat program, the HTTP client and the time
  formatter are arguments; the state file holds the state it was written from.
\<close>

section \<open>Configuration\<close>

record notifier_config =
  nc_server_url :: string
  nc_api_token :: string
  nc_admin_api_token :: "string option"
  nc_client_id :: string
  nc_poll_interval_seconds :: "u64 option"
  nc_notify_completed :: "bool option"
  nc_state_path :: string
  nc_openclaw_binary :: "string option"
  nc_feishu_account :: "string option"
  nc_feishu_target :: string

definition poll_interval :: "notifier_config \<Rightarrow> u64" where
  "poll_interval cfg = max (unwrap_or (nc_poll_interval_seconds cfg) 5) 1"

definition notify_completed :: "notifier_config \<Rightarrow> bool" where
  "notify_completed cfg = unwrap_or (nc_notify_completed cfg) False"

definition openclaw_binary :: "notifier_config \<Rightarrow> string" where
  "openclaw_binary cfg = unwrap_or (nc_openclaw_binary cfg) ''/usr/bin/openclaw''"

definition feishu_account :: "notifier_config \<Rightarrow> string" where
  "feishu_account cfg = unwrap_or (nc_feishu_account cfg) ''main''"

section \<open>Requests\<close>

text \<open>A request: its method, path segments, query pairs, bearer token and JSON body of parts.\<close>

record api_request =
  rq_post :: bool
  rq_segments :: "string list"
  rq_query :: "(string \<times> string) list"
  rq_token :: string
  rq_parts :: "string list option"

datatype notifier_error =
    AdminTokenRequired | RequestFailed nat | BadJson string | Transport string | SendFailed string | SaveFailed string

record server_api =
  sa_token :: string
  sa_admin_token :: "string option"
  sa_client_id :: string

definition server_api_new :: "notifier_config \<Rightarrow> server_api" where
  "server_api_new cfg = \<lparr>sa_token = nc_api_token cfg, sa_admin_token = nc_admin_api_token cfg,
     sa_client_id = nc_client_id cfg\<rparr>"

definition get_request :: "server_api \<Rightarrow> string list \<Rightarrow> (string \<times> string) list \<Rightarrow> api_request" where
  "get_request api segments query = \<lparr>rq_post = False, rq_segments = segments, rq_query = query,
     rq_token = sa_token api, rq_parts = None\<rparr>"

definition tasks_request :: "server_api \<Rightarrow> string option \<Rightarrow> u32 \<Rightarrow> api_request" where
  "tasks_request api session_id limit =
     get_request api [''api'', ''v1'', ''tasks'']
       ([(''client_id'', sa_client_id api), (''limit'', show_nat (unat (min limit 500)))]
        @ (case session_id of None \<Rightarrow> [] | Some s \<Rightarrow> [(''session_id'', s)]))"

definition task_request :: "server_api \<Rightarrow> string \<Rightarrow> string option \<Rightarrow> api_request" where
  "task_request api task_ref suffix =
     get_request api ([''api'', ''v1'', ''tasks'', task_ref] @ (case suffix of None \<Rightarrow> [] | Some s \<Rightarrow> [s])) []"

definition session_request :: "server_api \<Rightarrow> string \<Rightarrow> string option \<Rightarrow> api_request" where
  "session_request api session_id thread_id =
     get_request api [''api'', ''v1'', ''sessions'', sa_client_id api, session_id]
       (case thread_id of None \<Rightarrow> [] | Some t \<Rightarrow> [(''provider'', ''codex''), (''thread_id'', t)])"

definition capture_health_request :: "server_api \<Rightarrow> api_request" where
  "capture_health_request api = get_request api [''api'', ''v1'', ''capture-health'', sa_client_id api] []"

definition content_request_post :: "server_api \<Rightarrow> string \<Rightarrow> string list \<Rightarrow> notifier_error + api_request" where
  "content_request_post api task_ref parts =
     (case sa_admin_token api of
        None \<Rightarrow> Inl AdminTokenRequired
      | Some token \<Rightarrow> Inr \<lparr>rq_post = True, rq_segments = [''api'', ''v1'', ''tasks'', task_ref, ''content-requests''],
          rq_query = [], rq_token = token, rq_parts = Some parts\<rparr>)"

text \<open>The answer to a GET, and to the posted content request.\<close>

definition get_reply :: "string + nat \<times> (string + 'a) \<Rightarrow> notifier_error + 'a" where
  "get_reply sent =
     bindr (map_err Transport sent) (\<lambda>(status, json).
       if status \<noteq> 200 then Inl (RequestFailed status) else map_err BadJson json)"

definition content_reply :: "string + nat \<Rightarrow> notifier_error + unit" where
  "content_reply sent =
     bindr (map_err Transport sent) (\<lambda>status.
       if status < 200 \<or> 300 \<le> status then Inl (RequestFailed status) else Inr ())"

datatype cli_command =
    Daemon | Test | Tasks "string option" u32 | TaskOf string | SessionCmd string "string option"
  | AttemptsOf string | EventsOf string | ErrorsOf string | CaptureHealth | RequestContentOf string "string list"

text \<open>The request a command makes; the daemon and the test message make theirs otherwise.\<close>

fun command_request :: "server_api \<Rightarrow> cli_command \<Rightarrow> notifier_error + api_request option" where
  "command_request api Daemon = Inr None"
| "command_request api Test = Inr None"
| "command_request api (Tasks session_id limit) = Inr (Some (tasks_request api session_id limit))"
| "command_request api (TaskOf t) = Inr (Some (task_request api t None))"
| "command_request api (SessionCmd s thread) = Inr (Some (session_request api s thread))"
| "command_request api (AttemptsOf t) = Inr (Some (task_request api t (Some ''attempts'')))"
| "command_request api (EventsOf t) = Inr (Some (task_request api t (Some ''events'')))"
| "command_request api (ErrorsOf t) = Inr (Some (task_request api t (Some ''errors'')))"
| "command_request api CaptureHealth = Inr (Some (capture_health_request api))"
| "command_request api (RequestContentOf t parts) = mapr Some (content_request_post api t parts)"

definition feishu_arguments :: "notifier_config \<Rightarrow> string \<Rightarrow> string list" where
  "feishu_arguments cfg message =
     [openclaw_binary cfg, ''message'', ''send'', ''--channel'', ''feishu'', ''--account'', feishu_account cfg,
      ''--target'', nc_feishu_target cfg, ''--message'', message, ''--json'']"

section \<open>Notices\<close>

datatype notice_kind = Completed | Abnormal

definition notice_kind_of :: "task_snapshot \<Rightarrow> notice_kind option" where
  "notice_kind_of task =
     (if sn_last_error task \<noteq> None \<or> sn_integrity task \<noteq> integrity_state.Complete then Some notice_kind.Abnormal
      else case sn_terminal task of
        Some t \<Rightarrow> Some (if t = terminal_outcome.Completed then notice_kind.Completed else notice_kind.Abnormal)
      | None \<Rightarrow> None)"

fun terminal_name :: "terminal_outcome \<Rightarrow> string" where
  "terminal_name terminal_outcome.Completed = ''completed''"
| "terminal_name terminal_outcome.Failed = ''failed''"
| "terminal_name terminal_outcome.Aborted = ''aborted''"
| "terminal_name terminal_outcome.Terminated = ''terminated''"
| "terminal_name terminal_outcome.Lost = ''lost''"

fun integrity_name :: "integrity_state \<Rightarrow> string" where
  "integrity_name integrity_state.Complete = ''complete''"
| "integrity_name integrity_state.Degraded = ''degraded''"
| "integrity_name integrity_state.Lost = ''lost''"
| "integrity_name integrity_state.UnsupportedBuild = ''unsupported_build''"

text \<open>\<open>format\<close> is the RFC 3339 formatter on milliseconds, when the time can be shown.\<close>

definition format_timestamp :: "(int \<Rightarrow> string option) \<Rightarrow> timestamp_ms \<Rightarrow> string" where
  "format_timestamp format t = unwrap_or (format t) (show_int t)"

definition COMPLETED_HEAD :: string where
  "COMPLETED_HEAD = bytes_str
     [0x5B, 0x43, 0x6F, 0x64, 0x65, 0x78, 0x57, 0x61, 0x74, 0x63, 0x68, 0x20, 0xE5, 0xAE, 0x8C, 0xE6,
      0x88, 0x90, 0x5D, 0x0A, 0xE5, 0xAF, 0xB9, 0xE8, 0xAF, 0x9D, 0xEF, 0xBC, 0x9A]"

definition TASK_LABEL :: string where
  "TASK_LABEL = bytes_str
     [0x0A, 0xE4, 0xBB, 0xBB, 0xE5, 0x8A, 0xA1, 0xEF, 0xBC, 0x9A]"

definition MODEL_LABEL :: string where
  "MODEL_LABEL = bytes_str
     [0x0A, 0xE6, 0xA8, 0xA1, 0xE5, 0x9E, 0x8B, 0xEF, 0xBC, 0x9A]"

definition TIME_LABEL :: string where
  "TIME_LABEL = bytes_str
     [0x0A, 0xE6, 0x97, 0xB6, 0xE9, 0x97, 0xB4, 0xEF, 0xBC, 0x9A]"

definition UNKNOWN_MODEL :: string where
  "UNKNOWN_MODEL = bytes_str
     [0xE6, 0x9C, 0xAA, 0xE7, 0x9F, 0xA5]"

definition ABNORMAL_HEAD :: string where
  "ABNORMAL_HEAD = bytes_str
     [0x5B, 0x43, 0x6F, 0x64, 0x65, 0x78, 0x57, 0x61, 0x74, 0x63, 0x68, 0x20, 0xE5, 0xBC, 0x82, 0xE5,
      0xB8, 0xB8, 0x5D, 0x0A, 0xE5, 0xAF, 0xB9, 0xE8, 0xAF, 0x9D, 0xEF, 0xBC, 0x9A]"

definition STATUS_LABEL :: string where
  "STATUS_LABEL = bytes_str
     [0x0A, 0xE7, 0x8A, 0xB6, 0xE6, 0x80, 0x81, 0xEF, 0xBC, 0x9A]"

definition REASON_LABEL :: string where
  "REASON_LABEL = bytes_str
     [0x0A, 0xE5, 0x8E, 0x9F, 0xE5, 0x9B, 0xA0, 0xEF, 0xBC, 0x9A]"

definition TEST_MESSAGE :: string where
  "TEST_MESSAGE = bytes_str
     [0x5B, 0x43, 0x6F, 0x64, 0x65, 0x78, 0x57, 0x61, 0x74, 0x63, 0x68, 0x20, 0xE6, 0xB5, 0x8B, 0xE8,
      0xAF, 0x95, 0x5D, 0x0A, 0xE9, 0x80, 0x9A, 0xE7, 0x9F, 0xA5, 0xE9, 0x93, 0xBE, 0xE8, 0xB7, 0xAF,
      0xE5, 0xB7, 0xA5, 0xE4, 0xBD, 0x9C, 0xE6, 0xAD, 0xA3, 0xE5, 0xB8, 0xB8, 0xE3, 0x80, 0x82]"

definition notice_message :: "(int \<Rightarrow> string option) \<Rightarrow> task_snapshot \<Rightarrow> notice_kind \<Rightarrow> string" where
  "notice_message format task kind =
     (let title = unwrap_or (sn_conversation_title task) (id_session_id (sn_identity task));
          observed_at = format_timestamp format (sn_updated_at_ms task);
          turn = id_turn_id (sn_identity task) in
      case kind of
        notice_kind.Completed \<Rightarrow> COMPLETED_HEAD @ title @ TASK_LABEL @ turn
          @ MODEL_LABEL @ unwrap_or (sn_model task) UNKNOWN_MODEL @ TIME_LABEL @ observed_at
      | notice_kind.Abnormal \<Rightarrow>
          (let result = (case sn_terminal task of None \<Rightarrow> integrity_name (sn_integrity task)
                         | Some t \<Rightarrow> terminal_name t);
               reason = (case sn_last_error task of None \<Rightarrow> result | Some e \<Rightarrow> er_message e) in
           ABNORMAL_HEAD @ title @ TASK_LABEL @ turn @ STATUS_LABEL @ result
             @ REASON_LABEL @ reason @ TIME_LABEL @ observed_at))"

section \<open>The daemon\<close>

record notification_state =
  nt_initialized :: bool
  nt_completed_tasks :: "string set"
  nt_abnormal_tasks :: "string set"

definition notification_state_new :: notification_state where
  "notification_state_new = \<lparr>nt_initialized = False, nt_completed_tasks = {}, nt_abnormal_tasks = {}\<rparr>"

definition notified :: "notification_state \<Rightarrow> notice_kind \<Rightarrow> string \<Rightarrow> bool" where
  "notified st kind task_ref =
     (case kind of notice_kind.Completed \<Rightarrow> task_ref \<in> nt_completed_tasks st
      | notice_kind.Abnormal \<Rightarrow> task_ref \<in> nt_abnormal_tasks st)"

definition insert_notice :: "notification_state \<Rightarrow> notice_kind \<Rightarrow> string \<Rightarrow> notification_state" where
  "insert_notice st kind task_ref =
     (case kind of
        notice_kind.Completed \<Rightarrow> st\<lparr>nt_completed_tasks := insert task_ref (nt_completed_tasks st)\<rparr>
      | notice_kind.Abnormal \<Rightarrow> st\<lparr>nt_abnormal_tasks := insert task_ref (nt_abnormal_tasks st)\<rparr>)"

text \<open>
  A notice that went out: its kind, its task and its text. The daemon's world is its state, the state
  file and the notices sent so far.
\<close>

record sent_notice =
  sx_kind :: notice_kind
  sx_task_ref :: string
  sx_message :: string

record notifier =
  nw_state :: notification_state
  nw_file :: "notification_state option"
  nw_sent :: "sent_notice list"

text \<open>
  What the chat program answers to a message, given how many were sent, and what the file system answers
  to a save.
\<close>

record notifier_env =
  ne_send :: "nat \<Rightarrow> string \<Rightarrow> string + unit"
  ne_save :: "notification_state \<Rightarrow> string + unit"
  ne_format :: "int \<Rightarrow> string option"

definition save_state :: "notifier_env \<Rightarrow> notifier \<Rightarrow> notifier \<times> (notifier_error + unit)" where
  "save_state E w =
     (case ne_save E (nw_state w) of
        Inl e \<Rightarrow> (w, Inl (SaveFailed e))
      | Inr _ \<Rightarrow> (w\<lparr>nw_file := Some (nw_state w)\<rparr>, Inr ()))"

definition send_notice ::
  "notifier_config \<Rightarrow> notifier_env \<Rightarrow> bool \<Rightarrow> notifier \<Rightarrow> task_snapshot \<Rightarrow> notice_kind
     \<Rightarrow> notifier \<times> (notifier_error + unit)" where
  "send_notice cfg E deliver w task kind =
     (if deliver \<and> (kind \<noteq> notice_kind.Completed \<or> notify_completed cfg)
      then let message = notice_message (ne_format E) task kind in
           case ne_send E (length (nw_sent w)) message of
             Inl e \<Rightarrow> (w, Inl (SendFailed e))
           | Inr _ \<Rightarrow> (w\<lparr>nw_sent := nw_sent w @ [\<lparr>sx_kind = kind, sx_task_ref = sn_task_ref task,
                sx_message = message\<rparr>]\<rparr>, Inr ())
      else (w, Inr ()))"

definition process_task ::
  "notifier_config \<Rightarrow> notifier_env \<Rightarrow> bool \<Rightarrow> notifier \<Rightarrow> task_snapshot \<Rightarrow> notifier \<times> (notifier_error + unit)" where
  "process_task cfg E deliver w task =
     (case notice_kind_of task of
        None \<Rightarrow> (w, Inr ())
      | Some kind \<Rightarrow>
          if kind = notice_kind.Abnormal \<and> sn_conversation_title task = None then (w, Inr ())
          else if notified (nw_state w) kind (sn_task_ref task) then (w, Inr ())
          else case send_notice cfg E deliver w task kind of
            (w1, Inl e) \<Rightarrow> (w1, Inl e)
          | (w1, Inr _) \<Rightarrow>
              save_state E (w1\<lparr>nw_state := insert_notice (nw_state w1) kind (sn_task_ref task)\<rparr>))"

fun process_loop ::
  "notifier_config \<Rightarrow> notifier_env \<Rightarrow> bool \<Rightarrow> notifier \<Rightarrow> task_snapshot list \<Rightarrow> notifier \<times> (notifier_error + unit)" where
  "process_loop cfg E deliver w [] = (w, Inr ())"
| "process_loop cfg E deliver w (task # tasks) =
     (case process_task cfg E deliver w task of
        (w1, Inl e) \<Rightarrow> (w1, Inl e)
      | (w1, Inr _) \<Rightarrow> process_loop cfg E deliver w1 tasks)"

definition process_tasks ::
  "notifier_config \<Rightarrow> notifier_env \<Rightarrow> notifier \<Rightarrow> task_snapshot list \<Rightarrow> bool \<Rightarrow> notifier \<times> (notifier_error + unit)" where
  "process_tasks cfg E w tasks deliver = process_loop cfg E deliver w (rev tasks)"

text \<open>One turn of the daemon's loop; an error ends the daemon.\<close>

definition daemon_turn ::
  "notifier_config \<Rightarrow> notifier_env \<Rightarrow> notifier \<Rightarrow> notifier_error + task_snapshot list
     \<Rightarrow> notifier \<times> (notifier_error + unit)" where
  "daemon_turn cfg E w answer =
     (case answer of
        Inl e \<Rightarrow> (w, Inl e)
      | Inr tasks \<Rightarrow>
          (case process_tasks cfg E w tasks (nt_initialized (nw_state w)) of
             (w1, Inl e) \<Rightarrow> (w1, Inl e)
           | (w1, Inr _) \<Rightarrow>
               if nt_initialized (nw_state w1) then (w1, Inr ())
               else save_state E (w1\<lparr>nw_state := (nw_state w1)\<lparr>nt_initialized := True\<rparr>\<rparr>)))"

text \<open>Starting the daemon reads the file.\<close>

definition daemon_start :: "notifier \<Rightarrow> notifier" where
  "daemon_start w = w\<lparr>nw_state := unwrap_or (nw_file w) notification_state_new\<rparr>"

text \<open>
  A run: turns as long as they succeed, and a restart after an error or at any time. The environment
  may answer differently at every turn.
\<close>

inductive notifier_reaches ::
  "notifier_config \<Rightarrow> (notifier_env \<Rightarrow> bool) \<Rightarrow> notifier \<Rightarrow> bool"
  for cfg :: notifier_config and envs :: "notifier_env \<Rightarrow> bool" where
  first: "notifier_reaches cfg envs (daemon_start \<lparr>nw_state = notification_state_new, nw_file = None, nw_sent = []\<rparr>)"
| turn: "notifier_reaches cfg envs w \<Longrightarrow> envs E \<Longrightarrow> daemon_turn cfg E w answer = (w', Inr ())
    \<Longrightarrow> notifier_reaches cfg envs w'"
| failed: "notifier_reaches cfg envs w \<Longrightarrow> envs E \<Longrightarrow> daemon_turn cfg E w answer = (w', Inl e)
    \<Longrightarrow> notifier_reaches cfg envs (daemon_start w')"
| restart: "notifier_reaches cfg envs w \<Longrightarrow> notifier_reaches cfg envs (daemon_start w)"

section \<open>What is sent\<close>

definition saves :: "notifier_env \<Rightarrow> bool" where
  "saves E \<longleftrightarrow> (\<forall>st. ne_save E st = Inr ())"

definition sent_key :: "sent_notice \<Rightarrow> notice_kind \<times> string" where
  "sent_key x = (sx_kind x, sx_task_ref x)"

text \<open>
  The state is the one in the file, what was sent is in it, no notice was sent twice, and none
  before the first poll was done.
\<close>

definition notifier_ok :: "notifier_config \<Rightarrow> notifier \<Rightarrow> bool" where
  "notifier_ok cfg w \<longleftrightarrow>
     unwrap_or (nw_file w) notification_state_new = nw_state w
   \<and> distinct (map sent_key (nw_sent w))
   \<and> (\<forall>x \<in> set (nw_sent w). notified (nw_state w) (sx_kind x) (sx_task_ref x)
        \<and> (sx_kind x = notice_kind.Completed \<longrightarrow> notify_completed cfg))
   \<and> (\<not> nt_initialized (nw_state w) \<longrightarrow> nw_sent w = [])"

lemma notified_insert [simp]:
  "notified (insert_notice st kind t) k u \<longleftrightarrow> notified st k u \<or> (k = kind \<and> u = t)"
  by (auto simp: notified_def insert_notice_def split: notice_kind.splits)

lemma insert_notice_initialized [simp]: "nt_initialized (insert_notice st kind t) = nt_initialized st"
  by (simp add: insert_notice_def split: notice_kind.splits)

lemma notified_initialized [simp]: "notified (st\<lparr>nt_initialized := b\<rparr>) k u = notified st k u"
  by (simp add: notified_def split: notice_kind.splits)

lemma process_task_ok:
  assumes "saves E" and "notifier_ok cfg w" and "process_task cfg E deliver w task = (w', r)"
    and "deliver = nt_initialized (nw_state w)"
  shows "notifier_ok cfg w' \<and> nt_initialized (nw_state w') = nt_initialized (nw_state w)"
  using assms
  by (auto simp: process_task_def send_notice_def save_state_def saves_def Let_def notifier_ok_def sent_key_def
      split: option.splits if_splits sum.splits)

lemma process_loop_ok:
  assumes "saves E"
  shows "notifier_ok cfg w \<Longrightarrow> deliver = nt_initialized (nw_state w) \<Longrightarrow>
    process_loop cfg E deliver w tasks = (w', r) \<Longrightarrow>
    notifier_ok cfg w' \<and> nt_initialized (nw_state w') = nt_initialized (nw_state w)"
proof (induction tasks arbitrary: w)
  case (Cons task tasks)
  obtain w1 r1 where p: "process_task cfg E deliver w task = (w1, r1)" by fastforce
  from process_task_ok [OF assms Cons.prems(1) p Cons.prems(2)] have
    ok: "notifier_ok cfg w1" "nt_initialized (nw_state w1) = nt_initialized (nw_state w)" by auto
  show ?case
  proof (cases r1)
    case (Inl e)
    with Cons.prems p ok show ?thesis by simp
  next
    case (Inr x)
    with Cons.prems p Cons.IH [OF ok(1)] ok show ?thesis by simp
  qed
qed simp

lemma daemon_turn_ok:
  assumes "saves E" and "notifier_ok cfg w" and "daemon_turn cfg E w answer = (w', r)"
  shows "notifier_ok cfg w'"
proof (cases answer)
  case (Inl e)
  with assms show ?thesis by (simp add: daemon_turn_def)
next
  case (Inr tasks)
  obtain w1 r1 where p: "process_loop cfg E (nt_initialized (nw_state w)) w (rev tasks) = (w1, r1)" by fastforce
  have ok: "notifier_ok cfg w1" using process_loop_ok [OF assms(1,2) refl p] by blast
  then have "notifier_ok cfg (w1\<lparr>nw_state := st, nw_file := Some st\<rparr>)"
    if "st = (nw_state w1)\<lparr>nt_initialized := True\<rparr>" for st
    by (simp add: that notifier_ok_def)
  with ok p assms(1,3) Inr show ?thesis
    by (auto simp: daemon_turn_def process_tasks_def save_state_def saves_def split: sum.splits if_splits)
qed

lemma daemon_start_ok: "notifier_ok cfg w \<Longrightarrow> daemon_start w = w"
  by (simp add: notifier_ok_def daemon_start_def)

section \<open>Properties\<close>


text \<open>A client whose first poll is empty and whose second shows an abnormal task with a title.\<close>

definition notifier_sample_config :: notifier_config where
  "notifier_sample_config = \<lparr>nc_server_url = ''u'', nc_api_token = ''1'', nc_admin_api_token = None,
     nc_client_id = ''c'', nc_poll_interval_seconds = None, nc_notify_completed = None, nc_state_path = ''p'',
     nc_openclaw_binary = None, nc_feishu_account = None, nc_feishu_target = ''t''\<rparr>"

definition quiet_env :: notifier_env where
  "quiet_env = \<lparr>ne_send = (\<lambda>n m. Inr ()), ne_save = (\<lambda>st. Inr ()), ne_format = (\<lambda>t. None)\<rparr>"

definition abnormal_task :: task_snapshot where
  "abnormal_task = sample_snapshot\<lparr>sn_conversation_title := Some ''title'', sn_integrity := integrity_state.Degraded\<rparr>"

definition polled_once :: notifier where
  "polled_once = fst (daemon_turn notifier_sample_config quiet_env
     (daemon_start \<lparr>nw_state = notification_state_new, nw_file = None, nw_sent = []\<rparr>) (Inr []))"

definition polled_twice :: notifier where
  "polled_twice = fst (daemon_turn notifier_sample_config quiet_env polled_once (Inr [abnormal_task, abnormal_task]))"

lemmas notifier_evaluation = polled_twice_def polled_once_def daemon_turn_def daemon_start_def
  notification_state_new_def quiet_env_def process_tasks_def save_state_def process_task_def notice_kind_of_def
  abnormal_task_def send_notice_def notifier_sample_config_def notified_def insert_notice_def Let_def


text \<open>What a step over some tasks announces: the texts it adds, and the notices it leaves recorded.\<close>

definition notice_due :: "task_snapshot \<Rightarrow> notice_kind \<Rightarrow> bool" where
  "notice_due task kind \<longleftrightarrow> notice_kind_of task = Some kind
     \<and> (kind = notice_kind.Abnormal \<longrightarrow> sn_conversation_title task \<noteq> None)"

definition notice_of :: "notifier_env \<Rightarrow> sent_notice \<Rightarrow> task_snapshot \<Rightarrow> bool" where
  "notice_of E x task \<longleftrightarrow> sx_task_ref x = sn_task_ref task \<and> notice_due task (sx_kind x)
     \<and> sx_message x = notice_message (ne_format E) task (sx_kind x)"

definition announces ::
  "notifier_config \<Rightarrow> notifier_env \<Rightarrow> bool \<Rightarrow> task_snapshot list \<Rightarrow> notifier \<Rightarrow> notifier \<Rightarrow> bool" where
  "announces cfg E deliver tasks w w' \<longleftrightarrow>
     (\<exists>more. nw_sent w' = nw_sent w @ more \<and> (\<forall>x \<in> set more. \<exists>task \<in> set tasks. notice_of E x task))
   \<and> (\<forall>k t. notified (nw_state w) k t \<longrightarrow> notified (nw_state w') k t)
   \<and> (\<forall>k. \<forall>task \<in> set tasks. notice_due task k \<longrightarrow> notified (nw_state w') k (sn_task_ref task))
   \<and> (\<forall>k t. notified (nw_state w') k t \<longrightarrow> deliver \<longrightarrow> (k = notice_kind.Completed \<longrightarrow> notify_completed cfg)
        \<longrightarrow> notified (nw_state w) k t \<or> (k, t) \<in> sent_key ` set (nw_sent w'))"

lemma announces_nil: "announces cfg E deliver [] w w"
  by (simp add: announces_def)

lemma announces_trans:
  assumes "announces cfg E deliver ts w w1" and "announces cfg E deliver us w1 w'"
  shows "announces cfg E deliver (ts @ us) w w'"
proof -
  from assms obtain m1 m2 where m: "nw_sent w1 = nw_sent w @ m1" "nw_sent w' = nw_sent w1 @ m2"
    "\<forall>x \<in> set m1. \<exists>task \<in> set ts. notice_of E x task" "\<forall>x \<in> set m2. \<exists>task \<in> set us. notice_of E x task"
    unfolding announces_def by blast
  note A = assms(1) [unfolded announces_def, THEN conjunct2] and B = assms(2) [unfolded announces_def, THEN conjunct2]
  have "\<exists>more. nw_sent w' = nw_sent w @ more \<and> (\<forall>x \<in> set more. \<exists>task \<in> set (ts @ us). notice_of E x task)"
    using m by (intro exI [of _ "m1 @ m2"]) auto
  moreover have "\<forall>k t. notified (nw_state w) k t \<longrightarrow> notified (nw_state w') k t"
    using A B by blast
  moreover have "\<forall>k. \<forall>task \<in> set (ts @ us). notice_due task k \<longrightarrow> notified (nw_state w') k (sn_task_ref task)"
    using A B by (metis Un_iff set_append)
  moreover have "notified (nw_state w) k t \<or> (k, t) \<in> sent_key ` set (nw_sent w')"
    if "notified (nw_state w') k t" "deliver" "k = notice_kind.Completed \<longrightarrow> notify_completed cfg" for k t
  proof -
    have "notified (nw_state w1) k t \<or> (k, t) \<in> sent_key ` set (nw_sent w')"
      using B that by blast
    moreover have "notified (nw_state w1) k t \<Longrightarrow> notified (nw_state w) k t \<or> (k, t) \<in> sent_key ` set (nw_sent w1)"
      using A that by blast
    ultimately show ?thesis using m(2) by auto
  qed
  ultimately show ?thesis unfolding announces_def by blast
qed

lemma process_task_announces:
  "process_task cfg E deliver w task = (w', Inr ()) \<Longrightarrow> announces cfg E deliver [task] w w'"
  by (auto simp: announces_def notice_due_def notice_of_def process_task_def send_notice_def save_state_def
      Let_def sent_key_def split: option.splits if_splits sum.splits)

lemma process_loop_announces:
  "process_loop cfg E deliver w tasks = (w', Inr ()) \<Longrightarrow> announces cfg E deliver tasks w w'"
proof (induction tasks arbitrary: w)
  case (Cons task tasks)
  then obtain w1 where "process_task cfg E deliver w task = (w1, Inr ())"
    "process_loop cfg E deliver w1 tasks = (w', Inr ())"
    by (auto split: prod.splits sum.splits)
  with Cons.IH process_task_announces announces_trans [of cfg E deliver "[task]" w w1 tasks w']
  show ?case by simp
qed (simp add: announces_nil)



end
