(* ===== verification/Server_Router.thy ===== *)
theory Server_Router
  imports Server_Query Server_Content Client_Service Notifier
begin

text \<open>
  The server's configuration, router and command line (\<open>crates/server/src/lib.rs\<close>), and how the requests
  of the client (\<open>transport.rs\<close>) and of the notifier meet the router. A path is the list of its decoded
  segments; an empty segment matches no parameter. Opening the database is I/O: a command is a function
  of the tables.
\<close>

section \<open>Configuration\<close>

record server_config =
  vc_listen :: string
  vc_database_path :: string

definition server_home_config :: "string \<Rightarrow> string" where
  "server_home_config home = path_join (path_join (path_join home ''.config'') ''codexwatch'') ''server.toml''"

definition resolve_server_config_path :: "bool \<Rightarrow> string option \<Rightarrow> string option \<Rightarrow> string option \<Rightarrow> string" where
  "resolve_server_config_path effective_root sudo_home xdg_config_home home =
     (case sudo_home of
        Some h \<Rightarrow> server_home_config h
      | None \<Rightarrow>
          if effective_root then ''/etc/codexwatch/server.toml''
          else case usable_config_root xdg_config_home of
            Some config_home \<Rightarrow> path_join (path_join config_home ''codexwatch'') ''server.toml''
          | None \<Rightarrow>
              (case usable_config_root home of
                 Some h \<Rightarrow> server_home_config h
               | None \<Rightarrow> ''/etc/codexwatch/server.toml''))"

definition default_server_config_path ::
  "bool \<Rightarrow> string option \<Rightarrow> (string \<Rightarrow> string + string option) \<Rightarrow> string option \<Rightarrow> string option
     \<Rightarrow> config_error + string" where
  "default_server_config_path effective_root sudo_user users xdg_config_home home =
     mapr (\<lambda>sudo_home. resolve_server_config_path effective_root sudo_home xdg_config_home home)
       (sudo_user_home sudo_user users)"

definition server_config_load ::
  "(string \<Rightarrow> string + server_config) \<Rightarrow> (string \<Rightarrow> string option) \<Rightarrow> config_error + string
     \<Rightarrow> config_error + server_config" where
  "server_config_load read files path =
     bindr path (\<lambda>path. bindr (ok_or (files path) (ReadConfig path)) (\<lambda>source. map_err NotToml (read source)))"

definition configured_database_path :: "config_error + server_config \<Rightarrow> string option \<Rightarrow> config_error + string" where
  "configured_database_path config explicit =
     (case explicit of Some path \<Rightarrow> Inr path | None \<Rightarrow> mapr vc_database_path config)"

text \<open>The configuration file is read only when an argument is missing.\<close>

definition serve_arguments ::
  "config_error + server_config \<Rightarrow> string option \<Rightarrow> string option \<Rightarrow> config_error + string \<times> string" where
  "serve_arguments config listen db =
     (case (listen, db) of
        (Some l, Some d) \<Rightarrow> Inr (l, d)
      | _ \<Rightarrow> mapr (\<lambda>c. (unwrap_or listen (vc_listen c), unwrap_or db (vc_database_path c))) config)"

section \<open>Routes\<close>

datatype http_method = GET | POST

datatype route =
    Healthz | IngestRoute | NextCommand | ManifestsRoute string | ChunksRoute string | ResultRoute string
  | TasksRoute | TaskRoute string | AttemptsRoute string | EventsRoute string | ErrorsRoute string
  | SessionRoute string string | ContentRequestsRoute string | CaptureHealthRoute string

datatype routing = Handler route | MethodNotAllowed | NoRoute

definition api_route :: "string list \<Rightarrow> (http_method \<times> route) option" where
  "api_route p =
     (case p of
        [a] \<Rightarrow>
          if a = ''ingest'' then Some (POST, IngestRoute)
          else if a = ''tasks'' then Some (GET, TasksRoute) else None
      | [a, x] \<Rightarrow>
          if x = [] then None
          else if a = ''tasks'' then Some (GET, TaskRoute x)
          else if a = ''capture-health'' then Some (GET, CaptureHealthRoute x) else None
      | [a, x, b] \<Rightarrow>
          if a = ''client'' \<and> x = ''commands'' \<and> b = ''next'' then Some (GET, NextCommand)
          else if x = [] \<or> b = [] then None
          else if a = ''sessions'' then Some (GET, SessionRoute x b)
          else if a = ''tasks'' then
            if b = ''attempts'' then Some (GET, AttemptsRoute x)
            else if b = ''events'' then Some (GET, EventsRoute x)
            else if b = ''errors'' then Some (GET, ErrorsRoute x)
            else if b = ''content-requests'' then Some (POST, ContentRequestsRoute x) else None
          else None
      | [a, b, x, c] \<Rightarrow>
          if a = ''client'' \<and> b = ''commands'' \<and> x \<noteq> [] \<and> c = ''result'' then Some (POST, ResultRoute x) else None
      | [a, b, x, c, d] \<Rightarrow>
          if a = ''client'' \<and> b = ''commands'' \<and> x \<noteq> [] \<and> c = ''content'' then
            if d = ''manifests'' then Some (POST, ManifestsRoute x)
            else if d = ''chunks'' then Some (POST, ChunksRoute x) else None
          else None
      | _ \<Rightarrow> None)"

definition route_entry :: "string list \<Rightarrow> (http_method \<times> route) option" where
  "route_entry p =
     (if p = [''healthz''] then Some (GET, Healthz)
      else if take 2 p = [''api'', ''v1''] then api_route (drop 2 p) else None)"

definition build_router :: "http_method \<Rightarrow> string list \<Rightarrow> routing" where
  "build_router m p =
     (case route_entry p of
        None \<Rightarrow> NoRoute
      | Some (m', r) \<Rightarrow> if m = m' then Handler r else MethodNotAllowed)"

text \<open>
  What a read handler asks of the tables. \<open>read_list\<close> is \<open>Query<TaskListQuery>\<close>, which fails on a value
  it cannot read.
\<close>

definition query_value :: "(string \<times> string) list \<Rightarrow> string \<Rightarrow> string option" where
  "query_value pairs k = map_option snd (find (\<lambda>(n, v). n = k) pairs)"

definition query_of_route ::
  "((string \<times> string) list \<Rightarrow> task_list_query option) \<Rightarrow> route \<Rightarrow> (string \<times> string) list \<Rightarrow> query option" where
  "query_of_route read_list r pairs =
     (case r of
        TasksRoute \<Rightarrow> map_option ListTasks (read_list pairs)
      | TaskRoute t \<Rightarrow> Some (TaskDetailOf t)
      | AttemptsRoute t \<Rightarrow> Some (query.AttemptsOf t)
      | EventsRoute t \<Rightarrow> Some (query.EventsOf t)
      | ErrorsRoute t \<Rightarrow> Some (query.ErrorsOf t)
      | CaptureHealthRoute c \<Rightarrow> Some (HealthOf c)
      | SessionRoute c s \<Rightarrow> Some (SessionOf c s (query_value pairs ''provider'') (query_value pairs ''thread_id''))
      | _ \<Rightarrow> None)"

section \<open>The command line\<close>

datatype server_command =
    Serve "string option" "string option"
  | IssueToken string string "token_role option" bool
  | RevokeToken string
  | CliTasks "string option" "string option" "string option" "u32 option"
  | CliSession string string "string option" "string option"
  | CliTask string | CliAttempts string | CliEvents string | CliErrors string
  | CliCaptureHealth string
  | CliRequestContent string "string list" "i64 option"
  | CliCleanup "i64 option"

datatype cli_error = QueryFailed status_code | UnsupportedPart string

datatype cli_output =
    Printed query_response | TokenPrinted string string string | OkPrinted

definition cli_principal :: "string \<Rightarrow> principal" where
  "cli_principal client_id = \<lparr>pn_client_id = client_id, pn_role = Admin\<rparr>"

definition parse_content_part :: "string \<Rightarrow> cli_error + content_part" where
  "parse_content_part value =
     (if value = ''request'' then Inr content_part.Request
      else if value = ''response'' then Inr content_part.Response
      else if value = ''tool_input'' then Inr content_part.ToolInput
      else if value = ''tool_output'' then Inr content_part.ToolOutput
      else if value = ''model_text'' then Inr content_part.ModelText
      else Inl (UnsupportedPart value))"

text \<open>The reading commands, as the principal and the query they run.\<close>

fun cli_query :: "server_command \<Rightarrow> (principal \<times> query) option" where
  "cli_query (CliTasks client_id provider session_id limit) =
     Some (cli_principal (unwrap_or client_id ''cli''),
       ListTasks \<lparr>tq_client_id = client_id, tq_provider = provider, tq_session_id = session_id, tq_phase = None,
         tq_terminal = None, tq_cursor = None, tq_limit = Some (unwrap_or limit 100)\<rparr>)"
| "cli_query (CliSession client_id session_id provider thread_id) =
     Some (cli_principal client_id, SessionOf client_id session_id provider thread_id)"
| "cli_query (CliTask t) = Some (cli_principal ''cli'', TaskDetailOf t)"
| "cli_query (CliAttempts t) = Some (cli_principal ''cli'', query.AttemptsOf t)"
| "cli_query (CliEvents t) = Some (cli_principal ''cli'', query.EventsOf t)"
| "cli_query (CliErrors t) = Some (cli_principal ''cli'', query.ErrorsOf t)"
| "cli_query (CliCaptureHealth c) = Some (cli_principal ''cli'', HealthOf c)"
| "cli_query _ = None"

text \<open>\<open>clk\<close> gives the clock reads and \<open>ids\<close> the identifiers drawn. \<open>Serve\<close> and the HTTP side are not here.\<close>

definition run_command ::
  "'l server_lib \<Rightarrow> (nat \<Rightarrow> uuid) \<Rightarrow> (nat \<Rightarrow> i64) \<Rightarrow> server_state \<Rightarrow> server_command
     \<Rightarrow> server_state \<times> (cli_error + cli_output)" where
  "run_command X ids clk st c =
     (case c of
        IssueToken client_id token role admin \<Rightarrow>
          (issue_token X st clk client_id token role admin,
           Inr (TokenPrinted client_id (role_as_str (if admin then Admin else unwrap_or role Client)) (hash_token X token)))
      | RevokeToken token \<Rightarrow> (revoke_token X st (clk 0) token, Inr OkPrinted)
      | CliRequestContent task_ref parts expires \<Rightarrow>
          (case map_m parse_content_part parts of
             Inl e \<Rightarrow> (st, Inl e)
           | Inr ps \<Rightarrow>
               (case create_content_request_inner st ids (clk 0) (cli_principal ''cli'') task_ref ps expires of
                  Inl e \<Rightarrow> (st, Inl (QueryFailed e))
                | Inr (st', _) \<Rightarrow> (st', Inr OkPrinted)))
      | CliCleanup now \<Rightarrow> (cleanup_retention st (unwrap_or now (clk 0)), Inr OkPrinted)
      | _ \<Rightarrow>
          (case cli_query c of
             None \<Rightarrow> (st, Inr OkPrinted)
           | Some (p, q) \<Rightarrow> (st, mapr Printed (map_err QueryFailed (query_inner st p q)))))"

lemma parse_content_part_name: "parse_content_part (content_part_name part) = Inr part"
  by (cases part) (simp_all add: parse_content_part_def)

section \<open>Requests meet routes\<close>

text \<open>The path segments and the query of a URL below the base.\<close>

definition url_path :: "string \<Rightarrow> string list" where
  "url_path url = tl (split_on CHR ''/'' (takeWhile (\<lambda>c. c \<noteq> CHR ''?'') url))"

fun call_method :: "api_call \<Rightarrow> http_method" where
  "call_method (PollCommands _) = GET"
| "call_method _ = POST"

definition call_route :: "(uuid \<Rightarrow> string) \<Rightarrow> api_call \<Rightarrow> route" where
  "call_route show_uuid c =
     (case c of
        PostIngest _ _ \<Rightarrow> IngestRoute
      | PollCommands _ \<Rightarrow> NextCommand
      | PostManifests i _ \<Rightarrow> ManifestsRoute (show_uuid i)
      | PostChunk i _ \<Rightarrow> ChunksRoute (show_uuid i)
      | PostResult i _ \<Rightarrow> ResultRoute (show_uuid i))"

text \<open>The text of an identifier is one plain segment.\<close>

definition plain_segment :: "string \<Rightarrow> bool" where
  "plain_segment s \<longleftrightarrow> s \<noteq> [] \<and> CHR ''/'' \<notin> set s \<and> CHR ''?'' \<notin> set s"

lemma split_on_segment: "c \<notin> set s \<Longrightarrow> split_on c (s @ c # rest) = s # split_on c rest"
  by (induction s) auto

lemma split_on_last: "c \<notin> set s \<Longrightarrow> split_on c s = [s]"
  by (induction s) auto

lemma takeWhile_plain:
  "CHR ''?'' \<notin> set s \<Longrightarrow> takeWhile (\<lambda>c. c \<noteq> CHR ''?'') (s @ t) = s @ takeWhile (\<lambda>c. c \<noteq> CHR ''?'') t"
  by (induction s) auto

lemma id_path:
  assumes "plain_segment s"
  shows "url_path (''/api/v1/client/commands/'' @ s @ ''/content/manifests'') =
      [''api'', ''v1'', ''client'', ''commands'', s, ''content'', ''manifests'']"
    and "url_path (''/api/v1/client/commands/'' @ s @ ''/content/chunks'') =
      [''api'', ''v1'', ''client'', ''commands'', s, ''content'', ''chunks'']"
    and "url_path (''/api/v1/client/commands/'' @ s @ ''/result'') =
      [''api'', ''v1'', ''client'', ''commands'', s, ''result'']"
  using assms
  by (simp_all add: url_path_def plain_segment_def takeWhile_plain split_on_segment)

text \<open>
  C17. Every call of the client is answered by the handler it is meant for: the URL that the client formats
  below the server's base, whatever slashes the configured base ends with, has the path and the method of the
  route of that handler, and the handler is given the identifier of the command.
\<close>

theorem client_calls_are_routed:
  assumes "plain_segment (show_uuid (case c of PostManifests i _ \<Rightarrow> i | PostChunk i _ \<Rightarrow> i | PostResult i _ \<Rightarrow> i | _ \<Rightarrow> Uuid 7 0))"
  shows "\<exists>below. call_url show_uuid (api_base_url server) c = api_base_url server @ below
    \<and> build_router (call_method c) (url_path below) = Handler (call_route show_uuid c)"
proof (cases c)
  case (PollCommands n)
  have "takeWhile (\<lambda>c. c \<noteq> CHR ''?'') (''/api/v1/client/commands/next?wait='' @ t) = ''/api/v1/client/commands/next''" for t
    by simp
  then have "url_path (''/api/v1/client/commands/next?wait='' @ t) = [''api'', ''v1'', ''client'', ''commands'', ''next'']" for t
    unfolding url_path_def by simp
  with PollCommands show ?thesis
    by (simp add: call_url_def call_route_def build_router_def route_entry_def api_route_def)
next
  case (PostIngest sha body)
  then show ?thesis
    by (simp add: call_url_def call_route_def build_router_def route_entry_def api_route_def url_path_def)
next
  case (PostManifests i ms)
  with assms have s: "plain_segment (show_uuid i)" by simp
  then have "build_router POST (url_path (''/api/v1/client/commands/'' @ show_uuid i @ ''/content/manifests'')) =
      Handler (ManifestsRoute (show_uuid i))"
    unfolding id_path(1) [OF s] by (simp add: build_router_def route_entry_def api_route_def plain_segment_def)
  with PostManifests show ?thesis
    by (simp only: call_url_def call_route_def call_method.simps api_call.case) blast
next
  case (PostChunk i k)
  with assms have s: "plain_segment (show_uuid i)" by simp
  then have "build_router POST (url_path (''/api/v1/client/commands/'' @ show_uuid i @ ''/content/chunks'')) =
      Handler (ChunksRoute (show_uuid i))"
    unfolding id_path(2) [OF s] by (simp add: build_router_def route_entry_def api_route_def plain_segment_def)
  with PostChunk show ?thesis
    by (simp only: call_url_def call_route_def call_method.simps api_call.case) blast
next
  case (PostResult i q)
  with assms have s: "plain_segment (show_uuid i)" by simp
  then have "build_router POST (url_path (''/api/v1/client/commands/'' @ show_uuid i @ ''/result'')) =
      Handler (ResultRoute (show_uuid i))"
    unfolding id_path(3) [OF s] by (simp add: build_router_def route_entry_def api_route_def plain_segment_def)
  with PostResult show ?thesis
    by (simp only: call_url_def call_route_def call_method.simps api_call.case) blast
qed

definition sample_chunk :: content_upload_chunk where
  "sample_chunk = \<lparr>ch_request_id = Uuid 7 2, ch_chunk_index = 0, ch_chunk_count = 1, ch_object_sha256 = [],
     ch_payload_sha256 = [], ch_payload_zstd = [], ch_is_last = True\<rparr>"

theorem client_calls_are_routed_witness:
  "\<exists>below. call_url (\<lambda>i. ''0199'') (api_base_url ''http://h:1//'') (PostChunk (Uuid 7 1) sample_chunk) =
      ''http://h:1'' @ below
    \<and> build_router POST (url_path below) = Handler (ChunksRoute ''0199'')"
proof -
  have "api_base_url ''http://h:1//'' = ''http://h:1''"
    by code_simp
  moreover have "plain_segment ''0199''" by (simp add: plain_segment_def)
  ultimately show ?thesis
    using client_calls_are_routed [of "\<lambda>i. ''0199''" "PostChunk (Uuid 7 1) sample_chunk" "''http://h:1//''"]
    by (simp add: call_route_def)
qed

text \<open>What the handlers make of the query pairs of a task list: the pairs the notifier sends, read back.\<close>

definition read_list_pairs :: "(string \<times> string) list \<Rightarrow> task_list_query option" where
  "read_list_pairs pairs =
     (case query_value pairs ''limit'' of
        None \<Rightarrow> Some \<lparr>tq_client_id = query_value pairs ''client_id'', tq_provider = query_value pairs ''provider'',
          tq_session_id = query_value pairs ''session_id'', tq_phase = None, tq_terminal = None,
          tq_cursor = query_value pairs ''cursor'', tq_limit = None\<rparr>
      | Some n \<Rightarrow> map_option (\<lambda>limit. \<lparr>tq_client_id = query_value pairs ''client_id'',
          tq_provider = query_value pairs ''provider'', tq_session_id = query_value pairs ''session_id'',
          tq_phase = None, tq_terminal = None, tq_cursor = query_value pairs ''cursor'', tq_limit = Some limit\<rparr>)
          (parse_u32 n))"

lemma parse_u32_show: "parse_u32 (show_nat (unat w)) = Some w" for w :: u32
proof -
  have "unat w < 2 ^ 32" using unsigned_less [of w] by simp
  moreover obtain c cs where s: "show_nat (unat w) = c # cs"
    using show_nat_nonempty [of "unat w"] by (cases "show_nat (unat w)") auto
  moreover have "is_ascii_digit c" using show_nat_digits [of c "unat w"] s by simp
  then have "c \<noteq> CHR ''+''" by (auto simp: is_ascii_digit_def code_def)
  ultimately show ?thesis
    using digits_val_show_nat [of "unat w" "2 ^ 32"]
    by (simp add: parse_u32_def parse_unsigned_def del: digits_val.simps)
qed

text \<open>The query a command of the notifier stands for.\<close>

fun intended_query :: "server_api \<Rightarrow> cli_command \<Rightarrow> query option" where
  "intended_query api (cli_command.Tasks session_id limit) =
     Some (ListTasks \<lparr>tq_client_id = Some (sa_client_id api), tq_provider = None, tq_session_id = session_id,
       tq_phase = None, tq_terminal = None, tq_cursor = None, tq_limit = Some (min limit 500)\<rparr>)"
| "intended_query api (TaskOf t) = Some (TaskDetailOf t)"
| "intended_query api (SessionCmd s thread) =
     Some (SessionOf (sa_client_id api) s (map_option (\<lambda>_. ''codex'') thread) thread)"
| "intended_query api (cli_command.AttemptsOf t) = Some (query.AttemptsOf t)"
| "intended_query api (cli_command.EventsOf t) = Some (query.EventsOf t)"
| "intended_query api (cli_command.ErrorsOf t) = Some (query.ErrorsOf t)"
| "intended_query api CaptureHealth = Some (HealthOf (sa_client_id api))"
| "intended_query api _ = None"

lemmas read_requests = tasks_request_def task_request_def session_request_def capture_health_request_def
  get_request_def

text \<open>
  Every reading command of the notifier asks the server what it means to ask: its request has the method and
  the path of a reading route, and the handler of that route runs the intended query, for the configured
  client, with the list's limit capped at 500 and the pairs of the query decoded.
\<close>

theorem notifier_requests_are_understood:
  assumes "intended_query api c = Some q" and "command_request api c = Inr (Some rq)"
    and "\<forall>s \<in> set (rq_segments rq). s \<noteq> []"
  shows "\<not> rq_post rq \<and> rq_token rq = sa_token api
    \<and> (\<exists>r. build_router GET (rq_segments rq) = Handler r
         \<and> query_of_route read_list_pairs r (rq_query rq) = Some q)"
proof (cases c)
  case (Tasks session_id limit)
  have rq: "rq = tasks_request api session_id limit" using assms(2) Tasks by simp
  have r: "build_router GET (rq_segments rq) = Handler TasksRoute"
    by (simp add: rq tasks_request_def get_request_def build_router_def route_entry_def api_route_def)
  have "read_list_pairs (rq_query rq) = (case q of ListTasks l \<Rightarrow> Some l | _ \<Rightarrow> None)"
    using assms(1) Tasks
    by (cases session_id) (auto simp: rq tasks_request_def get_request_def read_list_pairs_def query_value_def parse_u32_show)
  then show ?thesis
    using r assms(1) Tasks by (auto simp: query_of_route_def rq tasks_request_def get_request_def)
next
  case (SessionCmd s thread)
  have rq: "rq = session_request api s thread" using assms(2) SessionCmd by simp
  have "build_router GET (rq_segments rq) = Handler (SessionRoute (sa_client_id api) s)"
    using assms(3)
    by (simp add: rq session_request_def get_request_def build_router_def route_entry_def api_route_def)
  then show ?thesis
    using assms(1) SessionCmd
    by (cases thread) (auto simp: rq session_request_def get_request_def query_of_route_def query_value_def)
next
  case (TaskOf t)
  have rq: "rq = task_request api t None" using assms(2) TaskOf by simp
  have "build_router GET (rq_segments rq) = Handler (TaskRoute t)"
    using assms(3) by (simp add: rq read_requests build_router_def route_entry_def api_route_def)
  then show ?thesis using assms(1) TaskOf by (simp add: rq read_requests query_of_route_def)
next
  case (AttemptsOf t)
  have rq: "rq = task_request api t (Some ''attempts'')" using assms(2) AttemptsOf by simp
  have "build_router GET (rq_segments rq) = Handler (AttemptsRoute t)"
    using assms(3) by (simp add: rq read_requests build_router_def route_entry_def api_route_def)
  then show ?thesis using assms(1) AttemptsOf by (simp add: rq read_requests query_of_route_def)
next
  case (EventsOf t)
  have rq: "rq = task_request api t (Some ''events'')" using assms(2) EventsOf by simp
  have "build_router GET (rq_segments rq) = Handler (EventsRoute t)"
    using assms(3) by (simp add: rq read_requests build_router_def route_entry_def api_route_def)
  then show ?thesis using assms(1) EventsOf by (simp add: rq read_requests query_of_route_def)
next
  case (ErrorsOf t)
  have rq: "rq = task_request api t (Some ''errors'')" using assms(2) ErrorsOf by simp
  have "build_router GET (rq_segments rq) = Handler (ErrorsRoute t)"
    using assms(3) by (simp add: rq read_requests build_router_def route_entry_def api_route_def)
  then show ?thesis using assms(1) ErrorsOf by (simp add: rq read_requests query_of_route_def)
next
  case CaptureHealth
  have rq: "rq = capture_health_request api" using assms(2) CaptureHealth by simp
  have "build_router GET (rq_segments rq) = Handler (CaptureHealthRoute (sa_client_id api))"
    using assms(3) by (simp add: rq read_requests build_router_def route_entry_def api_route_def)
  then show ?thesis using assms(1) CaptureHealth by (simp add: rq read_requests query_of_route_def)
qed (use assms(1) in simp_all)

theorem notifier_requests_are_understood_witness:
  "\<exists>r rq. command_request (server_api_new notifier_sample_config) (cli_command.Tasks None 900) = Inr (Some rq)
     \<and> build_router GET (rq_segments rq) = Handler r
     \<and> query_of_route read_list_pairs r (rq_query rq) =
         intended_query (server_api_new notifier_sample_config) (cli_command.Tasks None 900)"
proof -
  let ?api = "server_api_new notifier_sample_config" and ?c = "cli_command.Tasks None 900"
  obtain q where q: "intended_query ?api ?c = Some q" by simp
  have rq: "command_request ?api ?c = Inr (Some (tasks_request ?api None 900))" by simp
  have "\<forall>s \<in> set (rq_segments (tasks_request ?api None 900)). s \<noteq> []"
    by (simp add: tasks_request_def get_request_def)
  from notifier_requests_are_understood [OF q rq this] rq q show ?thesis by metis
qed

section \<open>A body beyond the limit\<close>

text \<open>
  \<open>serde_json\<close> writes bytes as an array of numbers. The router sets no limit of its own, so that of axum
  applies to the body of a chunk: 2 MiB.
\<close>

definition json_bytes :: "byte list \<Rightarrow> string" where
  "json_bytes bs = ''['' @ join '','' (map (\<lambda>b. show_nat (unat b)) bs) @ '']''"

definition DEFAULT_BODY_LIMIT :: nat where "DEFAULT_BODY_LIMIT = 2 * 1024 * 1024"

lemma json_bytes_length: "bs \<noteq> [] \<Longrightarrow> 2 * length bs + 1 \<le> length (json_bytes bs)"
proof (induction bs rule: induct_list012)
  case (2 b)
  have "Suc 0 \<le> length (show_nat (unat b))" using show_nat_nonempty [of "unat b"] by (simp add: Suc_le_eq)
  then show ?case by (simp add: json_bytes_def)
next
  case (3 b c bs)
  have "Suc 0 \<le> length (show_nat (unat b))" using show_nat_nonempty [of "unat b"] by (simp add: Suc_le_eq)
  with 3(2) show ?case by (simp add: json_bytes_def)
qed simp

text \<open>The payload of a full chunk alone is over the limit.\<close>

lemma full_chunk_over_limit:
  assumes "length (ch_payload_zstd c) = MAX_CONTENT_CHUNK_BYTES"
  shows "DEFAULT_BODY_LIMIT < length (json_bytes (ch_payload_zstd c))"
proof -
  have "ch_payload_zstd c \<noteq> []" using assms by (auto simp: MAX_CONTENT_CHUNK_BYTES_def)
  from json_bytes_length [OF this] assms show ?thesis
    by (simp add: MAX_CONTENT_CHUNK_BYTES_def DEFAULT_BODY_LIMIT_def)
qed

end
