(* ===== verification/Ebpf_Probe.thy ===== *)
theory Ebpf_Probe
  imports Collections Ebpf_Loader
begin

text \<open>
  The kernel programs (\<open>crates/capture-ebpf/ebpf/src/lib.rs\<close>): which record each probe writes to the
  ring buffer, and the maps they keep between calls. What a call finds (its arguments, registers, the
  current thread, the clock, the memory of the user and whether the ring buffer has room) is the record
  \<open>probe_env\<close>; the maps are the state. The results of the programs are ignored by the kernel.
\<close>

section \<open>State\<close>

record inflight_io =
  io_connection_ptr :: u64
  io_buf_ptr :: u64
  io_requested_len :: u32
  io_file_offset :: u64
  io_epoch :: u64
  io_call_sequence :: u64
  io_tgid :: u32
  io_pid :: u32
  io_start_ticks :: u64

text \<open>
  \<open>pb_scratch\<close> is the payload of the record each processor builds its records in, \<open>pb_events\<close> the
  records written to the ring buffer.
\<close>

record probe_state =
  pb_boot_id :: "byte list"
  pb_process_start :: "(u32 \<times> u64) list"
  pb_connection_epoch :: "(u64 \<times> u64) list"
  pb_connection_sequence :: "(u64 \<times> u64) list"
  pb_inflight_writes :: "(u64 \<times> inflight_io) list"
  pb_inflight_reads :: "(u64 \<times> inflight_io) list"
  pb_scratch :: "u32 \<Rightarrow> byte list"
  pb_events :: "(capture_record_header \<times> byte list) list"

text \<open>
  \<open>pe_user p n\<close> is what \<open>bpf_probe_read_user_buf\<close> leaves in a buffer of \<open>n\<close> bytes.
\<close>

record probe_env =
  pe_pid_tgid :: u64
  pe_ktime :: u64
  pe_cpu :: u32
  pe_arg :: "nat \<Rightarrow> u64 option"
  pe_comm :: "i32 + byte list"
  pe_ret :: "u64 option"
  pe_rdx :: u64
  pe_user :: "u64 \<Rightarrow> nat \<Rightarrow> byte list"
  pe_ring :: "i32 + unit"

definition MAX_PROCESSES :: nat where "MAX_PROCESSES = 4096"

definition MAX_CONNECTIONS :: nat where "MAX_CONNECTIONS = 8192"

text \<open>A call: the new state and the error or nothing.\<close>

type_synonym 'a probe_call = "probe_state \<times> (i32 + 'a)"

text \<open>\<open>insert\<close> of a BPF hash map: a new key does not fit into a full map.\<close>

definition bpf_insert :: "nat \<Rightarrow> ('k \<times> 'v) list \<Rightarrow> 'k \<Rightarrow> 'v \<Rightarrow> ('k \<times> 'v) list" where
  "bpf_insert capacity m k v =
     (if map_get m k = None \<and> capacity \<le> length m then m else map_put m k v)"

section \<open>Identities\<close>

definition pid_of :: "u64 \<Rightarrow> u32" where "pid_of w = ucast w"

definition tgid_of :: "u64 \<Rightarrow> u32" where "tgid_of w = ucast (drop_bit 32 w)"

definition current_identity :: "probe_env \<Rightarrow> probe_state \<Rightarrow> u64 \<Rightarrow> u64 \<Rightarrow> u64 \<Rightarrow> connection_identity" where
  "current_identity E s connection_ptr epoch call_sequence =
     (let tgid = tgid_of (pe_pid_tgid E) in
      \<lparr>cn_boot_id = pb_boot_id s, cn_tgid = tgid, cn_pid = pid_of (pe_pid_tgid E),
       cn_start_ticks = unwrap_or (map_get (pb_process_start s) tgid) (pe_ktime E),
       cn_connection_ptr = connection_ptr, cn_epoch = epoch, cn_call_sequence = call_sequence\<rparr>)"

definition connection_identity_from_inflight :: "probe_state \<Rightarrow> inflight_io \<Rightarrow> connection_identity" where
  "connection_identity_from_inflight s io =
     \<lparr>cn_boot_id = pb_boot_id s, cn_tgid = io_tgid io, cn_pid = io_pid io,
      cn_start_ticks = io_start_ticks io, cn_connection_ptr = io_connection_ptr io,
      cn_epoch = io_epoch io, cn_call_sequence = io_call_sequence io\<rparr>"

definition connection_epoch :: "probe_state \<Rightarrow> u64 \<Rightarrow> probe_state \<times> u64 \<times> bool" where
  "connection_epoch s ptr =
     (case map_get (pb_connection_epoch s) ptr of
        Some existing \<Rightarrow> (s, existing, False)
      | None \<Rightarrow>
          (s\<lparr>pb_connection_epoch := bpf_insert MAX_CONNECTIONS (pb_connection_epoch s) ptr 1\<rparr>, 1, True))"

definition saturating_succ :: "u64 \<Rightarrow> u64" where
  "saturating_succ n = (if n = - 1 then n else n + 1)"

definition next_sequence :: "probe_state \<Rightarrow> u64 \<Rightarrow> probe_state \<times> u64" where
  "next_sequence s ptr =
     (case map_get (pb_connection_sequence s) ptr of
        Some existing \<Rightarrow>
          (s\<lparr>pb_connection_sequence := map_put (pb_connection_sequence s) ptr (saturating_succ existing)\<rparr>,
           saturating_succ existing)
      | None \<Rightarrow>
          (s\<lparr>pb_connection_sequence := bpf_insert MAX_CONNECTIONS (pb_connection_sequence s) ptr 1\<rparr>, 1))"

section \<open>Records\<close>

definition probe_header ::
  "probe_kind \<Rightarrow> probe_direction \<Rightarrow> connection_identity \<Rightarrow> u64 \<Rightarrow> u64 \<Rightarrow> u32 \<Rightarrow> u64 \<Rightarrow> nat
     \<Rightarrow> capture_record_header" where
  "probe_header kind direction identity file_offset data_offset aux_value aux_value2 len =
     \<lparr>rh_abi_version = ABI_VERSION, rh_header_len = word_of_nat HEADER_SIZE, rh_kind = kind,
      rh_direction = direction, rh_cpu = 0, rh_pad0 = 0, rh_connection = identity,
      rh_file_offset = file_offset, rh_data_offset = data_offset,
      rh_data_length = word_of_nat (min len MAX_CAPTURE_BYTES), rh_aux_value = aux_value,
      rh_aux_value2 = aux_value2\<rparr>"

text \<open>The record of the processor is written over from its beginning; \<open>EVENTS.output\<close> may fail.\<close>

definition output_record ::
  "probe_env \<Rightarrow> probe_state \<Rightarrow> capture_record_header \<Rightarrow> byte list \<Rightarrow> unit probe_call" where
  "output_record E s h payload =
     (let record = payload @ drop (length payload) (pb_scratch s (pe_cpu E));
          s1 = s\<lparr>pb_scratch := (pb_scratch s)(pe_cpu E := record)\<rparr> in
      case pe_ring E of
        Inl e \<Rightarrow> (s1, Inl e)
      | Inr _ \<Rightarrow> (s1\<lparr>pb_events := pb_events s1 @ [(h, record)]\<rparr>, Inr ()))"

definition emit_record ::
  "probe_env \<Rightarrow> probe_state \<Rightarrow> probe_kind \<Rightarrow> probe_direction \<Rightarrow> connection_identity \<Rightarrow> u64 \<Rightarrow> u64 \<Rightarrow> u32
     \<Rightarrow> u64 \<Rightarrow> byte list \<Rightarrow> unit probe_call" where
  "emit_record E s kind direction identity file_offset data_offset aux_value aux_value2 payload =
     output_record E s
       (probe_header kind direction identity file_offset data_offset aux_value aux_value2 (length payload))
       (take MAX_CAPTURE_BYTES payload)"

definition emit_record_from_user_ptr ::
  "probe_env \<Rightarrow> probe_state \<Rightarrow> probe_kind \<Rightarrow> probe_direction \<Rightarrow> connection_identity \<Rightarrow> u64 \<Rightarrow> u64 \<Rightarrow> u32
     \<Rightarrow> u64 \<Rightarrow> u64 \<Rightarrow> nat \<Rightarrow> unit probe_call" where
  "emit_record_from_user_ptr E s kind direction identity file_offset data_offset aux_value aux_value2
       payload_ptr payload_len =
     (let len = min payload_len MAX_CAPTURE_BYTES in
      output_record E s
        (probe_header kind direction identity file_offset data_offset aux_value aux_value2 payload_len)
        (if len \<noteq> 0 then pe_user E payload_ptr len else []))"

section \<open>Programs\<close>

definition try_process_exec :: "probe_env \<Rightarrow> probe_state \<Rightarrow> unit probe_call" where
  "try_process_exec E s =
     (let identity = current_identity E s 0 0 0;
          s1 = s\<lparr>pb_process_start := bpf_insert MAX_PROCESSES (pb_process_start s) (cn_tgid identity)
            (cn_start_ticks identity)\<rparr> in
      case pe_comm E of
        Inl e \<Rightarrow> (s1, Inl e)
      | Inr comm \<Rightarrow> emit_record E s1 ProcessExec NoDirection identity 0 0 0 0 comm)"

definition try_process_exit :: "probe_env \<Rightarrow> probe_state \<Rightarrow> unit probe_call" where
  "try_process_exit E s =
     (let identity = current_identity E s 0 0 0;
          s1 = s\<lparr>pb_process_start := map_del (pb_process_start s) (cn_tgid identity)\<rparr> in
      case pe_comm E of
        Inl e \<Rightarrow> (s1, Inl e)
      | Inr comm \<Rightarrow> emit_record E s1 ProcessExit NoDirection identity 0 0 0 0 comm)"

definition try_tcp_state :: "probe_env \<Rightarrow> probe_state \<Rightarrow> unit probe_call" where
  "try_tcp_state E s =
     (case (pe_arg E 0, pe_arg E 1) of
        (Some sock, Some state) \<Rightarrow>
          emit_record E s TcpStateChange NoDirection (current_identity E s sock 0 0) 0 0 (ucast state) 0 []
      | _ \<Rightarrow> (s, Inl 0))"

text \<open>The common part of the two entry programs: the connection, its record when it is new, and the call.\<close>

definition enter_call ::
  "probe_env \<Rightarrow> probe_state \<Rightarrow> u64 \<Rightarrow> probe_state \<times> (i32 + inflight_io)" where
  "enter_call E s file_offset =
     (case (pe_arg E 0, pe_arg E 1, pe_arg E 2) of
        (Some connection_ptr, Some buf, Some len) \<Rightarrow>
          let (s1, epoch, created) = connection_epoch s connection_ptr;
              (s2, sequence) = next_sequence s1 connection_ptr;
              identity = current_identity E s2 connection_ptr epoch sequence;
              (s3, r) = (if created
                then emit_record E s2 ConnectionCreate NoDirection identity file_offset 0 0 0 []
                else (s2, Inr ())) in
          (s3, mapr (\<lambda>_. \<lparr>io_connection_ptr = connection_ptr, io_buf_ptr = buf,
             io_requested_len = word_of_nat (min (unat len) (2 ^ 32 - 1)), io_file_offset = file_offset,
             io_epoch = epoch, io_call_sequence = sequence, io_tgid = cn_tgid identity,
             io_pid = cn_pid identity, io_start_ticks = cn_start_ticks identity\<rparr>) r)
      | _ \<Rightarrow> (s, Inl 0))"

definition try_plaintext_write_enter :: "probe_env \<Rightarrow> probe_state \<Rightarrow> u64 \<Rightarrow> unit probe_call" where
  "try_plaintext_write_enter E s file_offset =
     (case enter_call E s file_offset of
        (s1, Inl e) \<Rightarrow> (s1, Inl e)
      | (s1, Inr io) \<Rightarrow>
          (s1\<lparr>pb_inflight_writes := bpf_insert MAX_CONNECTIONS (pb_inflight_writes s1) (pe_pid_tgid E) io\<rparr>,
           Inr ()))"

definition try_plaintext_write_return :: "probe_env \<Rightarrow> probe_state \<Rightarrow> unit probe_call" where
  "try_plaintext_write_return E s =
     (case map_get (pb_inflight_writes s) (pe_pid_tgid E) of
        None \<Rightarrow> (s, Inr ())
      | Some io \<Rightarrow>
          let raw_tag = unwrap_or (pe_ret E) 0; raw_len = pe_rdx E;
              actual_len = (if raw_tag = 0 then min (unat raw_len) (unat (io_requested_len io)) else 0) in
          (case emit_record_from_user_ptr E s PlaintextWrite WriteDirection
                  (connection_identity_from_inflight s io) (io_file_offset io) 0 (ucast raw_tag) raw_len
                  (io_buf_ptr io) (min actual_len MAX_CAPTURE_BYTES) of
             (s1, Inl e) \<Rightarrow> (s1, Inl e)
           | (s1, Inr _) \<Rightarrow>
               (s1\<lparr>pb_inflight_writes := map_del (pb_inflight_writes s1) (pe_pid_tgid E)\<rparr>, Inr ())))"

definition try_plaintext_read_enter :: "probe_env \<Rightarrow> probe_state \<Rightarrow> u64 \<Rightarrow> unit probe_call" where
  "try_plaintext_read_enter E s file_offset =
     (case enter_call E s file_offset of
        (s1, Inl e) \<Rightarrow> (s1, Inl e)
      | (s1, Inr io) \<Rightarrow>
          (s1\<lparr>pb_inflight_reads := bpf_insert MAX_CONNECTIONS (pb_inflight_reads s1) (pe_pid_tgid E) io\<rparr>,
           Inr ()))"

definition try_plaintext_read_return :: "probe_env \<Rightarrow> probe_state \<Rightarrow> unit probe_call" where
  "try_plaintext_read_return E s =
     (case map_get (pb_inflight_reads s) (pe_pid_tgid E) of
        None \<Rightarrow> (s, Inr ())
      | Some io \<Rightarrow>
          (case emit_record E s PlaintextRead ReadDirection (connection_identity_from_inflight s io)
                  (io_file_offset io) 0 (ucast (unwrap_or (pe_ret E) 0)) (pe_rdx E) [] of
             (s1, Inl e) \<Rightarrow> (s1, Inl e)
           | (s1, Inr _) \<Rightarrow>
               (s1\<lparr>pb_inflight_reads := map_del (pb_inflight_reads s1) (pe_pid_tgid E)\<rparr>, Inr ())))"

text \<open>The programs with the offsets they are attached at.\<close>

datatype probe_program =
    RunProcessExec | RunProcessExit | RunTcpState
  | WriteEnter | WriteReturn | WriteEnterAlt | WriteReturnAlt | ReadEnter | ReadReturn

definition run_probe :: "probe_program \<Rightarrow> probe_env \<Rightarrow> probe_state \<Rightarrow> probe_state" where
  "run_probe p E s = fst
     (case p of
        RunProcessExec \<Rightarrow> try_process_exec E s
      | RunProcessExit \<Rightarrow> try_process_exit E s
      | RunTcpState \<Rightarrow> try_tcp_state E s
      | WriteEnter \<Rightarrow> try_plaintext_write_enter E s 0x27f34b0
      | WriteReturn \<Rightarrow> try_plaintext_write_return E s
      | WriteEnterAlt \<Rightarrow> try_plaintext_write_enter E s 0x27f3560
      | WriteReturnAlt \<Rightarrow> try_plaintext_write_return E s
      | ReadEnter \<Rightarrow> try_plaintext_read_enter E s 0x0b506f60
      | ReadReturn \<Rightarrow> try_plaintext_read_return E s)"

section \<open>What a program leaves alone\<close>

lemma output_record_frame [simp]:
  "pb_boot_id (fst (output_record E s h payload)) = pb_boot_id s"
  "pb_process_start (fst (output_record E s h payload)) = pb_process_start s"
  "pb_connection_epoch (fst (output_record E s h payload)) = pb_connection_epoch s"
  "pb_connection_sequence (fst (output_record E s h payload)) = pb_connection_sequence s"
  "pb_inflight_writes (fst (output_record E s h payload)) = pb_inflight_writes s"
  "pb_inflight_reads (fst (output_record E s h payload)) = pb_inflight_reads s"
  by (simp_all add: output_record_def Let_def split: sum.splits)

lemma emit_record_frame [simp]:
  "pb_boot_id (fst (emit_record E s kind d identity fo off a b payload)) = pb_boot_id s"
  "pb_process_start (fst (emit_record E s kind d identity fo off a b payload)) = pb_process_start s"
  "pb_connection_epoch (fst (emit_record E s kind d identity fo off a b payload)) = pb_connection_epoch s"
  "pb_connection_sequence (fst (emit_record E s kind d identity fo off a b payload)) = pb_connection_sequence s"
  "pb_inflight_writes (fst (emit_record E s kind d identity fo off a b payload)) = pb_inflight_writes s"
  "pb_inflight_reads (fst (emit_record E s kind d identity fo off a b payload)) = pb_inflight_reads s"
  by (simp_all add: emit_record_def)

lemma emit_user_frame [simp]:
  "pb_boot_id (fst (emit_record_from_user_ptr E s kind d identity fo off a b q n)) = pb_boot_id s"
  "pb_process_start (fst (emit_record_from_user_ptr E s kind d identity fo off a b q n)) = pb_process_start s"
  "pb_connection_epoch (fst (emit_record_from_user_ptr E s kind d identity fo off a b q n)) = pb_connection_epoch s"
  "pb_connection_sequence (fst (emit_record_from_user_ptr E s kind d identity fo off a b q n)) = pb_connection_sequence s"
  "pb_inflight_writes (fst (emit_record_from_user_ptr E s kind d identity fo off a b q n)) = pb_inflight_writes s"
  "pb_inflight_reads (fst (emit_record_from_user_ptr E s kind d identity fo off a b q n)) = pb_inflight_reads s"
  by (simp_all add: emit_record_from_user_ptr_def Let_def)

lemma lookup_frame [simp]:
  "pb_boot_id (fst (connection_epoch s ptr)) = pb_boot_id s"
  "pb_inflight_writes (fst (connection_epoch s ptr)) = pb_inflight_writes s"
  "pb_inflight_reads (fst (connection_epoch s ptr)) = pb_inflight_reads s"
  "pb_connection_sequence (fst (connection_epoch s ptr)) = pb_connection_sequence s"
  "pb_boot_id (fst (next_sequence s ptr)) = pb_boot_id s"
  "pb_inflight_writes (fst (next_sequence s ptr)) = pb_inflight_writes s"
  "pb_inflight_reads (fst (next_sequence s ptr)) = pb_inflight_reads s"
  by (simp_all add: connection_epoch_def next_sequence_def split: option.splits)

lemma enter_call_frame [simp]:
  "pb_boot_id (fst (enter_call E s fo)) = pb_boot_id s"
  "pb_inflight_writes (fst (enter_call E s fo)) = pb_inflight_writes s"
  "pb_inflight_reads (fst (enter_call E s fo)) = pb_inflight_reads s"
  by (simp_all add: enter_call_def case_prod_unfold Let_def split: option.splits)

lemma map_get_bpf_insert: "q \<noteq> k \<Longrightarrow> map_get (bpf_insert n m k v) q = map_get m q"
  by (simp add: bpf_insert_def)

text \<open>A call of another thread keeps the write this thread has begun.\<close>

lemma other_thread_keeps_write:
  assumes "pe_pid_tgid E \<noteq> thread"
  shows "map_get (pb_inflight_writes (run_probe p E s)) thread = map_get (pb_inflight_writes s) thread"
    and "pb_boot_id (run_probe p E s) = pb_boot_id s"
proof -
  let ?same = "\<lambda>t. map_get (pb_inflight_writes t) thread = map_get (pb_inflight_writes s) thread
    \<and> pb_boot_id t = pb_boot_id s"
  have enter: "?same (fst (try_plaintext_write_enter E s fo))" for fo
    using assms by (simp add: try_plaintext_write_enter_def map_get_bpf_insert case_prod_unfold split: sum.splits)
  have leave: "?same (fst (try_plaintext_write_return E s))"
    using assms by (simp add: try_plaintext_write_return_def case_prod_unfold Let_def split: sum.splits option.splits)
  have rest: "?same (fst (try_process_exec E s))" "?same (fst (try_process_exit E s))" "?same (fst (try_tcp_state E s))"
    by (simp_all add: try_process_exec_def try_process_exit_def try_tcp_state_def Let_def split: sum.splits option.splits)
  have read: "?same (fst (try_plaintext_read_enter E s fo))" "?same (fst (try_plaintext_read_return E s))" for fo
    by (simp_all add: try_plaintext_read_enter_def try_plaintext_read_return_def case_prod_unfold
        split: sum.splits option.splits)
  show "map_get (pb_inflight_writes (run_probe p E s)) thread = map_get (pb_inflight_writes s) thread"
    and "pb_boot_id (run_probe p E s) = pb_boot_id s"
    using enter leave rest read by (cases p; simp add: run_probe_def)+
qed

fun run_probes :: "(probe_program \<times> probe_env) list \<Rightarrow> probe_state \<Rightarrow> probe_state" where
  "run_probes [] s = s"
| "run_probes ((p, E) # calls) s = run_probes calls (run_probe p E s)"

lemma other_threads_keep_write:
  assumes "\<forall>(p, E) \<in> set calls. pe_pid_tgid E \<noteq> thread"
  shows "map_get (pb_inflight_writes (run_probes calls s)) thread = map_get (pb_inflight_writes s) thread
    \<and> pb_boot_id (run_probes calls s) = pb_boot_id s"
  using assms by (induction calls s rule: run_probes.induct) (auto simp: other_thread_keeps_write)

section \<open>A write\<close>

text \<open>What the entry program keeps of a write.\<close>

lemma write_enter_inflight:
  assumes "try_plaintext_write_enter E s fo = (s1, Inr ())" and "pe_arg E 0 = Some ptr" and "pe_arg E 1 = Some buf"
    and "pe_arg E 2 = Some len" and "length (pb_inflight_writes s) < MAX_CONNECTIONS"
  shows "\<exists>io. map_get (pb_inflight_writes s1) (pe_pid_tgid E) = Some io \<and> io_connection_ptr io = ptr
    \<and> io_buf_ptr io = buf \<and> io_requested_len io = word_of_nat (min (unat len) (2 ^ 32 - 1))
    \<and> io_file_offset io = fo \<and> io_tgid io = tgid_of (pe_pid_tgid E) \<and> io_pid io = pid_of (pe_pid_tgid E)
    \<and> io_call_sequence io = saturating_succ (unwrap_or (map_get (pb_connection_sequence s) ptr) 0)"
proof -
  from assms(1) obtain t io where e: "enter_call E s fo = (t, Inr io)"
    and s1: "s1 = t\<lparr>pb_inflight_writes := bpf_insert MAX_CONNECTIONS (pb_inflight_writes t) (pe_pid_tgid E) io\<rparr>"
    by (auto simp: try_plaintext_write_enter_def split: prod.splits sum.splits)
  have "pb_inflight_writes t = pb_inflight_writes s" using enter_call_frame(2) [of E s fo] e by simp
  with assms(5) have "map_get (pb_inflight_writes s1) (pe_pid_tgid E) = Some io"
    by (simp add: s1 bpf_insert_def)
  moreover have "snd (next_sequence (fst (connection_epoch s ptr)) ptr)
      = saturating_succ (unwrap_or (map_get (pb_connection_sequence s) ptr) 0)"
    by (simp add: next_sequence_def saturating_succ_def split: option.splits)
  ultimately show ?thesis
    using e assms(2-4)
    by (auto simp: enter_call_def case_prod_unfold Let_def mapr_eq_Inr current_identity_def)
qed

lemma unat_word_32: "n < 2 ^ 32 \<Longrightarrow> unat (word_of_nat n :: u32) = n"
  by (simp add: unat_of_nat)

section \<open>Properties\<close>


definition sample_state :: probe_state where
  "sample_state = \<lparr>pb_boot_id = replicate 16 7, pb_process_start = [], pb_connection_epoch = [],
     pb_connection_sequence = [(4096, 4)], pb_inflight_writes = [], pb_inflight_reads = [],
     pb_scratch = (\<lambda>_. replicate 256 0), pb_events = []\<rparr>"

definition sample_env :: "u64 \<Rightarrow> probe_env" where
  "sample_env thread = \<lparr>pe_pid_tgid = thread, pe_ktime = 9, pe_cpu = 0,
     pe_arg = (\<lambda>i. if i = 0 then Some 4096 else if i = 1 then Some 8192 else Some 5),
     pe_comm = Inr (replicate 16 0), pe_ret = Some 0, pe_rdx = 3, pe_user = (\<lambda>q n. replicate n 65),
     pe_ring = Inr ()\<rparr>"

definition sample_entered :: probe_state where
  "sample_entered = fst (try_plaintext_write_enter (sample_env 7) sample_state 16)"

definition sample_written :: probe_state where
  "sample_written = fst (try_plaintext_write_return (sample_env 7)
     (run_probes [(WriteEnter, sample_env 8), (WriteReturn, sample_env 8)] sample_entered))"


text \<open>
  The epoch of a connection is always 1 and no record ever ends a connection: when the memory of a
  closed connection is used for the next one, its records carry the identity of the old one and go on
  with its call numbers.
\<close>

lemma epochs_stay_one:
  assumes "list_all (\<lambda>(k, v). v = 1) (pb_connection_epoch s)"
  shows "list_all (\<lambda>(k, v). v = 1) (pb_connection_epoch (run_probe p E s))"
proof -
  have put: "list_all (\<lambda>(k, v). v = 1) (map_put m k 1)" if "list_all (\<lambda>(k, v). v = (1 :: u64)) m" for m :: "(u64 \<times> u64) list" and k
    using that set_map_put [of m k 1] by (auto simp: list_all_iff)
  have epoch: "list_all (\<lambda>(k, v). v = 1) (pb_connection_epoch (fst (connection_epoch s ptr)))" for ptr
    using assms put by (simp add: connection_epoch_def bpf_insert_def split: option.splits)
  have seq: "pb_connection_epoch (fst (next_sequence t ptr)) = pb_connection_epoch t" for t ptr
    by (simp add: next_sequence_def split: option.splits)
  have enter: "list_all (\<lambda>(k, v). v = 1) (pb_connection_epoch (fst (enter_call E s fo)))" for fo
    using assms epoch by (simp add: enter_call_def case_prod_unfold Let_def seq split: option.splits)
  show ?thesis
    using assms enter
    by (cases p) (simp_all add: run_probe_def try_process_exec_def try_process_exit_def try_tcp_state_def
        try_plaintext_write_enter_def try_plaintext_write_return_def try_plaintext_read_enter_def
        try_plaintext_read_return_def case_prod_unfold Let_def split: sum.splits option.splits)
qed

lemma no_connection_drop:
  assumes "\<forall>e \<in> set (pb_events s). rh_kind (fst e) \<noteq> ConnectionDrop"
  shows "\<forall>e \<in> set (pb_events (run_probe p E s)). rh_kind (fst e) \<noteq> ConnectionDrop"
proof -
  define ok where "ok t \<longleftrightarrow> (\<forall>e \<in> set (pb_events t). rh_kind (fst e) \<noteq> ConnectionDrop)" for t :: probe_state
  have upd: "ok (t\<lparr>pb_process_start := m\<rparr>) = ok t" "ok (t\<lparr>pb_inflight_writes := w\<rparr>) = ok t"
    "ok (t\<lparr>pb_inflight_reads := w\<rparr>) = ok t" for t :: probe_state and m w by (simp_all add: ok_def)
  have s: "ok s" using assms by (simp add: ok_def)
  have out: "ok (fst (output_record E t h payload))" if "ok t" and "rh_kind h \<noteq> ConnectionDrop" for t h payload
    using that by (auto simp: ok_def output_record_def Let_def split: sum.splits)
  have emit: "ok (fst (emit_record E t k d i fo off a b payload))" if "ok t" and "k \<noteq> ConnectionDrop"
    for t k d i fo off a b payload
    unfolding emit_record_def by (rule out [OF that(1)]) (use that(2) in \<open>simp add: probe_header_def\<close>)
  have user: "ok (fst (emit_record_from_user_ptr E t k d i fo off a b q n))" if "ok t" and "k \<noteq> ConnectionDrop"
    for t k d i fo off a b q n
    unfolding emit_record_from_user_ptr_def Let_def
    by (rule out [OF that(1)]) (use that(2) in \<open>simp add: probe_header_def\<close>)
  have look: "ok (fst (connection_epoch s ptr)) = ok s" "ok (fst (next_sequence t ptr)) = ok t" for t ptr
    by (simp_all add: ok_def connection_epoch_def next_sequence_def split: option.splits)
  have enter: "ok (fst (enter_call E s fo))" for fo
    using s emit by (simp add: enter_call_def case_prod_unfold Let_def look split: option.splits)
  have "ok (run_probe p E s)"
    using s enter emit user
    by (cases p) (simp_all add: run_probe_def try_process_exec_def try_process_exit_def try_tcp_state_def
        try_plaintext_write_enter_def try_plaintext_write_return_def try_plaintext_read_enter_def
        try_plaintext_read_return_def upd case_prod_unfold Let_def split: sum.splits option.splits)
  then show ?thesis by (simp add: ok_def)
qed

end
