(* ===== verification/Spec2Isabelle.thy ===== *)
theory Spec2Isabelle
  imports Protocol_Codec Capture_Tcp Capture_WebSocket Capture_H2 Client_Replay Client_Lifecycle Client_Tap
    Client_Titles Client_Daemon Server_Retrieval Server_Polling Server_Reading Server_Router
    Ebpf_Probe
begin

text \<open>
  A verification library for CodexWatch, which observes the network traffic of a coding agent,
  reduces it to task events, uploads them to a server and answers content requests.

  \<^bold>\<open>The program.\<close> A client runs beside the agent. It captures TCP segments from a packet socket
  (\<open>crates/capture/src/af_packet.rs\<close>) and records of kernel probes (\<open>crates/capture-ebpf\<close>,
  \<open>crates/profile\<close>), attributes them to processes it finds in \<open>/proc\<close>, reassembles streams, cuts them into
  HTTP/1, HTTP/2 and WebSocket messages, decodes the exchanges of the Responses API and projects them to
  records of sessions, tasks, attempts and gaps (\<open>crates/client/src/capture_lane.rs\<close>). It keeps the records,
  the raw contents and an outbox in a database (\<open>store.rs\<close>, \<open>blob.rs\<close>), and a service of several loops
  delivers the outbox, polls for commands and uploads contents (\<open>service.rs\<close>, \<open>transport.rs\<close>). The server
  (\<open>crates/server/src/lib.rs\<close>) ingests batches of the wire contract (\<open>crates/protocol\<close>), keeps them in tables,
  answers queries by token role, and collects the contents an administrator asks for. The notifier
  (\<open>crates/notifier/src/main.rs\<close>) polls the server and announces tasks that ended or went wrong.

  \<^bold>\<open>Theories, in the order of their dependencies.\<close>
    \<^item> \<open>Prelude\<close>, \<open>Collections\<close>, \<open>Rust_Text\<close>, \<open>Sql_Rows\<close>: results as sums, options, strings of the
      source's library, maps as lists of entries, and tables as lists of rows in the order of their row ids.
    \<^item> \<open>Protocol_Types\<close> (\<open>types.rs\<close>), \<open>Protocol_Validation\<close> (\<open>validation.rs\<close>), \<open>Protocol_State\<close>
      (\<open>state.rs\<close>), \<open>Protocol_Codec\<close> (\<open>codec.rs\<close>). Validation accepts exactly a declarative contract; the task
      reducer refines an abstract task machine, keeps its snapshot valid and never leaves a terminal one; a
      batch survives encoding and decoding.
    \<^item> \<open>Capture_Stream\<close>: the locales of incremental decoders (\<open>frame_source\<close>: progress and stability of
      one step; \<open>chunked_push\<close>: the cut of the input does not matter), interpreted for \<open>Capture_Sse\<close>,
      \<open>Capture_WebSocket\<close>, \<open>Capture_H2\<close> and the requests of \<open>Client_Framing\<close>. \<open>Capture_Tcp\<close> delivers a prefix of
      the stream whatever the order and overlap of the segments. \<open>Capture_Http1\<close>, \<open>Capture_Json\<close>,
      \<open>Capture_Responses\<close> decode messages, turn metadata and events. \<open>Capture_Flows\<close> models frames, the tables of
      \<open>/proc\<close> and the attribution of segments.
    \<^item> \<open>Client_Model\<close>, \<open>Client_Projection\<close>, \<open>Client_Wire\<close>: the client's records, the projection of an
      exchange, a gap or a process exit, and the mapping to the wire contract.
    \<^item> \<open>Client_Blob\<close>, \<open>Client_Store\<close>, \<open>Client_Store_Facts\<close>, \<open>Client_Replay\<close>: contents, tables and
      operations of the store, what every run of them keeps, and the locale \<open>exchange_store\<close> by which the
      projection relies on the store, interpreted on the model of the store.
    \<^item> \<open>Client_Framing\<close>, \<open>Client_Lane\<close>, \<open>Client_Lane_Facts\<close>, \<open>Client_Lifecycle\<close>: the live lane, its flows
      and what becomes of requests and of tasks whose process ends.
    \<^item> \<open>Client_Discovery\<close>, \<open>Client_Tap\<close>, \<open>Client_Titles\<close>, \<open>Client_Config\<close>: the scan of \<open>/proc\<close> with its index,
      the packet source with its waiting segments, the title index and the configuration.
    \<^item> \<open>Build_Profile\<close>, \<open>Ebpf_Loader\<close>, \<open>Ebpf_Probe\<close>, \<open>Client_Ebpf\<close>: probe profiles, the loader, the programs
      in the kernel, and the client's loop over the loader.
    \<^item> \<open>Server_Tables\<close>, \<open>Server_Ingest\<close>, \<open>Server_Content\<close>, \<open>Server_Upload\<close>, \<open>Server_Query\<close>: tables, tokens and
      handlers; \<open>Server_Facts\<close>, \<open>Server_Safety\<close>, \<open>Server_Polling\<close>, \<open>Server_Retrieval\<close>: what holds in every
      interleaving of them (\<open>server_step\<close>); \<open>Server_Reading\<close>: what a stored batch shows to a reader.
    \<^item> \<open>Client_Service\<close>, \<open>Client_Delivery\<close>: the operations of the client's service, and runs of a client and its
      server with lost requests and answers (\<open>link_step\<close>). \<open>Client_Daemon\<close>: the loops of the daemon
      (\<open>daemon_step\<close>), how they and the server interleave while a batch is on the way (\<open>net_step\<close>), what
      a failed delivery does, and the command line. \<open>Notifier\<close>, \<open>Server_Router\<close>: the notifier, the router, and
      how requests of the client and the notifier meet the routes.

  \<^bold>\<open>How code becomes definitions.\<close> Structures are records, enums datatypes, \<open>Result\<close> a sum with the error
  left, \<open>u8\<close> to \<open>u64\<close> words, \<open>i32\<close>, \<open>i64\<close> and times integers, byte vectors lists of 8-bit words, and a
  \<open>String\<close> the list of its UTF-8 bytes as characters. A method is a function of the state that returns it
  updated. A slice out of range and an overflow of \<open>usize\<close> are panic values. A database transaction is one
  step that either takes effect or leaves the tables; it fails only by a violated constraint; ties of an
  \<open>ORDER BY\<close> are broken by row id. The files of the blob store are a map. Identifiers drawn, clock reads, what
  \<open>/proc\<close>, sockets, kernel helpers and HTTP give, and the order of a hash map are arguments.

  \<^bold>\<open>Parameters.\<close> Third-party code is an argument with its documented behaviour as a named hypothesis: CBOR,
  zstd and SHA-256 (\<open>wire_lib\<close>, \<open>blob_lib\<close>, \<open>server_lib\<close>, with \<open>wire_lib_ok\<close> and \<open>sha_ok\<close>), httparse, content
  codings and JSON (\<open>Capture_Http1\<close>, \<open>Capture_Responses\<close>), HPACK (\<open>Capture_H2\<close>), etherparse (\<open>packet_lib\<close>),
  the aya crate (\<open>Ebpf_Loader\<close>), TOML, the time formatter and the chat program.

  \<^bold>\<open>Bounds and fuel.\<close> Every function of the model is total: loops recurse on data or on a measure
  that each turn lowers; the polling loop of the server runs on the seconds it may wait, at most 30. Where a
  decoder may stop early, its claim states that it consumed what was complete. Bounds of the code (64 records
  or 1 MiB to a batch, 2 MiB decompressed, 1 GiB outbox, 4096 waiting segments, 30 conversations) are constants
  with their values.

  \<^bold>\<open>What the lemmas show.\<close> From capture to query: requests are recovered from segments however they
  are cut (\<open>Client_Lane_Facts\<close>), an exchange ends a turn only on evidence (\<open>Client_Projection\<close>), an exit ends
  its tasks (\<open>Client_Lifecycle\<close>), the outbox stays bounded and decodable (\<open>Client_Store_Facts\<close>), a queued batch
  is never lost on the way and a failed delivery is only put off (\<open>Client_Daemon\<close>), a flush that arrives
  delivers (\<open>Client_Delivery\<close>), a batch is stored once
  (\<open>Server_Safety\<close>) and can be read then (\<open>Server_Reading\<close>), a reader sees only its client (\<open>Server_Safety\<close>), a content command is complete only after
  the upload was accepted (\<open>Client_Service\<close>) and the bytes of a blob arrive whole (\<open>Server_Retrieval\<close>). Lemmas that
  exhibit a defect carry its name, such as \<open>wraparound_is_a_conflict\<close> or \<open>full_chunk_over_limit\<close>.

  \<^bold>\<open>Not modelled.\<close> Opening and migrating database files, TLS and sockets, spawning tasks, logging, the
  parsing of command lines, inotify, and the derived readers and writers of JSON, TOML and CBOR: these are I/O
  or library calls without logic of the program. The loops of the client interleave
  between the operations of the store, whose transactions serialise them, and while a batch is on the way; one
  execution of a content command is one step, and the ticks and sleeps between turns are left out. Shared-index lookups between
  two locks are separate draws.
\<close>

end
